(* ===== verification/Prelude.thy ===== *)
theory Prelude
  imports Main "HOL-Library.Word"
begin

unbundle bit_operations_syntax

section \<open>Shared types, byte-order helpers and generic lemmas\<close>

text \<open>
  What every component uses: the fixed-width integer types of \<^verbatim>\<open>utils/common.h\<close>, the
  conversion of a C value to a signed 32-bit \<^verbatim>\<open>int\<close>/\<^verbatim>\<open>long\<close> (the target is the 32-bit ARM
  of the Raspberry Pi), the big- and little-endian accessors of \<^verbatim>\<open>utils/common.h\<close>, checked
  reads of a byte buffer, and the locales of contracts that more than one component satisfies:
  \<open>machine\<close> (an invariant kept by every step is kept by every run) and \<open>tlv_codec\<close>
  (a self-delimiting item encoding gives a decoder of item sequences).
\<close>

type_synonym u8 = "8 word"
type_synonym u16 = "16 word"
type_synonym u32 = "32 word"

named_theorems codec_simps \<open>facts on encoders and decoders of byte strings\<close>
named_theorems frame_simps \<open>which state fields an operation leaves alone\<close>

subsection \<open>C integers\<close>

text \<open>\<open>s32 x\<close> is the value of \<open>x\<close> stored in a signed 32-bit variable.\<close>

definition s32 :: "int \<Rightarrow> int" where
  "s32 x = (x + 2147483648) mod 4294967296 - 2147483648"

text \<open>\<open>szadd a b\<close> is \<open>a + b\<close> computed in a 32-bit \<^verbatim>\<open>size_t\<close>.\<close>

definition szadd :: "nat \<Rightarrow> nat \<Rightarrow> nat" where
  "szadd a b = (a + b) mod 4294967296"

lemma s32_id: "- 2147483648 \<le> x \<Longrightarrow> x < 2147483648 \<Longrightarrow> s32 x = x"
  by (simp add: s32_def)

lemma s32_range: "- 2147483648 \<le> s32 x \<and> s32 x < 2147483648"
proof -
  have "0 \<le> (x + 2147483648) mod 4294967296" "(x + 2147483648) mod 4294967296 < 4294967296"
    by simp_all
  then show ?thesis by (simp add: s32_def)
qed

lemma szadd_id: "a + b < 4294967296 \<Longrightarrow> szadd a b = a + b"
  by (simp add: szadd_def)

subsection \<open>Byte order (\<^verbatim>\<open>WPA_GET_*\<close> and \<^verbatim>\<open>WPA_PUT_*\<close>)\<close>

definition WPA_GET_BE16 :: "u8 list \<Rightarrow> u16" where
  "WPA_GET_BE16 a = (push_bit 8 (ucast (a ! 0))) OR ucast (a ! 1)"

definition WPA_PUT_BE16 :: "u16 \<Rightarrow> u8 list" where
  "WPA_PUT_BE16 v = [ucast (drop_bit 8 v), ucast (v AND 0xff)]"

definition WPA_GET_LE16 :: "u8 list \<Rightarrow> u16" where
  "WPA_GET_LE16 a = (push_bit 8 (ucast (a ! 1))) OR ucast (a ! 0)"

definition WPA_PUT_LE16 :: "u16 \<Rightarrow> u8 list" where
  "WPA_PUT_LE16 v = [ucast (v AND 0xff), ucast (drop_bit 8 v)]"

definition WPA_GET_BE24 :: "u8 list \<Rightarrow> u32" where
  "WPA_GET_BE24 a = push_bit 16 (ucast (a ! 0)) OR push_bit 8 (ucast (a ! 1)) OR ucast (a ! 2)"

definition WPA_PUT_BE24 :: "u32 \<Rightarrow> u8 list" where
  "WPA_PUT_BE24 v = [ucast (drop_bit 16 v AND 0xff), ucast (drop_bit 8 v AND 0xff), ucast (v AND 0xff)]"

definition WPA_GET_BE32 :: "u8 list \<Rightarrow> u32" where
  "WPA_GET_BE32 a = push_bit 24 (ucast (a ! 0)) OR push_bit 16 (ucast (a ! 1)) OR
     push_bit 8 (ucast (a ! 2)) OR ucast (a ! 3)"

definition WPA_PUT_BE32 :: "u32 \<Rightarrow> u8 list" where
  "WPA_PUT_BE32 v = [ucast (drop_bit 24 v AND 0xff), ucast (drop_bit 16 v AND 0xff),
     ucast (drop_bit 8 v AND 0xff), ucast (v AND 0xff)]"

definition WPA_GET_LE32 :: "u8 list \<Rightarrow> u32" where
  "WPA_GET_LE32 a = push_bit 24 (ucast (a ! 3)) OR push_bit 16 (ucast (a ! 2)) OR
     push_bit 8 (ucast (a ! 1)) OR ucast (a ! 0)"

definition WPA_PUT_LE32 :: "u32 \<Rightarrow> u8 list" where
  "WPA_PUT_LE32 v = [ucast (v AND 0xff), ucast (drop_bit 8 v AND 0xff),
     ucast (drop_bit 16 v AND 0xff), ucast (drop_bit 24 v AND 0xff)]"

lemma length_put [simp]:
  "length (WPA_PUT_BE16 v) = 2" "length (WPA_PUT_LE16 v) = 2" "length (WPA_PUT_BE24 w) = 3"
  "length (WPA_PUT_BE32 w) = 4" "length (WPA_PUT_LE32 w) = 4"
  by (simp_all add: WPA_PUT_BE16_def WPA_PUT_LE16_def WPA_PUT_BE24_def WPA_PUT_BE32_def WPA_PUT_LE32_def)

lemma byte_mask: "(0xff :: 'a::len word) = mask 8"
  by (simp add: mask_eq_exp_minus_1)

lemma byte_cases:
  assumes "(n::nat) < 32" and "n < 8 \<Longrightarrow> P" and "8 \<le> n \<Longrightarrow> n < 16 \<Longrightarrow> P"
    and "16 \<le> n \<Longrightarrow> n < 24 \<Longrightarrow> P" and "24 \<le> n \<Longrightarrow> n < 32 \<Longrightarrow> P"
  shows P
  using assms by (meson not_le)

lemma get_put_BE16 [codec_simps]: "WPA_GET_BE16 (WPA_PUT_BE16 v @ r) = v"
  unfolding WPA_GET_BE16_def WPA_PUT_BE16_def
  by (rule bit_word_eqI) (auto simp: byte_mask bit_simps)

lemma get_put_LE16 [codec_simps]: "WPA_GET_LE16 (WPA_PUT_LE16 v @ r) = v"
  unfolding WPA_GET_LE16_def WPA_PUT_LE16_def
  by (rule bit_word_eqI) (auto simp: byte_mask bit_simps)

lemma get_put_BE32 [codec_simps]: "WPA_GET_BE32 (WPA_PUT_BE32 v @ r) = v"
proof (rule bit_word_eqI)
  fix n assume "n < LENGTH(32)"
  then have "n < 32" by simp
  then show "bit (WPA_GET_BE32 (WPA_PUT_BE32 v @ r)) n = bit v n"
    unfolding WPA_GET_BE32_def WPA_PUT_BE32_def
    by (rule byte_cases) (simp_all add: byte_mask bit_simps, auto)
qed

lemma get_put_LE32 [codec_simps]: "WPA_GET_LE32 (WPA_PUT_LE32 v @ r) = v"
proof (rule bit_word_eqI)
  fix n assume "n < LENGTH(32)"
  then have "n < 32" by simp
  then show "bit (WPA_GET_LE32 (WPA_PUT_LE32 v @ r)) n = bit v n"
    unfolding WPA_GET_LE32_def WPA_PUT_LE32_def
    by (rule byte_cases) (simp_all add: byte_mask bit_simps, auto)
qed

subsection \<open>Text\<close>

text \<open>The bytes of a string literal of the C source.\<close>

definition ascii :: "string \<Rightarrow> u8 list" where
  "ascii s = map of_char s"

lemma ascii_append: "ascii (a @ b) = ascii a @ ascii b"
  by (simp add: ascii_def)

subsection \<open>Checked reads\<close>

text \<open>
  A read of a byte, or of \<open>n\<close> bytes, of the memory \<open>buf\<close> at offset \<open>i\<close>; there is no value outside it.
\<close>

definition rd :: "u8 list \<Rightarrow> nat \<Rightarrow> u8 option" where
  "rd buf i = (if i < length buf then Some (buf ! i) else None)"

definition rd_n :: "u8 list \<Rightarrow> nat \<Rightarrow> nat \<Rightarrow> u8 list option" where
  "rd_n buf i n = (if i + n \<le> length buf then Some (take n (drop i buf)) else None)"

lemma rd_at [simp]: "rd (a @ b # c) (length a) = Some b"
  by (simp add: rd_def)

lemma rd_n_at: "length b = n \<Longrightarrow> rd_n (a @ b @ c) (length a) n = Some b"
  by (simp add: rd_n_def)

lemma rd_drop: "drop i buf = b # c \<Longrightarrow> rd buf i = Some b"
  by (metis append_take_drop_id drop_eq_Nil length_take list.distinct(1) linorder_le_cases min.absorb4
      min_def rd_at)

lemma rd_n_drop: "drop i buf = b @ c \<Longrightarrow> b \<noteq> [] \<Longrightarrow> rd_n buf i (length b) = Some b"
  unfolding rd_n_def
  by (metis Nil_is_append_conv add_leD1 append_eq_conv_conj drop_eq_Nil2 le_add_diff_inverse length_append length_drop
      nat_add_left_cancel_le nle_le le_add1)

subsection \<open>Contract: a machine with an invariant\<close>

text \<open>
  A component that reacts to events is a step function; a property that holds at the start and
  that every step keeps holds after any run.
\<close>

locale machine =
  fixes step :: "'e \<Rightarrow> 's \<Rightarrow> 's"
    and inv :: "'s \<Rightarrow> bool"
  assumes step_inv: "inv s \<Longrightarrow> inv (step e s)"
begin

lemma run_inv: "inv s \<Longrightarrow> inv (fold step es s)"
  by (induction es arbitrary: s) (auto intro: step_inv)

end

subsection \<open>Contract: a self-delimiting item encoding\<close>

text \<open>
  \<open>emit i\<close> writes an item that satisfies \<open>ok\<close>; \<open>next_item\<close> reads one item off the front of a
  byte string and gives the rest. Then the decoder that repeats \<open>next_item\<close> until the string is
  empty inverts the concatenation of the encodings. The information elements of 802.11, the
  attributes of RADIUS and the attributes of WPS are such encodings.
\<close>

locale tlv_codec =
  fixes emit :: "'i \<Rightarrow> u8 list"
    and next_item :: "u8 list \<Rightarrow> ('i \<times> u8 list) option"
    and ok :: "'i \<Rightarrow> bool"
  assumes next_emit: "ok i \<Longrightarrow> next_item (emit i @ r) = Some (i, r)"
    and emit_nonempty: "ok i \<Longrightarrow> emit i \<noteq> []"
    and next_shrinks: "next_item b = Some (i, r) \<Longrightarrow> length r < length b"
begin

fun decode_all :: "nat \<Rightarrow> u8 list \<Rightarrow> 'i list option" where
  "decode_all fuel [] = Some []"
| "decode_all 0 b = None"
| "decode_all (Suc fuel) b =
     (case next_item b of None \<Rightarrow> None
      | Some (i, r) \<Rightarrow> map_option (Cons i) (decode_all fuel r))"

lemma decode_all_emit:
  "list_all ok is \<Longrightarrow> length is \<le> fuel \<Longrightarrow> decode_all fuel (concat (map emit is)) = Some is"
proof (induction "is" arbitrary: fuel)
  case Nil
  then show ?case by simp
next
  case (Cons i "is")
  then obtain f where f: "fuel = Suc f" by (cases fuel) auto
  with Cons.prems have "decode_all f (concat (map emit is)) = Some is"
    by (intro Cons.IH) auto
  moreover have "emit i @ concat (map emit is) \<noteq> []" using Cons.prems emit_nonempty by auto
  ultimately show ?case
    using Cons.prems f next_emit [of i "concat (map emit is)"]
    by (cases "emit i @ concat (map emit is)") auto
qed

end

end
