(* ===== verification/Base64.thy ===== *)
theory Base64
  imports Prelude
begin

unbundle bit_operations_syntax

section \<open>Base64 (\<^verbatim>\<open>src/utils/base64.c\<close>)\<close>

text \<open>
  Encoder and decoder as the code writes them: the encoder with its line feeds after 72 characters
  and the size it computes for its buffer in a 32-bit \<^verbatim>\<open>size_t\<close>, the decoder with its table and its
  arrays \<^verbatim>\<open>in\<close> and \<^verbatim>\<open>block\<close>. \<open>mem\<close> says whether \<^verbatim>\<open>os_malloc\<close> succeeds. The result of the encoder is
  what it wrote before the terminating NUL.
\<close>

definition base64_table :: "u8 list" where
  "base64_table = map of_char ''ABCDEFGHIJKLMNOPQRSTUVWXYZabcdefghijklmnopqrstuvwxyz0123456789+/''"

definition tab :: "u8 \<Rightarrow> u8" where
  "tab v = base64_table ! unat v"

fun encode_loop :: "u8 list \<Rightarrow> nat \<Rightarrow> u8 list" where
  "encode_loop (a # b # c # r) line_len =
     tab (drop_bit 2 a) # tab (push_bit 4 (a AND 0x03) OR drop_bit 4 b) #
     tab (push_bit 2 (b AND 0x0f) OR drop_bit 6 c) # tab (c AND 0x3f) #
     (if line_len + 4 \<ge> 72 then 10 # encode_loop r 0 else encode_loop r (line_len + 4))"
| "encode_loop [a] line_len =
     [tab (drop_bit 2 a), tab (push_bit 4 (a AND 0x03)), 61, 61] @ (if line_len + 4 \<noteq> 0 then [10] else [])"
| "encode_loop [a, b] line_len =
     [tab (drop_bit 2 a), tab (push_bit 4 (a AND 0x03) OR drop_bit 4 b), tab (push_bit 2 (b AND 0x0f)), 61] @
     (if line_len + 4 \<noteq> 0 then [10] else [])"
| "encode_loop [] line_len = (if line_len \<noteq> 0 then [10] else [])"

text \<open>The allocation size, computed modulo \<^verbatim>\<open>2^32\<close>.\<close>

definition encode_size :: "nat \<Rightarrow> nat" where
  "encode_size len =
     (let o1 = szadd (len * 4 mod 4294967296 div 3) 4;
          o2 = szadd o1 (o1 div 72)
      in szadd o2 1)"

definition base64_encode :: "bool \<Rightarrow> u8 list \<Rightarrow> u8 list option" where
  "base64_encode mem src =
     (if encode_size (length src) < length src then None
      else if \<not> mem then None
      else Some (encode_loop src 0))"

definition dtable :: "u8 \<Rightarrow> u8" where
  "dtable = (fold (\<lambda>i t. t(base64_table ! i := of_nat i)) [0..<64] (\<lambda>c. 0x80))(61 := 0)"

record decode_state =
  inb :: "u8 list"
  block :: "u8 list"
  dcount :: nat
  out :: "u8 list"

definition decode_step :: "u8 \<Rightarrow> decode_state \<Rightarrow> decode_state" where
  "decode_step c s =
     (let tmp = dtable c in
      if tmp = 0x80 then s
      else
        let s1 = s\<lparr>inb := (inb s)[dcount s := c], block := (block s)[dcount s := tmp], dcount := dcount s + 1\<rparr>
        in if dcount s1 = 4 then
             s1\<lparr>out := out s1 @ [push_bit 2 (block s1 ! 0) OR drop_bit 4 (block s1 ! 1),
                               push_bit 4 (block s1 ! 1) OR drop_bit 2 (block s1 ! 2),
                               push_bit 6 (block s1 ! 2) OR block s1 ! 3], dcount := 0\<rparr>
           else s1)"

definition base64_decode :: "bool \<Rightarrow> u8 list \<Rightarrow> u8 list option" where
  "base64_decode mem src =
     (let count = length (filter (\<lambda>c. dtable c \<noteq> 0x80) src) in
      if count = 0 \<or> count mod 4 \<noteq> 0 then None
      else if \<not> mem then None
      else
        let s = fold decode_step src \<lparr>inb = [0, 0, 0, 0], block = [0, 0, 0, 0], dcount = 0, out = []\<rparr>
        in Some (if out s \<noteq> [] then
                   if inb s ! 2 = 61 then take (length (out s) - 2) (out s)
                   else if inb s ! 3 = 61 then take (length (out s) - 1) (out s)
                   else out s
                 else out s))"

subsection \<open>The alphabet\<close>

lemma fold_table:
  assumes "distinct xs" "n \<le> length xs"
  shows "v < n \<Longrightarrow> fold (\<lambda>i t. t(xs ! i := of_nat i)) [0..<n] t0 (xs ! v) = of_nat v"
    "c \<notin> set xs \<Longrightarrow> fold (\<lambda>i t. t(xs ! i := of_nat i)) [0..<n] t0 c = t0 c"
  using assms(2)
proof (induction n)
  case (Suc n)
  case 1
  then show ?case using Suc assms(1) by (cases "v = n") (auto simp: nth_eq_iff_index_eq)
next
  case (Suc n)
  case 2
  then show ?case using Suc by (auto dest: nth_mem)
qed simp_all

lemma base64_table_length: "length base64_table = 64"
  by (simp add: base64_table_def)

lemma base64_table_distinct: "distinct base64_table"
  by code_simp

lemma base64_table_special: "61 \<notin> set base64_table" "10 \<notin> set base64_table"
  by code_simp+


lemma dtable_tab: "v < 64 \<Longrightarrow> dtable (tab v) = v \<and> tab v \<noteq> 61"
proof -
  assume "v < 64"
  then have v: "unat v < 64" by (simp add: word_less_nat_alt)
  have n: "tab v \<noteq> 61"
    using base64_table_special(1) v by (metis base64_table_length nth_mem tab_def)
  moreover have "fold (\<lambda>i t. t(base64_table ! i := of_nat i)) [0..<64] (\<lambda>c. 0x80) (tab v) = (of_nat (unat v) :: u8)"
    using fold_table(1) [OF base64_table_distinct, of 64 "unat v" "\<lambda>c. 0x80 :: u8"] v by (simp add: tab_def base64_table_length)
  ultimately show ?thesis by (simp add: dtable_def)
qed

lemma dtable_special: "dtable 61 = 0" "dtable 10 = 0x80"
proof -
  show "dtable 61 = 0" by (simp add: dtable_def)
  have "fold (\<lambda>i t. t(base64_table ! i := of_nat i)) [0..<64] (\<lambda>c. 0x80) 10 = (0x80 :: u8)"
    using fold_table(2) [OF base64_table_distinct, of 64 10] base64_table_special(2)
    by (simp add: base64_table_length)
  then show "dtable 10 = 0x80" by (simp add: dtable_def)
qed

lemma bits_eqI:
  fixes x y :: u8
  assumes "bit x 0 = bit y 0" "bit x 1 = bit y 1" "bit x 2 = bit y 2" "bit x 3 = bit y 3"
    "bit x 4 = bit y 4" "bit x 5 = bit y 5" "bit x 6 = bit y 6" "bit x 7 = bit y 7"
  shows "x = y"
proof (rule bit_word_eqI)
  fix n assume "n < LENGTH(8)"
  then have "n \<in> {0, 1, 2, 3, 4, 5, 6, 7}" by auto
  then show "bit x n = bit y n" using assms by auto
qed

lemma low_masks: "(0x03 :: u8) = mask 2" "(0x0f :: u8) = mask 4" "(0x3f :: u8) = mask 6"
  by (simp_all add: mask_eq_exp_minus_1)

lemma below_64:
  fixes x :: u8
  assumes "\<not> bit x 6" "\<not> bit x 7"
  shows "x < 64"
proof -
  have "x = take_bit 6 x" by (rule bits_eqI) (simp_all add: bit_simps assms)
  then have "unat x = take_bit 6 (unat x)" by (metis unsigned_take_bit_eq)
  then have "unat x < 2 ^ 6" by (metis take_bit_nat_less_exp)
  then show ?thesis by (simp add: word_less_nat_alt)
qed

lemma high_bits: "8 \<le> n \<Longrightarrow> \<not> bit (x :: u8) n"
  by (auto dest: bit_imp_le_length)

lemma six_bits:
  fixes a b c :: u8
  shows "drop_bit 2 a < 64" "push_bit 4 (a AND 0x03) OR drop_bit 4 b < 64"
    "push_bit 2 (b AND 0x0f) OR drop_bit 6 c < 64" "c AND 0x3f < 64"
    "push_bit 4 (a AND 0x03) < 64" "push_bit 2 (b AND 0x0f) < 64"
  by (rule below_64; simp add: low_masks bit_simps high_bits)+

text \<open>The four groups of six bits of three bytes.\<close>

definition g1 :: "u8 \<Rightarrow> u8" where "g1 a = drop_bit 2 a"
definition g2 :: "u8 \<Rightarrow> u8 \<Rightarrow> u8" where "g2 a b = push_bit 4 (a AND 0x03) OR drop_bit 4 b"
definition g3 :: "u8 \<Rightarrow> u8 \<Rightarrow> u8" where "g3 b c = push_bit 2 (b AND 0x0f) OR drop_bit 6 c"
definition g4 :: "u8 \<Rightarrow> u8" where "g4 c = c AND 0x3f"

lemma g_small: "g1 a < 64" "g2 a b < 64" "g3 b c < 64" "g4 c < 64"
  unfolding g1_def g2_def g3_def g4_def by (rule six_bits)+

lemma join_bits:
  fixes a b c :: u8
  shows "push_bit 2 (g1 a) OR drop_bit 4 (g2 a b) = a"
    "push_bit 4 (g2 a b) OR drop_bit 2 (g3 b c) = b"
    "push_bit 6 (g3 b c) OR g4 c = c"
  unfolding g1_def g2_def g3_def g4_def
  by (rule bits_eqI; simp add: low_masks bit_simps high_bits)+

lemma encode_loop_groups:
  "encode_loop (a # b # c # r) ll = tab (g1 a) # tab (g2 a b) # tab (g3 b c) # tab (g4 c) #
     (if ll + 4 \<ge> 72 then 10 # encode_loop r 0 else encode_loop r (ll + 4))"
  "encode_loop [a] ll = [tab (g1 a), tab (g2 a 0), 61, 61, 10]"
  "encode_loop [a, b] ll = [tab (g1 a), tab (g2 a b), tab (g3 b 0), 61, 10]"
  "encode_loop [] ll = (if ll \<noteq> 0 then [10] else [])"
  by (simp_all only: encode_loop.simps g1_def g2_def g3_def g4_def) simp_all

declare encode_loop.simps [simp del]

subsection \<open>Round trip\<close>

text \<open>Four significant characters starting with an empty block.\<close>

definition quad :: "u8 \<Rightarrow> u8 \<Rightarrow> u8 \<Rightarrow> u8 \<Rightarrow> u8 list" where
  "quad w x y z = [push_bit 2 w OR drop_bit 4 x, push_bit 4 x OR drop_bit 2 y, push_bit 6 y OR z]"

definition arrays :: "decode_state \<Rightarrow> bool" where
  "arrays s = (length (inb s) = 4 \<and> length (block s) = 4 \<and> dcount s = 0)"

lemma len4: "length xs = 4 \<Longrightarrow> \<exists>a b c d. xs = [a, b, c, d]"
  by (auto simp: length_Suc_conv numeral_eq_Suc)

lemma decode_four:
  assumes "arrays s" and "dtable w \<noteq> 0x80" "dtable x \<noteq> 0x80" "dtable y \<noteq> 0x80" "dtable z \<noteq> 0x80"
  shows "fold decode_step [w, x, y, z] s =
    s\<lparr>inb := [w, x, y, z], block := [dtable w, dtable x, dtable y, dtable z],
      out := out s @ quad (dtable w) (dtable x) (dtable y) (dtable z)\<rparr>"
proof -
  obtain a b c d where i: "inb s = [a, b, c, d]" using assms(1) len4 [of "inb s"] by (auto simp: arrays_def)
  obtain e f g h where b: "block s = [e, f, g, h]" using assms(1) len4 [of "block s"] by (auto simp: arrays_def)
  show ?thesis
    using assms by (simp add: decode_step_def Let_def i b quad_def arrays_def)
qed

lemma decode_newline: "decode_step 10 s = s"
  by (simp add: decode_step_def dtable_special)


lemma dtable_ok: "v < 64 \<Longrightarrow> dtable (tab v) = v" "v < 64 \<Longrightarrow> tab v \<noteq> 61" "v < 64 \<Longrightarrow> dtable (tab v) \<noteq> 0x80"
  using dtable_tab [of v] by auto

text \<open>What decoding an encoding does: the data, \<open>k\<close> bytes of padding, and where the \<open>=\<close> signs are.\<close>

definition decoded :: "u8 list \<Rightarrow> decode_state \<Rightarrow> decode_state \<Rightarrow> bool" where
  "decoded d s s' = (\<exists>e. arrays s' \<and> out s' = out s @ d @ e \<and> length e < 3 \<and>
     (length e = 2 \<longleftrightarrow> inb s' ! 2 = 61) \<and> (length e \<ge> 1 \<longleftrightarrow> inb s' ! 3 = 61))"

lemma dtable_groups:
  "dtable (tab (g1 a)) = g1 a" "dtable (tab (g2 a b)) = g2 a b" "dtable (tab (g3 b c)) = g3 b c"
  "dtable (tab (g4 c)) = g4 c"
  "g1 a \<noteq> 0x80" "g2 a b \<noteq> 0x80" "g3 b c \<noteq> 0x80" "g4 c \<noteq> 0x80"
  "tab (g1 a) \<noteq> 61" "tab (g2 a b) \<noteq> 61" "tab (g3 b c) \<noteq> 61" "tab (g4 c) \<noteq> 61"
  using g_small(1) [of a] g_small(2) [of a b] g_small(3) [of b c] g_small(4) [of c]
  by (auto simp: dtable_ok)

lemma decode_encode_loop:
  "d \<noteq> [] \<Longrightarrow> arrays s \<Longrightarrow> decoded d s (fold decode_step (encode_loop d ll) s)"
proof (induction d ll arbitrary: s rule: encode_loop.induct)
  case (1 a b c r ll)
  let ?s1 = "s\<lparr>inb := [tab (g1 a), tab (g2 a b), tab (g3 b c), tab (g4 c)],
    block := [g1 a, g2 a b, g3 b c, g4 c], out := out s @ [a, b, c]\<rparr>"
  have four: "fold decode_step [tab (g1 a), tab (g2 a b), tab (g3 b c), tab (g4 c)] s = ?s1"
    using decode_four [OF 1(4), of "tab (g1 a)" "tab (g2 a b)" "tab (g3 b c)" "tab (g4 c)"]
    by (simp add: dtable_groups quad_def join_bits del: fold.simps)
  have ar: "arrays ?s1" using 1(4) by (simp add: arrays_def)
  have split: "fold decode_step (encode_loop (a # b # c # r) ll) s =
      fold decode_step (if ll + 4 \<ge> 72 then 10 # encode_loop r 0 else encode_loop r (ll + 4)) ?s1"
    using four by (simp add: encode_loop_groups(1))
  show ?case
  proof (cases "r = []")
    case True
    then have "fold decode_step (encode_loop (a # b # c # r) ll) s = ?s1"
      using split by (simp add: decode_newline encode_loop_groups(4))
    then show ?thesis using ar True by (simp add: decoded_def dtable_groups)
  next
    case False
    then have "decoded r ?s1 (fold decode_step (encode_loop r (if ll + 4 \<ge> 72 then 0 else ll + 4)) ?s1)"
      using 1(1,2) ar by auto
    then have "decoded r ?s1 (fold decode_step (encode_loop (a # b # c # r) ll) s)"
      unfolding split by (auto simp: decode_newline)
    then show ?thesis by (simp add: decoded_def)
  qed
next
  case (2 a ll)
  have "fold decode_step [tab (g1 a), tab (g2 a 0), 61, 61] s =
      s\<lparr>inb := [tab (g1 a), tab (g2 a 0), 61, 61], block := [g1 a, g2 a 0, 0, 0], out := out s @ quad (g1 a) (g2 a 0) 0 0\<rparr>"
    using decode_four [OF 2(2), of "tab (g1 a)" "tab (g2 a 0)" 61 61]
    by (simp add: dtable_groups dtable_special del: fold.simps)
  then show ?case
    using 2(2) by (auto simp: encode_loop_groups(2) decode_newline decoded_def quad_def join_bits arrays_def)
next
  case (3 a b ll)
  have "fold decode_step [tab (g1 a), tab (g2 a b), tab (g3 b 0), 61] s =
      s\<lparr>inb := [tab (g1 a), tab (g2 a b), tab (g3 b 0), 61], block := [g1 a, g2 a b, g3 b 0, 0],
        out := out s @ quad (g1 a) (g2 a b) (g3 b 0) 0\<rparr>"
    using decode_four [OF 3(2), of "tab (g1 a)" "tab (g2 a b)" "tab (g3 b 0)" 61]
    by (simp add: dtable_groups dtable_special del: fold.simps)
  then show ?case
    using 3(2) by (auto simp: encode_loop_groups(3) decode_newline decoded_def quad_def join_bits arrays_def dtable_groups)
qed simp

lemma encode_significant:
  "length (filter (\<lambda>c. dtable c \<noteq> 0x80) (encode_loop d ll)) = 4 * ((length d + 2) div 3)"
proof (induction d ll rule: encode_loop.induct)
  case (1 a b c r ll)
  have "length (filter (\<lambda>c. dtable c \<noteq> 0x80) (encode_loop (a # b # c # r) ll)) = 4 + 4 * ((length r + 2) div 3)"
    using 1 by (simp add: encode_loop_groups(1) dtable_groups dtable_special)
  moreover have "(length (a # b # c # r) + 2) div 3 = (length r + 2) div 3 + 1" by simp
  ultimately show ?case by (simp only:) simp
qed (simp_all add: encode_loop_groups(2-4) dtable_groups dtable_special)

text \<open>
  C21: decoding what the encoder wrote, line feeds included, gives the data back, for every non-empty
  input that the encoder accepts.
\<close>

theorem base64_round_trip:
  assumes "d \<noteq> []" and "base64_encode True d = Some t"
  shows "base64_decode True t = Some d"
proof -
  have t: "t = encode_loop d 0" using assms(2) by (simp add: base64_encode_def split: if_splits)
  let ?init = "\<lparr>inb = [0, 0, 0, 0], block = [0, 0, 0, 0], dcount = 0, out = []\<rparr> :: decode_state"
  let ?fin = "fold decode_step t ?init"
  have "arrays ?init" by (simp add: arrays_def)
  then have "decoded d ?init ?fin" unfolding t by (rule decode_encode_loop [OF assms(1)])
  then obtain e where e: "out ?fin = d @ e" "length e < 3" "length e = 2 \<longleftrightarrow> inb ?fin ! 2 = 61"
    "length e \<ge> 1 \<longleftrightarrow> inb ?fin ! 3 = 61"
    by (auto simp: decoded_def)
  have c: "length (filter (\<lambda>c. dtable c \<noteq> 0x80) t) = 4 * ((length d + 2) div 3)"
    unfolding t by (rule encode_significant)
  have "(length d + 2) div 3 \<noteq> 0" using assms(1) by (cases d) auto
  then have n: "4 * ((length d + 2) div 3) \<noteq> 0" "4 * ((length d + 2) div 3) mod 4 = 0" by simp_all
  have "length e = 2 \<or> length e = 1 \<or> length e = 0" using e(2) by linarith
  then show ?thesis
    unfolding base64_decode_def c Let_def using n e assms(1) by (elim disjE) auto
qed

theorem base64_round_trip_witness:
  "base64_decode True (encode_loop [0, 255, 16, 7] 0) = Some [0, 255, 16, 7]"
proof (rule base64_round_trip)
  show "base64_encode True [0, 255, 16, 7] = Some (encode_loop [0, 255, 16, 7] 0)"
    by (simp add: base64_encode_def encode_size_def Let_def szadd_def)
qed simp

lemma encode_length:
  "ll < 72 \<Longrightarrow> 4 dvd ll \<Longrightarrow> 72 * length (encode_loop d ll) \<le> 73 * 4 * ((length d + 2) div 3) + ll + 71"
proof (induction d ll rule: encode_loop.induct)
  case (1 a b c r ll)
  have d: "4 dvd ll + 4" using 1(4) by simp
  have k: "(length (a # b # c # r) + 2) div 3 = (length r + 2) div 3 + 1" by simp
  show ?case
  proof (cases "ll + 4 \<ge> 72")
    case True
    then have "ll = 68" using 1(3,4) by presburger
    then show ?thesis using 1(1) True unfolding k encode_loop_groups(1) by simp
  next
    case False
    then show ?thesis using 1(2) d unfolding k encode_loop_groups(1) by simp
  qed
qed (simp_all add: encode_loop_groups(2-4))

text \<open>
  The size the encoder allocates is enough for what it writes, the line feeds and the
  terminating NUL included, and an input for which the 32-bit computation would wrap is refused:
  the result is NULL or fits.
\<close>

theorem base64_encode_fits:
  assumes "length d < 4294967296" and "base64_encode mem d = Some t"
  shows "length t + 1 \<le> encode_size (length d)"
proof -
  let ?n = "length d"
  have t: "t = encode_loop d 0" and no: "?n \<le> encode_size ?n"
    using assms(2) by (auto simp: base64_encode_def not_less split: if_splits)
  define m where "m = ?n * 4 mod 4294967296"
  define o1 where "o1 = m div 3 + 4"
  have m: "m < 4294967296" by (simp add: m_def)
  then have o1: "o1 \<le> 1431655769" by (simp add: o1_def)
  have size: "encode_size ?n = o1 + o1 div 72 + 1"
  proof -
    have "szadd (m div 3) 4 = o1" using m by (simp add: szadd_def o1_def)
    moreover have "szadd o1 (o1 div 72) = o1 + o1 div 72" using o1 by (simp add: szadd_def)
    moreover have "szadd (o1 + o1 div 72) 1 = o1 + o1 div 72 + 1" using o1 by (simp add: szadd_def)
    ultimately show ?thesis by (simp add: encode_size_def Let_def m_def)
  qed
  have third: "3 * (m div 3) \<le> m" "m \<le> 3 * (m div 3) + 2" by presburger+
  have seventy: "72 * (o1 div 72) \<le> o1" "o1 < 72 * (o1 div 72) + 72" by presburger+
  have "?n < 1073741824"
  proof (rule ccontr)
    assume "\<not> ?n < 1073741824"
    then have big: "?n * 4 \<ge> 4294967296" by simp
    have le: "?n \<le> o1 + o1 div 72 + 1" using no size by simp
    then have "72 * ?n \<le> 73 * o1 + 72" using seventy(1) by linarith
    then have "?n < 2147483648" using o1 by linarith
    have "m = (?n * 4 - 4294967296) mod 4294967296" using big by (simp add: m_def le_mod_geq)
    then have "m \<le> ?n * 4 - 4294967296" by (simp only: mod_less_eq_dividend)
    then have "m + 4294967296 \<le> ?n * 4" by (rule le_diff_conv2 [OF big, THEN iffD1])
    moreover have "3 * o1 = 3 * (m div 3) + 12" by (simp add: o1_def)
    ultimately have "3 * o1 + 4294967296 \<le> ?n * 4 + 12" using third(1) by linarith
    then show False using \<open>72 * ?n \<le> 73 * o1 + 72\<close> \<open>?n < 2147483648\<close> by linarith
  qed
  then have "m = ?n * 4" by (simp add: m_def)
  moreover have "3 * o1 = 3 * (m div 3) + 12" by (simp add: o1_def)
  ultimately have o1n: "4 * ?n + 10 \<le> 3 * o1" using third(2) by linarith
  define k where "k = (?n + 2) div 3"
  have "3 * k \<le> ?n + 2" by (simp add: k_def)
  then have "12 * k + 3 \<le> 3 * o1 + 1" using o1n by linarith
  then have c: "4 * k + 1 \<le> o1" by presburger
  have "72 * length t \<le> 73 * 4 * k + 0 + 71"
    unfolding t k_def by (rule encode_length) simp_all
  then have "72 * length t \<le> 292 * k + 71" by simp
  then have "72 * length t < 72 * o1 + 72 * (o1 div 72) + 72" using c seventy(2) by linarith
  then have "length t \<le> o1 + o1 div 72" by linarith
  then show ?thesis using size by simp
qed

theorem base64_encode_fits_witness:
  "length (encode_loop [1, 2, 3, 4, 5] 0) + 1 \<le> encode_size 5"
  using base64_encode_fits [of "[1, 2, 3, 4, 5]" True "encode_loop [1, 2, 3, 4, 5] 0"]
  by (simp add: base64_encode_def encode_size_def Let_def szadd_def)

end
