(* ===== verification/HttpText.thy ===== *)
theory HttpText
  imports Base64
begin

section \<open>The streamer's text functions (\<^verbatim>\<open>plugins/output_http/httpd.c\<close>)\<close>

text \<open>
  The C library's string functions as the server uses them (a string is the bytes before the first
  NUL; a pointer into a string is the rest of the string), the two decoders that work in place on
  the memory of their argument, \<open>decodeBase64\<close> and \<open>unescape\<close>, and \<open>check_JSON_string\<close>. A read
  outside the memory a function was given is \<open>None\<close>.
\<close>

subsection \<open>C strings\<close>

definition cstr :: "u8 list \<Rightarrow> u8 list" where
  "cstr a = takeWhile (\<lambda>b. b \<noteq> 0) a"

fun strstr :: "u8 list \<Rightarrow> u8 list \<Rightarrow> u8 list option" where
  "strstr [] n = (if n = [] then Some [] else None)"
| "strstr (c # h) n = (if take (length n) (c # h) = n then Some (c # h) else strstr h n)"

definition strchr :: "u8 list \<Rightarrow> u8 \<Rightarrow> u8 list option" where
  "strchr h c = (case dropWhile (\<lambda>b. b \<noteq> c) h of [] \<Rightarrow> None | t \<Rightarrow> Some t)"

text \<open>The bytes \<^verbatim>\<open>strspn(h, accept)\<close> counts.\<close>

definition span_of :: "u8 list \<Rightarrow> u8 list \<Rightarrow> u8 list" where
  "span_of h accept = takeWhile (\<lambda>b. b \<in> set accept) h"

definition is_digit :: "u8 \<Rightarrow> bool" where
  "is_digit c = (48 \<le> c \<and> c \<le> 57)"

fun digits_value :: "int \<Rightarrow> u8 list \<Rightarrow> int" where
  "digits_value v [] = v"
| "digits_value v (c # s) = (if is_digit c then digits_value (10 * v + uint (c - 48)) s else v)"

text \<open>\<open>strtol10 s\<close> is \<^verbatim>\<open>strtol(s, NULL, 10)\<close> for a text of digits and minus signs; a \<^verbatim>\<open>long\<close> has 32 bits.\<close>

definition clamp32 :: "int \<Rightarrow> int" where
  "clamp32 v = max (min v 2147483647) (- 2147483648)"

definition strtol10 :: "u8 list \<Rightarrow> int" where
  "strtol10 s = clamp32 (case s of c # r \<Rightarrow> if c = 45 then - digits_value 0 r else digits_value 0 s | [] \<Rightarrow> 0)"

text \<open>\<^verbatim>\<open>%d\<close> and \<^verbatim>\<open>%06d\<close>.\<close>

fun decimal :: "nat \<Rightarrow> u8 list" where
  "decimal n = (if n < 10 then [48 + of_nat n] else decimal (n div 10) @ [48 + of_nat (n mod 10)])"

declare decimal.simps [simp del]

definition fmt_d :: "int \<Rightarrow> u8 list" where
  "fmt_d v = (if v < 0 then 45 # decimal (nat (- v)) else decimal (nat v))"

definition pad0 :: "nat \<Rightarrow> u8 list \<Rightarrow> u8 list" where
  "pad0 n s = replicate (n - length s) 48 @ s"

definition fmt_06d :: "int \<Rightarrow> u8 list" where
  "fmt_06d v = (if v < 0 then 45 # pad0 5 (decimal (nat (- v))) else pad0 6 (decimal (nat v)))"

subsection \<open>\<^verbatim>\<open>decodeBase64\<close>\<close>

definition base64_digit :: "u8 \<Rightarrow> u8 option" where
  "base64_digit t =
     (if 48 \<le> t \<and> t \<le> 57 then Some (t - 48 + 52)
      else if 65 \<le> t \<and> t \<le> 90 then Some (t - 65)
      else if 97 \<le> t \<and> t \<le> 122 then Some (t - 97 + 26)
      else if t = 43 then Some 62
      else if t = 47 then Some 63
      else if t = 61 then Some 0
      else None)"

text \<open>\<open>inp\<close> and \<open>d\<close> are the offsets of the pointers \<^verbatim>\<open>in\<close> and \<^verbatim>\<open>data\<close> into the one array both walk through.\<close>

function base64_loop :: "u8 list \<Rightarrow> nat \<Rightarrow> nat \<Rightarrow> u32 \<Rightarrow> nat \<Rightarrow> u8 list option" where
  "base64_loop m inp d ch i =
     (if inp < length m then
        if m ! inp = 0 then Some (m[d := 0])
        else case base64_digit (m ! inp) of
          None \<Rightarrow> base64_loop m (inp + 1) d ch i
        | Some t \<Rightarrow>
            let ch = push_bit 6 ch OR ucast t
            in if i + 1 = 4 then
                 base64_loop (m[d := ucast (drop_bit 16 ch), d + 1 := ucast (drop_bit 8 ch), d + 2 := ucast ch])
                   (inp + 1) (d + 3) ch 0
               else base64_loop m (inp + 1) d ch (i + 1)
      else None)"
  by pat_completeness auto
termination by (relation "measure (\<lambda>(m, inp, d, ch, i). length m - inp)") auto

definition decodeBase64 :: "u8 list \<Rightarrow> u8 list option" where
  "decodeBase64 m = base64_loop m 0 0 0 0"

subsection \<open>\<^verbatim>\<open>unescape\<close>\<close>

definition hex_char_to_int :: "u8 \<Rightarrow> int" where
  "hex_char_to_int c =
     (if 48 \<le> c \<and> c \<le> 57 then uint c - 48
      else if 97 \<le> c \<and> c \<le> 102 then uint c - 97 + 10
      else if 65 \<le> c \<and> c \<le> 70 then uint c - 65 + 10
      else - 1)"

text \<open>The result is the return value and the memory afterwards.\<close>

function unescape_loop :: "u8 list \<Rightarrow> nat \<Rightarrow> nat \<Rightarrow> nat \<Rightarrow> (int \<times> u8 list) option" where
  "unescape_loop m len src dst =
     (if src < len then
        case rd m src of None \<Rightarrow> None
        | Some c \<Rightarrow>
            if c \<noteq> 37 then unescape_loop (m[dst := c]) len (src + 1) (dst + 1)
            else if src + 2 > len then Some (- 1, m)
            else case rd m (src + 1) of None \<Rightarrow> None
              | Some c1 \<Rightarrow>
                  if hex_char_to_int c1 = - 1 then Some (- 1, m)
                  else let m1 = m[dst := word_of_int (hex_char_to_int c1 * 16)]
                       in case rd m1 (src + 2) of None \<Rightarrow> None
                         | Some c2 \<Rightarrow>
                             if hex_char_to_int c2 = - 1 then Some (- 1, m1)
                             else unescape_loop (m1[dst := m1 ! dst + word_of_int (hex_char_to_int c2)])
                                    len (src + 3) (dst + 1)
      else Some (0, m[dst := 0]))"
  by pat_completeness auto
termination by (relation "measure (\<lambda>(m, len, src, dst). len - src)") auto

definition unescape :: "u8 list \<Rightarrow> (int \<times> u8 list) option" where
  "unescape m = (if 0 \<in> set m then unescape_loop m (length (cstr m)) 0 0 else None)"

subsection \<open>\<^verbatim>\<open>check_JSON_string\<close>\<close>

text \<open>What is written to \<^verbatim>\<open>destination\<close>, a zeroed array one byte longer than the source string.\<close>

definition isprint :: "u8 \<Rightarrow> bool" where
  "isprint c = (32 \<le> c \<and> c < 127)"

definition check_JSON_string :: "u8 list \<Rightarrow> u8 list" where
  "check_JSON_string src = map (\<lambda>c. if isprint c then c else 32) (cstr src)"

declare base64_loop.simps [simp del] unescape_loop.simps [simp del]

subsection \<open>Facts about C strings\<close>

lemma cstr_append: "0 \<notin> set s \<Longrightarrow> cstr (s @ 0 # r) = s"
  unfolding cstr_def by (subst takeWhile_append2) auto

lemma cstr_append2: "0 \<notin> set s \<Longrightarrow> cstr (s @ r) = s @ cstr r"
  unfolding cstr_def by (subst takeWhile_append2) auto

lemma cstr_split: "0 \<in> set m \<Longrightarrow> \<exists>z. m = cstr m @ 0 # z"
  unfolding cstr_def
  by (induction m) auto

lemma cstr_no_zero [simp]: "0 \<notin> set (cstr s)"
  unfolding cstr_def by (metis (mono_tags, lifting) set_takeWhileD)

lemma cstr_id: "0 \<notin> set s \<Longrightarrow> cstr s = s"
  unfolding cstr_def by (metis (mono_tags, lifting) takeWhile_eq_all_conv)

lemma length_cstr: "length (cstr s) \<le> length s"
  by (simp add: cstr_def length_takeWhile_le)

lemma set_cstr: "set (cstr s) \<subseteq> set s"
  unfolding cstr_def by (meson set_takeWhileD subsetI)

lemma set_span_of: "set (span_of h a) \<subseteq> set a"
  unfolding span_of_def by (meson set_takeWhileD subsetI)

lemma strstr_suffix: "strstr h n = Some t \<Longrightarrow> \<exists>p. h = p @ t \<and> take (length n) t = n"
proof (induction h n rule: strstr.induct)
  case (2 c h n)
  show ?case
  proof (cases "take (length n) (c # h) = n")
    case True
    then show ?thesis using 2(2) by (intro exI [of _ "[]"]) simp
  next
    case False
    then obtain p where "h = p @ t" "take (length n) t = n" using 2 by auto
    then show ?thesis by (intro exI [of _ "c # p"]) simp
  qed
qed (simp split: if_splits)

lemma strchr_suffix: "strchr h c = Some t \<Longrightarrow> \<exists>p r. h = p @ t \<and> t = c # r \<and> c \<notin> set p"
proof -
  assume "strchr h c = Some t"
  then have t: "dropWhile (\<lambda>b. b \<noteq> c) h = t" "t \<noteq> []"
    by (auto simp: strchr_def split: list.splits)
  let ?p = "takeWhile (\<lambda>b. b \<noteq> c) h"
  have "h = ?p @ t" using t(1) takeWhile_dropWhile_id [of "\<lambda>b. b \<noteq> c" h] by simp
  moreover have "c \<notin> set ?p" using set_takeWhileD by fastforce
  moreover have "hd t = c" using t hd_dropWhile by blast
  ultimately show ?thesis using t(2) by (metis list.collapse)
qed

lemma strchr_None: "strchr h c = None \<longleftrightarrow> c \<notin> set h"
proof (cases "dropWhile (\<lambda>b. b \<noteq> c) h")
  case Nil
  moreover have "c \<notin> set h" using Nil by auto
  ultimately show ?thesis unfolding strchr_def by (simp only: list.case simp_thms)
next
  case (Cons x r)
  then have "x = c" using hd_dropWhile [of "\<lambda>b. b \<noteq> c" h] by simp
  then have "c \<in> set h" using Cons set_dropWhileD [of c "\<lambda>b. b \<noteq> c" h] by simp
  then show ?thesis using Cons by (simp add: strchr_def)
qed

subsection \<open>The decoders work in place\<close>

text \<open>What \<open>base64_loop\<close> appends to its output, and what \<open>unescape_loop\<close> does, on separate strings.\<close>

fun base64_out :: "u32 \<Rightarrow> nat \<Rightarrow> u8 list \<Rightarrow> u8 list" where
  "base64_out ch i [] = []"
| "base64_out ch i (c # s) =
     (case base64_digit c of
        None \<Rightarrow> base64_out ch i s
      | Some t \<Rightarrow>
          let ch = push_bit 6 ch OR ucast t
          in if i + 1 = 4
             then [ucast (drop_bit 16 ch), ucast (drop_bit 8 ch), ucast ch] @ base64_out ch 0 s
             else base64_out ch (i + 1) s)"

fun percent_decode :: "u8 list \<Rightarrow> u8 list option" where
  "percent_decode [] = Some []"
| "percent_decode (c # s) =
     (if c \<noteq> 37 then map_option (Cons c) (percent_decode s)
      else case s of
        a # b # r \<Rightarrow>
          if hex_char_to_int a = - 1 \<or> hex_char_to_int b = - 1 then None
          else map_option (Cons (word_of_int (hex_char_to_int a * 16 + hex_char_to_int b))) (percent_decode r)
      | _ \<Rightarrow> None)"

lemma drop_write: "d \<le> n \<Longrightarrow> drop (Suc n) (m[d := x]) = drop (Suc n) m"
  by (simp add: drop_update_cancel)

lemma take_write: "d < length m \<Longrightarrow> take (Suc d) (m[d := x]) = take d m @ [x]"
  by (simp add: take_Suc_conv_app_nth)

lemma base64_loop_out:
  assumes "drop inp m = s @ 0 # z" and "0 \<notin> set s" and "d + i \<le> inp" and "i < 4"
  shows "base64_loop m inp d ch i =
    Some (take d m @ base64_out ch i s @ 0 # drop (d + length (base64_out ch i s) + 1) m)"
  using assms
proof (induction ch i s arbitrary: m inp d rule: base64_out.induct)
  case (1 ch i)
  then have "inp < length m" "m ! inp = 0" "d < length m"
    by (metis append_Nil drop_eq_Nil list.distinct(1) not_le)
      (metis 1(1) append_Nil nth_via_drop,
       metis 1(1) 1(3) append_Nil drop_eq_Nil le_add1 le_trans list.distinct(1) not_le)
  then show ?case by (simp add: base64_loop.simps upd_conv_take_nth_drop)
next
  case (2 ch i c s)
  have len: "inp < length m" and c: "m ! inp = c" and r: "drop (Suc inp) m = s @ 0 # z"
    using 2(4)
    by (metis append_Cons drop_eq_Nil list.distinct(1) not_le,
        metis 2(4) append_Cons nth_via_drop,
        metis 2(4) append_Cons drop_Suc list.sel(3) tl_drop)
  have c0: "c \<noteq> 0" and s0: "0 \<notin> set s" using 2(5) by auto
  show ?case
  proof (cases "base64_digit c")
    case None
    then show ?thesis
      using 2(1) [OF None r s0, of d] 2(6,7) len c c0 by (simp add: base64_loop.simps [of m inp])
  next
    case (Some t)
    let ?ch = "push_bit 6 ch OR ucast t"
    show ?thesis
    proof (cases "i + 1 = 4")
      case False
      then have "base64_loop m (inp + 1) d ?ch (i + 1) =
          Some (take d m @ base64_out ?ch (i + 1) s @ 0 # drop (d + length (base64_out ?ch (i + 1) s) + 1) m)"
        using 2(3) [OF Some refl False, of "inp + 1" m d] r s0 2(6,7) by simp
      then show ?thesis using Some False len c c0 by (simp add: base64_loop.simps [of m inp] Let_def)
    next
      case True
      let ?b = "[ucast (drop_bit 16 ?ch), ucast (drop_bit 8 ?ch), ucast ?ch] :: u8 list"
      let ?m = "m[d := ucast (drop_bit 16 ?ch), d + 1 := ucast (drop_bit 8 ?ch), d + 2 := ucast ?ch]"
      have d: "d + 3 \<le> inp" using True 2(6) by simp
      have m: "?m = take d m @ ?b @ drop (d + 3) m"
        using d len by (intro nth_equalityI) (auto simp: nth_append nth_list_update nth_Cons' less_diff_conv2)
      have "drop (inp + 1) ?m = s @ 0 # z" using d r by (simp add: drop_write)
      then have "base64_loop ?m (inp + 1) (d + 3) ?ch 0 =
          Some (take (d + 3) ?m @ base64_out ?ch 0 s @ 0 # drop (d + 3 + length (base64_out ?ch 0 s) + 1) ?m)"
        using 2(2) [OF Some refl True, of "inp + 1" ?m "d + 3"] s0 d by simp
      moreover have "take (d + 3) ?m = take d m @ ?b" unfolding m using d len by simp
      moreover have "drop (d + 3 + n + 1) ?m = drop (d + 3 + n + 1) m" for n
        by (simp add: drop_update_cancel)
      ultimately show ?thesis
        using Some True len c c0 by (simp add: base64_loop.simps [of m inp] Let_def eval_nat_numeral)
    qed
  qed
qed

lemma base64_out_short: "i < 4 \<Longrightarrow> length (base64_out ch i s) * 4 \<le> (length s + i) * 3"
proof (induction ch i s rule: base64_out.induct)
  case (2 ch i c s)
  then show ?case by (cases "base64_digit c"; cases "i = 3") (auto simp: Let_def)
qed simp

text \<open>
  C32: \<open>decodeBase64\<close> overwrites the text it is still reading. On any memory that holds a terminated
  string it never reads or writes past the terminator, and leaves the string it would have written to
  a separate buffer.
\<close>

theorem decodeBase64_in_place:
  assumes "0 \<in> set m"
  shows "\<exists>t z. t = base64_out 0 0 (cstr m) \<and> length t \<le> length (cstr m) \<and>
    decodeBase64 m = Some (t @ 0 # z) \<and> length (t @ 0 # z) = length m \<and>
    drop (length (cstr m) + 1) (t @ 0 # z) = drop (length (cstr m) + 1) m"
proof -
  obtain z where m: "m = cstr m @ 0 # z" using cstr_split [OF assms] by blast
  let ?t = "base64_out 0 0 (cstr m)"
  have out: "decodeBase64 m = Some (?t @ 0 # drop (length ?t + 1) m)"
    unfolding decodeBase64_def using base64_loop_out [of 0 m "cstr m" z 0 0 0] m by simp
  have "length ?t \<le> length (cstr m)" using base64_out_short [of 0 0 "cstr m"] by simp
  moreover have "length (cstr m) < length m" using m by (metis length_append length_Cons less_add_Suc1 add_Suc_right)
  ultimately have *: "length ?t \<le> length (cstr m)" "length ?t < length m" by simp_all
  show ?thesis
  proof (intro exI conjI)
    show "decodeBase64 m = Some (?t @ 0 # drop (length ?t + 1) m)" by (rule out)
    show "length (?t @ 0 # drop (length ?t + 1) m) = length m" using *(2) by simp
    show "drop (length (cstr m) + 1) (?t @ 0 # drop (length ?t + 1) m) = drop (length (cstr m) + 1) m"
      using *(1) by (simp add: Suc_diff_le)
  qed (rule refl, rule *(1))
qed

lemma unescape_loop_decode:
  assumes "drop src m = s @ 0 # z" and "0 \<notin> set s" and "dst \<le> src" and "len = src + length s"
  shows "case percent_decode s of
      Some t \<Rightarrow> unescape_loop m len src dst = Some (0, take dst m @ t @ 0 # drop (dst + length t + 1) m)
    | None \<Rightarrow> \<exists>m'. unescape_loop m len src dst = Some (- 1, m')"
  using assms
proof (induction s arbitrary: m src dst rule: percent_decode.induct)
  case 1
  then have "dst < length m"
    by (metis append_Nil drop_eq_Nil le_trans list.distinct(1) not_le)
  then show ?case using 1 by (simp add: unescape_loop.simps upd_conv_take_nth_drop)
next
  case (2 c s)
  have len: "src < length m" and c: "m ! src = c" and r: "drop (Suc src) m = s @ 0 # z"
    using 2(3)
    by (metis append_Cons drop_eq_Nil list.distinct(1) not_le,
        metis 2(3) append_Cons nth_via_drop,
        metis 2(3) append_Cons drop_Suc list.sel(3) tl_drop)
  have dst: "dst < length m" using 2(5) len by simp
  have c': "rd m src = Some c" using len c by (simp add: rd_def)
  have s0: "0 \<notin> set s" using 2(4) by simp
  show ?case
  proof (cases "c = 37")
    case False
    have "drop (src + 1) (m[dst := c]) = s @ 0 # z" using 2(5) r by (simp add: drop_write)
    from 2(1) [OF False this s0, of "dst + 1"] 2(5,6)
    have "case percent_decode s of
        Some t \<Rightarrow> unescape_loop (m[dst := c]) len (src + 1) (dst + 1) =
          Some (0, take dst m @ c # t @ 0 # drop (dst + 1 + length t + 1) m)
      | None \<Rightarrow> \<exists>m'. unescape_loop (m[dst := c]) len (src + 1) (dst + 1) = Some (- 1, m')"
      using dst by (cases "percent_decode s") (simp_all add: take_write drop_update_cancel)
    moreover have "unescape_loop m len src dst = unescape_loop (m[dst := c]) len (src + 1) (dst + 1)"
      using False c' 2(6) by (subst unescape_loop.simps) simp
    ultimately show ?thesis using False by (cases "percent_decode s") simp_all
  next
    case True
    have h0: "hex_char_to_int 0 = - 1" by (simp add: hex_char_to_int_def)
    show ?thesis
    proof (cases s)
      case Nil
      then have "unescape_loop m len src dst = Some (- 1, m)"
        using True c' 2(6) by (subst unescape_loop.simps) simp
      then show ?thesis using True Nil by simp
    next
      case s: (Cons a s')
      have a: "rd m (src + 1) = Some a"
        using rd_drop [of "src + 1" m a "s' @ 0 # z"] r s by simp
      have rd2: "rd (m[dst := x]) (src + 2) = rd m (src + 2)" for x
        using 2(5) by (simp add: rd_def)
      show ?thesis
      proof (cases s')
        case Nil
        then have "rd m (src + 2) = Some 0"
          using rd_drop [of "src + 2" m 0 z] r s
          by (metis add_2_eq_Suc' append_Cons append_Nil drop_Suc list.sel(3) tl_drop)
        then have "\<exists>m'. unescape_loop m len src dst = Some (- 1, m')"
          using True c' a rd2 Nil s 2(6) h0 by (subst unescape_loop.simps) (simp add: Let_def)
        then show ?thesis using True Nil s by simp
      next
        case s': (Cons b s'')
        have drop2: "drop (src + 2) m = b # s'' @ 0 # z"
          using r s s' by (metis add_2_eq_Suc' append_Cons drop_Suc list.sel(3) tl_drop)
        then have b: "rd m (src + 2) = Some b" by (rule rd_drop)
        have drop3: "drop (src + 3) m = s'' @ 0 # z"
          using drop2 by (metis add_2_eq_Suc' add_Suc_right drop_Suc eval_nat_numeral(3) list.sel(3) tl_drop)
        let ?x = "word_of_int (hex_char_to_int a * 16 + hex_char_to_int b) :: u8"
        have twice: "m[dst := word_of_int (hex_char_to_int a * 16),
            dst := m[dst := word_of_int (hex_char_to_int a * 16)] ! dst + word_of_int (hex_char_to_int b)] = m[dst := ?x]"
          using dst by (simp add: word_of_int_hom_syms)
        show ?thesis
        proof (cases "hex_char_to_int a = - 1 \<or> hex_char_to_int b = - 1")
          case bad: True
          then have "\<exists>m'. unescape_loop m len src dst = Some (- 1, m')"
            using True c' a b rd2 s s' 2(6) by (subst unescape_loop.simps) (auto simp: Let_def)
          then show ?thesis using True s s' bad by simp
        next
          case good: False
          have "drop (src + 3) (m[dst := ?x]) = s'' @ 0 # z" using 2(5) drop3 by (simp add: drop_update_cancel)
          from 2(2) [OF _ s s' good this, of "dst + 1"] True s0 s s' 2(5,6)
          have "case percent_decode s'' of
              Some t \<Rightarrow> unescape_loop (m[dst := ?x]) len (src + 3) (dst + 1) =
                Some (0, take dst m @ ?x # t @ 0 # drop (dst + 1 + length t + 1) m)
            | None \<Rightarrow> \<exists>m'. unescape_loop (m[dst := ?x]) len (src + 3) (dst + 1) = Some (- 1, m')"
            using dst by (cases "percent_decode s''") (simp_all add: take_write drop_update_cancel)
          moreover have "unescape_loop m len src dst = unescape_loop (m[dst := ?x]) len (src + 3) (dst + 1)"
            using True good c' a b rd2 s s' 2(6) twice by (subst unescape_loop.simps) (simp add: Let_def)
          ultimately show ?thesis using True good s s' by (cases "percent_decode s''") simp_all
        qed
      qed
    qed
  qed
qed

lemma length_percent_decode: "percent_decode s = Some t \<Longrightarrow> length t \<le> length s"
proof (induction s arbitrary: t rule: percent_decode.induct)
  case (2 c s)
  show ?case
  proof (cases "c = 37")
    case False
    then show ?thesis using 2(1) 2(3) by auto
  next
    case True
    then obtain a b r where s: "s = a # b # r"
      using 2(3) by (auto split: list.splits)
    then show ?thesis using True 2(2) [OF _ s refl] 2(3) by (auto split: if_splits)
  qed
qed simp

lemma unescape_decoded:
  assumes "0 \<in> set m"
  shows "case percent_decode (cstr m) of
      Some t \<Rightarrow> unescape m = Some (0, t @ 0 # drop (length t + 1) m)
    | None \<Rightarrow> \<exists>m'. unescape m = Some (- 1, m')"
proof -
  obtain z where "m = cstr m @ 0 # z" using cstr_split [OF assms] by blast
  then have "case percent_decode (cstr m) of
      Some t \<Rightarrow> unescape_loop m (length (cstr m)) 0 0 = Some (0, take 0 m @ t @ 0 # drop (0 + length t + 1) m)
    | None \<Rightarrow> \<exists>m'. unescape_loop m (length (cstr m)) 0 0 = Some (- 1, m')"
    by (intro unescape_loop_decode [of 0 m "cstr m" z]) simp_all
  then show ?thesis
    using assms by (cases "percent_decode (cstr m)") (auto simp: unescape_def)
qed

text \<open>
  C31: \<open>unescape\<close> decodes \<^verbatim>\<open>%XX\<close> in the string it reads. For any terminated string it never touches
  memory outside the string; it fails exactly when some percent sign is not followed by two
  hexadecimal digits, and otherwise leaves the decoded string, which is not longer, terminated.
\<close>

theorem unescape_in_place:
  assumes "0 \<in> set m"
  shows "case percent_decode (cstr m) of
      Some t \<Rightarrow> length t \<le> length (cstr m) \<and> unescape m = Some (0, t @ 0 # drop (length t + 1) m)
    | None \<Rightarrow> \<exists>m'. unescape m = Some (- 1, m')"
  using unescape_decoded [OF assms] length_percent_decode by (cases "percent_decode (cstr m)") auto

theorem unescape_in_place_witness:
  "unescape (ascii ''a%2Fb'' @ [0, 7]) = Some (0, ascii ''a/b'' @ [0, 98, 0, 7]) \<and>
   (\<exists>m'. unescape (ascii ''a%2'' @ [0, 7]) = Some (- 1, m'))"
  using unescape_in_place [of "ascii ''a%2Fb'' @ [0, 7]"] unescape_in_place [of "ascii ''a%2'' @ [0, 7]"]
  by (simp_all add: ascii_def cstr_def hex_char_to_int_def)

theorem decodeBase64_in_place_witness:
  "\<exists>z. decodeBase64 (ascii ''YTpi'' @ [13, 10, 0]) = Some (ascii ''a:b'' @ 0 # z)"
  using decodeBase64_in_place [of "ascii ''YTpi'' @ [13, 10, 0]"]
  by (auto simp: ascii_def cstr_def base64_digit_def Let_def)

subsection \<open>The server decodes what a client encodes\<close>

text \<open>A client that encodes its credentials in base64; the encoder is the one of hostapd.\<close>

lemma base64_digit_tab: "v < 64 \<Longrightarrow> base64_digit (tab v) = Some v"
proof -
  assume "v < 64"
  then have "unat v < 64" by (simp add: word_less_nat_alt)
  moreover have "\<forall>n \<in> {0..<64}. base64_digit (base64_table ! n) = Some (of_nat n)"
    by code_simp
  ultimately have "base64_digit (tab v) = Some (of_nat (unat v))" unfolding tab_def by auto
  then show ?thesis by simp
qed

lemma base64_out_quad:
  assumes "base64_digit p = Some w" "base64_digit q = Some x" "base64_digit r = Some y" "base64_digit s = Some z"
  shows "\<exists>ch'. base64_out ch 0 (p # q # r # s # rest) = quad w x y z @ base64_out ch' 0 rest"
proof -
  let ?ch = "push_bit 6 (push_bit 6 (push_bit 6 (push_bit 6 ch OR ucast w) OR ucast x) OR ucast y) OR ucast z :: u32"
  have "[ucast (drop_bit 16 ?ch), ucast (drop_bit 8 ?ch), ucast ?ch] = quad w x y z"
    unfolding quad_def list.inject
    by (intro conjI bits_eqI refl) (simp_all add: bit_simps high_bits)
  then have "base64_out ch 0 (p # q # r # s # rest) = quad w x y z @ base64_out ?ch 0 rest"
    using assms by (simp add: Let_def del: push_bit_or drop_bit_or)
  then show ?thesis by blast
qed

lemma digits_of_groups:
  "base64_digit (tab (g1 a)) = Some (g1 a)" "base64_digit (tab (g2 a b)) = Some (g2 a b)"
  "base64_digit (tab (g3 b c)) = Some (g3 b c)" "base64_digit (tab (g4 c)) = Some (g4 c)"
  "base64_digit 61 = Some 0" "base64_digit 10 = None"
proof -
  show "base64_digit (tab (g1 a)) = Some (g1 a)" "base64_digit (tab (g2 a b)) = Some (g2 a b)"
    "base64_digit (tab (g3 b c)) = Some (g3 b c)" "base64_digit (tab (g4 c)) = Some (g4 c)"
    by (rule base64_digit_tab, rule g_small)+
qed (simp_all add: base64_digit_def)

lemma base64_out_newline: "base64_out ch i (10 # r) = base64_out ch i r"
  by (simp add: digits_of_groups)

lemma padding_bits: "push_bit 4 (g2 a 0) = 0" "push_bit 6 (g3 b 0) = 0"
  using join_bits(2) [of a 0 0] join_bits(3) [of b 0] by (simp_all add: g3_def g4_def)

lemma base64_out_encoded: "\<exists>e. base64_out ch 0 (encode_loop d ll) = d @ e \<and> set e \<subseteq> {0}"
proof (induction d ll arbitrary: ch rule: encode_loop.induct)
  case (1 a b c r ll)
  define rest where "rest = (if ll + 4 \<ge> 72 then 10 # encode_loop r 0 else encode_loop r (ll + 4))"
  obtain ch' where *: "base64_out ch 0 (encode_loop (a # b # c # r) ll) =
      quad (g1 a) (g2 a b) (g3 b c) (g4 c) @ base64_out ch' 0 rest"
    using base64_out_quad [OF digits_of_groups(1) [of a] digits_of_groups(2) [of a b] digits_of_groups(3) [of b c]
        digits_of_groups(4) [of c], where ch = ch and rest = rest]
    unfolding encode_loop_groups(1) rest_def by blast
  have "\<exists>e. base64_out ch' 0 rest = r @ e \<and> set e \<subseteq> {0}"
    unfolding rest_def using 1 by (auto simp del: base64_out.simps(2) simp: base64_out_newline)
  then show ?case unfolding * by (auto simp: quad_def join_bits)
next
  case (2 a ll)
  then show ?case
    using base64_out_quad [OF digits_of_groups(1) [of a] digits_of_groups(2) [of a 0] digits_of_groups(5,5),
        where ch = ch and rest = "[10]"]
    unfolding encode_loop_groups(2) by (auto simp: quad_def join_bits padding_bits digits_of_groups(6) simp del: base64_out.simps(2)
        simp: base64_out_newline)
next
  case (3 a b ll)
  then show ?case
    using base64_out_quad [OF digits_of_groups(1) [of a] digits_of_groups(2) [of a b] digits_of_groups(3) [of b 0]
        digits_of_groups(5), where ch = ch and rest = "[10]"]
    unfolding encode_loop_groups(3) by (auto simp: quad_def join_bits padding_bits digits_of_groups(6) simp del: base64_out.simps(2)
        simp: base64_out_newline)
next
  case (4 ll)
  then show ?case unfolding encode_loop_groups(4) by (auto simp: digits_of_groups(6))
qed

lemma encode_loop_text: "0 \<notin> set (encode_loop d ll)"
proof -
  have "tab v \<noteq> 0" if "v < 64" for v
    using base64_digit_tab [OF that] by (auto simp: base64_digit_def)
  then show ?thesis
    by (induction d ll rule: encode_loop.induct) (auto simp: encode_loop_groups g_small split: if_splits)
qed

text \<open>
  C33: what hostapd's \<open>base64_encode\<close> writes, line feeds and padding included, \<open>decodeBase64\<close> turns
  back into the text that was encoded, for every text without NUL bytes.
\<close>

theorem decodeBase64_inverts_encode:
  assumes "base64_encode mem s = Some t" and "0 \<notin> set s"
  shows "\<exists>m. decodeBase64 (t @ [0]) = Some m \<and> cstr m = s"
proof -
  have t: "t = encode_loop s 0"
    using assms(1) by (simp add: base64_encode_def Let_def split: if_splits)
  then have "0 \<notin> set t" by (simp add: encode_loop_text)
  then have "decodeBase64 (t @ [0]) = Some (base64_out 0 0 t @ 0 # drop (length (base64_out 0 0 t) + 1) (t @ [0]))"
    unfolding decodeBase64_def using base64_loop_out [of 0 "t @ [0]" t "[]" 0 0 0] by simp
  moreover obtain e where "base64_out 0 0 t = s @ e" "set e \<subseteq> {0}"
    using base64_out_encoded [of 0 s 0] t by blast
  moreover have "cstr (s @ e @ 0 # z) = s" if "set e \<subseteq> {0}" for e z
    using that assms(2) by (cases e) (simp_all add: cstr_append)
  ultimately show ?thesis by simp
qed

theorem decodeBase64_inverts_encode_witness:
  "\<exists>m. decodeBase64 (encode_loop (ascii ''me:pw'') 0 @ [0]) = Some m \<and> cstr m = ascii ''me:pw''"
  by (rule decodeBase64_inverts_encode [of True])
    (simp_all add: base64_encode_def encode_size_def szadd_def ascii_def)

end
