(* ===== verification/HttpIo.thy ===== *)
theory HttpIo
  imports HttpText
begin

section \<open>Reading from the client (\<^verbatim>\<open>_read\<close> and \<^verbatim>\<open>_readline\<close> of \<^verbatim>\<open>httpd.c\<close>)\<close>

text \<open>
  The buffered reader of the HTTP server. What the socket does is a list of \<open>arrival\<close>s, one for each
  time the code waits: nothing came within the timeout, \<^verbatim>\<open>select\<close> failed, or \<open>Bytes bs\<close> were ready (none
  of them: the peer has closed). A \<^verbatim>\<open>read\<close> takes at most \<^verbatim>\<open>IO_BUFFER\<close> of them. An empty list is a
  client that stays silent.
\<close>

datatype arrival = Silence | SelectError | Bytes "u8 list"

definition IO_BUFFER :: nat where
  "IO_BUFFER = 256"

record iobuffer =
  level :: nat
  io_bytes :: "u8 list"

definition init_iobuffer :: iobuffer where
  "init_iobuffer = \<lparr>level = 0, io_bytes = replicate IO_BUFFER 0\<rparr>"

text \<open>The value of a call, or the end of the process by \<^verbatim>\<open>exit\<close>.\<close>

datatype call_result = Ret int | ExitProcess

text \<open>\<open>fill_iobuffer got\<close> is the buffer after \<^verbatim>\<open>read\<close> and \<^verbatim>\<open>memmove\<close>: the data is at the end.\<close>

definition fill_iobuffer :: "u8 list \<Rightarrow> iobuffer" where
  "fill_iobuffer got =
     \<lparr>level = length got,
      io_bytes = (let b = got @ replicate (IO_BUFFER - length got) 0
                  in take (IO_BUFFER - length got) b @ got)\<rparr>"

fun arrival_size :: "arrival \<Rightarrow> nat" where
  "arrival_size (Bytes bs) = length bs + 1"
| "arrival_size a = 1"

function read_loop ::
  "nat \<Rightarrow> u8 list \<Rightarrow> iobuffer \<Rightarrow> arrival list \<Rightarrow> call_result \<times> u8 list \<times> iobuffer \<times> arrival list" where
  "read_loop len buf io s =
     (if length buf < len then
        let i = min (level io) (len - length buf);
            buf = buf @ take i (drop (IO_BUFFER - level io) (io_bytes io));
            io = io\<lparr>level := level io - i\<rparr>
        in if length buf \<ge> len then (Ret (int (length buf)), buf, io, s)
           else case s of
             [] \<Rightarrow> (Ret (int (length buf)), buf, io, [])
           | Silence # s \<Rightarrow> (Ret (int (length buf)), buf, io, s)
           | SelectError # s \<Rightarrow> (ExitProcess, buf, io, s)
           | Bytes bs # s \<Rightarrow>
               if bs = [] then (Ret (- 1), buf, init_iobuffer, s)
               else read_loop len buf (fill_iobuffer (take IO_BUFFER bs))
                      (if length bs > IO_BUFFER then Bytes (drop IO_BUFFER bs) # s else s)
      else (Ret 0, buf, io, s))"
  by pat_completeness auto
termination
  by (relation "measure (\<lambda>(len, buf, io, s). sum_list (map arrival_size s))") (auto simp: IO_BUFFER_def)

definition http_read :: "nat \<Rightarrow> iobuffer \<Rightarrow> arrival list \<Rightarrow> call_result \<times> u8 list \<times> iobuffer \<times> arrival list" where
  "http_read len io s = read_loop len [] io s"

text \<open>
  \<^verbatim>\<open>_readline\<close>: \<open>n\<close> bytes of room are left and \<open>line\<close> has been read. The result holds what was stored;
  the rest of the caller's buffer is zero.
\<close>

fun readline_loop ::
  "nat \<Rightarrow> u8 list \<Rightarrow> iobuffer \<Rightarrow> arrival list \<Rightarrow> call_result \<times> u8 list \<times> iobuffer \<times> arrival list" where
  "readline_loop 0 line io s = (Ret (int (length line)), line, io, s)"
| "readline_loop (Suc n) line io s =
     (if line \<noteq> [] \<and> last line = 10 then (Ret (int (length line)), line, io, s)
      else case http_read 1 io s of
        (ExitProcess, c, io, s) \<Rightarrow> (ExitProcess, line, io, s)
      | (Ret r, c, io, s) \<Rightarrow>
          if r \<le> 0 then (Ret (- 1), line, io, s) else readline_loop n (line @ c) io s)"

definition readline :: "nat \<Rightarrow> iobuffer \<Rightarrow> arrival list \<Rightarrow> call_result \<times> u8 list \<times> iobuffer \<times> arrival list" where
  "readline len io s = readline_loop len [] io s"

declare read_loop.simps [simp del]

subsection \<open>What is still to be read\<close>

datatype item = Byte u8 | NoData | Failed | Closed

fun items_of :: "arrival \<Rightarrow> item list" where
  "items_of Silence = [NoData]"
| "items_of SelectError = [Failed]"
| "items_of (Bytes bs) = (if bs = [] then [Closed] else map Byte bs)"

definition buffered :: "iobuffer \<Rightarrow> u8 list" where
  "buffered io = drop (IO_BUFFER - level io) (io_bytes io)"

definition incoming :: "iobuffer \<Rightarrow> arrival list \<Rightarrow> item list" where
  "incoming io s = map Byte (buffered io) @ concat (map items_of s)"

definition io_ok :: "iobuffer \<Rightarrow> bool" where
  "io_ok io = (length (io_bytes io) = IO_BUFFER \<and> level io \<le> IO_BUFFER)"

lemma io_ok_init [simp]: "io_ok init_iobuffer"
  by (simp add: io_ok_def init_iobuffer_def)

lemma buffered_init [simp]: "buffered init_iobuffer = []"
  by (simp add: buffered_def init_iobuffer_def)

lemma fill_ok: "length got \<le> IO_BUFFER \<Longrightarrow> io_ok (fill_iobuffer got) \<and> buffered (fill_iobuffer got) = got"
  by (simp add: io_ok_def fill_iobuffer_def buffered_def Let_def)

lemma length_buffered: "io_ok io \<Longrightarrow> length (buffered io) = level io"
  by (simp add: io_ok_def buffered_def)

text \<open>Reading one byte: the next item, whatever the buffer and the chunks are.\<close>

fun next_byte :: "item list \<Rightarrow> call_result \<times> u8 list \<times> item list" where
  "next_byte [] = (Ret 0, [], [])"
| "next_byte (Byte b # r) = (Ret 1, [b], r)"
| "next_byte (NoData # r) = (Ret 0, [], r)"
| "next_byte (Failed # r) = (ExitProcess, [], r)"
| "next_byte (Closed # r) = (Ret (- 1), [], r)"

lemma http_read_buffered:
  assumes "io_ok io" and "buffered io = b # r"
  shows "http_read 1 io s = (Ret 1, [b], io\<lparr>level := level io - 1\<rparr>, s)"
    and "io_ok (io\<lparr>level := level io - 1\<rparr>)" and "buffered (io\<lparr>level := level io - 1\<rparr>) = r"
proof -
  have l: "level io = Suc (length r)" using length_buffered [OF assms(1)] assms(2) by simp
  then have "buffered (io\<lparr>level := level io - 1\<rparr>) = tl (buffered io)"
    using assms(1) unfolding buffered_def io_ok_def by (simp add: Suc_diff_Suc [symmetric] drop_Suc tl_drop)
  then show "buffered (io\<lparr>level := level io - 1\<rparr>) = r" using assms(2) by simp
  show "io_ok (io\<lparr>level := level io - 1\<rparr>)" using assms(1) l by (simp add: io_ok_def)
  show "http_read 1 io s = (Ret 1, [b], io\<lparr>level := level io - 1\<rparr>, s)"
    using l assms(2) by (simp add: http_read_def read_loop.simps Let_def min_def buffered_def)
qed

lemma read_buffered:
  assumes "io_ok io" and "buffered io = b # r"
  shows "\<exists>io'. read_loop 1 [] io s = (Ret 1, [b], io', s) \<and> io_ok io' \<and> buffered io' = r"
  using http_read_buffered [OF assms] unfolding http_read_def by blast

lemma http_read_one:
  assumes "io_ok io"
  shows "\<exists>r c io' s'. http_read 1 io s = (r, c, io', s') \<and> io_ok io' \<and>
    next_byte (incoming io s) = (r, c, incoming io' s')"
proof (cases "buffered io")
  case (Cons b r)
  then show ?thesis
    using read_buffered [OF assms Cons, of s] by (auto simp: http_read_def incoming_def)
next
  case Nil
  then have l: "level io = 0" using length_buffered [OF assms] by simp
  have step: "read_loop 1 [] io s = (case s of
             [] \<Rightarrow> (Ret 0, [], io, [])
           | Silence # s \<Rightarrow> (Ret 0, [], io, s)
           | SelectError # s \<Rightarrow> (ExitProcess, [], io, s)
           | Bytes bs # s \<Rightarrow>
               if bs = [] then (Ret (- 1), [], init_iobuffer, s)
               else read_loop 1 [] (fill_iobuffer (take IO_BUFFER bs))
                      (if length bs > IO_BUFFER then Bytes (drop IO_BUFFER bs) # s else s))"
  proof -
    have "io\<lparr>level := 0\<rparr> = io" using l by simp
    then show ?thesis
      using l by (subst read_loop.simps) (simp add: Let_def split: list.split arrival.split)
  qed
  show ?thesis
  proof (cases s)
    case s: (Cons a s')
    show ?thesis
    proof (cases a)
      case (Bytes bs)
      show ?thesis
      proof (cases bs)
        case Nil': Nil
        then show ?thesis using s Bytes step Nil by (simp add: http_read_def incoming_def)
      next
        case bs: (Cons b bs')
        let ?io = "fill_iobuffer (take IO_BUFFER bs)"
        let ?s = "if length bs > IO_BUFFER then Bytes (drop IO_BUFFER bs) # s' else s'"
        have ok: "io_ok ?io" "buffered ?io = b # take (IO_BUFFER - 1) bs'"
          using fill_ok [of "take IO_BUFFER bs"] bs by (simp_all add: IO_BUFFER_def)
        obtain io' where io': "read_loop 1 [] ?io ?s = (Ret 1, [b], io', ?s)" "io_ok io'"
            "buffered io' = take (IO_BUFFER - 1) bs'"
          using read_buffered [OF ok, of ?s] by blast
        have "map Byte (take (IO_BUFFER - 1) bs') @ concat (map items_of ?s) = map Byte bs' @ concat (map items_of s')"
          using bs by (auto simp: IO_BUFFER_def append_assoc [symmetric] map_append [symmetric]
              simp del: append_assoc map_append)
        moreover have "http_read 1 io s = (Ret 1, [b], io', ?s)"
        proof -
          have "bs \<noteq> []" using bs by simp
          then have "read_loop 1 [] io s = read_loop 1 [] ?io ?s" using step s Bytes by simp
          then show ?thesis by (simp only: http_read_def io'(1))
        qed
        ultimately show ?thesis
          using s Bytes bs Nil io'(2,3) by (intro exI conjI) (auto simp: incoming_def)
      qed
    qed (use s step Nil assms in \<open>simp_all add: http_read_def incoming_def\<close>)
  qed (use step Nil assms in \<open>simp add: http_read_def incoming_def\<close>)
qed

subsection \<open>Lines do not depend on the chunks\<close>

fun line_of :: "nat \<Rightarrow> u8 list \<Rightarrow> item list \<Rightarrow> call_result \<times> u8 list \<times> item list" where
  "line_of 0 line r = (Ret (int (length line)), line, r)"
| "line_of (Suc n) line r =
     (if line \<noteq> [] \<and> last line = 10 then (Ret (int (length line)), line, r)
      else case r of
        Byte b # r \<Rightarrow> line_of n (line @ [b]) r
      | Failed # r \<Rightarrow> (ExitProcess, line, r)
      | _ \<Rightarrow> (Ret (- 1), line, tl r))"

lemma readline_loop_line_of:
  "io_ok io \<Longrightarrow> case readline_loop n line io s of
     (r, l, io', s') \<Rightarrow> io_ok io' \<and> (r, l, incoming io' s') = line_of n line (incoming io s)"
proof (induction n arbitrary: line io s)
  case (Suc n)
  show ?case
  proof (cases "line \<noteq> [] \<and> last line = 10")
    case True
    then show ?thesis using Suc.prems by simp
  next
    case False
    obtain r c io' s' where r: "http_read 1 io s = (r, c, io', s')" "io_ok io'"
        "next_byte (incoming io s) = (r, c, incoming io' s')"
      using http_read_one [OF Suc.prems, of s] by blast
    show ?thesis
      using False r Suc.IH [OF r(2), of "line @ c" s']
      by (cases "incoming io s" rule: next_byte.cases) (auto split: prod.splits)
  qed
qed simp

fun first_line :: "nat \<Rightarrow> u8 list \<Rightarrow> u8 list option" where
  "first_line 0 p = Some []"
| "first_line (Suc n) [] = None"
| "first_line (Suc n) (c # p) = (if c = 10 then Some [10] else map_option (Cons c) (first_line n p))"

lemma first_line_numeral [simp]:
  "first_line (numeral k) [] = None"
  "first_line (numeral k) (c # p) = (if c = 10 then Some [10] else map_option (Cons c) (first_line (pred_numeral k) p))"
  by (simp_all add: numeral_eq_Suc)

lemma line_of_first_line:
  "first_line n p = Some l \<Longrightarrow> line \<noteq> [] \<longrightarrow> last line \<noteq> 10 \<Longrightarrow>
   line_of n line (map Byte p @ r) = (Ret (int (length (line @ l))), line @ l, map Byte (drop (length l) p) @ r)"
proof (induction n p arbitrary: l line rule: first_line.induct)
  case (3 n c p)
  show ?case
  proof (cases "c = 10")
    case True
    then show ?thesis using 3(2,3) by (cases n) auto
  next
    case False
    then obtain k where "first_line n p = Some k" "l = c # k" using 3(2) by auto
    then show ?thesis using 3(1) [OF False, of k "line @ [c]"] 3(3) False by auto
  qed
qed simp_all

lemma line_of_incomplete:
  assumes "r = [] \<or> hd r \<noteq> Byte b \<and> (\<forall>b. hd r \<noteq> Byte b)"
  shows "first_line n p = None \<Longrightarrow> line \<noteq> [] \<longrightarrow> last line \<noteq> 10 \<Longrightarrow>
    fst (line_of n line (map Byte p @ r)) = (if r \<noteq> [] \<and> hd r = Failed then ExitProcess else Ret (- 1))"
proof (induction n p arbitrary: line rule: first_line.induct)
  case (2 n)
  then show ?case using assms by (cases r) (auto split: item.splits)
next
  case (3 n c p)
  then show ?case by (auto split: if_splits)
qed simp

lemma first_line_nonempty: "first_line (Suc n) p = Some l \<Longrightarrow> l \<noteq> []"
  by (cases p) (auto split: if_splits)

text \<open>
  C30: \<open>_readline\<close> hands out the first line of the bytes the client has sent (cut at the size of the
  buffer) and leaves all bytes after it for the next call, however the bytes were split into segments
  and whatever of them already was in the buffer. If the bytes end before the line does, because the
  client stays silent, closes, or the wait fails, no line is handed out.
\<close>

theorem readline_any_chunks:
  assumes "io_ok io" and "incoming io s = map Byte p @ r" and "\<nexists>b. r \<noteq> [] \<and> hd r = Byte b"
  shows "case first_line len p of
      Some l \<Rightarrow> \<exists>io' s'. readline len io s = (Ret (int (length l)), l, io', s') \<and> io_ok io' \<and>
        incoming io' s' = map Byte (drop (length l) p) @ r
    | None \<Rightarrow> fst (readline len io s) = (if r \<noteq> [] \<and> hd r = Failed then ExitProcess else Ret (- 1))"
proof (cases "first_line len p")
  case None
  then show ?thesis
    using readline_loop_line_of [OF assms(1), of len "[]" s] line_of_incomplete [of r _ len p "[]"] assms(2,3)
    by (auto simp: readline_def split: prod.splits) (metis fst_conv)+
next
  case (Some l)
  then show ?thesis
    using readline_loop_line_of [OF assms(1), of len "[]" s] line_of_first_line [OF Some, of "[]" r] assms(2)
    by (auto simp: readline_def split: prod.splits)
qed

theorem readline_any_chunks_witness:
  "\<exists>io s. readline 1023 init_iobuffer [Bytes (ascii ''GE''), Bytes (ascii ''T'' @ [13, 10] @ ascii ''Ho'')] =
     (Ret 5, ascii ''GET'' @ [13, 10], io, s) \<and> incoming io s = map Byte (ascii ''Ho'')"
proof -
  have "first_line 1023 (ascii ''GET'' @ [13, 10] @ ascii ''Ho'') = Some (ascii ''GET'' @ [13, 10])"
    by (simp add: ascii_def)
  then show ?thesis
    using readline_any_chunks [of init_iobuffer "[Bytes (ascii ''GE''), Bytes (ascii ''T'' @ [13, 10] @ ascii ''Ho'')]"
        "ascii ''GET'' @ [13, 10] @ ascii ''Ho''" "[]" 1023]
    by (auto simp: incoming_def ascii_def)
qed

subsection \<open>Contract: a reader that refines a specification\<close>

text \<open>
  Each call hands out what the specification says for the abstract input; so two states with the same
  abstract input are read alike for ever.
\<close>

locale input_reader =
  fixes step :: "'s \<Rightarrow> 'r \<times> 's"
    and abs :: "'s \<Rightarrow> 'a"
    and ok :: "'s \<Rightarrow> bool"
    and spec :: "'a \<Rightarrow> 'r \<times> 'a"
  assumes step_spec: "ok s \<Longrightarrow> (fst (step s), abs (snd (step s))) = spec (abs s)"
    and step_ok: "ok s \<Longrightarrow> ok (snd (step s))"
begin

lemma same_step:
  assumes "ok s" "ok t" "abs s = abs t"
  shows "fst (step s) = fst (step t) \<and> abs (snd (step s)) = abs (snd (step t)) \<and>
    ok (snd (step s)) \<and> ok (snd (step t))"
  using step_spec [OF assms(1)] step_spec [OF assms(2)] assms step_ok by (metis prod.inject)

end

definition read_line_step :: "nat \<Rightarrow> iobuffer \<times> arrival list \<Rightarrow> (call_result \<times> u8 list) \<times> (iobuffer \<times> arrival list)" where
  "read_line_step len x = (case readline len (fst x) (snd x) of (r, l, y) \<Rightarrow> ((r, l), y))"

interpretation http_lines:
  input_reader "read_line_step len" "\<lambda>x. incoming (fst x) (snd x)" "\<lambda>x. io_ok (fst x)"
    "\<lambda>r. case line_of len [] r of (x, l, r') \<Rightarrow> ((x, l), r')"
proof
  fix x :: "iobuffer \<times> arrival list"
  assume "io_ok (fst x)"
  from readline_loop_line_of [OF this, of len "[]" "snd x"]
  show "(fst (read_line_step len x), incoming (fst (snd (read_line_step len x))) (snd (snd (read_line_step len x)))) =
      (case line_of len [] (incoming (fst x) (snd x)) of (x, l, r') \<Rightarrow> ((x, l), r'))"
    and "io_ok (fst (snd (read_line_step len x)))"
    by (auto simp: read_line_step_def readline_def split: prod.splits)
qed

subsection \<open>Each line uses up input\<close>

definition io_size :: "iobuffer \<Rightarrow> arrival list \<Rightarrow> nat" where
  "io_size io s = level io + sum_list (map arrival_size s)"

lemma read_loop_size:
  "read_loop len buf io s = (r, buf', io', s') \<Longrightarrow>
   io_size io' s' + (length buf' - length buf) \<le> io_size io s \<and> length buf \<le> length buf'"
proof (induction len buf io s rule: read_loop.induct)
  case (1 len buf io s)
  show ?case
  proof (cases "length buf < len")
    case False
    then show ?thesis using 1(2) by (simp add: read_loop.simps)
  next
    case True
    define i where "i = min (level io) (len - length buf)"
    define buf1 where "buf1 = buf @ take i (drop (IO_BUFFER - level io) (io_bytes io))"
    define io1 where "io1 = io\<lparr>level := level io - i\<rparr>"
    have l: "level io1 + (length buf1 - length buf) \<le> level io" "length buf \<le> length buf1"
      by (simp_all add: io1_def buf1_def i_def)
    note step = 1(2) [unfolded read_loop.simps [of len buf], folded i_def, unfolded Let_def, folded buf1_def io1_def]
    show ?thesis
    proof (cases "length buf1 \<ge> len")
      case full: True
      then show ?thesis using step True l by (auto simp: io_size_def)
    next
      case more: False
      show ?thesis
      proof (cases s)
        case Nil
        then show ?thesis using step True more l by (auto simp: io_size_def)
      next
        case s: (Cons a t)
        show ?thesis
        proof (cases a)
          case (Bytes bs)
          show ?thesis
          proof (cases "bs = []")
            case True': True
            then show ?thesis using step True more l s Bytes by (auto simp: io_size_def init_iobuffer_def)
          next
            case False
            let ?t = "if length bs > IO_BUFFER then Bytes (drop IO_BUFFER bs) # t else t"
            have rec: "read_loop len buf1 (fill_iobuffer (take IO_BUFFER bs)) ?t = (r, buf', io', s')"
              using step True more s Bytes False by simp
            have "io_size io' s' + (length buf' - length buf1) \<le> io_size (fill_iobuffer (take IO_BUFFER bs)) ?t \<and>
                length buf1 \<le> length buf'"
              by (rule "1.IH" [OF True i_def buf1_def io1_def more s Bytes False rec])
            moreover have "io_size (fill_iobuffer (take IO_BUFFER bs)) ?t \<le> sum_list (map arrival_size s)"
              using s Bytes by (auto simp: io_size_def fill_iobuffer_def)
            ultimately show ?thesis using l by (auto simp: io_size_def)
          qed
        qed (use step True more l s in \<open>auto simp: io_size_def\<close>)
      qed
    qed
  qed
qed

lemma http_read_size:
  "http_read len io s = (r, c, io', s') \<Longrightarrow> io_size io' s' + length c \<le> io_size io s"
  using read_loop_size [of len "[]" io s r c io' s'] by (simp add: http_read_def)

lemma readline_loop_size:
  "readline_loop n line io s = (Ret r, l, io', s') \<Longrightarrow> r > 0 \<Longrightarrow>
   io_size io' s' + length l \<le> io_size io s + length line \<and> r = int (length l)"
proof (induction n arbitrary: line io s)
  case (Suc n)
  show ?case
  proof (cases "line \<noteq> [] \<and> last line = 10")
    case True
    then show ?thesis using Suc.prems by auto
  next
    case False
    obtain q c io1 s1 where q: "http_read 1 io s = (q, c, io1, s1)" by (metis prod_cases4)
    then obtain k where k: "q = Ret k" "0 < k" and rec: "readline_loop n (line @ c) io1 s1 = (Ret r, l, io', s')"
      using Suc.prems False by (auto split: call_result.splits if_splits)
    show ?thesis using Suc.IH [OF rec Suc.prems(2)] http_read_size [OF q] by simp
  qed
qed auto

lemma readline_size:
  assumes "readline n io s = (Ret r, l, io', s')" and "r > 0"
  shows "io_size io' s' < io_size io s"
proof -
  have "io_size io' s' + length l \<le> io_size io s" "r = int (length l)"
    using readline_loop_size [of n "[]" io s r l io' s'] assms by (simp_all add: readline_def)
  then show ?thesis using assms(2) by linarith
qed

subsection \<open>A line that arrives in one segment\<close>

lemma readline_loop_buffered:
  assumes "io_ok io" and "buffered io = t @ [10]" and "10 \<notin> set t" and "line = [] \<or> last line \<noteq> 10" and "length t < n"
  shows "readline_loop n line io s = (Ret (int (length (line @ t @ [10]))), line @ t @ [10], io\<lparr>level := 0\<rparr>, s)"
  using assms
proof (induction t arbitrary: n line io)
  case Nil
  then obtain k where n: "n = Suc k" by (cases n) auto
  have "level io = 1" using length_buffered [OF Nil(1)] Nil(2) by simp
  then show ?case
    using http_read_buffered(1) [OF Nil(1), of 10 "[]" s] Nil n by (cases k) auto
next
  case (Cons b t)
  then obtain k where n: "n = Suc k" by (cases n) auto
  have b: "buffered io = b # t @ [10]" using Cons.prems(2) by simp
  have "readline_loop k (line @ [b]) (io\<lparr>level := level io - 1\<rparr>) s =
      (Ret (int (length ((line @ [b]) @ t @ [10]))), (line @ [b]) @ t @ [10], io\<lparr>level := level io - 1, level := 0\<rparr>, s)"
    using Cons.prems n by (intro Cons.IH http_read_buffered(2,3) [OF Cons.prems(1) b]) auto
  then show ?case
    using http_read_buffered(1) [OF Cons.prems(1) b, of s] Cons.prems(4) n by auto
qed

lemma readline_segment:
  assumes "level io = 0" and "10 \<notin> set t" and "length t < n" and "length t < 256"
  shows "readline n io (Bytes (t @ [10]) # s) =
    (Ret (int (length t + 1)), t @ [10], (fill_iobuffer (t @ [10]))\<lparr>level := 0\<rparr>, s)"
proof -
  have f: "io_ok (fill_iobuffer (t @ [10]))" "buffered (fill_iobuffer (t @ [10])) = t @ [10]"
    using fill_ok [of "t @ [10]"] assms(4) by (simp_all add: IO_BUFFER_def)
  have "http_read 1 io (Bytes (t @ [10]) # s) = http_read 1 (fill_iobuffer (t @ [10])) s"
    using assms(1,4) unfolding http_read_def
    by (subst read_loop.simps) (simp add: Let_def IO_BUFFER_def)
  then have "readline_loop n [] io (Bytes (t @ [10]) # s) = readline_loop n [] (fill_iobuffer (t @ [10])) s"
    using assms(3) by (cases n) simp_all
  then show ?thesis
    using readline_loop_buffered [OF f, where line = "[]" and n = n and s = s] assms(2,3) by (simp add: readline_def)
qed

end
