(* ===== verification/HttpReply.thy ===== *)
theory HttpReply
  imports HttpIo
begin

section \<open>The answers of the HTTP server (\<^verbatim>\<open>send_*\<close>, \<^verbatim>\<open>execute_cgi\<close> and \<^verbatim>\<open>command\<close> of \<^verbatim>\<open>httpd.c\<close>)\<close>

text \<open>
  A client thread is a function on \<open>http_client\<close>: what the socket still brings, the read buffer, which
  of the next allocations and writes succeed (all, when the list is empty), and a log of everything
  the thread has done to the outside. \<open>Overrun s cap n\<close> in the log is a \<^verbatim>\<open>sprintf\<close> of \<open>n\<close> bytes into
  the \<open>cap\<close> bytes of the array or allocation \<open>s\<close>. Code outside the plugin is in \<open>http_env\<close>: the other plugins and their commands,
  the pictures each input delivers (\<open>ticks\<close>), the files, what a script prints, and \<open>junk\<close>, what the memory
  after an unterminated string holds. The build is the default one (neither \<^verbatim>\<open>MANAGMENT\<close> nor
  \<^verbatim>\<open>WXP_COMPAT\<close>).
\<close>

datatype site = ReplyBuffer | CommandLine | JsonBuffer | MenuString | NumberBuffer | ResolutionString

datatype http_event =
    Received "u8 list"
  | Wrote "u8 list"
  | Opened "u8 list"
  | ClosedFile
  | Executed "u8 list"
  | ClosedPipe
  | InputCmd int u32 u32 int "u8 list option"
  | OutputCmd int u32 u32 int "u8 list option"
  | Overrun site nat nat
  | ClosedConn

text \<open>How a thread ends: it returns, it waits for ever, it calls \<^verbatim>\<open>exit\<close>, it follows a null pointer.\<close>

datatype outcome = Finished | Blocked | Exited | Crashed

record frame =
  fr_data :: "u8 list"
  fr_sec :: int
  fr_usec :: int

text \<open>What the input plugin does while a thread waits: it signals a picture, or the program is stopped.\<close>

datatype tick = Frame frame | Stop

record config =
  port :: int
  credentials :: "u8 list option"
  www_folder :: "u8 list option"
  nocommands :: bool

text \<open>A control: the fields of \<^verbatim>\<open>struct v4l2_queryctrl\<close> that are printed, its value, menu and group.\<close>

record control =
  ctrl_id :: u32
  ctrl_type :: u32
  ctrl_name :: "u8 list"
  minimum :: int
  maximum :: int
  ctrl_step :: int
  ctrl_default :: int
  ctrl_flags :: u32
  ctrl_value :: int
  menuitems :: "(int \<Rightarrow> u8 list) option"
  ctrl_group :: int

record input_format =
  fmt_index :: u32
  description :: "u8 list"
  fmt_flags :: u32
  resolutions :: "(u32 \<times> u32) list"
  currentResolution :: u8

record plugin_info =
  plugin_id :: int
  plugin_name :: "u8 list option"
  plugin_file :: "u8 list option"
  plugin_args :: "u8 list option"
  controls :: "control list option"
  formats :: "input_format list option"

record http_env =
  conf :: config
  inputs :: "plugin_info list"
  outputs :: "plugin_info list"
  in_cmd :: "int \<Rightarrow> u32 \<Rightarrow> u32 \<Rightarrow> int \<Rightarrow> u8 list option \<Rightarrow> int"
  out_cmd :: "int \<Rightarrow> u32 \<Rightarrow> u32 \<Rightarrow> int \<Rightarrow> u8 list option \<Rightarrow> int"
  ticks :: "int \<Rightarrow> tick list"
  files :: "u8 list \<Rightarrow> u8 list option"
  scripts :: "u8 list \<Rightarrow> u8 list option"
  junk :: "u8 list"

definition incnt :: "http_env \<Rightarrow> int" where
  "incnt e = int (length (inputs e))"

definition outcnt :: "http_env \<Rightarrow> int" where
  "outcnt e = int (length (outputs e))"

record http_client =
  sock :: "arrival list"
  iob :: iobuffer
  mallocs :: "bool list"
  writes :: "bool list"
  hlog :: "http_event list"

definition emit :: "http_event \<Rightarrow> http_client \<Rightarrow> http_client" where
  "emit ev c = c\<lparr>hlog := hlog c @ [ev]\<rparr>"

definition alloc :: "http_client \<Rightarrow> bool \<times> http_client" where
  "alloc c = (case mallocs c of [] \<Rightarrow> (True, c) | ok # r \<Rightarrow> (ok, c\<lparr>mallocs := r\<rparr>))"

text \<open>\<^verbatim>\<open>write(fd, bs, |bs|)\<close>: false when it returns -1.\<close>

definition http_write :: "u8 list \<Rightarrow> http_client \<Rightarrow> bool \<times> http_client" where
  "http_write bs c =
     (case writes c of
        [] \<Rightarrow> (True, emit (Wrote bs) c)
      | ok # r \<Rightarrow> (ok, if ok then emit (Wrote bs) (c\<lparr>writes := r\<rparr>) else c\<lparr>writes := r\<rparr>))"

text \<open>A \<^verbatim>\<open>sprintf\<close> of \<open>text\<close> into \<open>cap\<close> bytes of memory.\<close>

definition print_into :: "site \<Rightarrow> nat \<Rightarrow> u8 list \<Rightarrow> http_client \<Rightarrow> http_client" where
  "print_into s cap text c = (if length text < cap then c else emit (Overrun s cap (length text + 1)) c)"

definition BUFFER_SIZE :: nat where
  "BUFFER_SIZE = 1024"

definition TEN_K :: nat where
  "TEN_K = 10 * 1024"

definition BOUNDARY :: "u8 list" where
  "BOUNDARY = ascii ''boundarydonotcross''"

definition text_line :: "string \<Rightarrow> u8 list" where
  "text_line s = ascii s @ [13, 10]"

definition STD_HEADER :: "u8 list" where
  "STD_HEADER = text_line ''Connection: close'' @
     text_line ''Server: MJPG-Streamer/0.2'' @
     text_line ''Cache-Control: no-store, no-cache, must-revalidate, pre-check=0, post-check=0, max-age=0'' @
     text_line ''Pragma: no-cache'' @
     text_line ''Expires: Mon, 3 Jan 2000 12:34:56 GMT''"

subsection \<open>\<^verbatim>\<open>send_error\<close>\<close>

definition error_text :: "int \<Rightarrow> u8 list \<Rightarrow> u8 list" where
  "error_text which message =
     (if which = 401 then
        text_line ''HTTP/1.0 401 Unauthorized'' @ text_line ''Content-type: text/plain'' @ STD_HEADER @
        text_line ''WWW-Authenticate: Basic realm=\"MJPG-Streamer\"'' @
        text_line '''' @ text_line ''401: Not Authenticated!'' @ message
      else if which = 404 then
        text_line ''HTTP/1.0 404 Not Found'' @ text_line ''Content-type: text/plain'' @ STD_HEADER @
        text_line '''' @ text_line ''404: Not Found!'' @ message
      else if which = 500 then
        text_line ''HTTP/1.0 500 Internal Server Error'' @ text_line ''Content-type: text/plain'' @ STD_HEADER @
        text_line '''' @ text_line ''500: Internal Server Error!'' @ message
      else if which = 400 then
        text_line ''HTTP/1.0 400 Bad Request'' @ text_line ''Content-type: text/plain'' @ STD_HEADER @
        text_line '''' @ text_line ''400: Not Found!'' @ message
      else if which = 403 then
        text_line ''HTTP/1.0 403 Forbidden'' @ text_line ''Content-type: text/plain'' @ STD_HEADER @
        text_line '''' @ text_line ''403: Forbidden!'' @ message
      else
        text_line ''HTTP/1.0 501 Not Implemented'' @ text_line ''Content-type: text/plain'' @ STD_HEADER @
        text_line '''' @ text_line ''501: Not Implemented!'' @ message)"

definition send_error :: "int \<Rightarrow> string \<Rightarrow> http_client \<Rightarrow> http_client" where
  "send_error which message c =
     (let text = error_text which (ascii message) in snd (http_write text (print_into ReplyBuffer BUFFER_SIZE text c)))"

subsection \<open>Pictures\<close>

text \<open>\<^verbatim>\<open>pthread_cond_wait\<close>: the next picture, if one ever comes.\<close>

fun next_frame :: "tick list \<Rightarrow> frame option" where
  "next_frame [] = None"
| "next_frame (Frame f # t) = Some f"
| "next_frame (Stop # t) = next_frame t"

definition snapshot_header :: "frame \<Rightarrow> u8 list" where
  "snapshot_header f =
     text_line ''HTTP/1.0 200 OK'' @ STD_HEADER @ text_line ''Content-type: image/jpeg'' @
     ascii ''X-Timestamp: '' @ fmt_d (s32 (fr_sec f)) @ ascii ''.'' @ fmt_06d (s32 (fr_usec f)) @ text_line '''' @ text_line ''''"

definition send_snapshot :: "http_env \<Rightarrow> int \<Rightarrow> http_client \<Rightarrow> outcome \<times> http_client" where
  "send_snapshot e input_number c =
     (case next_frame (ticks e input_number) of
        None \<Rightarrow> (Blocked, c)
      | Some f \<Rightarrow>
          (case alloc c of
             (False, c) \<Rightarrow> (Finished, send_error 500 ''not enough memory'' c)
           | (True, c) \<Rightarrow>
               (case http_write (snapshot_header f) (print_into ReplyBuffer BUFFER_SIZE (snapshot_header f) c) of
                  (False, c) \<Rightarrow> (Finished, c)
                | (True, c) \<Rightarrow> (Finished, snd (http_write (fr_data f) c)))))"

definition stream_header :: "u8 list" where
  "stream_header =
     text_line ''HTTP/1.0 200 OK'' @ STD_HEADER @
     ascii ''Content-Type: multipart/x-mixed-replace;boundary='' @ BOUNDARY @ text_line '''' @
     text_line '''' @ ascii ''--'' @ BOUNDARY @ text_line ''''"

definition part_header :: "frame \<Rightarrow> u8 list" where
  "part_header f =
     text_line ''Content-Type: image/jpeg'' @
     ascii ''Content-Length: '' @ fmt_d (s32 (int (length (fr_data f)))) @ text_line '''' @
     ascii ''X-Timestamp: '' @ fmt_d (s32 (fr_sec f)) @ ascii ''.'' @ fmt_06d (s32 (fr_usec f)) @ text_line '''' @ text_line ''''"

definition part_end :: "u8 list" where
  "part_end = text_line '''' @ ascii ''--'' @ BOUNDARY @ text_line ''''"

fun stream_loop :: "nat \<Rightarrow> tick list \<Rightarrow> http_client \<Rightarrow> outcome \<times> http_client" where
  "stream_loop max_frame_size [] c = (Blocked, c)"
| "stream_loop max_frame_size (Stop # t) c = (Finished, c)"
| "stream_loop max_frame_size (Frame f # t) c =
     (case (if length (fr_data f) > max_frame_size
            then (case alloc c of (ok, c) \<Rightarrow> (ok, length (fr_data f) + TEN_K, c))
            else (True, max_frame_size, c)) of
        (False, m, c) \<Rightarrow> (Finished, send_error 500 ''not enough memory'' c)
      | (True, m, c) \<Rightarrow>
          (case http_write (part_header f) (print_into ReplyBuffer BUFFER_SIZE (part_header f) c) of
             (False, c) \<Rightarrow> (Finished, c)
           | (True, c) \<Rightarrow>
               (case http_write (fr_data f) c of
                  (False, c) \<Rightarrow> (Finished, c)
                | (True, c) \<Rightarrow>
                    (case http_write part_end (print_into ReplyBuffer BUFFER_SIZE part_end c) of
                       (False, c) \<Rightarrow> (Finished, c)
                     | (True, c) \<Rightarrow> stream_loop m t c))))"

definition send_stream :: "http_env \<Rightarrow> int \<Rightarrow> http_client \<Rightarrow> outcome \<times> http_client" where
  "send_stream e input_number c =
     (case http_write stream_header (print_into ReplyBuffer BUFFER_SIZE stream_header c) of
        (False, c) \<Rightarrow> (Finished, c)
      | (True, c) \<Rightarrow> stream_loop 0 (ticks e input_number) c)"

subsection \<open>Files and scripts\<close>

definition mimetypes :: "(string \<times> string) list" where
  "mimetypes =
    [(''.html'', ''text/html''), (''.htm'', ''text/html''), (''.css'', ''text/css''), (''.js'', ''text/javascript''),
     (''.txt'', ''text/plain''), (''.jpg'', ''image/jpeg''), (''.jpeg'', ''image/jpeg''), (''.png'', ''image/png''),
     (''.gif'', ''image/gif''), (''.ico'', ''image/x-icon''), (''.swf'', ''application/x-shockwave-flash''),
     (''.cab'', ''application/x-shockwave-flash''), (''.jar'', ''application/java-archive''),
     (''.json'', ''application/json'')]"

definition mimetype_of :: "u8 list \<Rightarrow> u8 list option" where
  "mimetype_of extension = map_of (map (\<lambda>(x, m). (ascii x, ascii m)) mimetypes) extension"

fun last_dot :: "nat \<Rightarrow> nat \<Rightarrow> u8 list \<Rightarrow> nat" where
  "last_dot pos found [] = found"
| "last_dot pos found (b # s) = last_dot (pos + 1) (if b = 46 then pos else found) s"

text \<open>The two \<^verbatim>\<open>strncat\<close> of the folder and the name into a zeroed array of \<^verbatim>\<open>BUFFER_SIZE\<close> bytes.\<close>

definition file_path :: "u8 list \<Rightarrow> u8 list \<Rightarrow> u8 list" where
  "file_path folder name =
     (let b = take (BUFFER_SIZE - 1) folder in b @ take (BUFFER_SIZE - length b - 1) name)"

text \<open>The successive results of \<^verbatim>\<open>read(fd, buffer, n)\<close> on a file.\<close>

function blocks :: "nat \<Rightarrow> u8 list \<Rightarrow> u8 list list" where
  "blocks n xs = (if n = 0 \<or> xs = [] then [] else take n xs # blocks n (drop n xs))"
  by pat_completeness auto
termination by (relation "measure (\<lambda>(n, xs). length xs)") auto

fun copy_blocks :: "u8 list list \<Rightarrow> http_client \<Rightarrow> bool \<times> http_client" where
  "copy_blocks [] c = (True, c)"
| "copy_blocks (b # bs) c =
     (case http_write b c of (False, c) \<Rightarrow> (False, c) | (True, c) \<Rightarrow> copy_blocks bs c)"

definition file_header :: "u8 list \<Rightarrow> u8 list" where
  "file_header mimetype =
     text_line ''HTTP/1.0 200 OK'' @ ascii ''Content-type: '' @ mimetype @ text_line '''' @ STD_HEADER @ text_line ''''"

definition send_file :: "http_env \<Rightarrow> u8 list \<Rightarrow> u8 list option \<Rightarrow> http_client \<Rightarrow> http_client" where
  "send_file e folder parameter c =
     (let name = (case parameter of None \<Rightarrow> ascii ''index.html''
                  | Some p \<Rightarrow> if p = [] then ascii ''index.html'' else p);
          dot = last_dot 0 0 name
      in if dot = 0 then send_error 400 ''No file extension found'' c
         else case mimetype_of (drop dot name) of
           None \<Rightarrow> send_error 404 ''MIME-TYPE not known'' c
         | Some mimetype \<Rightarrow>
             (case files e (file_path folder name) of
                None \<Rightarrow> send_error 404 ''Could not open file'' c
              | Some content \<Rightarrow>
                  let c = emit (Opened (file_path folder name)) c;
                      c = print_into ReplyBuffer BUFFER_SIZE (file_header mimetype) c
                  in emit ClosedFile (snd (copy_blocks (file_header mimetype # blocks BUFFER_SIZE content) c))))"

definition quoted :: "u8 list \<Rightarrow> u8 list" where
  "quoted s = [34] @ s @ [34]"

definition cgi_text :: "u8 list \<Rightarrow> u8 list \<Rightarrow> u8 list \<Rightarrow> u8 list \<Rightarrow> u8 list" where
  "cgi_text p script query path =
     ascii ''SERVER_SOFTWARE='' @ quoted (ascii ''mjpg-streamer'') @
     ascii '' SERVER_PROTOCOL='' @ quoted (ascii ''HTTP/1.1'') @
     ascii '' SERVER_PORT='' @ quoted p @
     ascii '' GATEWAY_INTERFACE='' @ quoted (ascii ''CGI/1.1'') @
     ascii '' REQUEST_METHOD='' @ quoted (ascii ''GET'') @
     ascii '' SCRIPT_NAME='' @ quoted script @
     ascii '' QUERY_STRING='' @ quoted query @ ascii '' '' @ path"

text \<open>The length of the format string: the text with \<^verbatim>\<open>%d\<close> and \<^verbatim>\<open>%s\<close> in it.\<close>

definition cgi_format :: "u8 list" where
  "cgi_format = cgi_text (ascii ''%d'') (ascii ''%s'') (ascii ''%s'') (ascii ''%s'')"

text \<open>
  \<open>query\<close> is the memory of \<^verbatim>\<open>query_string\<close>, terminated or not. The folder is not checked: without one,
  \<^verbatim>\<open>strncat\<close> follows a null pointer.
\<close>

definition execute_cgi :: "http_env \<Rightarrow> u8 list \<Rightarrow> u8 list \<Rightarrow> http_client \<Rightarrow> outcome \<times> http_client" where
  "execute_cgi e parameter query c =
     (case www_folder (conf e) of
        None \<Rightarrow> (Crashed, c)
      | Some folder \<Rightarrow>
        let path = file_path folder parameter
        in case files e path of
             None \<Rightarrow> (Finished, send_error 404 ''Could not open file'' c)
           | Some content \<Rightarrow>
               let c = emit (Opened path) c;
                   buffer_length = length path + length cgi_format + length parameter + 256
               in case alloc c of
                    (False, c) \<Rightarrow> (Exited, c)
                  | (True, c) \<Rightarrow>
                      let text = cgi_text (fmt_d (port (conf e))) parameter (cstr (query @ junk e)) path;
                          c = print_into CommandLine buffer_length text c
                      in case scripts e text of
                           None \<Rightarrow> (Finished, send_error 403 ''CGI script cannot be executed'' c)
                         | Some printed \<Rightarrow>
                             (case copy_blocks (blocks 4 printed) (emit (Executed text) c) of
                                (True, c) \<Rightarrow> (Finished, c)
                              | (False, c) \<Rightarrow> (Finished, emit ClosedPipe c)))"

subsection \<open>\<^verbatim>\<open>command\<close>\<close>

definition word_chars :: "u8 list" where
  "word_chars = ascii ''abcdefghijklmnopqrstuvwxyzABCDEFGHIJKLMNOPQRSTUVWXYZ_1234567890''"

definition number_chars :: "u8 list" where
  "number_chars = ascii ''-1234567890''"

text \<open>
  One optional number of a command: \<open>None\<close> when memory is out, otherwise the number, and the pointer
  after \<open>key\<close> if \<open>key\<close> is there.
\<close>

definition number_arg ::
  "string \<Rightarrow> int \<Rightarrow> u8 list \<Rightarrow> http_client \<Rightarrow> (int \<times> u8 list option) option \<times> http_client" where
  "number_arg key dflt parameter c =
     (case strstr parameter (ascii key) of
        None \<Rightarrow> (Some (dflt, None), c)
      | Some v \<Rightarrow>
          let v = drop (length key) v
          in case alloc c of
               (False, c) \<Rightarrow> (None, send_error 500 ''could not allocate memory'' c)
             | (True, c) \<Rightarrow> (Some (strtol10 (span_of v number_chars), Some v), c))"

definition command_reply :: "u8 list \<Rightarrow> int \<Rightarrow> u8 list" where
  "command_reply name res =
     text_line ''HTTP/1.0 200 OK'' @ text_line ''Content-type: text/plain'' @ STD_HEADER @ text_line '''' @
     name @ ascii '': '' @ fmt_d (s32 res)"

definition run_command ::
  "http_env \<Rightarrow> int \<Rightarrow> int \<Rightarrow> int \<Rightarrow> int \<Rightarrow> int \<Rightarrow> u8 list option \<Rightarrow> http_client \<Rightarrow> int \<times> http_client" where
  "run_command e dest plugin_no command_id cgroup ivalue value c =
     (if dest = 0 then
        if plugin_no < incnt e then
          (in_cmd e plugin_no (word_of_int command_id) (word_of_int cgroup) ivalue value,
           emit (InputCmd plugin_no (word_of_int command_id) (word_of_int cgroup) ivalue value) c)
        else (0, c)
      else if dest = 1 then
        if plugin_no < outcnt e then
          (out_cmd e plugin_no (word_of_int command_id) (word_of_int cgroup) ivalue value,
           emit (OutputCmd plugin_no (word_of_int command_id) (word_of_int cgroup) ivalue value) c)
        else (0, c)
      else (0, c))"

definition command :: "http_env \<Rightarrow> u8 list option \<Rightarrow> http_client \<Rightarrow> http_client" where
  "command e param c =
     (case param of
        None \<Rightarrow> send_error 400 ''Parameter-string of command does not look valid.'' c
      | Some parameter \<Rightarrow>
        if length parameter \<ge> 255 \<or> length parameter = 0 then
          send_error 400 ''Parameter-string of command does not look valid.'' c
        else case strstr parameter (ascii ''id='') of
          None \<Rightarrow> send_error 400 ''no GET variable \"id=...\" found, it is required to specify which command id to execute'' c
        | Some p \<Rightarrow>
            let name = span_of (drop 3 p) word_chars
            in case alloc c of
                 (False, c) \<Rightarrow> send_error 500 ''could not allocate memory'' c
               | (True, c) \<Rightarrow>
            (case alloc c of
               (False, c) \<Rightarrow> send_error 500 ''could not allocate memory'' c
             | (True, c) \<Rightarrow>
            (case number_arg ''value='' 0 parameter c of
               (None, c) \<Rightarrow> c
             | (Some (ivalue, _), c) \<Rightarrow>
            (case number_arg ''group='' 0 parameter c of
               (None, c) \<Rightarrow> c
             | (Some (cgroup, _), c) \<Rightarrow>
            (case number_arg ''dest='' 0 parameter c of
               (None, c) \<Rightarrow> c
             | (Some (dest, _), c) \<Rightarrow>
            (case number_arg ''plugin='' 0 parameter c of
               (None, c) \<Rightarrow> c
             | (Some (plugin_no, value), c) \<Rightarrow>
                 (case run_command e dest plugin_no (strtol10 (span_of name number_chars)) cgroup ivalue value c of
                    (res, c) \<Rightarrow>
                      snd (http_write (command_reply name res)
                             (print_into ReplyBuffer BUFFER_SIZE (command_reply name res) c)))))))))"

end
