(* ===== verification/HttpJson.thy ===== *)
theory HttpJson
  imports HttpReply
begin

section \<open>The descriptions of the plugins (\<^verbatim>\<open>send_input_JSON\<close>, \<^verbatim>\<open>send_output_JSON\<close>, \<^verbatim>\<open>send_program_JSON\<close>)\<close>

text \<open>
  The controls, picture formats and names of the loaded plugins as the server prints them. The texts
  are built in an array of 16 KB and, for menus and resolutions, in memory that grows with every item;
  each time, what is printed is compared with the room there is. A missing string is printed as
  \<^verbatim>\<open>(null)\<close>, as the C library of the platform does.
\<close>

definition V4L2_CTRL_TYPE_MENU :: u32 where
  "V4L2_CTRL_TYPE_MENU = 3"

definition JSON_SIZE :: nat where
  "JSON_SIZE = BUFFER_SIZE * 16"

text \<open>A line of a C literal ends with a line feed; \<open>quoted s\<close> is the text between quotation marks.\<close>

definition feed :: "u8 list" where
  "feed = [10]"

definition c_string :: "u8 list option \<Rightarrow> u8 list" where
  "c_string s = (case s of None \<Rightarrow> ascii ''(null)'' | Some t \<Rightarrow> cstr t)"

definition entry :: "string \<Rightarrow> u8 list \<Rightarrow> u8 list" where
  "entry key text = quoted (ascii key) @ ascii '': '' @ quoted text"

definition json_header :: "u8 list" where
  "json_header = file_header (ascii ''application/x-javascript'')"

subsection \<open>Controls\<close>

definition menu_item :: "int \<Rightarrow> u8 list \<Rightarrow> bool \<Rightarrow> u8 list" where
  "menu_item j name final =
     quoted (fmt_d j) @ ascii '': '' @ quoted name @ (if final then [] else ascii '', '')"

text \<open>
  The menu of an input control: \<open>menu\<close> is \<^verbatim>\<open>menuString\<close>, none for the null pointer. The result is none
  when memory is out; then nothing is sent at all.
\<close>

fun input_menu :: "(int \<Rightarrow> u8 list) \<Rightarrow> int \<Rightarrow> int list \<Rightarrow> u8 list option \<Rightarrow> http_client \<Rightarrow>
    (u8 list option) option \<times> http_client" where
  "input_menu names last_item [] menu c = (Some menu, c)"
| "input_menu names last_item (j # js) menu c =
     (let name = cstr (names j)
      in case alloc c of
           (False, c) \<Rightarrow> (None, c)
         | (True, c) \<Rightarrow>
             (case alloc c of
                (False, c) \<Rightarrow> (None, c)
              | (True, c) \<Rightarrow>
                  let old = (case menu of None \<Rightarrow> [] | Some m \<Rightarrow> m);
                      text = old @ menu_item j (check_JSON_string name) (j = last_item);
                      c = print_into MenuString (length old + length name + 6 + 5) text c
                  in input_menu names last_item js (Some text) c))"

text \<open>The menu of an output control: \<^verbatim>\<open>menuString\<close> starts as \<^verbatim>\<open>calloc(0, 0)\<close>.\<close>

fun output_menu :: "(int \<Rightarrow> u8 list) \<Rightarrow> int \<Rightarrow> int list \<Rightarrow> u8 list \<Rightarrow> http_client \<Rightarrow>
    u8 list option \<times> http_client" where
  "output_menu names last_item [] menu c = (Some menu, c)"
| "output_menu names last_item (j # js) menu c =
     (let name = cstr (names j)
      in case alloc c of
           (False, c) \<Rightarrow> (None, c)
         | (True, c) \<Rightarrow>
             let text = menu @ menu_item j name (j = last_item);
                 c = print_into MenuString (length menu + length name + 6) text c
             in output_menu names last_item js text c)"

definition control_text :: "control \<Rightarrow> int \<Rightarrow> u8 list" where
  "control_text k dest =
     ascii ''{'' @ feed @
     entry ''name'' (cstr (ctrl_name k)) @ ascii '','' @ feed @
     entry ''id'' (fmt_d (sint (ctrl_id k))) @ ascii '','' @ feed @
     entry ''type'' (fmt_d (sint (ctrl_type k))) @ ascii '','' @ feed @
     entry ''min'' (fmt_d (minimum k)) @ ascii '','' @ feed @
     entry ''max'' (fmt_d (maximum k)) @ ascii '','' @ feed @
     entry ''step'' (fmt_d (ctrl_step k)) @ ascii '','' @ feed @
     entry ''default'' (fmt_d (ctrl_default k)) @ ascii '','' @ feed @
     entry ''value'' (fmt_d (ctrl_value k)) @ ascii '','' @ feed @
     entry ''dest'' (fmt_d dest) @ ascii '','' @ feed @
     entry ''flags'' (fmt_d (sint (ctrl_flags k))) @ ascii '','' @ feed @
     entry ''group'' (fmt_d (ctrl_group k))"

definition control_end :: "control \<Rightarrow> u8 list \<Rightarrow> bool \<Rightarrow> u8 list" where
  "control_end k menu final =
     (if ctrl_type k = V4L2_CTRL_TYPE_MENU then
        ascii '','' @ feed @ quoted (ascii ''menu'') @ ascii '': {'' @ menu @ ascii ''}'' @ feed @ ascii ''}''
      else feed @ ascii ''}'') @
     (if final then [] else ascii '','' @ feed)"

fun input_controls :: "control list \<Rightarrow> u8 list \<Rightarrow> http_client \<Rightarrow> u8 list option \<times> http_client" where
  "input_controls [] buffer c = (Some buffer, c)"
| "input_controls (k # ks) buffer c =
     (case (case menuitems k of
              Some names \<Rightarrow>
                if ctrl_type k = V4L2_CTRL_TYPE_MENU
                then input_menu names (maximum k) [minimum k..maximum k] None c else (Some None, c)
            | None \<Rightarrow> (Some None, c)) of
        (None, c) \<Rightarrow> (None, c)
      | (Some menu, c) \<Rightarrow>
          input_controls ks (buffer @ control_text k 0 @ control_end k (c_string menu) (ks = [])) c)"

fun output_controls :: "control list \<Rightarrow> u8 list \<Rightarrow> http_client \<Rightarrow> u8 list option \<times> http_client" where
  "output_controls [] buffer c = (Some buffer, c)"
| "output_controls (k # ks) buffer c =
     (case (case menuitems k of
              Some names \<Rightarrow>
                if ctrl_type k = V4L2_CTRL_TYPE_MENU
                then output_menu names (maximum k) [minimum k..maximum k] [] c else (Some [], c)
            | None \<Rightarrow> (Some [], c)) of
        (None, c) \<Rightarrow> (None, c)
      | (Some menu, c) \<Rightarrow>
          output_controls ks (buffer @ control_text k 1 @ control_end k menu (ks = [])) c)"

subsection \<open>Formats\<close>

definition resolution_item :: "int \<Rightarrow> u32 \<Rightarrow> u32 \<Rightarrow> bool \<Rightarrow> u8 list" where
  "resolution_item j w h final =
     quoted (fmt_d j) @ ascii '': '' @ quoted (fmt_d (sint w) @ ascii ''x'' @ fmt_d (sint h)) @
     (if final then [] else ascii '', '')"

text \<open>
  \<open>len\<close> is \<^verbatim>\<open>resolutionsStringLength\<close>; the numbers are first printed into \<^verbatim>\<open>buffer_num\<close>, six bytes long. The
  memory has \<^verbatim>\<open>sizeof(char *)\<close>, four, bytes for each counted character.
\<close>

fun resolution_list :: "int \<Rightarrow> (u32 \<times> u32) list \<Rightarrow> nat \<Rightarrow> u8 list option \<Rightarrow> http_client \<Rightarrow>
    (u8 list option) option \<times> http_client" where
  "resolution_list j [] len text c = (Some text, c)"
| "resolution_list j ((w, h) # rs) len text c =
     (let c = print_into NumberBuffer 6 (fmt_d (sint h)) (print_into NumberBuffer 6 (fmt_d (sint w)) (print_into NumberBuffer 6 (fmt_d j) c));
          len = len + length (fmt_d j) + length (fmt_d (sint w)) + length (fmt_d (sint h)) +
                (if rs = [] then 7 + 5 else 9 + 5)
      in case alloc c of
           (False, c) \<Rightarrow> (None, c)
         | (True, c) \<Rightarrow>
             let t = (case text of None \<Rightarrow> [] | Some t \<Rightarrow> t) @ resolution_item j w h (rs = []);
                 c = print_into ResolutionString (len * 4) t c
             in resolution_list (j + 1) rs len (Some t) c)"

definition truth :: "bool \<Rightarrow> u8 list" where
  "truth b = ascii (if b then ''true'' else ''false'')"

text \<open>\<^verbatim>\<open>currentResolution\<close> is a \<^verbatim>\<open>char\<close>, which has no sign on the platform.\<close>

definition has_current :: "input_format \<Rightarrow> bool" where
  "has_current f = (uint (currentResolution f) \<noteq> - 1)"

definition format_text :: "input_format \<Rightarrow> u8 list \<Rightarrow> bool \<Rightarrow> u8 list" where
  "format_text f res final =
     ascii ''{'' @ feed @
     entry ''id'' (fmt_d (sint (fmt_index f))) @ ascii '','' @ feed @
     entry ''name'' (cstr (description f)) @ ascii '','' @ feed @
     entry ''compressed'' (truth (fmt_flags f AND 1 \<noteq> 0)) @ ascii '','' @ feed @
     entry ''emulated'' (truth (fmt_flags f AND 2 \<noteq> 0)) @ ascii '','' @ feed @
     entry ''current'' (truth (has_current f)) @ ascii '','' @ feed @
     quoted (ascii ''resolutions'') @ ascii '': {'' @ res @ ascii ''}'' @ feed @
     (if has_current f then
        ascii '','' @ feed @ entry ''currentResolution'' (fmt_d (uint (currentResolution f))) @ feed
      else []) @
     (if final then ascii ''}'' @ feed else ascii ''},'' @ feed)"

fun format_list :: "input_format list \<Rightarrow> u8 list \<Rightarrow> http_client \<Rightarrow> u8 list option \<times> http_client" where
  "format_list [] buffer c = (Some buffer, c)"
| "format_list (f # fs) buffer c =
     (case resolution_list 0 (resolutions f) 0 None c of
        (None, c) \<Rightarrow> (None, c)
      | (Some res, c) \<Rightarrow> format_list fs (buffer @ format_text f (c_string res) (fs = [])) c)"

subsection \<open>The three files\<close>

definition send_json :: "u8 list \<Rightarrow> http_client \<Rightarrow> http_client" where
  "send_json buffer c = snd (http_write buffer (print_into JsonBuffer JSON_SIZE buffer c))"

definition controls_open :: "u8 list" where
  "controls_open = json_header @ ascii ''{'' @ feed @ quoted (ascii ''controls'') @ ascii '': ['' @ feed"

definition send_input_JSON :: "plugin_info \<Rightarrow> http_client \<Rightarrow> http_client" where
  "send_input_JSON p c =
     (case (case controls p of None \<Rightarrow> (Some controls_open, c) | Some ks \<Rightarrow> input_controls ks controls_open c) of
        (None, c) \<Rightarrow> c
      | (Some buffer, c) \<Rightarrow>
          let buffer = buffer @ feed @ ascii ''],'' @ feed @ quoted (ascii ''formats'') @ ascii '': ['' @ feed
          in case (case formats p of None \<Rightarrow> (Some buffer, c) | Some fs \<Rightarrow> format_list fs buffer c) of
               (None, c) \<Rightarrow> c
             | (Some buffer, c) \<Rightarrow> send_json (buffer @ feed @ ascii '']'' @ feed @ ascii ''}'' @ feed) c)"

definition send_output_JSON :: "plugin_info \<Rightarrow> http_client \<Rightarrow> http_client" where
  "send_output_JSON p c =
     (case (case controls p of None \<Rightarrow> (Some controls_open, c) | Some ks \<Rightarrow> output_controls ks controls_open c) of
        (None, c) \<Rightarrow> c
      | (Some buffer, c) \<Rightarrow> send_json (buffer @ feed @ ascii '']'' @ feed @ ascii ''}'' @ feed) c)"

definition plugin_text :: "plugin_info \<Rightarrow> u8 list" where
  "plugin_text p =
     ascii ''{'' @ feed @
     entry ''id'' (fmt_d (plugin_id p)) @ ascii '','' @ feed @
     entry ''name'' (c_string (plugin_name p)) @ ascii '','' @ feed @
     entry ''plugin'' (c_string (plugin_file p)) @ ascii '','' @ feed @
     entry ''args'' (c_string (plugin_args p)) @ feed @ ascii ''}''"

fun plugin_list :: "plugin_info list \<Rightarrow> u8 list" where
  "plugin_list [] = []"
| "plugin_list (p # ps) = plugin_text p @ (if ps = [] then feed else ascii '', '' @ feed) @ plugin_list ps"

definition send_program_JSON :: "plugin_info list \<Rightarrow> plugin_info list \<Rightarrow> http_client \<Rightarrow> http_client" where
  "send_program_JSON ins outs c =
     send_json (json_header @ ascii ''{'' @ feed @ quoted (ascii ''inputs'') @ ascii '':['' @ feed @
       plugin_list ins @ ascii ''],'' @ feed @ quoted (ascii ''outputs'') @ ascii '':['' @ feed @
       plugin_list outs @ ascii '']}'' @ feed) c"

end
