(* ===== verification/Httpd.thy ===== *)
theory Httpd
  imports HttpJson
begin

section \<open>A connection of the HTTP server (\<^verbatim>\<open>client_thread\<close> of \<^verbatim>\<open>httpd.c\<close>)\<close>

text \<open>
  From the request line to the close of the connection: what is asked for, the header lines with the
  credentials, the check of the credentials and of the plugin number, and the answer.
\<close>

datatype answer_t =
    A_UNKNOWN | A_SNAPSHOT | A_STREAM | A_COMMAND | A_FILE | A_CGI | A_TAKE
  | A_INPUT_JSON | A_OUTPUT_JSON | A_PROGRAM_JSON

text \<open>
  \<open>parameter\<close>, \<open>client\<close> and \<open>req_credentials\<close> are strings; \<open>query_string\<close> is the memory allocated for it,
  which is not always terminated.
\<close>

record request =
  req_type :: answer_t
  parameter :: "u8 list option"
  client :: "u8 list option"
  req_credentials :: "u8 list option"
  query_string :: "u8 list option"

definition init_request :: request where
  "init_request = \<lparr>req_type = A_UNKNOWN, parameter = None, client = None, req_credentials = None, query_string = None\<rparr>"

subsection \<open>The request line\<close>

definition url_chars :: "u8 list" where
  "url_chars = ascii ''abcdefghijklmnopqrstuvwxyzABCDEFGHIJKLMNOPQRSTUVWXYZ_-=&1234567890%./''"

definition file_chars :: "u8 list" where
  "file_chars = ascii ''abcdefghijklmnopqrstuvwxyzABCDEFGHIJKLMNOPQRSTUVWXYZ._-1234567890''"

definition query_chars :: "u8 list" where
  "query_chars = ascii ''abcdefghijklmnopqrstuvwxyzABCDEFGHIJKLMNOPQRSTUVWXYZ._-1234567890=&''"

definition close_conn :: "http_client \<Rightarrow> outcome \<times> http_client" where
  "close_conn c = (Finished, emit ClosedConn c)"

text \<open>The parameter of \<open>take\<close> and \<open>command\<close>: \<open>key\<close> is the known start of the request.\<close>

definition action_request ::
  "answer_t \<Rightarrow> string \<Rightarrow> u8 list \<Rightarrow> http_client \<Rightarrow> (outcome \<times> http_client) + (request \<times> http_client)" where
  "action_request t key line c =
     (case strstr line (ascii key) of
        None \<Rightarrow> Inl (close_conn (send_error 400 ''Malformed HTTP request'' c))
      | Some pb \<Rightarrow>
          let pb = drop (length key) pb;
              n = min (length (span_of pb url_chars)) 100
          in case alloc c of
               (False, c) \<Rightarrow> Inl (Exited, c)
             | (True, c) \<Rightarrow>
                 (case unescape (take n pb @ [0]) of
                    None \<Rightarrow> Inl (Crashed, c)
                  | Some (rc, m) \<Rightarrow>
                      if rc = - 1 then
                        Inl (close_conn (send_error 500 ''could not properly unescape command parameter string'' c))
                      else Inr (init_request\<lparr>req_type := t, parameter := Some (cstr m)\<rparr>, c)))"

definition file_request ::
  "u8 list \<Rightarrow> http_client \<Rightarrow> (outcome \<times> http_client) + (request \<times> http_client)" where
  "file_request line c =
     (case strstr line (ascii ''GET /'') of
        None \<Rightarrow> Inl (close_conn (send_error 400 ''Malformed HTTP request'' c))
      | Some pb \<Rightarrow>
          let pb = drop 5 pb;
              n = min (length (span_of pb file_chars)) 100
          in case alloc c of
               (False, c) \<Rightarrow> Inl (Exited, c)
             | (True, c) \<Rightarrow>
                 let r = init_request\<lparr>req_type := A_FILE, parameter := Some (take n pb)\<rparr>
                 in if strstr pb (ascii ''.cgi'') \<noteq> None then
                      (case alloc c of
                         (False, c) \<Rightarrow> Inl (Exited, c)
                       | (True, c) \<Rightarrow>
                           Inr (r\<lparr>req_type := A_CGI,
                                 query_string := Some (case strchr pb 63 of
                                     None \<Rightarrow> ascii '' '' @ [0]
                                   | Some q \<Rightarrow> span_of (drop 1 q) query_chars)\<rparr>, c))
                    else Inr (r, c))"

text \<open>The result says also whether the request may name a plugin (\<^verbatim>\<open>query_suffixed\<close>).\<close>

definition parse_request ::
  "u8 list \<Rightarrow> http_client \<Rightarrow> (outcome \<times> http_client) + (request \<times> bool \<times> http_client)" where
  "parse_request line c =
     (let has = (\<lambda>key. strstr line (ascii key) \<noteq> None);
          suffixed = (\<lambda>b x. case x of Inl z \<Rightarrow> Inl z | Inr (r, c) \<Rightarrow> Inr (r, b, c))
      in if has ''GET /?action=snapshot'' then Inr (init_request\<lparr>req_type := A_SNAPSHOT\<rparr>, True, c)
         else if has ''GET /?action=stream'' then Inr (init_request\<lparr>req_type := A_STREAM\<rparr>, True, c)
         else if has ''GET /?action=take'' then suffixed True (action_request A_TAKE ''GET /?action=take'' line c)
         else if has ''GET /input'' \<and> has ''.json'' then Inr (init_request\<lparr>req_type := A_INPUT_JSON\<rparr>, True, c)
         else if has ''GET /output'' \<and> has ''.json'' then Inr (init_request\<lparr>req_type := A_OUTPUT_JSON\<rparr>, True, c)
         else if has ''GET /program.json'' then Inr (init_request\<lparr>req_type := A_PROGRAM_JSON\<rparr>, False, c)
         else if has ''GET /?action=command'' then
           suffixed False (action_request A_COMMAND ''GET /?action=command'' line c)
         else suffixed False (file_request line c))"

text \<open>The digit after the first underscore of the request line; \<^verbatim>\<open>atoi\<close> of one character.\<close>

definition input_number_of :: "u8 list \<Rightarrow> int" where
  "input_number_of line =
     (case strchr line 95 of
        None \<Rightarrow> 0
      | Some s \<Rightarrow> (case drop 1 s of [] \<Rightarrow> 0 | d # _ \<Rightarrow> digits_value 0 [d]))"

subsection \<open>The header lines\<close>

text \<open>What one line, a C string, changes of the request; none when a null pointer is followed.\<close>

definition header_line :: "u8 list \<Rightarrow> request \<Rightarrow> http_client \<Rightarrow> request option \<times> http_client" where
  "header_line line r c =
     (if strstr line (ascii ''User-Agent: '') \<noteq> None then
        (case alloc c of (ok, c) \<Rightarrow> (Some (r\<lparr>client := if ok then Some (drop 12 line) else None\<rparr>), c))
      else if strstr line (ascii ''Authorization: Basic '') \<noteq> None then
        (case alloc c of
           (False, c) \<Rightarrow> (None, c)
         | (True, c) \<Rightarrow>
             (case decodeBase64 (drop 21 line @ [0]) of
                None \<Rightarrow> (None, c)
              | Some m \<Rightarrow> (Some (r\<lparr>req_credentials := Some (cstr m)\<rparr>), c)))
      else (Some r, c))"

lemma header_line_io: "header_line line r c = (r', c') \<Longrightarrow> iob c' = iob c \<and> sock c' = sock c"
  by (auto simp: header_line_def alloc_def split: if_splits prod.splits bool.splits option.splits list.splits)

lemma header_step:
  assumes "readline n (iob c) (sock c) = (Ret cnt, l, io, s)"
    and "header_line (cstr l) r (emit (Received l) (c\<lparr>iob := io, sock := s\<rparr>)) = (r', c')" and "2 < cnt"
  shows "io_size (iob c') (sock c') < io_size (iob c) (sock c)"
  using readline_size [OF assms(1)] header_line_io [OF assms(2)] assms(3) by (simp add: emit_def)

function header_loop :: "request \<Rightarrow> http_client \<Rightarrow> (outcome \<times> http_client) + (request \<times> http_client)" where
  "header_loop r c =
     (case readline (BUFFER_SIZE - 1) (iob c) (sock c) of
        (ExitProcess, l, io, s) \<Rightarrow> Inl (Exited, c\<lparr>iob := io, sock := s\<rparr>)
      | (Ret cnt, l, io, s) \<Rightarrow>
          if cnt = - 1 then Inl (close_conn (c\<lparr>iob := io, sock := s\<rparr>))
          else
            (case header_line (cstr l) r (emit (Received l) (c\<lparr>iob := io, sock := s\<rparr>)) of
               (None, c) \<Rightarrow> Inl (Crashed, c)
             | (Some r, c) \<Rightarrow>
                 if cnt > 2 \<and> \<not> (take 2 l = [13, 10]) then header_loop r c else Inr (r, c)))"
  by pat_completeness auto
termination
proof (relation "measure (\<lambda>(r, c). io_size (iob c) (sock c))")
qed (auto intro: header_step [OF sym sym])

subsection \<open>The answer\<close>

definition take_key :: "u8 list" where
  "take_key = ascii ''filename=''"

definition is_file_plugin :: "http_env \<Rightarrow> int \<Rightarrow> bool" where
  "is_file_plugin e i = (case plugin_name (outputs e ! nat i) of None \<Rightarrow> False
     | Some n \<Rightarrow> strstr (cstr n) (ascii ''FILE output plugin'') \<noteq> None)"

text \<open>The first file output plugin saves the picture under the name that was given.\<close>

definition take_picture :: "http_env \<Rightarrow> int \<Rightarrow> u8 list \<Rightarrow> http_client \<Rightarrow> outcome \<times> http_client" where
  "take_picture e input_number param c =
     (case find (is_file_plugin e) [0..outcnt e - 1] of
        None \<Rightarrow> (Finished, send_error 404 ''FILE output plugin not loaded, taking snapshot not possible'' c)
      | Some i \<Rightarrow>
          (case strstr param take_key of
             None \<Rightarrow>
               send_snapshot e input_number
                 (send_error 404 ''The &filename= must present for the take command in the URL'' c)
           | Some f \<Rightarrow>
               let filename = drop (length take_key) f;
                   n = (case strchr filename 38 of None \<Rightarrow> length filename | Some t \<Rightarrow> length filename - length t)
               in case alloc c of
                    (False, c) \<Rightarrow> (Crashed, c)
                  | (True, c) \<Rightarrow>
                      let arg = cstr (take n filename @ junk e);
                          c = emit (OutputCmd i 1 0 0 (Some arg)) c
                      in if out_cmd e i 1 0 0 (Some arg) = 0 then send_snapshot e input_number c
                         else (Finished, send_error 404 ''Taking snapshot failed!'' c)))"

definition answer :: "http_env \<Rightarrow> request \<Rightarrow> int \<Rightarrow> http_client \<Rightarrow> outcome \<times> http_client" where
  "answer e r input_number c =
     (case req_type r of
        A_SNAPSHOT \<Rightarrow> send_snapshot e input_number c
      | A_STREAM \<Rightarrow> send_stream e input_number c
      | A_COMMAND \<Rightarrow>
          (Finished,
           if nocommands (conf e) then send_error 501 ''this server is configured to not accept commands'' c
           else command e (parameter r) c)
      | A_INPUT_JSON \<Rightarrow> (Finished, send_input_JSON (inputs e ! nat input_number) c)
      | A_OUTPUT_JSON \<Rightarrow> (Finished, send_output_JSON (outputs e ! nat input_number) c)
      | A_PROGRAM_JSON \<Rightarrow> (Finished, send_program_JSON (inputs e) (outputs e) c)
      | A_FILE \<Rightarrow>
          (Finished,
           case www_folder (conf e) of
             None \<Rightarrow> send_error 501 ''no www-folder configured'' c
           | Some folder \<Rightarrow> send_file e folder (parameter r) c)
      | A_TAKE \<Rightarrow> take_picture e input_number (the (parameter r)) c
      | A_CGI \<Rightarrow> execute_cgi e (the (parameter r)) (the (query_string r)) c
      | A_UNKNOWN \<Rightarrow> (Finished, c))"

definition authorized :: "http_env \<Rightarrow> request \<Rightarrow> bool" where
  "authorized e r = (case credentials (conf e) of None \<Rightarrow> True
     | Some x \<Rightarrow> (case req_credentials r of None \<Rightarrow> False | Some y \<Rightarrow> cstr x = cstr y))"

text \<open>The number a request names must be that of a loaded plugin.\<close>

definition check_number :: "http_env \<Rightarrow> bool \<Rightarrow> int \<Rightarrow> request \<Rightarrow> http_client \<Rightarrow> request \<times> http_client" where
  "check_number e suffixed input_number r c =
     (if suffixed then
        if req_type r = A_OUTPUT_JSON then
          if \<not> input_number < outcnt e then
            (r\<lparr>req_type := A_UNKNOWN\<rparr>, send_error 404 ''Invalid output plugin number'' c)
          else (r, c)
        else
          if \<not> input_number < incnt e then
            (r\<lparr>req_type := A_UNKNOWN\<rparr>, send_error 404 ''Invalid input plugin number'' c)
          else (r, c)
      else (r, c))"

definition serve :: "http_env \<Rightarrow> request \<Rightarrow> bool \<Rightarrow> int \<Rightarrow> http_client \<Rightarrow> outcome \<times> http_client" where
  "serve e r suffixed input_number c =
     (if \<not> authorized e r then
        close_conn (send_error 401 ''username and password do not match to configuration'' c)
      else
        (case check_number e suffixed input_number r c of
           (r, c) \<Rightarrow>
             (case answer e r input_number c of
                (Finished, c) \<Rightarrow> close_conn c
              | (z, c) \<Rightarrow> (z, c))))"

definition client_thread :: "http_env \<Rightarrow> http_client \<Rightarrow> outcome \<times> http_client" where
  "client_thread e c =
     (case readline (BUFFER_SIZE - 1) init_iobuffer (sock c) of
        (ExitProcess, l, io, s) \<Rightarrow> (Exited, c\<lparr>iob := io, sock := s\<rparr>)
      | (Ret cnt, l, io, s) \<Rightarrow>
          if cnt = - 1 then close_conn (c\<lparr>iob := io, sock := s\<rparr>)
          else
            (case parse_request (cstr l) (emit (Received l) (c\<lparr>iob := io, sock := s\<rparr>)) of
               Inl z \<Rightarrow> z
             | Inr (r, suffixed, c) \<Rightarrow>
                 (case header_loop r c of
                    Inl z \<Rightarrow> z
                  | Inr (r, c) \<Rightarrow>
                      serve e r suffixed (if suffixed then input_number_of (cstr l) else 0) c)))"

text \<open>A thread that has just been started on a connection.\<close>

definition new_client :: "arrival list \<Rightarrow> bool list \<Rightarrow> bool list \<Rightarrow> http_client" where
  "new_client s mem wr = \<lparr>sock = s, iob = init_iobuffer, mallocs = mem, writes = wr, hlog = []\<rparr>"

declare header_loop.simps [simp del] blocks.simps [simp del]

end
