(* ===== verification/HttpdPolicy.thy ===== *)
theory HttpdPolicy
  imports Httpd
begin

section \<open>What a connection may do\<close>

text \<open>
  The locale \<open>thread_policy\<close> is the contract of a property of events that every connection keeps: it
  lists, with the conditions the code guarantees for each, the events a thread can cause. Its client
  lemma says that a thread only ever adds events that satisfy the property, and that it closes the
  connection exactly once, as the last thing, whenever it returns.
\<close>

definition adds :: "(http_event \<Rightarrow> bool) \<Rightarrow> http_client \<Rightarrow> http_client \<Rightarrow> bool" where
  "adds P c c' = (\<exists>evs. hlog c' = hlog c @ evs \<and> list_all P evs)"

lemma adds_refl [simp]: "adds P c c"
  by (simp add: adds_def)

lemma adds_trans: "adds P a b \<Longrightarrow> adds P b c \<Longrightarrow> adds P a c"
  by (auto simp: adds_def)

lemma adds_same_log: "hlog c' = hlog c \<Longrightarrow> adds P c c'"
  by (simp add: adds_def)

lemma adds_mono: "adds P c c' \<Longrightarrow> (\<And>ev. P ev \<Longrightarrow> Q ev) \<Longrightarrow> adds Q c c'"
  by (auto simp: adds_def list_all_iff)

lemma adds_emit: "P ev \<Longrightarrow> adds P c (emit ev c)"
  by (simp add: adds_def emit_def)

lemma alloc_log: "alloc c = (ok, c') \<Longrightarrow> hlog c' = hlog c"
  by (auto simp: alloc_def split: list.splits)

lemma adds_alloc: "alloc c = (ok, c') \<Longrightarrow> adds P c c'"
  by (simp add: alloc_log adds_same_log)

lemma adds_write: "P (Wrote bs) \<Longrightarrow> http_write bs c = (ok, c') \<Longrightarrow> adds P c c'"
  by (auto simp: http_write_def emit_def adds_def split: list.splits if_splits)

lemma adds_print: "(cap \<le> length text \<Longrightarrow> P (Overrun s cap (length text + 1))) \<Longrightarrow> adds P c (print_into s cap text c)"
  by (auto simp: print_into_def adds_emit)

text \<open>Printing into a buffer and sending it.\<close>

lemma adds_print_write:
  assumes "length t < cap" and "P (Wrote t)" and "http_write t (print_into s cap t c) = (ok, c')"
  shows "adds P c c'"
  using assms adds_write [of P t c ok c'] by (simp add: print_into_def)

subsection \<open>The replies fit into the buffer\<close>

lemma length_ascii [simp]: "length (ascii s) = length s"
  by (simp add: ascii_def)

lemma length_text_line [simp]: "length (text_line s) = length s + 2"
  by (simp add: text_line_def)

lemma length_STD_HEADER [simp]: "length STD_HEADER = 193"
  by (simp add: STD_HEADER_def)

lemma error_fits: "length m \<le> 400 \<Longrightarrow> length (error_text which m) < BUFFER_SIZE"
  by (simp add: error_text_def BUFFER_SIZE_def)

lemma length_decimal: "n < 10 ^ k \<Longrightarrow> 0 < k \<Longrightarrow> length (decimal n) \<le> k"
proof (induction k arbitrary: n)
  case (Suc k)
  show ?case
  proof (cases "n < 10")
    case True
    then show ?thesis by (simp add: decimal.simps)
  next
    case False
    then have "n div 10 < 10 ^ k" "0 < k" using Suc.prems by (auto simp: less_mult_imp_div_less intro: Nat.gr0I)
    then have "length (decimal (n div 10)) \<le> k" by (rule Suc.IH)
    then show ?thesis using False by (subst decimal.simps) simp
  qed
qed simp

lemma length_fmt: "length (fmt_d (s32 v)) \<le> 11" "length (fmt_06d (s32 v)) \<le> 11"
proof -
  have "nat (s32 v) < 10 ^ 10" "nat (- s32 v) < 10 ^ 10" using s32_range [of v] by auto
  then have "length (decimal (nat (s32 v))) \<le> 10" "length (decimal (nat (- s32 v))) \<le> 10"
    by (simp_all add: length_decimal del: power_numeral)
  then show "length (fmt_d (s32 v)) \<le> 11" "length (fmt_06d (s32 v)) \<le> 11"
    by (auto simp: fmt_d_def fmt_06d_def pad0_def)
qed

lemma headers_fit:
  "length (snapshot_header f) < BUFFER_SIZE" "length stream_header < BUFFER_SIZE"
  "length (part_header f) < BUFFER_SIZE" "length part_end < BUFFER_SIZE"
  using length_fmt [of "fr_sec f"] length_fmt [of "fr_usec f"] length_fmt [of "int (length (fr_data f))"]
  by (simp_all add: snapshot_header_def stream_header_def part_header_def part_end_def BOUNDARY_def BUFFER_SIZE_def)

lemma length_span_of: "length (span_of h a) \<le> length h"
  by (simp add: span_of_def length_takeWhile_le)

lemma file_header_fits: "mimetype_of x = Some m \<Longrightarrow> length (file_header m) < BUFFER_SIZE"
  by (auto simp: mimetype_of_def mimetypes_def file_header_def BUFFER_SIZE_def split: if_splits)

lemma command_reply_fits: "length name \<le> 255 \<Longrightarrow> length (command_reply name res) < BUFFER_SIZE"
  using length_fmt(1) [of res] by (simp add: command_reply_def BUFFER_SIZE_def)

subsection \<open>The contract\<close>

text \<open>A name made of letters, digits, dots, underscores and minus signs, of at most 100 characters.\<close>

definition plain_name :: "u8 list \<Rightarrow> bool" where
  "plain_name n = (length n \<le> 100 \<and> set n \<subseteq> set file_chars)"

subsection \<open>Requests and their parameters\<close>

definition req_ok :: "request \<Rightarrow> bool" where
  "req_ok r = (req_type r \<in> {A_FILE, A_CGI} \<longrightarrow> (\<exists>n. parameter r = Some n \<and> plain_name n))"

lemma take_span: "n \<le> length (span_of h a) \<Longrightarrow> set (take n h) \<subseteq> set a"
proof -
  assume n: "n \<le> length (span_of h a)"
  have "span_of h a = take (length (span_of h a)) h"
    unfolding span_of_def by (rule takeWhile_eq_take)
  then have "take n h = take n (span_of h a)" using n by (metis min.absorb1 take_take)
  then show ?thesis using set_span_of [of h a] set_take_subset by fastforce
qed

lemma plain_take: "plain_name (take (min (length (span_of pb file_chars)) 100) pb)"
  using take_span [of "min (length (span_of pb file_chars)) 100" pb file_chars] by (simp add: plain_name_def)

lemma init_request_ok [simp]: "t \<notin> {A_FILE, A_CGI} \<Longrightarrow> req_ok (init_request\<lparr>req_type := t\<rparr>)"
  by (simp add: req_ok_def)

lemma header_line_ok:
  assumes "header_line line r c = (Some r', c')"
  shows "req_ok r' = req_ok r" "hlog c' = hlog c"
  using assms alloc_log unfolding header_line_def req_ok_def
  by (fastforce split: if_splits prod.splits bool.splits option.splits)+

lemma header_line_none: "header_line line r c = (None, c') \<Longrightarrow> hlog c' = hlog c"
  using alloc_log unfolding header_line_def
  by (fastforce split: if_splits prod.splits bool.splits option.splits)

lemma if_cases: "P1 \<Longrightarrow> Q1 \<Longrightarrow> if b then P1 else Q1"
  by simp

locale thread_policy =
  fixes e :: http_env
    and P :: "http_event \<Rightarrow> bool"
  assumes received: "P (Received l)"
    and wrote: "P (Wrote bs)"
    and closed: "P ClosedFile" "P ClosedPipe"
    and opened: "www_folder (conf e) = Some w \<Longrightarrow> plain_name name \<Longrightarrow> P (Opened (file_path w name))"
    and executed: "www_folder (conf e) = Some w \<Longrightarrow> plain_name name \<Longrightarrow>
      P (Executed (cgi_text (fmt_d (port (conf e))) name q (file_path w name)))"
    and input_cmd: "\<not> nocommands (conf e) \<Longrightarrow> i < incnt e \<Longrightarrow> P (InputCmd i a b v x)"
    and output_cmd: "\<not> nocommands (conf e) \<Longrightarrow> i < outcnt e \<Longrightarrow> P (OutputCmd i a b v x)"
    and take_cmd: "0 \<le> i \<Longrightarrow> i < outcnt e \<Longrightarrow> P (OutputCmd i 1 0 0 (Some s))"
    and overrun: "m \<noteq> ReplyBuffer \<Longrightarrow> m \<noteq> ResolutionString \<Longrightarrow> P (Overrun m cap n)"
begin

lemma write_adds: "adds P c (snd (http_write bs c))"
  using adds_write [where P = P and bs = bs and c = c] wrote by (metis prod.collapse)

lemma error_adds: "length m \<le> 400 \<Longrightarrow> adds P c (send_error w m c)"
  using error_fits [of "ascii m" w] write_adds by (simp add: send_error_def print_into_def Let_def)

text \<open>Steps that follow one another, seen from the start \<open>c\<close>.\<close>

lemma write_chain:
  assumes "adds P c c1"
    and "\<And>c2. adds P c c2 \<Longrightarrow> adds P c (snd (f c2))" and "\<And>c2. adds P c c2 \<Longrightarrow> adds P c (snd (g c2))"
  shows "adds P c (snd (case http_write bs c1 of (False, c2) \<Rightarrow> f c2 | (True, c2) \<Rightarrow> g c2))"
  using assms adds_trans [OF assms(1) write_adds [of c1 bs]] by (auto split: prod.split bool.split)

lemma alloc_chain:
  assumes "adds P c c1"
    and "\<And>c2. adds P c c2 \<Longrightarrow> adds P c (snd (f c2))" and "\<And>c2. adds P c c2 \<Longrightarrow> adds P c (snd (g c2))"
  shows "adds P c (snd (case alloc c1 of (False, c2) \<Rightarrow> f c2 | (True, c2) \<Rightarrow> g c2))"
  using assms(2,3) adds_trans [OF assms(1) adds_alloc [of c1]] by (auto split: prod.split bool.split)

lemma error_chain: "adds P c c1 \<Longrightarrow> length m \<le> 400 \<Longrightarrow> adds P c (send_error w m c1)"
  using adds_trans error_adds by blast

lemma last_write: "adds P c c1 \<Longrightarrow> adds P c (snd (http_write bs c1))"
  using adds_trans write_adds by blast

lemma emit_chain: "adds P c c1 \<Longrightarrow> P ev \<Longrightarrow> adds P c (emit ev c1)"
  using adds_trans adds_emit by blast

lemma print_chain: "adds P c c1 \<Longrightarrow> s \<noteq> ReplyBuffer \<Longrightarrow> s \<noteq> ResolutionString \<Longrightarrow> adds P c (print_into s cap t c1)"
  using adds_trans adds_print overrun by metis

lemma print_fits: "length t < cap \<Longrightarrow> print_into s cap t c = c"
  by (simp add: print_into_def)

lemmas chain = write_chain alloc_chain error_chain last_write emit_chain print_chain

lemma snapshot_chain:
  assumes "adds P c c1"
  shows "adds P c (snd (send_snapshot e n c1))"
proof (cases "next_frame (ticks e n)")
  case (Some f)
  show ?thesis
    unfolding send_snapshot_def print_fits [OF headers_fit(1)] Some option.case
    by (intro alloc_chain write_chain assms) (simp_all add: chain)
qed (simp add: send_snapshot_def assms)

lemma stream_loop_chain: "adds P c c1 \<Longrightarrow> adds P c (snd (stream_loop m t c1))"
proof (induction t arbitrary: m c1)
  case (Cons a t)
  show ?case
  proof (cases a)
    case (Frame f)
    obtain ok m1 c2 where r: "(if length (fr_data f) > m then (case alloc c1 of (ok, c) \<Rightarrow> (ok, length (fr_data f) + TEN_K, c))
        else (True, m, c1)) = (ok, m1, c2)" by (metis prod_cases3)
    have c2: "adds P c c2"
      using r adds_trans [OF Cons.prems adds_alloc] Cons.prems by (auto split: if_splits prod.splits)
    have "adds P c (snd (case http_write (part_header f) c2 of (False, c) \<Rightarrow> (Finished, c) | (True, c) \<Rightarrow>
        (case http_write (fr_data f) c of (False, c) \<Rightarrow> (Finished, c) | (True, c) \<Rightarrow>
          (case http_write part_end c of (False, c) \<Rightarrow> (Finished, c) | (True, c) \<Rightarrow> stream_loop m1 t c))))"
      by (intro write_chain c2 Cons.IH; simp)
    then show ?thesis
      using r c2 by (cases ok) (simp_all add: Frame print_fits headers_fit error_chain
          cong: option.case_cong prod.case_cong bool.case_cong)
  qed (simp add: Cons.prems)
qed simp

lemma stream_chain: "adds P c c1 \<Longrightarrow> adds P c (snd (send_stream e n c1))"
  unfolding send_stream_def print_fits [OF headers_fit(2)]
  by (intro write_chain stream_loop_chain; simp)

lemma copy_chain: "adds P c c1 \<Longrightarrow> adds P c (snd (copy_blocks bs c1))"
proof (induction bs arbitrary: c1)
  case (Cons b bs)
  show ?case
    unfolding copy_blocks.simps by (intro write_chain Cons.prems) (simp_all add: Cons.IH)
qed simp

lemma file_chain:
  assumes "adds P c c1" and "plain_name name" and "www_folder (conf e) = Some w"
  shows "adds P c (send_file e w (Some name) c1)"
proof -
  define n where "n = (if name = [] then ascii ''index.html'' else name)"
  have n: "plain_name n" using assms(2) by (simp add: n_def plain_name_def file_chars_def ascii_def)
  show ?thesis
    unfolding send_file_def option.case n_def [symmetric] Let_def
    by (auto intro!: error_chain emit_chain copy_chain assms closed opened n
        simp: print_fits file_header_fits split: option.split simp del: copy_blocks.simps)
qed

lemma cgi_chain:
  assumes "adds P c c1" and "plain_name name"
  shows "adds P c (snd (execute_cgi e name q c1))"
proof (cases "www_folder (conf e)")
  case None
  then show ?thesis by (simp add: execute_cgi_def assms(1))
next
  case w: (Some w)
  show ?thesis
  proof (cases "files e (file_path w name)")
    case (Some content)
    show ?thesis
      unfolding execute_cgi_def w Some option.case Let_def
    proof (rule alloc_chain)
      show "adds P c (emit (Opened (file_path w name)) c1)"
        by (rule emit_chain [OF assms(1) opened [OF w assms(2)]])
      fix c2 assume c2: "adds P c c2"
      let ?text = "cgi_text (fmt_d (port (conf e))) name (cstr (q @ junk e)) (file_path w name)"
      let ?c = "print_into CommandLine (length (file_path w name) + length cgi_format + length name + 256) ?text c2"
      have c3: "adds P c ?c" by (rule print_chain [OF c2]) simp_all
      have c4: "adds P c (snd (copy_blocks bs (emit (Executed ?text) ?c)))" for bs
        by (rule copy_chain [OF emit_chain [OF c3 executed [OF w assms(2)]]])
      show "adds P c (snd (case scripts e ?text of
          None \<Rightarrow> (Finished, send_error 403 ''CGI script cannot be executed'' ?c)
        | Some printed \<Rightarrow> (case copy_blocks (blocks 4 printed) (emit (Executed ?text) ?c) of
            (True, c) \<Rightarrow> (Finished, c) | (False, c) \<Rightarrow> (Finished, emit ClosedPipe c))))"
        using c4 emit_chain [OF c4 closed(2)] error_chain [OF c3]
        by (auto split: option.split prod.split bool.split) (metis snd_conv)+
    qed simp_all
  next
    case None
    then show ?thesis by (simp add: execute_cgi_def w error_chain assms(1))
  qed
qed

lemma alloc_chain':
  assumes "adds P c c1"
    and "\<And>c2. adds P c c2 \<Longrightarrow> adds P c (f c2)" and "\<And>c2. adds P c c2 \<Longrightarrow> adds P c (g c2)"
  shows "adds P c (case alloc c1 of (False, c2) \<Rightarrow> f c2 | (True, c2) \<Rightarrow> g c2)"
  using assms(2,3) adds_trans [OF assms(1) adds_alloc [of c1]] by (auto split: prod.split bool.split)

lemma number_chain:
  assumes "adds P c c1"
    and "\<And>c2. adds P c c2 \<Longrightarrow> adds P c (f c2)" and "\<And>v q c2. adds P c c2 \<Longrightarrow> adds P c (g v q c2)"
  shows "adds P c (case number_arg k d s c1 of (None, c2) \<Rightarrow> f c2 | (Some (v, q), c2) \<Rightarrow> g v q c2)"
proof -
  have "adds P c (snd (number_arg k d s c1))"
    unfolding number_arg_def Let_def
    by (cases "strstr s (ascii k)") (use assms(1) in \<open>auto intro!: alloc_chain error_chain\<close>)
  then show ?thesis using assms(2,3) by (auto split: prod.split option.split)
qed

lemma command_chain:
  assumes "adds P c c1" and "\<not> nocommands (conf e)"
  shows "adds P c (command e (Some s) c1)"
proof (cases "length s \<ge> 255 \<or> length s = 0")
  case True
  then show ?thesis by (simp add: command_def error_chain assms(1))
next
  case False
  show ?thesis
  proof (cases "strstr s (ascii ''id='')")
    case None
    then show ?thesis using False by (simp add: command_def error_chain assms(1))
  next
    case (Some p)
    have "length p \<le> length s" using strstr_suffix [OF Some] by auto
    then have name: "length (span_of (drop 3 p) word_chars) \<le> 255"
      using False length_span_of [of "drop 3 p" word_chars] by auto
    have run: "adds P c (snd (run_command e dest n i g v q c2))" if "adds P c c2" for dest n i g v q c2
      using that assms(2) by (auto simp: run_command_def intro!: emit_chain input_cmd output_cmd)
    have final: "adds P c (case run_command e dest n i g v q c2 of (res, c) \<Rightarrow>
        snd (http_write (command_reply (span_of (drop 3 p) word_chars) res)
          (print_into ReplyBuffer BUFFER_SIZE (command_reply (span_of (drop 3 p) word_chars) res) c)))"
      if "adds P c c2" for dest n i g v q c2
      using run [OF that, of dest n i g v q] command_reply_fits [OF name]
      by (auto simp: print_fits last_write split: prod.split)
    show ?thesis
      unfolding command_def option.case Some if_not_P [OF False] Let_def
      by (intro alloc_chain' number_chain assms(1) error_chain final) simp_all
  qed
qed

lemma input_menu_chain: "adds P c c1 \<Longrightarrow> adds P c (snd (input_menu names m js menu c1))"
proof (induction js arbitrary: menu c1)
  case (Cons j js)
  show ?case
    unfolding input_menu.simps Let_def
    by (intro alloc_chain Cons.prems Cons.IH print_chain) simp_all
qed simp

lemma output_menu_chain: "adds P c c1 \<Longrightarrow> adds P c (snd (output_menu names m js menu c1))"
proof (induction js arbitrary: menu c1)
  case (Cons j js)
  show ?case
    unfolding output_menu.simps Let_def
    by (intro alloc_chain Cons.prems Cons.IH print_chain) simp_all
qed simp

lemma input_controls_chain: "adds P c c1 \<Longrightarrow> adds P c (snd (input_controls ks buffer c1))"
proof (induction ks arbitrary: buffer c1)
  case (Cons k ks)
  have "adds P c (snd (case menuitems k of Some names \<Rightarrow>
        if ctrl_type k = V4L2_CTRL_TYPE_MENU then input_menu names (maximum k) [minimum k..maximum k] None c1
        else (Some None, c1) | None \<Rightarrow> (Some None, c1)))"
    using Cons.prems input_menu_chain by (auto split: option.split)
  then show ?case
    using Cons.IH by (auto split: prod.split option.split)
qed simp

lemma output_controls_chain: "adds P c c1 \<Longrightarrow> adds P c (snd (output_controls ks buffer c1))"
proof (induction ks arbitrary: buffer c1)
  case (Cons k ks)
  have "adds P c (snd (case menuitems k of Some names \<Rightarrow>
        if ctrl_type k = V4L2_CTRL_TYPE_MENU then output_menu names (maximum k) [minimum k..maximum k] [] c1
        else (Some [], c1) | None \<Rightarrow> (Some [], c1)))"
    using Cons.prems output_menu_chain by (auto split: option.split)
  then show ?case
    using Cons.IH by (auto split: prod.split option.split)
qed simp

lemma resolution_chain:
  "adds P c c1 \<Longrightarrow> length (case t of None \<Rightarrow> [] | Some t \<Rightarrow> t) \<le> n \<Longrightarrow>
   adds P c (snd (resolution_list j rs n t c1))"
proof (induction rs arbitrary: j n t c1)
  case (Cons x rs)
  obtain w h where x: "x = (w, h)" by (cases x)
  let ?n = "n + length (fmt_d j) + length (fmt_d (sint w)) + length (fmt_d (sint h)) + (if rs = [] then 7 + 5 else 9 + 5)"
  let ?t = "(case t of None \<Rightarrow> [] | Some t \<Rightarrow> t) @ resolution_item j w h (rs = [])"
  have t: "length ?t \<le> ?n" "length ?t < ?n * 4"
    using Cons.prems(2) by (auto simp: resolution_item_def quoted_def)
  show ?case
    unfolding x resolution_list.simps Let_def print_fits [OF t(2)]
    by (intro alloc_chain Cons.prems(1) Cons.IH print_chain) (use t(1) in simp_all)
qed simp

lemma format_chain: "adds P c c1 \<Longrightarrow> adds P c (snd (format_list fs buffer c1))"
proof (induction fs arbitrary: buffer c1)
  case (Cons f fs)
  have "adds P c (snd (resolution_list 0 (resolutions f) 0 None c1))"
    using Cons.prems by (simp add: resolution_chain)
  then show ?case
    using Cons.IH by (auto split: prod.split option.split)
qed simp

lemma json_chain: "adds P c c1 \<Longrightarrow> adds P c (send_json b c1)"
  by (simp add: send_json_def last_write print_chain)

lemma descriptions_chain:
  assumes "adds P c c1"
  shows "adds P c (send_input_JSON p c1)" "adds P c (send_output_JSON p c1)" "adds P c (send_program_JSON ins outs c1)"
proof -
  have "adds P c (snd (case controls p of None \<Rightarrow> (Some controls_open, c1) | Some ks \<Rightarrow> input_controls ks controls_open c1))"
    using assms input_controls_chain by (auto split: option.split)
  moreover have "adds P c (snd (case formats p of None \<Rightarrow> (Some b, c2) | Some fs \<Rightarrow> format_list fs b c2))"
    if "adds P c c2" for b c2
    using that format_chain by (auto split: option.split)
  ultimately show "adds P c (send_input_JSON p c1)"
    unfolding send_input_JSON_def Let_def
    by (auto split: prod.split option.split) (metis json_chain snd_conv)+
  have "adds P c (snd (case controls p of None \<Rightarrow> (Some controls_open, c1) | Some ks \<Rightarrow> output_controls ks controls_open c1))"
    using assms output_controls_chain by (auto split: option.split)
  then show "adds P c (send_output_JSON p c1)"
    unfolding send_output_JSON_def by (auto intro: json_chain split: prod.split option.split)
  show "adds P c (send_program_JSON ins outs c1)"
    unfolding send_program_JSON_def by (rule json_chain [OF assms])
qed

lemma take_chain:
  assumes "adds P c c1"
  shows "adds P c (snd (take_picture e n s c1))"
proof (cases "find (is_file_plugin e) [0..outcnt e - 1]")
  case None
  then show ?thesis by (simp add: take_picture_def error_chain assms)
next
  case (Some i)
  then have "i \<in> set [0..outcnt e - 1]" by (auto simp: find_Some_iff)
  then have cmd: "P (OutputCmd i 1 0 0 (Some q))" for q by (intro take_cmd) auto
  show ?thesis
  proof (cases "strstr s take_key")
    case None
    then show ?thesis using Some by (simp add: take_picture_def snapshot_chain error_chain assms)
  next
    case f: (Some f)
    show ?thesis
      unfolding take_picture_def Some f option.case Let_def
      by (intro alloc_chain assms) (auto intro!: snapshot_chain error_chain emit_chain cmd)
  qed
qed

lemma answer_chain:
  assumes "adds P c c1" and "req_ok r"
  shows "adds P c (snd (answer e r n c1))"
proof (cases "req_type r")
  case A_COMMAND
  then show ?thesis
    using command_chain [OF assms(1)] by (cases "parameter r") (auto simp: answer_def error_chain assms(1) command_def)
next
  case A_FILE
  then show ?thesis
    using assms file_chain by (auto simp: answer_def error_chain req_ok_def split: option.split)
next
  case A_CGI
  then show ?thesis
    using assms cgi_chain by (auto simp: answer_def req_ok_def)
qed (simp_all add: answer_def assms(1) snapshot_chain stream_chain descriptions_chain take_chain)

subsubsection \<open>The whole thread\<close>

definition ends :: "http_client \<Rightarrow> outcome \<times> http_client \<Rightarrow> bool" where
  "ends c x = (\<exists>c1. adds P c c1 \<and>
     (if fst x = Finished then snd x = emit ClosedConn c1 else snd x = c1))"

lemma ends_log: "ends c x \<Longrightarrow> \<exists>evs. hlog (snd x) = hlog c @ evs"
  by (auto simp: ends_def adds_def emit_def split: if_splits)

lemma ends_close: "adds P c c1 \<Longrightarrow> ends c (close_conn c1)"
  by (auto simp: ends_def close_conn_def)

lemma ends_other: "adds P c c1 \<Longrightarrow> z \<noteq> Finished \<Longrightarrow> ends c (z, c1)"
  by (auto simp: ends_def)

lemma action_request_chain:
  assumes "adds P c c1" and "t \<notin> {A_FILE, A_CGI}"
  shows "case action_request t key line c1 of Inl x \<Rightarrow> ends c x | Inr (r, c2) \<Rightarrow> req_ok r \<and> adds P c c2"
proof (cases "strstr line (ascii key)")
  case None
  then show ?thesis by (simp add: action_request_def ends_close error_chain assms(1))
next
  case (Some pb)
  obtain ok c2 where a: "alloc c1 = (ok, c2)" by (cases "alloc c1")
  then have c2: "adds P c c2" using adds_trans [OF assms(1) adds_alloc] by simp
  show ?thesis
    using a c2 assms(2)
    by (auto simp: action_request_def Some Let_def req_ok_def ends_other ends_close error_chain
        split: bool.split option.split)
qed

lemma file_request_chain:
  assumes "adds P c c1"
  shows "case file_request line c1 of Inl x \<Rightarrow> ends c x | Inr (r, c2) \<Rightarrow> req_ok r \<and> adds P c c2"
proof (cases "strstr line (ascii ''GET /'')")
  case None
  then show ?thesis by (simp add: file_request_def ends_close error_chain assms)
next
  case (Some pb)
  obtain ok c2 where a: "alloc c1 = (ok, c2)" by (cases "alloc c1")
  then have c2: "adds P c c2" using adds_trans [OF assms adds_alloc] by simp
  obtain ok' c3 where a': "alloc c2 = (ok', c3)" by (cases "alloc c2")
  then have c3: "adds P c c3" using adds_trans [OF c2 adds_alloc] by simp
  show ?thesis
    using a c2 a' c3 plain_take [of "drop 5 pb"]
    by (auto simp: file_request_def Some Let_def req_ok_def ends_other split: bool.split)
qed

lemma suffixed_chain:
  "case x of Inl z \<Rightarrow> ends c z | Inr (r, c2) \<Rightarrow> req_ok r \<and> adds P c c2 \<Longrightarrow>
   case (case x of Inl z \<Rightarrow> Inl z | Inr (r, c) \<Rightarrow> Inr (r, b, c)) of
     Inl z \<Rightarrow> ends c z | Inr (r, b, c2) \<Rightarrow> req_ok r \<and> adds P c c2"
  by (auto split: sum.splits)

lemma parse_request_chain:
  assumes "adds P c c1"
  shows "case parse_request line c1 of Inl x \<Rightarrow> ends c x | Inr (r, b, c2) \<Rightarrow> req_ok r \<and> adds P c c2"
proof -
  have request: "case Inr (init_request\<lparr>req_type := t\<rparr>, b, c1) of Inl x \<Rightarrow> ends c x
      | Inr (r, b, c2) \<Rightarrow> req_ok r \<and> adds P c c2" if "t \<notin> {A_FILE, A_CGI}" for t b
    using that assms by simp
  show ?thesis
    unfolding parse_request_def Let_def if_distrib [of "case_sum _ _"]
    by (intro if_cases request suffixed_chain action_request_chain file_request_chain assms) simp_all
qed

lemma header_loop_chain:
  "adds P c c1 \<Longrightarrow> req_ok r \<Longrightarrow>
   case header_loop r c1 of Inl x \<Rightarrow> ends c x | Inr (r', c2) \<Rightarrow> req_ok r' \<and> adds P c c2"
proof (induction r c1 rule: header_loop.induct)
  case (1 r c1)
  obtain q l io s where rd: "readline (BUFFER_SIZE - 1) (iob c1) (sock c1) = (q, l, io, s)" by (metis prod_cases4)
  have io: "adds P c (c1\<lparr>iob := io, sock := s\<rparr>)" using 1(2) by (auto simp: adds_def)
  show ?case
  proof (cases q)
    case ExitProcess
    then show ?thesis using rd io by (simp add: header_loop.simps ends_other)
  next
    case (Ret cnt)
    let ?c = "emit (Received l) (c1\<lparr>iob := io, sock := s\<rparr>)"
    have rc: "adds P c ?c" by (rule emit_chain [OF io received])
    show ?thesis
    proof (cases "cnt = - 1")
      case True
      then show ?thesis using rd Ret io by (simp add: header_loop.simps ends_close)
    next
      case cnt: False
      obtain o2 c2 where h: "header_line (cstr l) r ?c = (o2, c2)" by (cases "header_line (cstr l) r ?c")
      show ?thesis
      proof (cases o2)
        case None
        then have "adds P c c2" using rc header_line_none h by (auto simp: adds_def)
        then show ?thesis using rd Ret cnt h None by (simp add: header_loop.simps ends_other)
      next
        case (Some r2)
        then have c2: "adds P c c2" "req_ok r2"
          using rc header_line_ok [of "cstr l" r ?c r2 c2] h 1(3) by (auto simp: adds_def)
        show ?thesis
        proof (cases "cnt > 2 \<and> \<not> take 2 l = [13, 10]")
          case True
          show ?thesis
            using 1(1) [OF rd [symmetric] Ret refl refl cnt h [symmetric] Some True c2]
              rd Ret cnt h Some True by (subst header_loop.simps) simp
        next
          case False
          then show ?thesis using rd Ret cnt h Some c2 by (subst header_loop.simps) auto
        qed
      qed
    qed
  qed
qed

lemma check_number_chain:
  assumes "adds P c c1" "req_ok r"
  shows "case check_number e b n r c1 of (r', c2) \<Rightarrow> req_ok r' \<and> adds P c c2"
  using assms by (simp add: check_number_def error_chain req_ok_def)

lemma serve_chain:
  assumes "adds P c c1" "req_ok r"
  shows "ends c (serve e r b n c1)"
proof (cases "authorized e r")
  case False
  then show ?thesis by (simp add: serve_def ends_close error_chain assms(1))
next
  case True
  obtain r2 c2 where k: "check_number e b n r c1 = (r2, c2)" by (cases "check_number e b n r c1")
  then have "adds P c (snd (answer e r2 n c2))"
    using check_number_chain [OF assms, of b n] answer_chain by simp
  then show ?thesis
    using True k by (cases "answer e r2 n c2"; cases "fst (answer e r2 n c2)")
      (auto simp: serve_def ends_close ends_other)
qed

lemma thread_chain: "ends c (client_thread e c)"
proof -
  obtain q l io s where rd: "readline (BUFFER_SIZE - 1) init_iobuffer (sock c) = (q, l, io, s)" by (metis prod_cases4)
  let ?c = "c\<lparr>iob := io, sock := s\<rparr>"
  have io: "adds P c ?c" by (simp add: adds_def)
  have rc: "adds P c (emit (Received l) ?c)" by (rule emit_chain [OF io received])
  show ?thesis
  proof (cases q)
    case ExitProcess
    then show ?thesis using rd io by (simp add: client_thread_def ends_other)
  next
    case (Ret cnt)
    show ?thesis
    proof (cases "parse_request (cstr l) (emit (Received l) ?c)")
      case (Inl x)
      then show ?thesis
        using rd Ret io parse_request_chain [OF rc, of "cstr l"] by (simp add: client_thread_def ends_close)
    next
      case (Inr y)
      obtain r b c2 where y: "y = (r, b, c2)" by (cases y)
      then have c2: "req_ok r" "adds P c c2" using parse_request_chain [OF rc, of "cstr l"] Inr by simp_all
      show ?thesis
        using rd Ret io Inr y header_loop_chain [OF c2(2,1)] serve_chain
        by (auto simp: client_thread_def ends_close split: sum.splits)
    qed
  qed
qed

text \<open>What a thread logs, and that the connection is closed as the last thing it does.\<close>

lemma thread_log:
  assumes "client_thread e c = (z, c')"
  shows "\<exists>evs. list_all P evs \<and> hlog c' = hlog c @ evs @ (if z = Finished then [ClosedConn] else [])"
  using thread_chain [of c] assms by (auto simp: ends_def adds_def emit_def split: if_splits)

lemma log_event:
  assumes "hlog c = []" and "ev \<in> set (hlog (snd (client_thread e c)))"
  shows "P ev \<or> ev = ClosedConn"
  using thread_log [of c "fst (client_thread e c)" "snd (client_thread e c)"] assms
  by (auto simp: list_all_iff split: if_splits)

end

end
