(* ===== verification/HttpdSafe.thy ===== *)
theory HttpdSafe
  imports HttpdPolicy
begin

section \<open>What the HTTP server guarantees\<close>

text \<open>
  Interpretations of \<open>thread_policy\<close> (which files are opened, which buffers overflow, which commands
  are passed on, that the connection is closed once), the check of the credentials, and the places
  where the code does not keep what it promises.
\<close>

subsection \<open>Files\<close>

definition path_policy :: "http_env \<Rightarrow> http_event \<Rightarrow> bool" where
  "path_policy e ev =
     (case ev of
        Opened p \<Rightarrow> (\<exists>w name. www_folder (conf e) = Some w \<and> plain_name name \<and> p = file_path w name)
      | Executed t \<Rightarrow> (\<exists>w name q. www_folder (conf e) = Some w \<and> plain_name name \<and>
          t = cgi_text (fmt_d (port (conf e))) name q (file_path w name))
      | _ \<Rightarrow> True)"

interpretation path_thread: thread_policy e "path_policy e" for e
  by unfold_locales (auto simp: path_policy_def)

lemma slash_not_plain: "plain_name n \<Longrightarrow> 47 \<notin> set n"
  by (auto simp: plain_name_def file_chars_def ascii_def)

lemma file_path_whole: "length w + length n < BUFFER_SIZE \<Longrightarrow> file_path w n = w @ n"
  by (simp add: file_path_def Let_def)

lemma folder_files:
  assumes "www_folder (conf e) = Some w" and "length w + 100 < BUFFER_SIZE" and "hlog c = []"
    and "Opened p \<in> set (hlog (snd (client_thread e c)))"
  shows "\<exists>name. p = w @ name \<and> 47 \<notin> set name \<and> length name \<le> 100"
proof -
  obtain name where "plain_name name" "p = file_path w name"
    using path_thread.log_event [OF assms(3,4)] assms(1) by (auto simp: path_policy_def)
  then show ?thesis
    using assms(2) slash_not_plain file_path_whole [of w name] by (auto simp: plain_name_def)
qed


subsection \<open>The connection is closed\<close>

interpretation closing_thread: thread_policy e "\<lambda>ev. ev \<noteq> ClosedConn" for e
  by unfold_locales auto

text \<open>
  C10: a thread that returns has closed its connection, exactly once and as the last thing it does, on
  every path; a thread that waits for ever, has made the process exit, or has crashed, has not closed it.
\<close>

theorem connection_closed_once:
  "\<exists>evs. ClosedConn \<notin> set evs \<and> hlog (snd (client_thread e c)) =
     hlog c @ evs @ (if fst (client_thread e c) = Finished then [ClosedConn] else [])"
  using closing_thread.thread_log [of e c "fst (client_thread e c)" "snd (client_thread e c)"]
  by (auto simp: list_all_iff)

subsection \<open>Buffers\<close>

definition buffer_policy :: "http_event \<Rightarrow> bool" where
  "buffer_policy ev = (case ev of Overrun s cap n \<Rightarrow> s \<notin> {ReplyBuffer, ResolutionString} | _ \<Rightarrow> True)"

interpretation buffer_thread: thread_policy e buffer_policy for e
  by unfold_locales (auto simp: buffer_policy_def)


subsection \<open>Commands\<close>

definition command_policy :: "http_env \<Rightarrow> http_event \<Rightarrow> bool" where
  "command_policy e ev =
     (case ev of
        InputCmd i a b v x \<Rightarrow> \<not> nocommands (conf e) \<and> i < incnt e
      | OutputCmd i a b v x \<Rightarrow> i < outcnt e \<and> (nocommands (conf e) \<longrightarrow> 0 \<le> i \<and> a = 1 \<and> b = 0 \<and> v = 0)
      | _ \<Rightarrow> True)"

interpretation command_thread: thread_policy e "command_policy e" for e
  by unfold_locales (auto simp: command_policy_def)

text \<open>
  C34: a server configured to accept no commands passes none to an input plugin, and to an output plugin
  only the order to save a picture; and no command reaches a plugin with a number above those loaded.
\<close>

theorem nocommands_respected:
  assumes "hlog c = []" and "ev \<in> set (hlog (snd (client_thread e c)))"
    and "ev = InputCmd i a b v x \<or> ev = OutputCmd i a b v x"
  shows "(i < incnt e \<and> \<not> nocommands (conf e) \<and> ev = InputCmd i a b v x) \<or>
    (i < outcnt e \<and> ev = OutputCmd i a b v x \<and>
      (\<not> nocommands (conf e) \<or> (0 \<le> i \<and> a = 1 \<and> b = 0 \<and> v = 0)))"
  using command_thread.log_event [OF assms(1,2)] assms(3) by (auto simp: command_policy_def)

subsection \<open>Credentials\<close>

text \<open>What may happen before the credentials are checked: lines are read, an error is reported.\<close>

definition harmless :: "http_event \<Rightarrow> bool" where
  "harmless ev = (case ev of Received l \<Rightarrow> True | ClosedConn \<Rightarrow> True | Wrote t \<Rightarrow> \<exists>w m. t = error_text w m | _ \<Rightarrow> False)"

text \<open>The line \<open>l\<close> carries the credentials \<open>y\<close>.\<close>

definition carries :: "u8 list \<Rightarrow> u8 list \<Rightarrow> bool" where
  "carries l y = (strstr (cstr l) (ascii ''Authorization: Basic '') \<noteq> None \<and>
     (\<exists>m. decodeBase64 (drop 21 (cstr l) @ [0]) = Some m \<and> y = cstr m))"

lemma harmless_error: "length m \<le> 400 \<Longrightarrow> adds harmless c (send_error w m c)"
  using error_fits [of "ascii m" w] adds_write [of harmless "error_text w (ascii m)" c]
  by (cases "http_write (error_text w (ascii m)) c")
    (auto simp: send_error_def print_into_def harmless_def)

lemma harmless_close: "adds harmless c c1 \<Longrightarrow> adds harmless c (snd (close_conn c1))"
  using adds_trans adds_emit [of harmless ClosedConn c1] by (auto simp: close_conn_def harmless_def)

lemma harmless_rejection:
  "hlog c1 = hlog c \<Longrightarrow> length m \<le> 400 \<Longrightarrow> adds harmless c (snd (close_conn (send_error w m c1)))"
  by (rule harmless_close) (use adds_trans adds_same_log harmless_error in blast)

text \<open>A request that is given up has caused an error at most; one that is accepted has caused nothing.\<close>

definition unheard :: "http_client \<Rightarrow> (outcome \<times> http_client) + (request \<times> http_client) \<Rightarrow> bool" where
  "unheard c x = (case x of Inl z \<Rightarrow> adds harmless c (snd z) | Inr (r, c2) \<Rightarrow> hlog c2 = hlog c \<and> req_credentials r = None)"

lemma action_request_unheard: "unheard c (action_request t key line c)"
proof (cases "strstr line (ascii key)")
  case None
  then show ?thesis by (simp add: unheard_def action_request_def harmless_rejection)
next
  case (Some pb)
  obtain ok c2 where a: "alloc c = (ok, c2)" by (cases "alloc c")
  then show ?thesis
    using alloc_log [OF a] Some
    by (auto simp: unheard_def action_request_def Let_def harmless_rejection adds_same_log init_request_def
        split: bool.split option.split)
qed

lemma file_request_unheard: "unheard c (file_request line c)"
proof (cases "strstr line (ascii ''GET /'')")
  case None
  then show ?thesis by (simp add: unheard_def file_request_def harmless_rejection)
next
  case (Some pb)
  obtain ok c2 where a: "alloc c = (ok, c2)" by (cases "alloc c")
  obtain ok' c3 where a': "alloc c2 = (ok', c3)" by (cases "alloc c2")
  show ?thesis
    using alloc_log [OF a] alloc_log [OF a'] a a' Some
    by (auto simp: unheard_def file_request_def Let_def adds_same_log init_request_def split: bool.split)
qed

lemma parse_request_unheard:
  "case parse_request line c of Inl z \<Rightarrow> adds harmless c (snd z)
   | Inr (r, b, c2) \<Rightarrow> hlog c2 = hlog c \<and> req_credentials r = None"
proof -
  have suffixed: "case (case x of Inl z \<Rightarrow> Inl z | Inr (r, c) \<Rightarrow> Inr (r, b, c)) of Inl z \<Rightarrow> adds harmless c (snd z)
      | Inr (r, b, c2) \<Rightarrow> hlog c2 = hlog c \<and> req_credentials r = None" if "unheard c x" for x b
    using that by (auto simp: unheard_def split: sum.splits)
  show ?thesis
    unfolding parse_request_def Let_def if_distrib [of "case_sum _ _"]
    by (intro if_cases suffixed action_request_unheard file_request_unheard) (simp_all add: init_request_def)
qed

lemma header_line_credentials:
  assumes "header_line (cstr l) r c = (Some r', c')"
  shows "req_credentials r' = req_credentials r \<or> (\<exists>y. req_credentials r' = Some y \<and> carries l y)"
  using assms unfolding header_line_def carries_def
  by (auto split: if_splits prod.splits bool.splits option.splits)

lemma header_loop_credentials:
  "case header_loop r c of Inl z \<Rightarrow> adds harmless c (snd z)
   | Inr (r', c') \<Rightarrow> \<exists>ls. hlog c' = hlog c @ map Received ls \<and>
       (\<forall>y. req_credentials r' = Some y \<longrightarrow> req_credentials r = Some y \<or> (\<exists>l \<in> set ls. carries l y))"
proof (induction r c rule: header_loop.induct)
  case (1 r c)
  obtain q l io s where rd: "readline (BUFFER_SIZE - 1) (iob c) (sock c) = (q, l, io, s)" by (metis prod_cases4)
  show ?case
  proof (cases q)
    case ExitProcess
    then show ?thesis using rd by (simp add: header_loop.simps adds_def)
  next
    case (Ret cnt)
    let ?c = "emit (Received l) (c\<lparr>iob := io, sock := s\<rparr>)"
    have log: "hlog ?c = hlog c @ [Received l]" by (simp add: emit_def)
    show ?thesis
    proof (cases "cnt = - 1")
      case True
      then show ?thesis
        using rd Ret harmless_close [of c "c\<lparr>iob := io, sock := s\<rparr>"] by (simp add: header_loop.simps adds_def)
    next
      case cnt: False
      obtain o2 c2 where h: "header_line (cstr l) r ?c = (o2, c2)" by (cases "header_line (cstr l) r ?c")
      show ?thesis
      proof (cases o2)
        case None
        then show ?thesis
          using rd Ret cnt h header_line_none log by (simp add: header_loop.simps adds_def harmless_def)
      next
        case (Some r2)
        note c2 = header_line_ok(2) [OF h [unfolded Some]] header_line_credentials [OF h [unfolded Some]]
        show ?thesis
        proof (cases "cnt > 2 \<and> \<not> take 2 l = [13, 10]")
          case True
          have loop: "header_loop r c = header_loop r2 c2" using rd Ret cnt h Some True by (subst header_loop.simps) simp
          from 1 [OF rd [symmetric] Ret refl refl cnt h [symmetric] Some True]
          show ?thesis unfolding loop
          proof (cases "header_loop r2 c2")
            case (Inr x)
            then obtain ls r' c' where ls: "x = (r', c')" "hlog c' = hlog c2 @ map Received ls"
                "\<forall>y. req_credentials r' = Some y \<longrightarrow> req_credentials r2 = Some y \<or> (\<exists>l \<in> set ls. carries l y)"
              using 1 [OF rd [symmetric] Ret refl refl cnt h [symmetric] Some True] by (cases x) auto
            then show "case header_loop r2 c2 of Inl z \<Rightarrow> adds harmless c (snd z)
              | Inr (r', c') \<Rightarrow> \<exists>ls. hlog c' = hlog c @ map Received ls \<and>
                (\<forall>y. req_credentials r' = Some y \<longrightarrow> req_credentials r = Some y \<or> (\<exists>l \<in> set ls. carries l y))"
              using c2 log Inr by (auto intro!: exI [of _ "l # ls"])
          qed (use c2 log in \<open>auto simp: adds_def harmless_def\<close>)
        next
          case False
          then show ?thesis
            using rd Ret cnt h Some c2 log by (subst header_loop.simps) (auto intro!: exI [of _ "[l]"])
        qed
      qed
    qed
  qed
qed

interpretation any_thread: thread_policy e "\<lambda>ev. True" for e
  by unfold_locales auto

lemma adds_log: "adds P c c' \<Longrightarrow> \<exists>evs. hlog c' = hlog c @ evs \<and> list_all P evs"
  by (simp add: adds_def)

text \<open>
  The request a thread serves, or the end it comes to before: nothing but reading and an error
  message has happened until then, and credentials come from a line that was read.
\<close>

lemma thread_request:
  "(list_all harmless (drop (length (hlog c)) (hlog (snd (client_thread e c))))) \<or>
   (\<exists>r b n c1 ls. client_thread e c = serve e r b n c1 \<and> hlog c1 = hlog c @ map Received ls \<and>
      req_ok r \<and> (\<forall>y. req_credentials r = Some y \<longrightarrow> (\<exists>l \<in> set ls. carries l y)))"
proof -
  obtain q l io s where rd: "readline (BUFFER_SIZE - 1) init_iobuffer (sock c) = (q, l, io, s)" by (metis prod_cases4)
  let ?c = "c\<lparr>iob := io, sock := s\<rparr>"
  let ?d = "emit (Received l) ?c"
  have log: "hlog ?d = hlog c @ [Received l]" by (simp add: emit_def)
  have drop: "list_all harmless (drop (length (hlog c)) (hlog c2))" if "adds harmless ?d c2" for c2
    using adds_log [OF that] log by (auto simp: harmless_def)
  show ?thesis
  proof (cases q)
    case ExitProcess
    then show ?thesis using rd by (simp add: client_thread_def)
  next
    case (Ret cnt)
    show ?thesis
    proof (cases "cnt = - 1")
      case True
      then show ?thesis using rd Ret by (simp add: client_thread_def close_conn_def emit_def harmless_def)
    next
      case cnt: False
      show ?thesis
      proof (cases "parse_request (cstr l) ?d")
        case (Inl z)
        then show ?thesis
          using rd Ret cnt drop parse_request_unheard [where line = "cstr l" and c = ?d] by (simp add: client_thread_def)
      next
        case (Inr y)
        obtain r b c2 where y: "y = (r, b, c2)" by (cases y)
        have c2: "hlog c2 = hlog ?d" "req_credentials r = None"
          using parse_request_unheard [where line = "cstr l" and c = ?d] Inr y by simp_all
        have ok: "req_ok r" using any_thread.parse_request_chain [where c = ?d and ?c1.0 = ?d and line = "cstr l"] Inr y by simp
        show ?thesis
        proof (cases "header_loop r c2")
          case (Inl z)
          have "adds harmless ?d (snd z)"
            using header_loop_credentials [where r = r and c = c2] Inl c2(1) by (simp add: adds_def)
          then show ?thesis using rd Ret cnt Inr y Inl drop by (simp add: client_thread_def)
        next
          case Inr2: (Inr x)
          obtain r' c' where x: "x = (r', c')" by (cases x)
          obtain ls where ls: "hlog c' = hlog c2 @ map Received ls"
              "\<forall>y. req_credentials r' = Some y \<longrightarrow> (\<exists>l \<in> set ls. carries l y)"
            using header_loop_credentials [where r = r and c = c2] Inr2 x c2(2) by auto
          have "req_ok r'"
            using any_thread.header_loop_chain [where c = c2 and ?c1.0 = c2 and r = r] ok Inr2 x by simp
          moreover have "client_thread e c = serve e r' b (if b then input_number_of (cstr l) else 0) c'"
            using rd Ret cnt Inr y Inr2 x by (simp add: client_thread_def)
          moreover have "hlog c' = hlog c @ map Received (l # ls)" using ls(1) c2(1) log by simp
          moreover have "\<forall>y. req_credentials r' = Some y \<longrightarrow> (\<exists>k \<in> set (l # ls). carries k y)"
            using ls(2) by auto
          ultimately show ?thesis by blast
        qed
      qed
    qed
  qed
qed

lemma received_before:
  assumes "before @ ev # rest = map Received ls @ evs" and "ev \<notin> Received ` set ls"
  shows "Received ` set ls \<subseteq> set before"
proof -
  from assms(1) obtain us where "before = map Received ls @ us \<or> before @ us = map Received ls \<and> ev # rest = us @ evs"
    by (auto simp: append_eq_append_conv2)
  then show ?thesis
  proof
    assume us: "before @ us = map Received ls \<and> ev # rest = us @ evs"
    have "us = []"
    proof (cases us)
      case (Cons u us')
      then have "ev \<in> set (map Received ls)" using us by (metis append_Cons in_set_conv_decomp list.inject)
      then show ?thesis using assms(2) by simp
    qed
    then show ?thesis using us by (metis append_Nil2 set_map subset_refl)
  qed auto
qed

lemma credentials_checked:
  assumes "credentials (conf e) = Some x" and "hlog c = []"
    and "hlog (snd (client_thread e c)) = before @ ev # rest" and "\<not> harmless ev"
  shows "\<exists>l. Received l \<in> set before \<and> carries l (cstr x)"
proof -
  have "\<not> list_all harmless (hlog (snd (client_thread e c)))" using assms(3,4) by simp
  then obtain r b n c1 ls where t: "client_thread e c = serve e r b n c1" "hlog c1 = map Received ls" "req_ok r"
      "\<forall>y. req_credentials r = Some y \<longrightarrow> (\<exists>l \<in> set ls. carries l y)"
    using thread_request [of c e] assms(2) by auto
  have auth: "authorized e r"
  proof (rule ccontr)
    assume "\<not> authorized e r"
    then have "adds harmless c1 (snd (client_thread e c))"
      using t(1) by (simp add: serve_def harmless_rejection)
    then have "list_all harmless (hlog (snd (client_thread e c)))"
      using adds_log t(2) by (fastforce simp: harmless_def list_all_iff)
    then show False using assms(3,4) by simp
  qed
  then obtain y where "req_credentials r = Some y" "cstr x = cstr y"
    using assms(1) by (auto simp: authorized_def split: option.splits)
  then obtain l where l: "l \<in> set ls" "carries l (cstr x)"
    using t(4) by (fastforce simp: carries_def cstr_id)
  obtain evs where "before @ ev # rest = map Received ls @ evs"
  proof -
    have "\<exists>evs. hlog (snd (serve e r b n c1)) = hlog c1 @ evs"
      by (rule any_thread.ends_log [OF any_thread.serve_chain]) (simp_all add: t(3))
    then show ?thesis using that t(1,2) assms(3) by auto
  qed
  then have "Received ` set ls \<subseteq> set before"
    by (rule received_before) (use assms(4) in \<open>auto simp: harmless_def\<close>)
  then show ?thesis using l by auto
qed

text \<open>
  C7: with credentials configured, a client gets nothing but error messages until it has sent a line
  whose base64 text decodes to exactly these credentials: every other effect (a picture, a file, a
  script, a command, a description) comes after such a line.
\<close>

theorem credentials_required:
  assumes "credentials (conf e) = Some x" and "hlog c = []"
    and "hlog (snd (client_thread e c)) = before @ ev # rest" and "\<not> harmless ev"
  shows "\<exists>l. Received l \<in> set before \<and> carries l (cstr x)"
  using credentials_checked [OF assms] .

subsection \<open>Where the code does not keep what it promises\<close>

text \<open>
  C36: the memory for the command line of a script leaves 264 bytes for the port and the query string
  and ignores how long they are, so it overflows exactly when they are longer; the query string is
  limited only by the request line, and whatever follows it in memory is taken along.
\<close>

theorem cgi_command_line_overflows_iff:
  assumes "www_folder (conf e) = Some w" and "files e (file_path w name) \<noteq> None" and "mallocs c = []" and "hlog c = []"
  shows "(\<exists>cap n. Overrun CommandLine cap n \<in> set (hlog (snd (execute_cgi e name q c)))) \<longleftrightarrow>
    264 \<le> length (fmt_d (port (conf e))) + length (cstr (q @ junk e))"
proof -
  let ?path = "file_path w name"
  let ?t = "cgi_text (fmt_d (port (conf e))) name (cstr (q @ junk e)) ?path"
  let ?cap = "length ?path + length cgi_format + length name + 256"
  let ?o = "\<lambda>ev. case ev of Overrun s cap n \<Rightarrow> s = CommandLine | _ \<Rightarrow> False"
  let ?d = "print_into CommandLine ?cap ?t (emit (Opened ?path) c)"
  obtain content where content: "files e ?path = Some content" using assms(2) by auto
  have memory: "alloc (emit (Opened ?path) c) = (True, emit (Opened ?path) c)"
    by (simp add: alloc_def emit_def assms(3))
  have run: "execute_cgi e name q c = (case scripts e ?t of
      None \<Rightarrow> (Finished, send_error 403 ''CGI script cannot be executed'' ?d)
    | Some printed \<Rightarrow> (case copy_blocks (blocks 4 printed) (emit (Executed ?t) ?d) of
        (True, c) \<Rightarrow> (Finished, c) | (False, c) \<Rightarrow> (Finished, emit ClosedPipe c)))"
    unfolding execute_cgi_def assms(1) option.case Let_def content memory by simp
  have error: "adds (\<lambda>ev. \<not> ?o ev) ?d (send_error 403 ''CGI script cannot be executed'' ?d)"
    by (rule adds_mono [OF harmless_error]) (auto simp: harmless_def split: http_event.splits)
  have copy: "adds (\<lambda>ev. \<not> ?o ev) d (snd (copy_blocks bs d))" for bs d
  proof (induction bs arbitrary: d)
    case (Cons b bs)
    show ?case
      using adds_write [of "\<lambda>ev. \<not> ?o ev" b d] Cons.IH adds_trans
      by (fastforce split: prod.split bool.split)
  qed simp
  have rest: "adds (\<lambda>ev. \<not> ?o ev) ?d (snd (execute_cgi e name q c))"
  proof (cases "scripts e ?t")
    case None
    then show ?thesis using error run by simp
  next
    case (Some printed)
    have "adds (\<lambda>ev. \<not> ?o ev) ?d (snd (copy_blocks (blocks 4 printed) (emit (Executed ?t) ?d)))"
      by (rule adds_trans [OF adds_emit copy]) simp
    moreover have "adds (\<lambda>ev. \<not> ?o ev) d (emit ClosedPipe d)" for d
      by (rule adds_emit) simp
    ultimately show ?thesis
      unfolding run Some option.case using adds_trans by (fastforce split: prod.split bool.split)
  qed
  then obtain evs where evs: "hlog (snd (execute_cgi e name q c)) = hlog ?d @ evs" "list_all (\<lambda>ev. \<not> ?o ev) evs"
    by (auto simp: adds_def)
  have "?cap \<le> length ?t \<longleftrightarrow> 264 \<le> length (fmt_d (port (conf e))) + length (cstr (q @ junk e))"
    by (simp add: cgi_text_def cgi_format_def quoted_def)
  moreover have "(\<exists>cap n. Overrun CommandLine cap n \<in> set (hlog ?d)) \<longleftrightarrow> ?cap \<le> length ?t"
    using assms(4) by (simp add: print_into_def emit_def)
  moreover have "Overrun CommandLine cap n \<notin> set evs" for cap n
    using evs(2) by (auto simp: list_all_iff)
  ultimately show ?thesis using evs(1) by auto
qed

text \<open>Without a folder, a request for a script makes the thread follow a null pointer.\<close>

lemma cgi_without_folder_crashes:
  "www_folder (conf e) = None \<Longrightarrow> req_type r = A_CGI \<Longrightarrow> authorized e r \<Longrightarrow> fst (serve e r False n c) = Crashed"
  by (simp add: serve_def check_number_def answer_def execute_cgi_def)

text \<open>The number of a plugin is only compared with the number of plugins: a negative one passes.\<close>

lemma negative_plugin_called:
  "i < 0 \<Longrightarrow> snd (run_command e 0 i a b v x c) = emit (InputCmd i (word_of_int a) (word_of_int b) v x) c"
  by (simp add: run_command_def incnt_def)

text \<open>A picture that could not be saved for want of a name is sent all the same, after an error.\<close>

lemma take_without_name:
  assumes "find (is_file_plugin e) [0..outcnt e - 1] = Some i" and "strstr s take_key = None"
  shows "take_picture e n s c = send_snapshot e n (send_error 404 ''The &filename= must present for the take command in the URL'' c)"
  using assms by (simp add: take_picture_def)

text \<open>The menu of an output control never fits the memory allocated for it.\<close>

lemma output_menu_overflows:
  assumes "mallocs c = []"
  shows "\<exists>cap n. Overrun MenuString cap n \<in> set (hlog (snd (output_menu names m [j] menu c)))"
  using assms decimal.simps [of "nat j"] decimal.simps [of "nat (- j)"]
  by (auto simp: alloc_def print_into_def emit_def menu_item_def quoted_def fmt_d_def Let_def)

text \<open>Every format is reported as the current one.\<close>

lemma every_format_current: "has_current f"
  unfolding has_current_def using uint_ge_0 [of "currentResolution f"] by linarith

end
