(* ===== verification/StreamerOptions.thy ===== *)
theory StreamerOptions
  imports HttpText
begin

section \<open>Options of the streamer and its plugins\<close>

text \<open>
  How the text after \<^verbatim>\<open>-o\<close> or \<^verbatim>\<open>-i\<close> becomes the options of a plugin: \<open>split_parameters\<close> of
  \<^verbatim>\<open>mjpg_streamer.c\<close>, and the C library's \<^verbatim>\<open>strtok_r\<close>, \<^verbatim>\<open>atoi\<close> and \<^verbatim>\<open>getopt_long_only\<close> as the program
  uses them (no short options, one character sets).
\<close>

subsection \<open>Words\<close>

text \<open>All results of \<^verbatim>\<open>strtok_r(s, " ", ...)\<close>.\<close>

lemma drop_word:
  assumes "dropWhile (\<lambda>b. b = 32) s \<noteq> []"
  shows "length (dropWhile (\<lambda>b. b \<noteq> 32) (dropWhile (\<lambda>b. b = (32::u8)) s)) < length s"
proof -
  obtain b t where bt: "dropWhile (\<lambda>b. b = 32) s = b # t"
    using assms by (cases "dropWhile (\<lambda>b. b = 32) s") auto
  have "b \<noteq> 32"
    using hd_dropWhile [OF assms] bt by simp
  moreover have "length (b # t) \<le> length s"
    using length_dropWhile_le [of "\<lambda>b. b = 32" s] bt by simp
  ultimately show ?thesis
    using length_dropWhile_le [of "\<lambda>b. b \<noteq> 32" t] bt by simp
qed

function tokens :: "u8 list \<Rightarrow> u8 list list" where
  "tokens s =
     (if dropWhile (\<lambda>b. b = 32) s = [] then []
      else takeWhile (\<lambda>b. b \<noteq> 32) (dropWhile (\<lambda>b. b = 32) s)
        # tokens (dropWhile (\<lambda>b. b \<noteq> 32) (dropWhile (\<lambda>b. b = 32) s)))"
  by pat_completeness auto
termination
  by (relation "measure length") (use drop_word in auto)

declare tokens.simps [simp del]

lemma tokens_Nil [simp]: "tokens [] = []"
  by (simp add: tokens.simps)

lemma tokens_space [simp]: "tokens (32 # s) = tokens s"
  by (simp add: tokens.simps [of s] tokens.simps [of "32 # s"])

lemma tokens_word:
  assumes "w \<noteq> []" and "32 \<notin> set w"
  shows "tokens (w @ 32 # s) = w # tokens s" and "tokens w = [w]"
proof -
  have d: "dropWhile (\<lambda>b. b = 32) (w @ r) = w @ r" for r
    using assms by (cases w) auto
  have t: "takeWhile (\<lambda>b. b \<noteq> 32) (w @ 32 # s) = w" "dropWhile (\<lambda>b. b \<noteq> 32) (w @ 32 # s) = 32 # s"
    using assms(2) by (auto simp: takeWhile_append dropWhile_append)
  have e: "takeWhile (\<lambda>b. b \<noteq> 32) w = w" "dropWhile (\<lambda>b. b \<noteq> 32) w = []"
    using assms(2) by (auto simp: takeWhile_eq_all_conv dropWhile_eq_Nil_conv)
  show "tokens (w @ 32 # s) = w # tokens s"
    using assms(1) d [of "32 # s"] t by (subst tokens.simps) simp
  show "tokens w = [w]"
    using assms(1) d [of "[]"] by (subst tokens.simps) (simp add: e del: dropWhile_eq_Nil_conv)
qed

definition word :: "u8 list \<Rightarrow> bool" where
  "word w = (w \<noteq> [] \<and> 32 \<notin> set w)"

text \<open>What is written after the plugin's name: a space before every word.\<close>

definition spaced :: "u8 list list \<Rightarrow> u8 list" where
  "spaced ws = concat (map (\<lambda>w. 32 # w) ws)"

lemma tokens_spaced: "list_all word ws \<Longrightarrow> tokens (spaced ws) = ws"
proof (induction ws)
  case (Cons w ws)
  then show ?case
    by (cases ws) (auto simp: spaced_def word_def tokens_word)
qed (simp add: spaced_def)

lemma tokens_words: "list_all word (tokens s)"
proof (induction s rule: tokens.induct)
  case (1 s)
  show ?case
  proof (cases "dropWhile (\<lambda>b. b = 32) s = []")
    case False
    then have "takeWhile (\<lambda>b. b \<noteq> 32) (dropWhile (\<lambda>b. b = 32) s) \<noteq> []"
      using hd_dropWhile [OF False] by (cases "dropWhile (\<lambda>b. b = 32) s") auto
    then have "word (takeWhile (\<lambda>b. b \<noteq> 32) (dropWhile (\<lambda>b. b = 32) s))"
      by (auto simp: word_def dest: set_takeWhileD)
    then show ?thesis
      using 1 [OF False] by (subst tokens.simps) simp
  qed (simp add: tokens.simps)
qed

subsection \<open>\<^verbatim>\<open>split_parameters\<close>\<close>

definition MAX_PLUGIN_ARGUMENTS :: nat where
  "MAX_PLUGIN_ARGUMENTS = 32"

text \<open>The argument vector; the loader sets all of it to null pointers first. The array has 32 places.\<close>

type_synonym argv = "u8 list option list"

definition no_argv :: argv where
  "no_argv = replicate MAX_PLUGIN_ARGUMENTS None"

text \<open>The loop over the second and later words. \<open>None\<close> in place of the count: too many.\<close>

fun put_arguments :: "nat \<Rightarrow> u8 list list \<Rightarrow> argv \<Rightarrow> nat option \<times> argv" where
  "put_arguments count [] argv = (Some count, argv)"
| "put_arguments count (t # ts) argv =
     (if MAX_PLUGIN_ARGUMENTS \<le> count + 1 then (None, argv[count := Some t])
      else put_arguments (count + 1) ts (argv[count := Some t]))"

text \<open>The result is the return value, what \<^verbatim>\<open>*argc\<close> is afterwards, and the vector.\<close>

definition split_parameters :: "u8 list option \<Rightarrow> nat \<Rightarrow> argv \<Rightarrow> bool \<times> nat \<times> argv" where
  "split_parameters parameter_string argc argv =
     (let argv = argv[0 := None];
          ts = (case parameter_string of None \<Rightarrow> [] | Some s \<Rightarrow> if 32 \<in> set s then tokens s else [])
      in case ts of
           [] \<Rightarrow> (True, 1, argv)
         | t # ts \<Rightarrow>
             (case put_arguments 2 ts (argv[1 := Some t]) of
                (Some count, argv) \<Rightarrow> (True, count, argv)
              | (None, argv) \<Rightarrow> (False, argc, argv)))"

text \<open>What the plugin finds: the first \<open>argc\<close> places after place 0, which it names itself.\<close>

definition arguments :: "nat \<Rightarrow> argv \<Rightarrow> u8 list list" where
  "arguments argc argv = List.map_filter id (take (argc - 1) (drop 1 argv))"

lemma put_arguments_some:
  "length ts + count < 32 \<Longrightarrow> length argv = 32 \<Longrightarrow>
    put_arguments count ts argv =
      (Some (count + length ts), take count argv @ map Some ts @ drop (count + length ts) argv)"
proof (induction ts arbitrary: count argv)
  case (Cons t ts)
  have "take (count + 1) (argv[count := Some t]) = take count argv @ [Some t]"
    using Cons.prems by (simp add: take_Suc_conv_app_nth)
  then show ?case
    using Cons.IH [of "count + 1" "argv[count := Some t]"] Cons.prems
    by (simp add: MAX_PLUGIN_ARGUMENTS_def)
qed simp

lemma put_arguments_none:
  "32 \<le> length ts + count \<Longrightarrow> count < 32 \<Longrightarrow> length argv = 32 \<Longrightarrow>
    put_arguments count ts argv = (None, take count argv @ map Some (take (32 - count) ts))"
proof (induction ts arbitrary: count argv)
  case (Cons t ts)
  have *: "take (count + 1) (argv[count := Some t]) = take count argv @ [Some t]"
    using Cons.prems by (simp add: take_Suc_conv_app_nth)
  show ?case
  proof (cases "count = 31")
    case True
    then show ?thesis
      using Cons.prems * by (simp add: MAX_PLUGIN_ARGUMENTS_def)
  next
    case False
    then have "32 - count = Suc (31 - count)"
      using Cons.prems by simp
    then show ?thesis
      using Cons.IH [of "count + 1" "argv[count := Some t]"] Cons.prems False *
      by (simp add: MAX_PLUGIN_ARGUMENTS_def)
  qed
qed simp

lemma space_spaced: "ws \<noteq> [] \<Longrightarrow> 32 \<in> set (spaced ws)"
  by (cases ws) (auto simp: spaced_def)

lemma map_filter_Some: "List.map_filter id (map Some xs) = xs"
  by (induction xs) (auto simp: List.map_filter_def)

lemma split_spaced:
  assumes "list_all word ws"
  shows "split_parameters (Some (spaced ws)) argc no_argv =
    (if length ws \<le> 30 then (True, length ws + 1, None # map Some ws @ replicate (31 - length ws) None)
     else (False, argc, None # map Some (take 31 ws)))"
proof (cases ws)
  case Nil
  have "no_argv[0 := None] = None # replicate 31 None"
    using replicate_Suc [of 31 "None :: u8 list option"] by (simp add: no_argv_def MAX_PLUGIN_ARGUMENTS_def)
  then show ?thesis
    using Nil by (simp add: split_parameters_def spaced_def)
next
  case (Cons t ts)
  let ?v = "no_argv[0 := None, 1 := Some t]"
  have "replicate 32 (None :: u8 list option) = None # None # replicate 30 None"
    using replicate_Suc [of 31 "None :: u8 list option"] replicate_Suc [of 30 "None :: u8 list option"] by simp
  then have v: "?v = None # Some t # replicate 30 None" "length ?v = 32"
    by (simp_all add: no_argv_def MAX_PLUGIN_ARGUMENTS_def)
  have ts: "tokens (spaced ws) = t # ts" "32 \<in> set (spaced ws)"
    using tokens_spaced [OF assms] space_spaced [of ws] Cons by auto
  show ?thesis
  proof (cases "length ws \<le> 30")
    case True
    then have "put_arguments 2 ts ?v = (Some (2 + length ts), take 2 ?v @ map Some ts @ drop (2 + length ts) ?v)"
      using Cons v(2) by (intro put_arguments_some) auto
    then show ?thesis
      using True ts Cons v(1)
      by (simp add: split_parameters_def Let_def numeral_2_eq_2 no_argv_def MAX_PLUGIN_ARGUMENTS_def)
  next
    case False
    then have "put_arguments 2 ts ?v = (None, take 2 ?v @ map Some (take (32 - 2) ts))"
      using Cons v(2) by (intro put_arguments_none) auto
    then show ?thesis
      using False ts Cons v(1) by (simp add: split_parameters_def Let_def numeral_2_eq_2)
  qed
qed

lemma arguments_spaced:
  assumes "list_all word ws" and "split_parameters (Some (spaced ws)) 0 no_argv = (ok, argc, argv)"
  shows "arguments argc argv = (if length ws \<le> 30 then ws else [])"
  using assms(2) map_filter_Some [of ws]
  unfolding split_spaced [OF assms(1)] arguments_def
  by (auto simp: List.map_filter_def split: if_splits)

subsection \<open>\<^verbatim>\<open>getopt_long_only\<close>\<close>

text \<open>An option of the table: its name and whether it takes an argument.\<close>

type_synonym options = "(u8 list \<times> bool) list"

datatype parsed_option = Opt (option_index: nat) (optarg: "u8 list") | Unrecognized

definition starts_with :: "u8 list \<Rightarrow> u8 list \<Rightarrow> bool" where
  "starts_with p s = (take (length p) s = p)"

text \<open>
  An exact name comes first, then an abbreviation only one option has.
\<close>

definition find_option :: "options \<Rightarrow> u8 list \<Rightarrow> nat option" where
  "find_option table name =
     (case filter (\<lambda>i. fst (table ! i) = name) [0..<length table] of
        i # _ \<Rightarrow> Some i
      | [] \<Rightarrow>
          (case filter (\<lambda>i. starts_with name (fst (table ! i))) [0..<length table] of
             [i] \<Rightarrow> Some i
           | _ \<Rightarrow> None))"

text \<open>
  The options one call after the other returns, for the words after place 0; words that are no options
  are passed over. The program stops at the first \<open>Unrecognized\<close>.
\<close>

function getopt_all :: "options \<Rightarrow> u8 list list \<Rightarrow> parsed_option list" where
  "getopt_all table ws =
     (case ws of
        [] \<Rightarrow> []
      | w # ws \<Rightarrow>
          if w = [45, 45] then []
          else if w = [45] \<or> \<not> starts_with [45] w then getopt_all table ws
          else
            let body = (if starts_with [45, 45] w then drop 2 w else drop 1 w);
                name = takeWhile (\<lambda>b. b \<noteq> 61) body;
                given = (61 \<in> set body);
                arg = drop (length name + 1) body
            in case find_option table name of
                 None \<Rightarrow> [Unrecognized]
               | Some i \<Rightarrow>
                   if snd (table ! i) then
                     if given then Opt i arg # getopt_all table ws
                     else (case ws of [] \<Rightarrow> [Unrecognized] | v # ws \<Rightarrow> Opt i v # getopt_all table ws)
                   else if given then [Unrecognized]
                   else Opt i [] # getopt_all table ws)"
  by pat_completeness auto
termination by (relation "measure (\<lambda>(table, ws). length ws)") auto

declare getopt_all.simps [simp del]

lemma getopt_none [simp]: "getopt_all table [] = []"
  by (simp add: getopt_all.simps)

subsection \<open>\<^verbatim>\<open>atoi\<close>\<close>

definition is_space :: "u8 \<Rightarrow> bool" where
  "is_space c = (c = 32 \<or> 9 \<le> c \<and> c \<le> 13)"

definition atoi :: "u8 list \<Rightarrow> int" where
  "atoi s =
     (case dropWhile is_space s of
        [] \<Rightarrow> 0
      | c # r \<Rightarrow> clamp32 (if c = 45 then - digits_value 0 r else if c = 43 then digits_value 0 r else digits_value 0 (c # r)))"

definition htons :: "u16 \<Rightarrow> u16" where
  "htons w = push_bit 8 w OR drop_bit 8 w"

lemma htons_htons [simp]: "htons (htons w) = w"
  unfolding htons_def by (rule bit_word_eqI) (auto simp: bit_or_iff bit_push_bit_iff bit_drop_bit_eq)

end
