(* ===== verification/HttpdServer.thy ===== *)
theory HttpdServer
  imports HttpdSafe StreamerOptions "HOL-Library.Multiset"
begin

section \<open>The HTTP server around its connections\<close>

text \<open>
  \<^verbatim>\<open>output_http.c\<close>, which turns the options of the plugin into a configuration, and \<^verbatim>\<open>server_thread\<close> of
  \<^verbatim>\<open>httpd.c\<close>, which opens the sockets, accepts connections and starts a thread for each.
\<close>

subsection \<open>\<^verbatim>\<open>output_init\<close>\<close>

definition http_options :: options where
  "http_options =
     [(ascii ''h'', False), (ascii ''help'', False), (ascii ''p'', True), (ascii ''port'', True),
      (ascii ''c'', True), (ascii ''credentials'', True), (ascii ''w'', True), (ascii ''www'', True),
      (ascii ''n'', False), (ascii ''nocommands'', False)]"

text \<open>
  Initialised; refused (return value 1); a null pointer followed.
  \<open>mem\<close> says whether each allocation succeeds; all do when it has run out.
\<close>

datatype init_result = Configured config | Refused | InitCrashed

definition got :: "bool list \<Rightarrow> bool" where
  "got mem = (mem = [] \<or> hd mem)"

text \<open>
  The folder gets a slash at its end unless it has one. An empty folder can only be written as in \<^verbatim>\<open>--www=\<close>; the
  character before its end is then the equals sign.
\<close>

definition with_slash :: "u8 list \<Rightarrow> u8 list" where
  "with_slash v = (if v \<noteq> [] \<and> last v = 47 then v else v @ [47])"

text \<open>The port is kept in network byte order, in an \<open>int\<close>.\<close>

definition net_port :: "int \<Rightarrow> int" where
  "net_port p = uint (htons (word_of_int p))"

fun apply_options :: "parsed_option list \<Rightarrow> bool list \<Rightarrow> config \<Rightarrow> init_result" where
  "apply_options [] mem c = Configured c"
| "apply_options (Unrecognized # os) mem c = Refused"
| "apply_options (Opt i v # os) mem c =
     (if i \<le> 1 then Refused
      else if i \<le> 3 then apply_options os mem (c\<lparr>port := net_port (atoi v)\<rparr>)
      else if i \<le> 5 then apply_options os (tl mem) (c\<lparr>credentials := if got mem then Some v else None\<rparr>)
      else if i \<le> 7 then
        (if \<not> got mem then InitCrashed
         else apply_options os (tl mem) (c\<lparr>www_folder := Some (with_slash v)\<rparr>))
      else apply_options os mem (c\<lparr>nocommands := True\<rparr>))"

definition default_config :: config where
  "default_config = \<lparr>port = net_port 8080, credentials = None, www_folder = None, nocommands = False\<rparr>"

definition output_init :: "nat \<Rightarrow> argv \<Rightarrow> bool list \<Rightarrow> init_result" where
  "output_init argc argv mem = apply_options (getopt_all http_options (arguments argc argv)) mem default_config"

text \<open>The plugin as it is given its text: the loader does not look at the result of \<open>split_parameters\<close>.\<close>

definition output_init_from :: "u8 list option \<Rightarrow> bool list \<Rightarrow> init_result" where
  "output_init_from parameters mem =
     (case split_parameters parameters 0 no_argv of (_, argc, argv) \<Rightarrow> output_init argc argv mem)"

definition slashed :: "config \<Rightarrow> bool" where
  "slashed c = (case www_folder c of None \<Rightarrow> True | Some w \<Rightarrow> w \<noteq> [] \<and> last w = 47)"

lemma apply_options_slashed: "apply_options os mem c = Configured c' \<Longrightarrow> slashed c \<Longrightarrow> slashed c'"
proof (induction os mem c rule: apply_options.induct)
  case (3 i v os mem c)
  have put: "slashed (c\<lparr>www_folder := Some (with_slash v)\<rparr>)"
    by (simp add: slashed_def with_slash_def)
  have keep: "slashed (c\<lparr>port := p\<rparr>)" "slashed (c\<lparr>credentials := z\<rparr>)" "slashed (c\<lparr>nocommands := True\<rparr>)" for p z
    using 3(6) by (simp_all add: slashed_def)
  consider "i \<le> 1" | "\<not> i \<le> 1" "i \<le> 3" | "\<not> i \<le> 3" "i \<le> 5" | "\<not> i \<le> 5" "i \<le> 7" | "\<not> i \<le> 7"
    by linarith
  then show ?case
  proof cases
    case 2
    then show ?thesis
      using 3(1) [OF _ _ _ keep(1)] 3(5) by simp
  next
    case 3
    then show ?thesis
      using "3.IH"(2) [OF _ _ _ _ keep(2)] "3.prems"(1) by simp
  next
    case 4
    then show ?thesis
      using "3.IH"(3) [OF _ _ _ _ _ _ put] "3.prems"(1) by (simp split: if_split_asm)
  next
    case 5
    then show ?thesis
      using "3.IH"(4) [OF _ _ _ _ _ keep(3)] "3.prems"(1) by simp
  qed (use "3.prems"(1) in simp)
qed simp_all

lemma output_init_slashed: "output_init argc argv mem = Configured c \<Longrightarrow> slashed c"
  unfolding output_init_def by (erule apply_options_slashed) (simp add: slashed_def default_config_def)

text \<open>
  The folder of a server that could be initialised ends in a slash, whatever its options were, so that
  the files it serves are in the folder: with \<open>only_files_of_the_folder\<close>, everything a connection opens has
  a path made of the folder, which ends in the path's last slash, and a name of at most 100 characters.
\<close>

lemma configured_folder_served:
  assumes "output_init argc argv mem = Configured (conf e)" and "hlog c = []"
    and "Opened p \<in> set (hlog (snd (client_thread e c)))"
    and "\<And>w. www_folder (conf e) = Some w \<Longrightarrow> length w + 100 < BUFFER_SIZE"
  shows "\<exists>w name. www_folder (conf e) = Some w \<and> last w = 47 \<and> p = w @ name \<and> 47 \<notin> set name \<and> length name \<le> 100"
proof -
  obtain w name where w: "www_folder (conf e) = Some w" and n: "plain_name name" "p = file_path w name"
    using path_thread.log_event [OF assms(2,3)] by (auto simp: path_policy_def)
  have "last w = 47"
    using output_init_slashed [OF assms(1)] w by (simp add: slashed_def)
  then show ?thesis
    using assms(4) [OF w] w n slash_not_plain file_path_whole [of w name] by (auto simp: plain_name_def)
qed

subsection \<open>Opening the sockets\<close>

definition MAX_SD_LEN :: nat where
  "MAX_SD_LEN = 50"

text \<open>
  One address of \<^verbatim>\<open>getaddrinfo\<close>: the result of \<^verbatim>\<open>socket\<close> (-1 when it fails) and whether \<^verbatim>\<open>bind\<close> and
  \<^verbatim>\<open>listen\<close> succeed.
\<close>

record address =
  ai_socket :: int
  ai_bind :: bool
  ai_listen :: bool

definition listening :: "address \<Rightarrow> bool" where
  "listening a = (0 \<le> ai_socket a \<and> ai_bind a \<and> ai_listen a)"

fun open_loop :: "nat \<Rightarrow> address list \<Rightarrow> int list \<Rightarrow> int list \<times> nat" where
  "open_loop i [] sd = (sd, i)"
| "open_loop i (a # as) sd =
     (if ai_socket a < 0 then open_loop i as (sd[i := ai_socket a])
      else if \<not> ai_bind a then open_loop i as (sd[i := - 1])
      else if \<not> ai_listen a then open_loop i as (sd[i := - 1])
      else if MAX_SD_LEN \<le> i + 1 then (sd[i := ai_socket a], i)
      else open_loop (i + 1) as (sd[i := ai_socket a]))"

text \<open>The array \<^verbatim>\<open>sd\<close> and \<^verbatim>\<open>sd_len\<close>; the process exits when there is none.\<close>

definition open_sockets :: "address list \<Rightarrow> (int list \<times> nat) option" where
  "open_sockets as =
     (case open_loop 0 as (replicate MAX_SD_LEN (- 1)) of
        (sd, n) \<Rightarrow> if n < 1 then None else Some (sd, n))"

lemma open_loop_result:
  "i < 50 \<Longrightarrow> length sd = 50 \<Longrightarrow> drop i sd = replicate (50 - i) (- 1) \<Longrightarrow>
   (\<forall>a \<in> set as. ai_socket a < 0 \<longrightarrow> ai_socket a = - 1) \<Longrightarrow>
   g = map ai_socket (filter listening as) \<Longrightarrow>
   open_loop i as sd =
     (take i sd @ take (50 - i) g @ replicate (50 - i - length g) (- 1), min (i + length g) 49)"
proof (induction as arbitrary: i sd g)
  case Nil
  then show ?case
    using append_take_drop_id [of i sd] by simp
next
  case (Cons a as)
  note small = Cons.prems(1) and len = Cons.prems(2) and free = Cons.prems(3)
  have z: "50 - i = Suc (49 - i)"
    using small by simp
  have nth: "sd ! i = - 1"
    using free nth_drop [of i sd 0] z len small by simp
  have same: "sd[i := - 1] = sd"
    using list_update_id [of sd i] nth by simp
  show ?case
  proof (cases "listening a")
    case False
    then have "open_loop i (a # as) sd = open_loop i as sd"
      using Cons.prems(4) same by (auto simp: listening_def)
    then show ?thesis
      using Cons.IH [OF small len free, of g] Cons.prems(4,5) False by simp
  next
    case True
    let ?sd = "sd[i := ai_socket a]" and ?g = "map ai_socket (filter listening as)"
    have upd: "take (Suc i) ?sd = take i sd @ [ai_socket a]"
      using small len by (simp add: take_Suc_conv_app_nth)
    have g: "g = ai_socket a # ?g"
      using Cons.prems(5) True by simp
    show ?thesis
    proof (cases "i = 49")
      case last: True
      then have "?sd = take i sd @ [ai_socket a]"
        using upd len by simp
      then show ?thesis
        using True g last by (simp add: listening_def MAX_SD_LEN_def)
    next
      case False
      have rest: "drop (i + 1) ?sd = replicate (50 - (i + 1)) (- 1)"
        using arg_cong [OF free, of "drop 1"] by simp
      have "open_loop (i + 1) as ?sd = (take (i + 1) ?sd @ take (50 - (i + 1)) ?g @
          replicate (50 - (i + 1) - length ?g) (- 1), min (i + 1 + length ?g) 49)"
        using Cons.IH [OF _ _ rest _ refl] small len False Cons.prems(4) by simp
      then show ?thesis
        using True False small g upd z by (simp add: listening_def MAX_SD_LEN_def)
    qed
  qed
qed

text \<open>
  The array of sockets holds exactly the first 50 sockets that could be bound and listened on, in the
  order of the addresses, and -1 after them; their number, except that it is 49 when all 50 places are
  taken, is \<^verbatim>\<open>sd_len\<close>; when there is none the process exits.
\<close>

lemma sockets_opened:
  assumes "\<forall>a \<in> set as. ai_socket a < 0 \<longrightarrow> ai_socket a = - 1"
    and "g = map ai_socket (filter listening as)"
  shows "open_sockets as =
    (if g = [] then None else Some (take 50 g @ replicate (50 - length g) (- 1), min (length g) 49))"
  using open_loop_result [of 0 "replicate 50 (- 1)" as g] assms
  by (cases g) (auto simp: open_sockets_def MAX_SD_LEN_def)

lemma sockets_opened_witness:
  "open_sockets [\<lparr>ai_socket = 4, ai_bind = True, ai_listen = True\<rparr>, \<lparr>ai_socket = 5, ai_bind = False, ai_listen = True\<rparr>] =
    Some (4 # replicate 49 (- 1), 1)"
  using sockets_opened [of "[\<lparr>ai_socket = 4, ai_bind = True, ai_listen = True\<rparr>,
      \<lparr>ai_socket = 5, ai_bind = False, ai_listen = True\<rparr>]" "[4]"]
  by (simp add: listening_def)

subsection \<open>The accept loop\<close>

text \<open>
  One pass of the loop allocates one \<open>cfd\<close>, waits until sockets are ready and accepts from each of them; a
  new thread copies the \<open>cfd\<close> it is handed, and frees it, when it gets to run. A \<open>cfd\<close> is a place of the
  list \<open>cells\<close>; its number is its address.
\<close>

datatype cell = Fresh | Holds (held: int) | Freed

text \<open>
  \<open>todo\<close>: the ready sockets this pass has not accepted from. \<open>pending\<close>: the arguments of threads that have
  been created and have not run. \<open>accepted\<close>, \<open>served\<close>, \<open>refused\<close>: the connections given by \<^verbatim>\<open>accept\<close>, taken
  by threads, closed for want of a thread. \<open>broken\<close>: freed memory was used, or memory outside \<^verbatim>\<open>sd\<close> read.
\<close>

record acceptor =
  cells :: "cell list"
  pcfd :: nat
  todo :: "int list"
  pending :: "nat list"
  accepted :: "int list"
  served :: "int list"
  refused :: "int list"
  broken :: bool
  ended :: bool

definition init_acceptor :: acceptor where
  "init_acceptor =
     \<lparr>cells = [], pcfd = 0, todo = [], pending = [], accepted = [], served = [], refused = [], broken = False, ended = False\<rparr>"

text \<open>
  The biggest socket of \<^verbatim>\<open>sd\<close>, and the sockets the loop finds ready. It runs \<^verbatim>\<open>i\<close> from 0 to \<open>max_fds\<close>, a socket
  number, and uses \<^verbatim>\<open>i\<close> as the index into \<^verbatim>\<open>sd\<close>.
\<close>

definition max_fds :: "int list \<Rightarrow> int" where
  "max_fds sd = fold max (filter (\<lambda>s. s \<noteq> - 1) sd) 0"

definition ready_sockets :: "int list \<Rightarrow> int list \<Rightarrow> int list option" where
  "ready_sockets sd ready =
     (if length sd < nat (max_fds sd + 1) then None
      else Some (filter (\<lambda>s. s \<noteq> - 1 \<and> s \<in> set ready) (take (nat (max_fds sd + 1)) sd)))"

lemma big_descriptor_reads_outside: "length sd = MAX_SD_LEN \<Longrightarrow> 50 \<le> max_fds sd \<Longrightarrow> ready_sockets sd ready = None"
  by (simp add: ready_sockets_def MAX_SD_LEN_def)

text \<open>
  What happens next: a new pass (whether the allocation succeeds; the sockets \<^verbatim>\<open>select\<close> reports; whether the
  program was told to stop, which is looked at before a pass only); one \<^verbatim>\<open>accept\<close> with its result and whether
  the thread could be created; a created thread gets to run.
\<close>

datatype server_action =
    Pass bool "int list"
  | StopSeen
  | Accept int bool
  | ThreadRuns nat

definition thread_runs :: "nat \<Rightarrow> acceptor \<Rightarrow> acceptor" where
  "thread_runs k a =
     (if k < length (pending a) then
        let p = pending a ! k;
            a = a\<lparr>pending := take k (pending a) @ drop (k + 1) (pending a)\<rparr>
        in case cells a ! p of
             Holds fd \<Rightarrow> a\<lparr>served := served a @ [fd], cells := (cells a)[p := Freed]\<rparr>
           | _ \<Rightarrow> a\<lparr>broken := True\<rparr>
      else a)"

definition accept_one :: "int \<Rightarrow> bool \<Rightarrow> acceptor \<Rightarrow> acceptor" where
  "accept_one fd created a =
     (case todo a of
        [] \<Rightarrow> a
      | _ # rest \<Rightarrow>
          let a = a\<lparr>todo := rest, accepted := accepted a @ [fd]\<rparr>
          in if cells a ! pcfd a = Freed then a\<lparr>broken := True\<rparr>
             else if created then a\<lparr>cells := (cells a)[pcfd a := Holds fd], pending := pending a @ [pcfd a]\<rparr>
             else a\<lparr>cells := (cells a)[pcfd a := Freed], refused := refused a @ [fd]\<rparr>)"

fun server_step :: "int list \<Rightarrow> server_action \<Rightarrow> acceptor \<Rightarrow> acceptor" where
  "server_step sd (Pass ok ready) a =
     (if broken a \<or> ended a \<or> todo a \<noteq> [] then a
      else if \<not> ok then a\<lparr>ended := True\<rparr>
      else let a = a\<lparr>cells := cells a @ [Fresh], pcfd := length (cells a)\<rparr>
           in case ready_sockets sd ready of
                None \<Rightarrow> a\<lparr>broken := True\<rparr>
              | Some t \<Rightarrow> a\<lparr>todo := t\<rparr>)"
| "server_step sd StopSeen a = (if broken a \<or> todo a \<noteq> [] then a else a\<lparr>ended := True\<rparr>)"
| "server_step sd (Accept fd created) a = (if broken a \<or> ended a then a else accept_one fd created a)"
| "server_step sd (ThreadRuns k) a = (if broken a then a else thread_runs k a)"

text \<open>What is true of a server that never accepts twice in a pass.\<close>

definition handed_over :: "acceptor \<Rightarrow> int multiset" where
  "handed_over a = mset (served a) + mset (refused a) + image_mset (\<lambda>p. held (cells a ! p)) (mset (pending a))"

definition accept_inv :: "acceptor \<Rightarrow> bool" where
  "accept_inv a \<longleftrightarrow>
     \<not> broken a \<and> length (todo a) \<le> 1 \<and>
     (todo a \<noteq> [] \<longrightarrow> pcfd a < length (cells a) \<and> cells a ! pcfd a = Fresh) \<and>
     distinct (pending a) \<and> (\<forall>p \<in> set (pending a). p < length (cells a) \<and> (\<exists>fd. cells a ! p = Holds fd)) \<and>
     mset (accepted a) = handed_over a"

lemma held_elsewhere:
  "p \<notin> set qs \<Longrightarrow> image_mset (\<lambda>q. held (cs[p := x] ! q)) (mset qs) = image_mset (\<lambda>q. held (cs ! q)) (mset qs)"
  by (rule image_mset_cong) (metis nth_list_update_neq set_mset_mset)

lemma thread_runs_inv: "accept_inv a \<Longrightarrow> accept_inv (thread_runs k a)"
proof (cases "k < length (pending a)")
  case True
  assume inv: "accept_inv a"
  let ?p = "pending a ! k" and ?r = "take k (pending a) @ drop (k + 1) (pending a)"
  have split: "pending a = take k (pending a) @ ?p # drop (k + 1) (pending a)"
    using True by (simp add: id_take_nth_drop)
  have perm: "mset (pending a) = mset ?r + {#?p#}"
    by (subst split) simp
  have distinct: "distinct (pending a)"
    using inv by (simp add: accept_inv_def)
  have new: "?p \<notin> set ?r" "distinct ?r" "set ?r \<subseteq> set (pending a)" "?p \<in> set (pending a)"
    using distinct split by (metis distinct_append distinct.simps(2) not_distinct_conv_prefix set_append Un_iff disjoint_iff list.set_intros,
      metis distinct_append distinct.simps(2) disjoint_iff list.set_intros(2),
      auto dest: in_set_takeD in_set_dropD simp: True)
  obtain fd where fd: "cells a ! ?p = Holds fd" "?p < length (cells a)"
    using inv new(4) by (auto simp: accept_inv_def)
  have "thread_runs k a = a\<lparr>pending := ?r, served := served a @ [fd], cells := (cells a)[?p := Freed]\<rparr>"
    using True fd by (simp add: thread_runs_def Let_def)
  moreover have "image_mset (\<lambda>q. held ((cells a)[?p := Freed] ! q)) (mset ?r) = image_mset (\<lambda>q. held (cells a ! q)) (mset ?r)"
    using new(1) by (rule held_elsewhere)
  ultimately show ?thesis
    using inv new fd perm by (auto simp: accept_inv_def handed_over_def nth_list_update)
qed (simp add: thread_runs_def)

lemma accept_one_inv: "accept_inv a \<Longrightarrow> accept_inv (accept_one fd created a)"
proof (cases "todo a")
  case (Cons s rest)
  assume inv: "accept_inv a"
  then have c: "rest = []" "pcfd a < length (cells a)" "cells a ! pcfd a = Fresh" "pcfd a \<notin> set (pending a)"
    using Cons by (auto simp: accept_inv_def)
  have "image_mset (\<lambda>q. held ((cells a)[pcfd a := x] ! q)) (mset (pending a)) = image_mset (\<lambda>q. held (cells a ! q)) (mset (pending a))" for x
    using c(4) by (rule held_elsewhere)
  then show ?thesis
    using inv c Cons by (auto simp: accept_one_def accept_inv_def handed_over_def Let_def nth_list_update)
qed (simp add: accept_one_def)

definition one_socket :: "int list \<Rightarrow> bool" where
  "one_socket sd = (length (filter (\<lambda>s. s \<noteq> - 1) sd) = 1 \<and> max_fds sd < int (length sd))"

lemma length_filter_both: "length (filter (\<lambda>s. P s \<and> Q s) xs) \<le> length (filter P xs)"
  by (induction xs) auto

lemma ready_one:
  assumes "one_socket sd"
  shows "\<exists>t. ready_sockets sd ready = Some t \<and> length t \<le> 1"
proof -
  let ?n = "nat (max_fds sd + 1)"
  have "length (filter (\<lambda>s. s \<noteq> - 1 \<and> s \<in> set ready) (take ?n sd)) \<le> length (filter (\<lambda>s. s \<noteq> - 1) (take ?n sd))"
    by (rule length_filter_both)
  also have "\<dots> \<le> length (filter (\<lambda>s. s \<noteq> - 1) (take ?n sd @ drop ?n sd))"
    by (simp only: filter_append length_append)
  finally show ?thesis
    using assms by (auto simp: ready_sockets_def one_socket_def)
qed

lemma server_step_inv:
  assumes "one_socket sd" and "accept_inv a"
  shows "accept_inv (server_step sd act a)"
proof (cases act)
  case (Pass ok ready)
  obtain t where t: "ready_sockets sd ready = Some t" "length t \<le> 1"
    using ready_one [OF assms(1)] by blast
  have "image_mset (\<lambda>q. held ((cells a @ [Fresh]) ! q)) (mset (pending a)) = image_mset (\<lambda>q. held (cells a ! q)) (mset (pending a))"
    using assms(2) by (intro image_mset_cong) (auto simp: accept_inv_def nth_append)
  then show ?thesis
    using assms(2) Pass t by (auto simp: accept_inv_def handed_over_def Let_def nth_append)
next
  case StopSeen
  then show ?thesis
    using assms(2) by (simp add: accept_inv_def handed_over_def)
next
  case Accept
  then show ?thesis
    using assms(2) accept_one_inv by simp
next
  case ThreadRuns
  then show ?thesis
    using assms(2) thread_runs_inv by simp
qed

interpretation one_listener: machine "\<lambda>act a. if one_socket sd then server_step sd act a else a" accept_inv for sd
  by unfold_locales (simp add: server_step_inv)

text \<open>
  C6: a server with one listening socket, however the accept loop and the threads it starts interleave:
  no freed memory is used, and every connection it accepted has been taken by exactly one thread,
  was closed, or is kept for exactly one thread that has not run yet.
\<close>

theorem connections_handled_once:
  assumes "one_socket sd"
  shows "\<not> broken (fold (server_step sd) acts init_acceptor) \<and>
    mset (accepted (fold (server_step sd) acts init_acceptor)) = handed_over (fold (server_step sd) acts init_acceptor)"
proof -
  have "accept_inv init_acceptor"
    by (simp add: accept_inv_def init_acceptor_def handed_over_def)
  then have "accept_inv (fold (server_step sd) acts init_acceptor)"
    using one_listener.run_inv [of init_acceptor sd acts] assms by simp
  then show ?thesis
    by (simp add: accept_inv_def)
qed

definition demo_sd :: "int list" where
  "demo_sd = 4 # replicate 49 (- 1)"

lemma demo_one_socket: "one_socket demo_sd"
  by code_simp

definition demo_actions :: "server_action list" where
  "demo_actions = [Pass True [4], Accept 7 True, Pass True [4], ThreadRuns 0, Accept 8 False, Pass True [4], Accept 9 True]"

theorem connections_handled_once_witness:
  "\<not> broken (fold (server_step demo_sd) demo_actions init_acceptor) \<and>
   accepted (fold (server_step demo_sd) demo_actions init_acceptor) = [7, 8, 9] \<and>
   handed_over (fold (server_step demo_sd) demo_actions init_acceptor) = mset [7, 8, 9]"
proof -
  have "accepted (fold (server_step demo_sd) demo_actions init_acceptor) = [7, 8, 9]"
    by code_simp
  then show ?thesis
    using connections_handled_once [OF demo_one_socket, of demo_actions] by simp
qed

text \<open>
  Where two sockets are ready in one pass (a server listens on one socket for each address family), both
  connections share the one \<open>cfd\<close>. When the thread of the first runs before the second is accepted, freed
  memory is written; when it runs after, the first connection is lost and the second handed out twice.
\<close>

lemma two_ready_sockets_use_after_free:
  assumes "accept_inv a" and "\<not> ended a" and "todo a = []" and "pending a = []"
    and "ready_sockets sd ready = Some (s1 # s2 # rest)"
  shows "broken (fold (server_step sd) [Pass True ready, Accept fd1 True, ThreadRuns 0, Accept fd2 created] a)"
  using assms by (simp add: accept_inv_def accept_one_def thread_runs_def Let_def nth_append)

lemma two_ready_sockets_lose_a_connection:
  assumes "accept_inv a" and "\<not> ended a" and "todo a = []" and "pending a = []"
    and "ready_sockets sd ready = Some [s1, s2]"
    and "b = fold (server_step sd) [Pass True ready, Accept fd1 True, Accept fd2 True, ThreadRuns 0] a"
  shows "accepted b = accepted a @ [fd1, fd2]" and "served b = served a @ [fd2]" and "refused b = refused a"
    and "broken (server_step sd (ThreadRuns 0) b)"
  using assms by (simp_all add: accept_inv_def accept_one_def thread_runs_def Let_def nth_append)

end
