(* ===== verification/HttpdDemo.thy ===== *)
theory HttpdDemo
  imports HttpdSafe
begin

section \<open>Requests evaluated\<close>

text \<open>
  A client that sends a request line, its credentials and an empty line: what the thread has read when
  it serves the request, and what it does for a file, a script and a command. These runs witness the
  properties of \<open>HttpdSafe\<close>.
\<close>

definition demo_http :: http_env where
  "demo_http = \<lparr>conf = \<lparr>port = 80, credentials = Some (ascii ''me:pw''), www_folder = Some (ascii ''/www/''),
       nocommands = False\<rparr>,
     inputs = [\<lparr>plugin_id = 0, plugin_name = None, plugin_file = None, plugin_args = None, controls = None, formats = None\<rparr>],
     outputs = [], in_cmd = (\<lambda>_ _ _ _ _. 0), out_cmd = (\<lambda>_ _ _ _ _. 0), ticks = (\<lambda>_. []),
     files = (\<lambda>p. Some (ascii ''hi'')), scripts = (\<lambda>p. Some (ascii ''ok'')), junk = [0]\<rparr>"

definition demo_line :: "string \<Rightarrow> u8 list" where
  "demo_line s = (ascii s @ [13]) @ [10]"

definition demo_header :: string where
  "demo_header = ''Authorization: Basic bWU6cHc=''"

definition demo_client :: "string \<Rightarrow> http_client" where
  "demo_client req = new_client [Bytes (demo_line req), Bytes (demo_line demo_header), Bytes (demo_line '''')] [] []"

definition demo_served :: "string \<Rightarrow> request \<Rightarrow> http_client \<Rightarrow> bool" where
  "demo_served req r c = (hlog c = [Received (demo_line req), Received (demo_line demo_header), Received (demo_line '''')] \<and>
     mallocs c = [] \<and> writes c = [])"

lemma demo_read:
  assumes "level io = 0" and "10 \<notin> set (ascii s)" and "length s < 200"
  shows "\<exists>io'. level io' = 0 \<and>
    readline (BUFFER_SIZE - 1) io (Bytes (demo_line s) # t) = (Ret (int (length s + 2)), demo_line s, io', t)"
  using readline_segment [of io "ascii s @ [13]" "BUFFER_SIZE - 1" t] assms
  by (auto simp: demo_line_def BUFFER_SIZE_def)

lemma demo_headers:
  "header_line (cstr (demo_line '''')) r c = (Some r, c)"
  "mallocs c = [] \<Longrightarrow>
    header_line (cstr (demo_line demo_header)) r c = (Some (r\<lparr>req_credentials := Some (ascii ''me:pw'')\<rparr>), c)"
proof -
  have "strstr (cstr (demo_line '''')) (ascii ''User-Agent: '') = None"
    "strstr (cstr (demo_line '''')) (ascii ''Authorization: Basic '') = None"
    by code_simp+
  then show "header_line (cstr (demo_line '''')) r c = (Some r, c)" by (simp add: header_line_def)
  assume m: "mallocs c = []"
  have "strstr (cstr (demo_line demo_header)) (ascii ''User-Agent: '') = None"
    "strstr (cstr (demo_line demo_header)) (ascii ''Authorization: Basic '') \<noteq> None"
    "map_option cstr (decodeBase64 (drop 21 (cstr (demo_line demo_header)) @ [0])) = Some (ascii ''me:pw'')"
    by code_simp+
  then show "header_line (cstr (demo_line demo_header)) r c = (Some (r\<lparr>req_credentials := Some (ascii ''me:pw'')\<rparr>), c)"
    using m by (auto simp: header_line_def alloc_def)
qed

lemma demo_thread:
  assumes "10 \<notin> set (ascii req)" and "length req < 200"
    and parse: "\<And>c. mallocs c = [] \<Longrightarrow> parse_request (cstr (demo_line req)) c = Inr (r, b, c)"
  shows "\<exists>c. demo_served req r c \<and> client_thread e (demo_client req) =
    serve e (r\<lparr>req_credentials := Some (ascii ''me:pw'')\<rparr>) b (if b then input_number_of (cstr (demo_line req)) else 0) c"
proof -
  let ?s2 = "[Bytes (demo_line demo_header), Bytes (demo_line '''')]"
  obtain io1 where r1: "level io1 = 0" "readline (BUFFER_SIZE - 1) init_iobuffer (Bytes (demo_line req) # ?s2) =
      (Ret (int (length req + 2)), demo_line req, io1, ?s2)"
    using demo_read [of init_iobuffer req ?s2] assms(1,2) by (auto simp: init_iobuffer_def)
  have h: "10 \<notin> set (ascii demo_header)" "length demo_header = 29"
    by (simp_all add: demo_header_def ascii_def)
  obtain io2 where r2: "level io2 = 0" "readline (BUFFER_SIZE - 1) io1 ?s2 =
      (Ret 31, demo_line demo_header, io2, [Bytes (demo_line '''')])"
    using demo_read [OF r1(1) h(1), of "[Bytes (demo_line '''')]"] h(2) by auto
  obtain io3 where r3: "readline (BUFFER_SIZE - 1) io2 [Bytes (demo_line '''')] = (Ret 2, demo_line '''', io3, [])"
    using demo_read [OF r2(1), of "''''" "[]"] by (auto simp: ascii_def)
  have t: "take 2 (demo_line demo_header) \<noteq> [13, 10]"
    by (simp add: demo_line_def demo_header_def ascii_def)
  define c1 where "c1 = \<lparr>sock = ?s2, iob = io1, mallocs = [], writes = [], hlog = [Received (demo_line req)]\<rparr>"
  define c2 where "c2 = \<lparr>sock = [Bytes (demo_line '''')], iob = io2, mallocs = [], writes = [],
    hlog = [Received (demo_line req), Received (demo_line demo_header)]\<rparr>"
  define c3 where "c3 = \<lparr>sock = [], iob = io3, mallocs = [], writes = [],
    hlog = [Received (demo_line req), Received (demo_line demo_header), Received (demo_line '''')]\<rparr>"
  let ?r = "r\<lparr>req_credentials := Some (ascii ''me:pw'')\<rparr>"
  have "header_loop r c1 = header_loop ?r c2"
    by (subst header_loop.simps) (simp add: c1_def r2(2) emit_def demo_headers t c2_def del: One_nat_def)
  moreover have "header_loop ?r c2 = Inr (?r, c3)"
    by (subst header_loop.simps) (simp add: c2_def r3 emit_def demo_headers c3_def del: One_nat_def)
  moreover have "client_thread e (demo_client req) = (case header_loop r c1 of Inl z \<Rightarrow> z
      | Inr (r, c) \<Rightarrow> serve e r b (if b then input_number_of (cstr (demo_line req)) else 0) c)"
    unfolding client_thread_def demo_client_def new_client_def
    by (simp add: r1(2) emit_def parse c1_def del: One_nat_def)
  moreover have "demo_served req r c3" by (simp add: demo_served_def c3_def)
  ultimately show ?thesis by (intro exI [of _ c3]) simp
qed

subsection \<open>A file, a script, a command\<close>

definition demo_request :: "answer_t \<Rightarrow> u8 list \<Rightarrow> request" where
  "demo_request t p = init_request\<lparr>req_type := t, parameter := Some p\<rparr>"

lemma demo_actions:
  assumes "key \<in> {''GET /?action=snapshot'', ''GET /?action=stream'', ''GET /?action=take'', ''GET /input'', ''GET /output'',
     ''GET /program.json''}"
  shows "strstr (cstr (demo_line ''GET /a.js'')) (ascii key) = None"
    and "strstr (cstr (demo_line ''GET /a.cgi?b'')) (ascii key) = None"
    and "strstr (cstr (demo_line ''GET /?action=command&id=5&value=3'')) (ascii key) = None"
  using assms by (elim insertE emptyE; simp only:; code_simp)+

lemma demo_parse_file:
  assumes "mallocs c = []"
  shows "parse_request (cstr (demo_line ''GET /a.js'')) c = Inr (demo_request A_FILE (ascii ''a.js''), False, c)"
proof -
  let ?l = "cstr (demo_line ''GET /a.js'')"
  have "strstr ?l (ascii ''GET /?action=command'') = None" "strstr ?l (ascii ''GET /'') = Some (ascii ''GET /a.js'' @ [13, 10])"
    "strstr (drop 5 (ascii ''GET /a.js'' @ [13, 10])) (ascii ''.cgi'') = None"
    "take (min (length (span_of (drop 5 (ascii ''GET /a.js'' @ [13, 10])) file_chars)) 100)
       (drop 5 (ascii ''GET /a.js'' @ [13, 10])) = ascii ''a.js''"
    by code_simp+
  then have "file_request ?l c = Inr (demo_request A_FILE (ascii ''a.js''), c)"
    using assms unfolding file_request_def Let_def by (simp only: option.case) (simp add: alloc_def demo_request_def)
  then show ?thesis
    using \<open>strstr ?l (ascii ''GET /?action=command'') = None\<close> by (simp add: parse_request_def demo_actions)
qed

lemma demo_parse_cgi:
  assumes "mallocs c = []"
  shows "parse_request (cstr (demo_line ''GET /a.cgi?b'')) c =
    Inr ((demo_request A_CGI (ascii ''a.cgi''))\<lparr>query_string := Some (ascii ''b'')\<rparr>, False, c)"
proof -
  let ?l = "cstr (demo_line ''GET /a.cgi?b'')"
  let ?p = "drop 5 (ascii ''GET /a.cgi?b'' @ [13, 10])"
  have "strstr ?l (ascii ''GET /?action=command'') = None" "strstr ?l (ascii ''GET /'') = Some (ascii ''GET /a.cgi?b'' @ [13, 10])"
    "strstr ?p (ascii ''.cgi'') = Some (drop 1 ?p)" "strchr ?p 63 = Some (ascii ''?b'' @ [13, 10])"
    "span_of (drop 1 (ascii ''?b'' @ [13, 10])) query_chars = ascii ''b''"
    "take (min (length (span_of ?p file_chars)) 100) ?p = ascii ''a.cgi''"
    by code_simp+
  then have "file_request ?l c = Inr ((demo_request A_CGI (ascii ''a.cgi''))\<lparr>query_string := Some (ascii ''b'')\<rparr>, c)"
    using assms unfolding file_request_def Let_def by (simp only: option.case) (simp add: alloc_def demo_request_def)
  then show ?thesis
    using \<open>strstr ?l (ascii ''GET /?action=command'') = None\<close> by (simp add: parse_request_def demo_actions)
qed

lemma demo_parse_command:
  assumes "mallocs c = []"
  shows "parse_request (cstr (demo_line ''GET /?action=command&id=5&value=3'')) c =
    Inr (demo_request A_COMMAND (ascii ''&id=5&value=3''), False, c)"
proof -
  let ?l = "cstr (demo_line ''GET /?action=command&id=5&value=3'')"
  let ?r = "ascii ''GET /?action=command&id=5&value=3'' @ [13, 10]"
  have *: "strstr ?l (ascii ''GET /?action=command'') = Some ?r"
    "take (min (length (span_of (drop 20 ?r) url_chars)) 100) (drop 20 ?r) = ascii ''&id=5&value=3''"
    "unescape (ascii ''&id=5&value=3'' @ [0]) = Some (0, ascii ''&id=5&value=3'' @ [0])"
    "cstr (ascii ''&id=5&value=3'' @ [0]) = ascii ''&id=5&value=3''"
    by code_simp+
  have len: "length ''GET /?action=command'' = 20" by simp
  have "action_request A_COMMAND ''GET /?action=command'' ?l c = Inr (demo_request A_COMMAND (ascii ''&id=5&value=3''), c)"
    unfolding action_request_def Let_def *(1) len option.case *(2,3)
    using assms *(4) by (simp add: alloc_def demo_request_def)
  then show ?thesis using *(1) by (simp add: parse_request_def demo_actions)
qed

text \<open>Serving a request whose credentials are those configured.\<close>

lemma demo_serve:
  assumes "answer demo_http (r\<lparr>req_credentials := Some (ascii ''me:pw'')\<rparr>) n c = (Finished, c')"
  shows "serve demo_http (r\<lparr>req_credentials := Some (ascii ''me:pw'')\<rparr>) False n c = close_conn c'"
  using assms by (simp add: serve_def authorized_def demo_http_def check_number_def)

lemma demo_file_run:
  "hlog (snd (client_thread demo_http (demo_client ''GET /a.js''))) =
     [Received (demo_line ''GET /a.js''), Received (demo_line demo_header), Received (demo_line ''''),
      Opened (ascii ''/www/a.js''), Wrote (file_header (ascii ''text/javascript'')), Wrote (ascii ''hi''),
      ClosedFile, ClosedConn]"
proof -
  have req: "10 \<notin> set (ascii ''GET /a.js'')" "length ''GET /a.js'' < 200" by (simp_all add: ascii_def)
  obtain c where c: "demo_served ''GET /a.js'' (demo_request A_FILE (ascii ''a.js'')) c"
      "client_thread demo_http (demo_client ''GET /a.js'') = serve demo_http
        ((demo_request A_FILE (ascii ''a.js''))\<lparr>req_credentials := Some (ascii ''me:pw'')\<rparr>) False 0 c"
    using demo_thread [OF req demo_parse_file, of demo_http] by auto
  have facts: "last_dot 0 0 (ascii ''a.js'') = 1" "mimetype_of (drop 1 (ascii ''a.js'')) = Some (ascii ''text/javascript'')"
      "file_path (ascii ''/www/'') (ascii ''a.js'') = ascii ''/www/a.js''" "ascii ''a.js'' \<noteq> []"
      "blocks BUFFER_SIZE (ascii ''hi'') = [ascii ''hi'']"
    by code_simp+
  have m: "print_into ReplyBuffer BUFFER_SIZE (file_header (ascii ''text/javascript'')) c = c" for c
    using file_header_fits [OF facts(2)] by (simp add: print_into_def)
  have env: "www_folder (conf demo_http) = Some (ascii ''/www/'')" "files demo_http p = Some (ascii ''hi'')" for p
    by (simp_all add: demo_http_def)
  have "answer demo_http ((demo_request A_FILE (ascii ''a.js''))\<lparr>req_credentials := Some (ascii ''me:pw'')\<rparr>) 0 c =
      (Finished, c\<lparr>hlog := hlog c @ [Opened (ascii ''/www/a.js''), Wrote (file_header (ascii ''text/javascript'')),
        Wrote (ascii ''hi''), ClosedFile]\<rparr>)"
    using c(1) m facts env
    by (simp add: answer_def demo_request_def send_file_def http_write_def emit_def demo_served_def del: One_nat_def)
  then show ?thesis
    unfolding c(2) using c(1) by (simp add: demo_serve close_conn_def emit_def demo_served_def)
qed

lemma demo_cgi_run:
  "hlog (snd (client_thread demo_http (demo_client ''GET /a.cgi?b''))) =
     [Received (demo_line ''GET /a.cgi?b''), Received (demo_line demo_header), Received (demo_line ''''),
      Opened (ascii ''/www/a.cgi''),
      Executed (cgi_text (ascii ''80'') (ascii ''a.cgi'') (ascii ''b'') (ascii ''/www/a.cgi'')),
      Wrote (ascii ''ok''), ClosedConn]"
proof -
  have req: "10 \<notin> set (ascii ''GET /a.cgi?b'')" "length ''GET /a.cgi?b'' < 200" by (simp_all add: ascii_def)
  let ?r = "(demo_request A_CGI (ascii ''a.cgi''))\<lparr>query_string := Some (ascii ''b'')\<rparr>"
  obtain c where c: "demo_served ''GET /a.cgi?b'' ?r c"
      "client_thread demo_http (demo_client ''GET /a.cgi?b'') = serve demo_http
        (?r\<lparr>req_credentials := Some (ascii ''me:pw'')\<rparr>) False 0 c"
    using demo_thread [OF req demo_parse_cgi, of demo_http] by auto
  let ?t = "cgi_text (ascii ''80'') (ascii ''a.cgi'') (ascii ''b'') (ascii ''/www/a.cgi'')"
  have facts: "file_path (ascii ''/www/'') (ascii ''a.cgi'') = ascii ''/www/a.cgi''" "fmt_d (port (conf demo_http)) = ascii ''80''"
      "cstr (ascii ''b'' @ junk demo_http) = ascii ''b''" "blocks 4 (ascii ''ok'') = [ascii ''ok'']"
    by code_simp+
  have fits: "print_into CommandLine (length (ascii ''/www/a.cgi'') + length cgi_format + length (ascii ''a.cgi'') + 256) ?t c = c" for c
    by (simp add: print_into_def cgi_format_def cgi_text_def quoted_def)
  have env: "www_folder (conf demo_http) = Some (ascii ''/www/'')" "files demo_http p = Some (ascii ''hi'')"
      "scripts demo_http p = Some (ascii ''ok'')" for p
    by (simp_all add: demo_http_def)
  have "execute_cgi demo_http (ascii ''a.cgi'') (ascii ''b'') c =
      (Finished, c\<lparr>hlog := hlog c @ [Opened (ascii ''/www/a.cgi''), Executed ?t, Wrote (ascii ''ok'')]\<rparr>)"
    unfolding execute_cgi_def Let_def env option.case facts
    using c(1) by (simp only: fits alloc_def emit_def demo_served_def prod.case bool.case list.case http_client.simps)
      (simp add: fits facts http_write_def emit_def)
  then have "answer demo_http (?r\<lparr>req_credentials := Some (ascii ''me:pw'')\<rparr>) 0 c =
      (Finished, c\<lparr>hlog := hlog c @ [Opened (ascii ''/www/a.cgi''), Executed ?t, Wrote (ascii ''ok'')]\<rparr>)"
    by (simp add: answer_def demo_request_def)
  then show ?thesis
    unfolding c(2) using c(1) by (simp add: demo_serve close_conn_def emit_def demo_served_def)
qed

lemma demo_command_run:
  "hlog (snd (client_thread demo_http (demo_client ''GET /?action=command&id=5&value=3''))) =
     [Received (demo_line ''GET /?action=command&id=5&value=3''), Received (demo_line demo_header), Received (demo_line ''''),
      InputCmd 0 5 0 3 None, Wrote (command_reply (ascii ''5'') 0), ClosedConn]"
proof -
  let ?l = "''GET /?action=command&id=5&value=3''"
  have req: "10 \<notin> set (ascii ?l)" "length ?l < 200" by (simp_all add: ascii_def)
  let ?p = "ascii ''&id=5&value=3''"
  obtain c where c: "demo_served ?l (demo_request A_COMMAND ?p) c"
      "client_thread demo_http (demo_client ?l) = serve demo_http
        ((demo_request A_COMMAND ?p)\<lparr>req_credentials := Some (ascii ''me:pw'')\<rparr>) False 0 c"
    using demo_thread [OF req demo_parse_command, of demo_http] by auto
  have facts: "strstr ?p (ascii ''id='') = Some (ascii ''id=5&value=3'')"
      "span_of (drop 3 (ascii ''id=5&value=3'')) word_chars = ascii ''5''"
      "strstr ?p (ascii ''value='') = Some (ascii ''value=3'')"
      "strtol10 (span_of (drop (length ''value='') (ascii ''value=3'')) number_chars) = 3"
      "strtol10 (span_of (ascii ''5'') number_chars) = 5"
      "strstr ?p (ascii ''group='') = None" "strstr ?p (ascii ''dest='') = None" "strstr ?p (ascii ''plugin='') = None"
      "\<not> (length ?p \<ge> 255 \<or> length ?p = 0)"
    by code_simp+
  have fits: "print_into ReplyBuffer BUFFER_SIZE (command_reply (ascii ''5'') res) c = c" for res c
    using command_reply_fits [of "ascii ''5''" res] by (simp add: print_into_def)
  have env: "incnt demo_http = 1" "in_cmd demo_http a b d v x = 0" "\<not> nocommands (conf demo_http)" for a b d v x
    by (simp_all add: demo_http_def incnt_def)
  have "command demo_http (Some ?p) c = c\<lparr>hlog := hlog c @ [InputCmd 0 5 0 3 None, Wrote (command_reply (ascii ''5'') 0)]\<rparr>"
    unfolding command_def number_arg_def Let_def option.case if_not_P [OF facts(9)] facts(1-8)
    using c(1) by (simp add: alloc_def demo_served_def run_command_def env fits http_write_def emit_def del: length_ascii)
  then have "answer demo_http ((demo_request A_COMMAND ?p)\<lparr>req_credentials := Some (ascii ''me:pw'')\<rparr>) 0 c =
      (Finished, c\<lparr>hlog := hlog c @ [InputCmd 0 5 0 3 None, Wrote (command_reply (ascii ''5'') 0)]\<rparr>)"
    by (simp add: answer_def demo_request_def env)
  then show ?thesis
    unfolding c(2) using c(1) by (simp add: demo_serve close_conn_def emit_def demo_served_def)
qed

subsection \<open>The properties at these runs\<close>

lemma demo_new [simp]: "hlog (demo_client s) = []"
  by (simp add: demo_client_def new_client_def)

lemma demo_server: "credentials (conf demo_http) = Some (ascii ''me:pw'')" "www_folder (conf demo_http) = Some (ascii ''/www/'')"
  by (simp_all add: demo_http_def)


theorem nocommands_respected_witness:
  "InputCmd 0 5 0 3 None \<in> set (hlog (snd (client_thread demo_http (demo_client ''GET /?action=command&id=5&value=3'')))) \<and>
   0 < incnt demo_http"
proof
  show *: "InputCmd 0 5 0 3 None \<in> set (hlog (snd (client_thread demo_http (demo_client ''GET /?action=command&id=5&value=3''))))"
    by (simp add: demo_command_run)
  show "0 < incnt demo_http" using nocommands_respected [OF demo_new *, of 0 5 0 3 None] by simp
qed


theorem credentials_required_witness:
  "\<exists>l. Received l \<in> set [Received (demo_line ''GET /a.js''), Received (demo_line demo_header), Received (demo_line '''')] \<and>
     carries l (cstr (ascii ''me:pw''))"
proof -
  have log: "hlog (snd (client_thread demo_http (demo_client ''GET /a.js''))) =
      [Received (demo_line ''GET /a.js''), Received (demo_line demo_header), Received (demo_line '''')] @
      Opened (ascii ''/www/a.js'') # [Wrote (file_header (ascii ''text/javascript'')), Wrote (ascii ''hi''), ClosedFile, ClosedConn]"
    by (simp add: demo_file_run)
  show ?thesis
    by (rule credentials_required [OF demo_server(1) demo_new log]) (simp add: harmless_def)
qed

theorem cgi_command_line_overflows_iff_witness:
  "\<exists>cap n. Overrun CommandLine cap n \<in>
     set (hlog (snd (execute_cgi demo_http (ascii ''a.cgi'') (replicate 300 65) (new_client [] [] []))))"
proof -
  have script: "files demo_http (file_path (ascii ''/www/'') (ascii ''a.cgi'')) \<noteq> None"
    by (simp add: demo_http_def)
  have "cstr (replicate n 65 @ junk demo_http) = replicate n 65" for n :: nat
    by (induction n) (simp_all add: demo_http_def cstr_def)
  then have "264 \<le> length (fmt_d (port (conf demo_http))) + length (cstr (replicate 300 65 @ junk demo_http))"
    by simp
  then show ?thesis
    using cgi_command_line_overflows_iff [OF demo_server(2) script, of "new_client [] [] []" "replicate 300 65"]
    by (simp add: new_client_def)
qed

end
