(* ===== verification/MjpgStreamer.thy ===== *)
theory MjpgStreamer
  imports HttpdServer HttpdDemo
begin

section \<open>The streamer's main program (\<^verbatim>\<open>mjpg_streamer.c\<close>)\<close>

text \<open>
  The options of the process, the start of the input and output plugins, the wait for a signal, and the
  signal handler. What the plugins answer and whether their libraries can be loaded is the record \<open>host\<close>.
\<close>

subsection \<open>State\<close>

definition MAX_INPUT_PLUGINS :: nat where "MAX_INPUT_PLUGINS = 10"
definition MAX_OUTPUT_PLUGINS :: nat where "MAX_OUTPUT_PLUGINS = 10"

text \<open>A plugin that has been loaded: its file, the handle of the library, its number and its arguments.\<close>

record plugin =
  pl_file :: "u8 list"
  pl_handle :: nat
  pl_id :: nat
  pl_argc :: nat
  pl_argv :: argv

text \<open>
  \<open>dlopen\<close> and \<open>dlsym\<close>; whether the lock and the condition of an input can be made and \<^verbatim>\<open>SIGINT\<close> be caught;
  whether the functions of the plugins return something else than 0; the results of \<^verbatim>\<open>fork\<close> (negative, the
  parent's, 0 in the child), \<^verbatim>\<open>setsid\<close> and \<^verbatim>\<open>chdir\<close>.
\<close>

record host =
  dlopen :: "u8 list \<Rightarrow> nat option"
  dlsym :: "nat \<Rightarrow> string \<Rightarrow> bool"
  mutex_ok :: "nat \<Rightarrow> bool"
  cond_ok :: "nat \<Rightarrow> bool"
  sigint_ok :: bool
  input_init :: "plugin \<Rightarrow> bool"
  output_refuses :: "plugin \<Rightarrow> bool"
  input_run :: "plugin \<Rightarrow> bool"
  fork1 :: int
  setsid :: int
  fork2 :: int
  chdir :: int

datatype start_event =
    InputInit plugin
  | OutputInit plugin
  | InputRun plugin
  | OutputRun plugin

datatype main_result =
    Exit int
  | Overflow
  | Paused "plugin list" "plugin list"

subsection \<open>Options\<close>

definition main_options :: options where
  "main_options =
     [(ascii ''h'', False), (ascii ''help'', False), (ascii ''i'', True), (ascii ''input'', True),
      (ascii ''o'', True), (ascii ''output'', True), (ascii ''v'', False), (ascii ''version'', False),
      (ascii ''b'', False), (ascii ''background'', False)]"

text \<open>The texts of the inputs, of the outputs, and whether to run in the background.\<close>

fun read_options :: "parsed_option list \<Rightarrow> u8 list list \<Rightarrow> u8 list list \<Rightarrow> bool \<Rightarrow>
    main_result + u8 list list \<times> u8 list list \<times> bool" where
  "read_options [] ins outs bg = Inr (ins, outs, bg)"
| "read_options (Unrecognized # os) ins outs bg = Inl (Exit 0)"
| "read_options (Opt k v # os) ins outs bg =
     (if k \<le> 1 then Inl (Exit 0)
      else if k \<le> 3 then
        (if MAX_INPUT_PLUGINS \<le> length ins then Inl Overflow else read_options os (ins @ [v]) outs bg)
      else if k \<le> 5 then
        (if MAX_OUTPUT_PLUGINS \<le> length outs then Inl Overflow else read_options os ins (outs @ [v]) bg)
      else if k \<le> 7 then Inl (Exit 0)
      else read_options os ins outs True)"

text \<open>Who returns from \<open>daemon_mode\<close>.\<close>

definition daemon_mode :: "host \<Rightarrow> main_result option" where
  "daemon_mode h =
     (if fork1 h < 0 then Some (Exit 1)
      else if 0 < fork1 h then Some (Exit 0)
      else if setsid h < 0 then Some (Exit 1)
      else if fork2 h < 0 then Some (Exit 1)
      else if 0 < fork2 h then Some (Exit 0)
      else if chdir h \<noteq> 0 then Some (Exit 0)
      else None)"

subsection \<open>Starting the plugins\<close>

definition plugin_of :: "u8 list \<Rightarrow> u8 list" where
  "plugin_of t =
     (case strchr t 32 of
        None \<Rightarrow> t
      | Some r \<Rightarrow> if length r < length t then take (length t - length r) t else t)"

definition loaded :: "nat \<Rightarrow> u8 list \<Rightarrow> nat \<Rightarrow> plugin" where
  "loaded i t handle =
     (case split_parameters (strchr t 32) 0 no_argv of
        (_, argc, argv) \<Rightarrow>
          \<lparr>pl_file = plugin_of t, pl_handle = handle, pl_id = i, pl_argc = argc, pl_argv = argv\<rparr>)"

text \<open>One input, and one output: the plugin, or how the process ends, and what has happened.\<close>

definition start_input :: "host \<Rightarrow> nat \<Rightarrow> u8 list \<Rightarrow> (main_result + plugin) \<times> start_event list" where
  "start_input h i t =
     (if \<not> mutex_ok h i \<or> \<not> cond_ok h i then (Inl (Exit 1), [])
      else case dlopen h (plugin_of t) of
        None \<Rightarrow> (Inl (Exit 1), [])
      | Some d \<Rightarrow>
          if \<not> dlsym h d ''input_init'' \<or> \<not> dlsym h d ''input_stop'' \<or> \<not> dlsym h d ''input_run'' then (Inl (Exit 1), [])
          else if input_init h (loaded i t d) then (Inl (Exit 0), [InputInit (loaded i t d)])
          else (Inr (loaded i t d), [InputInit (loaded i t d)]))"

definition start_output :: "host \<Rightarrow> nat \<Rightarrow> u8 list \<Rightarrow> (main_result + plugin) \<times> start_event list" where
  "start_output h i t =
     (case dlopen h (plugin_of t) of
        None \<Rightarrow> (Inl (Exit 1), [])
      | Some d \<Rightarrow>
          if \<not> dlsym h d ''output_init'' \<or> \<not> dlsym h d ''output_stop'' \<or> \<not> dlsym h d ''output_run'' then (Inl (Exit 1), [])
          else if output_refuses h (loaded i t d) then (Inl (Exit 1), [OutputInit (loaded i t d)])
          else (Inr (loaded i t d), [OutputInit (loaded i t d)]))"

fun start_all :: "(nat \<Rightarrow> u8 list \<Rightarrow> (main_result + plugin) \<times> start_event list) \<Rightarrow> nat \<Rightarrow> u8 list list \<Rightarrow>
    (main_result + plugin list) \<times> start_event list" where
  "start_all start i [] = (Inr [], [])"
| "start_all start i (t # ts) =
     (case start i t of
        (Inl z, log) \<Rightarrow> (Inl z, log)
      | (Inr p, log) \<Rightarrow>
          (case start_all start (i + 1) ts of
             (Inl z, log') \<Rightarrow> (Inl z, log @ log')
           | (Inr ps, log') \<Rightarrow> (Inr (p # ps), log @ log')))"

fun run_inputs :: "host \<Rightarrow> plugin list \<Rightarrow> bool \<times> start_event list" where
  "run_inputs h [] = (True, [])"
| "run_inputs h (p # ps) =
     (if input_run h p then (False, [InputRun p])
      else case run_inputs h ps of (ok, log) \<Rightarrow> (ok, InputRun p # log))"

definition default_output :: "u8 list" where
  "default_output = ascii ''output_http.so --port 8080''"

definition main :: "host \<Rightarrow> u8 list list \<Rightarrow> main_result \<times> start_event list" where
  "main h args =
     (case read_options (getopt_all main_options args) [] [] False of
        Inl z \<Rightarrow> (z, [])
      | Inr (ins, outs, bg) \<Rightarrow>
          (case (if bg then daemon_mode h else None) of
             Some z \<Rightarrow> (z, [])
           | None \<Rightarrow>
               if \<not> sigint_ok h then (Exit 1, [])
               else
                 (case start_all (start_input h) 0 ins of
                    (Inl z, log1) \<Rightarrow> (z, log1)
                  | (Inr is, log1) \<Rightarrow>
                      (case start_all (start_output h) 0 (if outs = [] then [default_output] else outs) of
                         (Inl z, log2) \<Rightarrow> (z, log1 @ log2)
                       | (Inr os, log2) \<Rightarrow>
                           (case run_inputs h is of
                              (False, log3) \<Rightarrow> (Exit 1, log1 @ log2 @ log3)
                            | (True, log3) \<Rightarrow>
                                (Paused is os, log1 @ log2 @ log3 @ map OutputRun os))))))"

subsection \<open>\<^verbatim>\<open>signal_handler\<close>\<close>

text \<open>\<open>DestroyDb i\<close>: the condition and the lock of input \<open>i\<close> are destroyed.\<close>

datatype stop_event =
    StopFlag
  | StopInput nat
  | StopOutput nat
  | DestroyDb nat
  | CloseInput nat
  | CloseOutput nat
  | ProcessExit

fun close_outputs :: "plugin list \<Rightarrow> stop_event list" where
  "close_outputs [] = []"
| "close_outputs (p # ps) =
     (if \<exists>q \<in> set ps. pl_handle q = pl_handle p then close_outputs ps
      else CloseOutput (pl_handle p) # close_outputs ps)"

definition signal_handler :: "plugin list \<Rightarrow> plugin list \<Rightarrow> stop_event list" where
  "signal_handler is os =
     [StopFlag] @ map StopInput [0..<length is]
     @ concat (map (\<lambda>i. [StopOutput (pl_id (os ! i)), DestroyDb i]) [0..<length os])
     @ map (\<lambda>p. CloseInput (pl_handle p)) is
     @ close_outputs os @ [ProcessExit]"

subsection \<open>The words after the plugin's name are its options\<close>

lemma plugin_text:
  assumes "32 \<notin> set name"
  shows "strchr (name @ spaced ws) 32 = (if ws = [] then None else Some (spaced ws))"
    and "name \<noteq> [] \<Longrightarrow> plugin_of (name @ spaced ws) = name"
proof -
  have s: "strchr (name @ spaced ws) 32 = (if ws = [] then None else Some (spaced ws))"
  proof (cases ws)
    case Nil
    have "dropWhile (\<lambda>b. b \<noteq> 32) name = []"
      using assms by (auto simp: dropWhile_eq_Nil_conv)
    then have "strchr name 32 = None"
      by (simp add: strchr_def del: dropWhile_eq_Nil_conv)
    then show ?thesis
      using Nil by (simp add: spaced_def)
  next
    case (Cons w ws)
    then have "dropWhile (\<lambda>b. b \<noteq> 32) (name @ spaced (w # ws)) = 32 # w @ spaced ws"
      using assms by (subst dropWhile_append2) (auto simp: spaced_def)
    then show ?thesis
      using Cons by (simp add: strchr_def) (simp add: spaced_def)
  qed
  then show "strchr (name @ spaced ws) 32 = (if ws = [] then None else Some (spaced ws))" .
  show "plugin_of (name @ spaced ws) = name" if "name \<noteq> []"
    using s that by (simp add: plugin_of_def spaced_def)
qed

lemma arguments_loaded:
  assumes "32 \<notin> set name" and "list_all word ws"
  shows "arguments (pl_argc (loaded i (name @ spaced ws) d)) (pl_argv (loaded i (name @ spaced ws) d)) =
    (if length ws \<le> 30 then ws else [])"
proof (cases "ws = []")
  case True
  then show ?thesis
    using plugin_text(1) [OF assms(1), of ws] by (simp add: loaded_def split_parameters_def arguments_def)
next
  case False
  obtain ok argc argv where sp: "split_parameters (Some (spaced ws)) 0 no_argv = (ok, argc, argv)"
    by (metis prod_cases3)
  then show ?thesis
    using plugin_text(1) [OF assms(1), of ws] False arguments_spaced [OF assms(2) sp] by (simp add: loaded_def)
qed

text \<open>
  C39: the text after \<^verbatim>\<open>-o\<close> or \<^verbatim>\<open>-i\<close>, a name and words with a space before each, becomes the file of the plugin
  and exactly these words as its arguments when there are at most 30; with more the plugin gets none of
  them, and starts as if nothing had been configured.
\<close>

theorem options_reach_the_plugin:
  assumes "name \<noteq> []" and "32 \<notin> set name" and "list_all word ws"
  shows "pl_file (loaded i (name @ spaced ws) d) = name \<and>
    arguments (pl_argc (loaded i (name @ spaced ws) d)) (pl_argv (loaded i (name @ spaced ws) d)) =
      (if length ws \<le> 30 then ws else [])"
  using plugin_text(2) [OF assms(2,1), of ws] arguments_loaded [OF assms(2,3)]
  by (simp add: loaded_def split: prod.split)

theorem options_reach_the_plugin_witness:
  "arguments (pl_argc (loaded 0 (ascii ''output_http.so'' @ spaced [ascii ''-w'', ascii ''./www'']) 1))
     (pl_argv (loaded 0 (ascii ''output_http.so'' @ spaced [ascii ''-w'', ascii ''./www'']) 1)) = [ascii ''-w'', ascii ''./www'']"
proof -
  have "ascii ''output_http.so'' \<noteq> []" "32 \<notin> set (ascii ''output_http.so'')" "list_all word [ascii ''-w'', ascii ''./www'']"
    by (simp_all add: ascii_def word_def)
  from options_reach_the_plugin [OF this] show ?thesis by simp
qed

definition http_plugin :: "u8 list list \<Rightarrow> plugin" where
  "http_plugin ws = loaded 0 (ascii ''output_http.so'' @ spaced ws) 1"

lemma http_arguments:
  "list_all word ws \<Longrightarrow> arguments (pl_argc (http_plugin ws)) (pl_argv (http_plugin ws)) = (if length ws \<le> 30 then ws else [])"
  unfolding http_plugin_def by (rule arguments_loaded) (auto simp: ascii_def)

lemma getopt_value:
  assumes "find_option table [k] = Some i" and "snd (table ! i)" and "k \<noteq> 45" "k \<noteq> 61"
  shows "getopt_all table ([45, k] # v # ws) = Opt i v # getopt_all table ws"
  using assms by (subst getopt_all.simps) (simp add: starts_with_def)

lemma http_option_numbers:
  "find_option http_options [99] = Some 4" "find_option http_options [119] = Some 6"
  "find_option http_options [112] = Some 2"
  "snd (http_options ! 4)" "snd (http_options ! 6)" "snd (http_options ! 2)"
  by code_simp+

abbreviation guarded_words :: "u8 list \<Rightarrow> u8 list \<Rightarrow> u8 list \<Rightarrow> u8 list list" where
  "guarded_words P C F \<equiv> [ascii ''-p'', P, ascii ''-c'', C, ascii ''-w'', F]"

lemma guarded_options:
  "getopt_all http_options (guarded_words P C F) = [Opt 2 P, Opt 4 C, Opt 6 F]"
  by (simp add: ascii_def getopt_value http_option_numbers)

lemma words_of_dashes [simp]: "word (ascii ''-c'')" "word (ascii ''-w'')" "word (ascii ''-p'')"
  by (simp_all add: word_def ascii_def)

lemma guarded_config:
  assumes "word C" and "word F" and "word P" and "got mem" and "got (tl mem)"
  shows "output_init (pl_argc (http_plugin (guarded_words P C F))) (pl_argv (http_plugin (guarded_words P C F))) mem =
    Configured (default_config\<lparr>port := net_port (atoi P), credentials := Some C, www_folder := Some (with_slash F)\<rparr>)"
proof -
  have "arguments (pl_argc (http_plugin (guarded_words P C F))) (pl_argv (http_plugin (guarded_words P C F))) = guarded_words P C F"
    using assms(1-3) http_arguments [of "guarded_words P C F"] by simp
  then show ?thesis
    using assms by (simp only: output_init_def guarded_options) (auto simp: word_def)
qed

text \<open>
  C5: from the command line to the picture: a streamer started with the output
  \<^verbatim>\<open>output_http.so -p P -c C -w F\<close> gives a client nothing but error pages before the client has sent a line whose
  base64 text decodes to \<open>C\<close>; and every file it opens is directly in the folder \<open>F\<close>.
\<close>

theorem guarded_streamer:
  assumes "word P" and "word C" and "0 \<notin> set C" and "word F" and "length F < 900"
    and "output_init (pl_argc (http_plugin (guarded_words P C F))) (pl_argv (http_plugin (guarded_words P C F))) [] =
      Configured (conf e)"
    and "hlog c = []" and "hlog (snd (client_thread e c)) = before @ ev # rest" and "\<not> harmless ev"
  shows "(\<exists>l. Received l \<in> set before \<and> carries l C) \<and>
    (\<forall>p. ev = Opened p \<longrightarrow> (\<exists>name. p = with_slash F @ name \<and> 47 \<notin> set name))"
proof
  have c: "credentials (conf e) = Some C" "www_folder (conf e) = Some (with_slash F)"
    using guarded_config [OF assms(2,4,1), of "[]"] assms(6) by (auto simp: got_def)
  have "cstr C = C"
    using assms(3) by (auto simp: cstr_def takeWhile_eq_all_conv)
  then show "\<exists>l. Received l \<in> set before \<and> carries l C"
    using credentials_checked [OF c(1) assms(7-9)] by simp
  have "length (with_slash F) + 100 < BUFFER_SIZE"
    using assms(5) by (simp add: BUFFER_SIZE_def with_slash_def)
  then show "\<forall>p. ev = Opened p \<longrightarrow> (\<exists>name. p = with_slash F @ name \<and> 47 \<notin> set name)"
    using folder_files [OF c(2) _ assms(7)] assms(8) by (metis in_set_conv_decomp)
qed

lemma demo_words [simp]: "word (ascii ''20480'')" "word (ascii ''me:pw'')" "word (ascii ''/www'')" "0 \<notin> set (ascii ''me:pw'')"
  by (simp_all add: word_def ascii_def)

lemma demo_guarded:
  "output_init (pl_argc (http_plugin (guarded_words (ascii ''20480'') (ascii ''me:pw'') (ascii ''/www''))))
     (pl_argv (http_plugin (guarded_words (ascii ''20480'') (ascii ''me:pw'') (ascii ''/www'')))) [] = Configured (conf demo_http)"
proof -
  have "net_port (atoi (ascii ''20480'')) = 80"
    by code_simp
  moreover have "with_slash (ascii ''/www'') = ascii ''/www/''"
    by (simp add: with_slash_def ascii_def)
  ultimately show ?thesis
    using guarded_config [of "ascii ''me:pw''" "ascii ''/www''" "ascii ''20480''" "[]"]
    by (simp add: got_def default_config_def demo_http_def)
qed

theorem guarded_streamer_witness:
  "(\<exists>l. Received l \<in> set [Received (demo_line ''GET /a.js''), Received (demo_line demo_header), Received (demo_line '''')] \<and>
     carries l (ascii ''me:pw'')) \<and>
   (\<exists>name. ascii ''/www/a.js'' = ascii ''/www'' @ [47] @ name \<and> 47 \<notin> set name)"
proof -
  have log: "hlog (snd (client_thread demo_http (demo_client ''GET /a.js''))) =
      [Received (demo_line ''GET /a.js''), Received (demo_line demo_header), Received (demo_line '''')] @
      Opened (ascii ''/www/a.js'') # [Wrote (file_header (ascii ''text/javascript'')), Wrote (ascii ''hi''), ClosedFile, ClosedConn]"
    by (simp add: demo_file_run)
  have "with_slash (ascii ''/www'') = ascii ''/www'' @ [47]"
    by (simp add: with_slash_def ascii_def)
  then show ?thesis
    using guarded_streamer [OF demo_words(1,2,4,3) _ demo_guarded demo_new log] by (simp add: harmless_def)
qed

text \<open>
  What takes the guard away: 31 words or more, all of which are dropped, and an allocation that fails while
  the credentials are copied.
\<close>

lemma too_many_words_open_the_server:
  assumes "list_all word ws" and "31 \<le> length ws"
  shows "output_init (pl_argc (http_plugin ws)) (pl_argv (http_plugin ws)) mem = Configured default_config"
    and "credentials default_config = None"
  using assms http_arguments [of ws] by (simp_all add: output_init_def default_config_def)

lemma failed_copy_opens_the_server:
  assumes "word C"
  shows "output_init (pl_argc (http_plugin [ascii ''-c'', C])) (pl_argv (http_plugin [ascii ''-c'', C])) [False] =
    Configured default_config"
proof -
  have "arguments (pl_argc (http_plugin [ascii ''-c'', C])) (pl_argv (http_plugin [ascii ''-c'', C])) = [ascii ''-c'', C]"
    using assms http_arguments [of "[ascii ''-c'', C]"] by simp
  moreover have "getopt_all http_options [ascii ''-c'', C] = [Opt 4 C]"
    by (simp add: ascii_def getopt_value http_option_numbers)
  ultimately show ?thesis
    by (simp add: output_init_def got_def default_config_def)
qed

subsection \<open>The order of the start\<close>

lemma start_all_log:
  assumes one: "\<And>i t p log. start i t = (Inr p, log) \<Longrightarrow> log = [ev p] \<and> pl_id p = i"
  shows "start_all start i ts = (Inr ps, log) \<Longrightarrow>
    log = map ev ps \<and> map pl_id ps = [i..<i + length ts] \<and> length ps = length ts"
proof (induction ts arbitrary: i ps log)
  case (Cons t ts)
  obtain p log1 qs log2 where 1: "start i t = (Inr p, log1)" and
    2: "start_all start (i + 1) ts = (Inr qs, log2)" "ps = p # qs" "log = log1 @ log2"
    using Cons.prems by (auto split: prod.splits sum.splits)
  then show ?case
    using one [OF 1] Cons.IH [OF 2(1)] by (simp add: upt_rec)
qed simp

lemma start_input_log: "start_input h i t = (Inr p, log) \<Longrightarrow> log = [InputInit p] \<and> pl_id p = i"
  by (auto simp: start_input_def loaded_def split: if_splits option.splits prod.splits)

lemma start_output_log: "start_output h i t = (Inr p, log) \<Longrightarrow> log = [OutputInit p] \<and> pl_id p = i"
  by (auto simp: start_output_def loaded_def split: if_splits option.splits prod.splits)

lemma run_inputs_log: "run_inputs h ps = (True, log) \<Longrightarrow> log = map InputRun ps"
  by (induction ps arbitrary: log) (auto split: if_splits prod.splits)

lemma read_options_bounded:
  "read_options os ins outs bg = Inr (ins', outs', bg') \<Longrightarrow> length ins \<le> 10 \<Longrightarrow> length outs \<le> 10 \<Longrightarrow>
    length ins' \<le> 10 \<and> length outs' \<le> 10"
  by (induction os ins outs bg rule: read_options.induct)
    (auto simp: MAX_INPUT_PLUGINS_def MAX_OUTPUT_PLUGINS_def split: if_splits)

lemma start_all_ends:
  assumes "\<And>i t. fst (start i t) \<noteq> Inl (Paused ps qs)"
  shows "start_all start i ts \<noteq> (Inl (Paused ps qs), log)"
proof (induction ts arbitrary: i log)
  case (Cons t ts)
  then show ?case
    using assms [of i t] by (auto split: prod.splits sum.splits)
qed simp

lemma start_one_ends: "fst (start_input h i t) \<noteq> Inl (Paused ps qs)" "fst (start_output h i t) \<noteq> Inl (Paused ps qs)"
  by (auto simp: start_input_def start_output_def split: option.splits)

lemma read_options_ends: "read_options os ins outs bg \<noteq> Inl (Paused ps qs)"
  by (induction os ins outs bg rule: read_options.induct) auto


text \<open>The command of the repository's instructions.\<close>

definition demo_host :: host where
  "demo_host = \<lparr>dlopen = (\<lambda>f. if f = ascii ''output_http.so'' then Some 1 else Some 2), dlsym = (\<lambda>_ _. True),
     mutex_ok = (\<lambda>_. True), cond_ok = (\<lambda>_. True), sigint_ok = True, input_init = (\<lambda>_. False),
     output_refuses = (\<lambda>p. output_init (pl_argc p) (pl_argv p) [] = Refused), input_run = (\<lambda>_. False),
     fork1 = 0, setsid = 1, fork2 = 0, chdir = 0\<rparr>"

definition demo_args :: "u8 list list" where
  "demo_args = [ascii ''-o'', ascii ''output_http.so -w ./www'', ascii ''-i'', ascii ''input_raspicam.so'']"

definition demo_input :: plugin where
  "demo_input = loaded 0 (ascii ''input_raspicam.so'') 2"

definition demo_output :: plugin where
  "demo_output = loaded 0 (ascii ''output_http.so -w ./www'') 1"

lemma demo_main: "fst (main demo_host demo_args) = Paused [demo_input] [demo_output]"
  by code_simp


lemma eleventh_output_overflows:
  "read_options (map (Opt 4) ts) ins outs bg =
    (if length outs + length ts \<le> 10 \<or> ts = [] then Inr (ins, outs @ ts, bg) else Inl Overflow)"
  by (induction ts arbitrary: outs) (auto simp: MAX_OUTPUT_PLUGINS_def)

subsection \<open>The stop\<close>

lemma close_outputs_handles: "CloseOutput d \<in> set (close_outputs ps) \<longleftrightarrow> d \<in> pl_handle ` set ps"
proof (induction ps)
  case (Cons p ps)
  show ?case
  proof (cases "\<exists>q \<in> set ps. pl_handle q = pl_handle p")
    case True
    then have "pl_handle p \<in> pl_handle ` set ps"
      by (metis imageI)
    then show ?thesis
      using Cons True by auto
  qed (use Cons in auto)
qed simp

lemma close_outputs_distinct: "distinct (close_outputs ps)"
  by (induction ps) (auto simp: close_outputs_handles)

lemma close_outputs_only: "ev \<in> set (close_outputs ps) \<Longrightarrow> \<exists>d. ev = CloseOutput d"
  by (induction ps) (auto split: if_splits)

text \<open>
  At the end every plugin is stopped and every library is closed; a library several outputs share is
  closed once. The locks of the inputs are destroyed by the loop over the outputs, so that an input whose
  number is not that of an output keeps its lock, and a lock that was never made is destroyed when there
  are more outputs than inputs.
\<close>

lemma count_distinct: "distinct xs \<Longrightarrow> count_list xs x = (if x \<in> set xs then 1 else 0)"
  by (induction xs) auto

lemma outputs_closed_once:
  "count_list (signal_handler is os) (CloseOutput d) = (if d \<in> pl_handle ` set os then 1 else 0)"
proof -
  have "count_list (concat (map (\<lambda>i. [StopOutput (pl_id (os ! i)), DestroyDb i]) ns)) (CloseOutput d) = 0" for ns
    by (induction ns) simp_all
  moreover have "count_list (map StopInput ns) (CloseOutput d) = 0" for ns
    by (induction ns) simp_all
  moreover have "count_list (map (\<lambda>p. CloseInput (pl_handle p)) ps) (CloseOutput d) = 0" for ps :: "plugin list"
    by (induction ps) simp_all
  moreover have "count_list (close_outputs os) (CloseOutput d) = (if d \<in> pl_handle ` set os then 1 else 0)"
    using close_outputs_distinct [of os] close_outputs_handles [of d os]
    by (simp add: count_distinct)
  ultimately show ?thesis
    by (simp add: signal_handler_def)
qed

lemma locks_destroyed: "DestroyDb i \<in> set (signal_handler is os) \<longleftrightarrow> i < length os"
  by (auto simp: signal_handler_def dest: close_outputs_only)

end
