(* ===== verification/HttpdErrors.thy ===== *)
theory HttpdErrors
  imports HttpdDemo
begin

section \<open>Well-formed requests and rejected ones\<close>

text \<open>
  What the thread knows of a request when it answers it, and how each kind of bad request is answered:
  by exactly one error page, after which the connection is closed.
\<close>

subsection \<open>The types of a request\<close>

text \<open>
  A request has the parameters its type calls for, and the number of a plugin is only taken from the
  line (\<open>suffixed\<close>) of the types that use one.
\<close>

definition request_typed :: "request \<Rightarrow> bool \<Rightarrow> bool" where
  "request_typed r suffixed =
     ((case req_type r of
         A_COMMAND \<Rightarrow> (\<exists>p. parameter r = Some p \<and> 0 \<notin> set p \<and> length p \<le> 100) \<and> query_string r = None
       | A_TAKE \<Rightarrow> (\<exists>p. parameter r = Some p \<and> 0 \<notin> set p \<and> length p \<le> 100) \<and> query_string r = None
       | A_FILE \<Rightarrow> (\<exists>p. parameter r = Some p \<and> plain_name p) \<and> query_string r = None
       | A_CGI \<Rightarrow> (\<exists>p. parameter r = Some p \<and> plain_name p) \<and> query_string r \<noteq> None
       | A_UNKNOWN \<Rightarrow> False
       | _ \<Rightarrow> parameter r = None \<and> query_string r = None) \<and>
      suffixed = (req_type r \<in> {A_SNAPSHOT, A_STREAM, A_TAKE, A_INPUT_JSON, A_OUTPUT_JSON}))"

lemma unescape_shorter:
  assumes "0 \<in> set m" and "unescape m = Some (rc, m')" and "rc \<noteq> - 1"
  shows "length (cstr m') \<le> length (cstr m)"
proof -
  obtain t where t: "percent_decode (cstr m) = Some t" "m' = t @ 0 # drop (length t + 1) m"
    using unescape_decoded [OF assms(1)] assms(2,3) by (auto split: option.splits)
  have "length (cstr (t @ 0 # y)) \<le> length t" for y
    by (induction t) (simp_all add: cstr_def)
  then show ?thesis using t length_percent_decode le_trans by blast
qed

lemma action_typed:
  assumes "action_request t key line c = Inr (r, c')"
  shows "\<exists>p. r = init_request\<lparr>req_type := t, parameter := Some p\<rparr> \<and> 0 \<notin> set p \<and> length p \<le> 100"
proof -
  obtain pb n rc m where m: "unescape (take (min n 100) pb @ [0]) = Some (rc, m)" "rc \<noteq> - 1"
      "r = init_request\<lparr>req_type := t, parameter := Some (cstr m)\<rparr>"
    using assms by (auto simp: action_request_def Let_def split: option.splits prod.splits bool.splits if_splits)
  have "length (cstr (xs @ [0])) \<le> length xs" for xs
    by (induction xs) (simp_all add: cstr_def)
  then have "length (cstr (take (min n 100) pb @ [0])) \<le> 100" by (rule le_trans) simp
  then show ?thesis using m unescape_shorter [OF _ m(1,2)] by fastforce
qed

lemma file_typed: "file_request line c = Inr (r, c') \<Longrightarrow> request_typed r False"
  using plain_take unfolding file_request_def Let_def
  by (auto simp: request_typed_def init_request_def split: option.splits prod.splits bool.splits if_splits)

lemma parse_typed:
  assumes "parse_request line c = Inr (r, b, c')"
  shows "request_typed r b"
  using assms action_typed file_typed unfolding parse_request_def Let_def
  by (fastforce simp: request_typed_def init_request_def split: if_splits sum.splits prod.splits)

lemma header_line_keeps:
  assumes "header_line line r c = (Some r', c')"
  shows "req_type r' = req_type r" "parameter r' = parameter r" "query_string r' = query_string r"
  using assms unfolding header_line_def by (auto split: if_splits option.splits prod.splits bool.splits)

lemma header_line_typed: "header_line line r c = (Some r', c') \<Longrightarrow> request_typed r' b = request_typed r b"
  by (simp only: request_typed_def header_line_keeps)

lemma header_loop_typed: "header_loop r c = Inr (r', c') \<Longrightarrow> request_typed r b \<Longrightarrow> request_typed r' b"
proof (induction r c rule: header_loop.induct)
  case (1 r c)
  obtain cnt l io s where rd: "readline (BUFFER_SIZE - 1) (iob c) (sock c) = (Ret cnt, l, io, s)" "cnt \<noteq> - 1"
    using "1.prems"(1) by (subst (asm) header_loop.simps)
      (auto simp del: One_nat_def split: prod.splits call_result.splits if_splits)
  let ?d = "emit (Received l) (c\<lparr>iob := io, sock := s\<rparr>)"
  obtain r1 c1 where h: "header_line (cstr l) r ?d = (Some r1, c1)"
    using "1.prems"(1) rd by (subst (asm) header_loop.simps)
      (auto simp del: One_nat_def split: prod.splits option.splits if_splits)
  have t: "request_typed r1 b" using header_line_typed [OF h] "1.prems"(2) by simp
  show ?case
  proof (cases "cnt > 2 \<and> \<not> (take 2 l = [13, 10])")
    case True
    have "header_loop r c = header_loop r1 c1"
      by (subst header_loop.simps) (simp add: rd h True del: One_nat_def)
    then have "header_loop r1 c1 = Inr (r', c')" using "1.prems"(1) by simp
    then show ?thesis
      using "1.IH" [OF rd(1)[symmetric] refl refl refl rd(2) h[symmetric] refl True _ t] by simp
  next
    case False
    then have "header_loop r c = Inr (r1, c1)"
      by (subst header_loop.simps) (auto simp: rd h simp del: One_nat_def)
    then show ?thesis using "1.prems"(1) t by simp
  qed
qed

text \<open>
  C37: a request that reaches the answer has what its type calls for: a command and a picture to be saved
  have a parameter of at most 100 bytes without NUL, a file and a script a plain name, a script also a
  query, and no other request has a parameter. The header lines change none of this, so the answer never
  follows a null pointer of the request.
\<close>

theorem request_well_typed:
  assumes "parse_request line c = Inr (r, suffixed, c1)" and "header_loop r c1 = Inr (r', c2)"
  shows "request_typed r' suffixed"
  using header_loop_typed [OF assms(2) parse_typed [OF assms(1)]] .

subsection \<open>Rejected requests\<close>

lemma strstr_longer: "strstr h n = None \<Longrightarrow> strstr h (n @ m) = None"
proof (induction h n rule: strstr.induct)
  case (2 c h n)
  have "take (length (n @ m)) (c # h) \<noteq> n @ m"
  proof
    assume "take (length (n @ m)) (c # h) = n @ m"
    then have "take (length n) (take (length (n @ m)) (c # h)) = n" by simp
    then show False using 2(2) by (simp add: min_def split: if_splits)
  qed
  moreover have "strstr h n = None" "take (length n) (c # h) \<noteq> n" using 2(2) by (simp_all split: if_splits)
  ultimately show ?case using 2(1) by simp
qed (simp split: if_splits)

lemma send_error_writes:
  assumes "writes c = []" and "length m \<le> 400"
  shows "send_error w m c = emit (Wrote (error_text w (ascii m))) c"
  using assms error_fits [of "ascii m" w] by (simp add: send_error_def print_into_def http_write_def Let_def)

lemma action_rejected:
  assumes "action_request t key line c = Inl z" and "mallocs c = []" and "writes c = []" and "strstr line (ascii key) \<noteq> None"
  shows "z = close_conn (send_error 500 ''could not properly unescape command parameter string'' c)"
proof -
  have u: "unescape (xs @ [0]) = None \<Longrightarrow> False" for xs
    using unescape_decoded [of "xs @ [0]"] by (auto split: option.splits)
  then show ?thesis
    using assms by (auto simp: action_request_def alloc_def Let_def dest: u split: option.splits if_splits)
qed

text \<open>The request lines that are not accepted, and what is answered to them.\<close>

lemma parse_rejected:
  assumes "parse_request line c = Inl z" and "mallocs c = []" and "writes c = []"
  shows "z = close_conn (if strstr line (ascii ''GET /'') = None then send_error 400 ''Malformed HTTP request'' c
    else send_error 500 ''could not properly unescape command parameter string'' c)"
proof -
  have g: "strstr line (ascii (''GET /'' @ k)) \<noteq> None \<Longrightarrow> strstr line (ascii ''GET /'') \<noteq> None" for k
    by (metis ascii_append strstr_longer)
  consider (action) t k where "action_request t (''GET /'' @ k) line c = Inl z" "strstr line (ascii (''GET /'' @ k)) \<noteq> None"
    | (named) "file_request line c = Inl z"
    using assms(1) unfolding parse_request_def Let_def
    by (auto split: if_splits sum.splits prod.splits)
  then show ?thesis
  proof cases
    case action
    then show ?thesis using action_rejected [OF action(1) assms(2,3) action(2)] g [OF action(2)] by (auto simp del: append.simps)
  next
    case named
    then show ?thesis
      using assms(2) by (auto simp: file_request_def alloc_def Let_def split: option.splits if_splits)
  qed
qed

lemma malformed_rejected:
  assumes "strstr line (ascii ''GET /'') = None"
  shows "\<exists>z. parse_request line c = Inl z"
proof -
  have g: "strstr line (ascii (''GET /'' @ k)) = None" for k
    using strstr_longer [OF assms, of "ascii k"] by (simp add: ascii_def)
  show ?thesis
    using g [of "''?action=snapshot''"] g [of "''?action=stream''"] g [of "''?action=take''"] g [of "''input''"]
      g [of "''output''"] g [of "''program.json''"] g [of "''?action=command''"] assms
    by (simp add: parse_request_def file_request_def)
qed

text \<open>
  C38: a request line that is not accepted is answered by exactly one error page, 400 if it asks for
  nothing and 500 if the parameter of its action is badly escaped, before any header line is read; a
  request whose credentials are not those configured is answered by exactly one page 401. In each case
  nothing else is done and the connection is closed.
\<close>

theorem bad_requests_answered_once:
  assumes "readline (BUFFER_SIZE - 1) init_iobuffer (sock c) = (Ret n, l, io, s)" and "n \<noteq> - 1"
    and "d = emit (Received l) (c\<lparr>iob := io, sock := s\<rparr>)"
  shows "(writes c = [] \<and> mallocs c = [] \<and> (strstr (cstr l) (ascii ''GET /'') = None \<or> (\<exists>z. parse_request (cstr l) d = Inl z)) \<longrightarrow>
      client_thread e c = (Finished, d\<lparr>hlog := hlog d @
        [Wrote (if strstr (cstr l) (ascii ''GET /'') = None then error_text 400 (ascii ''Malformed HTTP request'')
           else error_text 500 (ascii ''could not properly unescape command parameter string'')), ClosedConn]\<rparr>)) \<and>
    (\<forall>r suffixed c1 r' c2. parse_request (cstr l) d = Inr (r, suffixed, c1) \<and> header_loop r c1 = Inr (r', c2) \<and>
       \<not> authorized e r' \<and> writes c2 = [] \<longrightarrow>
      client_thread e c = (Finished, c2\<lparr>hlog := hlog c2 @
        [Wrote (error_text 401 (ascii ''username and password do not match to configuration'')), ClosedConn]\<rparr>))"
proof (intro conjI impI allI)
  have run: "client_thread e c = (case parse_request (cstr l) d of Inl z \<Rightarrow> z
      | Inr (r, suffixed, c) \<Rightarrow> (case header_loop r c of Inl z \<Rightarrow> z
          | Inr (r, c) \<Rightarrow> serve e r suffixed (if suffixed then input_number_of (cstr l) else 0) c))"
    using assms by (simp add: client_thread_def del: One_nat_def)
  {
    assume bad: "writes c = [] \<and> mallocs c = [] \<and> (strstr (cstr l) (ascii ''GET /'') = None \<or> (\<exists>z. parse_request (cstr l) d = Inl z))"
    obtain x where x: "parse_request (cstr l) d = Inl x" using bad malformed_rejected by blast
    have "writes d = []" "mallocs d = []" using bad by (simp_all add: assms(3) emit_def)
    then show "client_thread e c = (Finished, d\<lparr>hlog := hlog d @
        [Wrote (if strstr (cstr l) (ascii ''GET /'') = None then error_text 400 (ascii ''Malformed HTTP request'')
           else error_text 500 (ascii ''could not properly unescape command parameter string'')), ClosedConn]\<rparr>)"
      using parse_rejected [OF x] x by (simp add: run send_error_writes close_conn_def emit_def)
  }
  show "client_thread e c = (Finished, c2\<lparr>hlog := hlog c2 @
        [Wrote (error_text 401 (ascii ''username and password do not match to configuration'')), ClosedConn]\<rparr>)"
    if "parse_request (cstr l) d = Inr (r, suffixed, c1) \<and> header_loop r c1 = Inr (r', c2) \<and> \<not> authorized e r' \<and> writes c2 = []"
    for r suffixed c1 r' c2
    using that by (simp add: run serve_def send_error_writes close_conn_def emit_def)
qed

theorem bad_requests_answered_once_witness:
  "\<exists>c. client_thread demo_http (new_client [Bytes (demo_line ''PUT /a.js'')] [] []) = (Finished, c) \<and>
     hlog c = [Received (demo_line ''PUT /a.js''), Wrote (error_text 400 (ascii ''Malformed HTTP request'')), ClosedConn]"
proof -
  obtain io where rd: "readline (BUFFER_SIZE - 1) init_iobuffer (sock (new_client [Bytes (demo_line ''PUT /a.js'')] [] [])) =
      (Ret (int (length ''PUT /a.js'' + 2)), demo_line ''PUT /a.js'', io, [])"
    using demo_read [of init_iobuffer "''PUT /a.js''" "[]"] by (auto simp: init_iobuffer_def ascii_def new_client_def)
  have "strstr (cstr (demo_line ''PUT /a.js'')) (ascii ''GET /'') = None" by code_simp
  then show ?thesis
    using bad_requests_answered_once [OF rd _ refl, of demo_http] by (simp add: new_client_def emit_def)
qed

theorem request_well_typed_witness:
  "request_typed (demo_request A_FILE (ascii ''a.js'')) False"
proof -
  let ?c = "new_client [Bytes (demo_line '''')] [] []"
  obtain io where rd: "readline (BUFFER_SIZE - 1) (iob ?c) (sock ?c) = (Ret 2, demo_line '''', io, [])"
    using demo_read [of init_iobuffer "''''" "[]"] by (auto simp: init_iobuffer_def ascii_def new_client_def)
  have "header_loop r ?c = Inr (r, emit (Received (demo_line '''')) (?c\<lparr>iob := io, sock := []\<rparr>))" for r
    by (subst header_loop.simps) (simp add: rd demo_headers del: One_nat_def)
  moreover have "parse_request (cstr (demo_line ''GET /a.js'')) ?c = Inr (demo_request A_FILE (ascii ''a.js''), False, ?c)"
    by (rule demo_parse_file) (simp add: new_client_def)
  ultimately show ?thesis using request_well_typed by blast
qed

end
