(* ===== verification/HttpdStream.thy ===== *)
theory HttpdStream
  imports HttpdPolicy
begin

section \<open>The picture stream can be read back\<close>

text \<open>
  A reader of the multipart stream that \<open>send_stream\<close> writes: it uses the length in the header of each
  part, never searches for the boundary, and so finds the pictures whatever bytes they hold. Each part
  is an item of a \<open>tlv_codec\<close>.
\<close>

definition part_text :: "frame \<Rightarrow> u8 list" where
  "part_text f = part_header f @ fr_data f @ part_end"

definition frame_ok :: "frame \<Rightarrow> bool" where
  "frame_ok f = (length (fr_data f) < 2147483648 \<and> 0 \<le> fr_sec f \<and> fr_sec f < 2147483648 \<and>
     0 \<le> fr_usec f \<and> fr_usec f < 1000000)"

definition expect :: "u8 list \<Rightarrow> u8 list \<Rightarrow> u8 list option" where
  "expect p b = (if take (length p) b = p then Some (drop (length p) b) else None)"

definition read_number :: "u8 list \<Rightarrow> (int \<times> u8 list) option" where
  "read_number b = (let ds = takeWhile is_digit b in
     if ds = [] then None else Some (digits_value 0 ds, drop (length ds) b))"

definition read_part :: "u8 list \<Rightarrow> (frame \<times> u8 list) option" where
  "read_part b =
     Option.bind (expect (text_line ''Content-Type: image/jpeg'' @ ascii ''Content-Length: '') b) (\<lambda>b.
     Option.bind (read_number b) (\<lambda>(n, b).
     Option.bind (expect (text_line '''' @ ascii ''X-Timestamp: '') b) (\<lambda>b.
     Option.bind (read_number b) (\<lambda>(sec, b).
     Option.bind (expect (ascii ''.'') b) (\<lambda>b.
     Option.bind (read_number b) (\<lambda>(usec, b).
     Option.bind (expect (text_line '''' @ text_line '''') b) (\<lambda>b.
     Option.bind (expect part_end (drop (nat n) b)) (\<lambda>r.
     Some (\<lparr>fr_data = take (nat n) b, fr_sec = sec, fr_usec = usec\<rparr>, r)))))))))"

subsection \<open>Numbers\<close>

lemma digit_char: "n < 10 \<Longrightarrow> is_digit (48 + of_nat n) \<and> uint ((48 + of_nat n :: u8) - 48) = int n"
proof -
  assume "n < 10"
  then have "n \<in> {0, 1, 2, 3, 4, 5, 6, 7, 8, 9}" by auto
  then show ?thesis by (auto simp: is_digit_def)
qed

lemma digits_value_append: "list_all is_digit s \<Longrightarrow> digits_value v (s @ t) = digits_value (digits_value v s) t"
  by (induction s arbitrary: v) auto

lemma decimal_digits: "list_all is_digit (decimal n) \<and> decimal n \<noteq> [] \<and> digits_value 0 (decimal n) = int n"
proof (induction n rule: decimal.induct)
  case (1 n)
  show ?case
  proof (cases "n < 10")
    case True
    then show ?thesis using digit_char [OF True] by (simp add: decimal.simps)
  next
    case False
    have "digits_value (int (n div 10)) [48 + of_nat (n mod 10)] = int n"
      using digit_char [of "n mod 10"] by (simp add: zdiv_int zmod_int)
    then show ?thesis
      using 1 [OF False] False digit_char [of "n mod 10"]
      by (subst (1 2 3) decimal.simps) (simp add: digits_value_append)
  qed
qed

lemma pad_digits: "list_all is_digit (pad0 k (decimal n)) \<and> digits_value 0 (pad0 k (decimal n)) = int n"
proof -
  have z: "list_all is_digit (replicate m 48)" "digits_value 0 (replicate m 48) = 0" for m
    by (induction m) (simp_all add: is_digit_def)
  then show ?thesis using decimal_digits [of n] by (simp add: pad0_def digits_value_append)
qed

lemma read_number_digits:
  assumes "list_all is_digit s" and "s \<noteq> []" and "b = [] \<or> \<not> is_digit (hd b)"
  shows "read_number (s @ b) = Some (digits_value 0 s, b)"
proof -
  have "takeWhile is_digit (s @ b) = s"
    using assms(1,3) by (subst takeWhile_append2) (auto simp: list_all_iff takeWhile_eq_Nil_iff)
  then show ?thesis using assms(2) by (simp add: read_number_def)
qed

lemma read_fmt_d:
  "0 \<le> v \<Longrightarrow> v < 2147483648 \<Longrightarrow> b = [] \<or> \<not> is_digit (hd b) \<Longrightarrow> read_number (fmt_d (s32 v) @ b) = Some (v, b)"
  using read_number_digits [of "decimal (nat v)" b] decimal_digits [of "nat v"] by (simp add: fmt_d_def s32_id)

lemma read_fmt_06d:
  assumes "0 \<le> v" "v < 1000000" "b = [] \<or> \<not> is_digit (hd b)"
  shows "read_number (fmt_06d (s32 v) @ b) = Some (v, b)"
proof -
  have "pad0 6 (decimal (nat v)) \<noteq> []" using decimal_digits [of "nat v"] by (simp add: pad0_def)
  then show ?thesis
    using read_number_digits [of "pad0 6 (decimal (nat v))" b] pad_digits [of 6 "nat v"] assms
    by (simp add: fmt_06d_def s32_id)
qed

lemma expect_append [simp]: "expect p (p @ b) = Some b"
  by (simp add: expect_def)

lemma expect_shrinks: "expect p b = Some r \<Longrightarrow> length r \<le> length b \<and> (p \<noteq> [] \<longrightarrow> length r < length b)"
  by (cases b; cases p) (auto simp: expect_def split: if_splits)

lemma read_number_shrinks: "read_number b = Some (v, r) \<Longrightarrow> length r \<le> length b"
  by (auto simp: read_number_def Let_def split: if_splits)

subsection \<open>Parts\<close>

lemma text_line_nonempty: "text_line s \<noteq> []" "hd (text_line s @ b) = (if s = [] then 13 else of_char (hd s))"
  by (auto simp: text_line_def ascii_def hd_append hd_map)

lemma read_part_text: "frame_ok f \<Longrightarrow> read_part (part_text f @ r) = Some (f, r)"
proof -
  assume ok: "frame_ok f"
  let ?b3 = "fr_data f @ part_end @ r"
  let ?b2 = "text_line '''' @ text_line '''' @ ?b3"
  let ?b1 = "text_line '''' @ ascii ''X-Timestamp: '' @ fmt_d (s32 (fr_sec f)) @ ascii ''.'' @ fmt_06d (s32 (fr_usec f)) @ ?b2"
  have "part_text f @ r = (text_line ''Content-Type: image/jpeg'' @ ascii ''Content-Length: '') @
      fmt_d (s32 (int (length (fr_data f)))) @ ?b1"
    by (simp add: part_text_def part_header_def)
  moreover have "expect (text_line ''Content-Type: image/jpeg'' @ ascii ''Content-Length: '')
      (text_line ''Content-Type: image/jpeg'' @ ascii ''Content-Length: '' @ fmt_d (s32 (int (length (fr_data f)))) @ ?b1) =
      Some (fmt_d (s32 (int (length (fr_data f)))) @ ?b1)"
    using expect_append [of "text_line ''Content-Type: image/jpeg'' @ ascii ''Content-Length: ''"] by (simp only: append_assoc)
  moreover have "read_number (fmt_d (s32 (int (length (fr_data f)))) @ ?b1) = Some (int (length (fr_data f)), ?b1)"
    using ok by (intro read_fmt_d) (simp_all add: frame_ok_def text_line_nonempty is_digit_def)
  moreover have "read_number (fmt_d (s32 (fr_sec f)) @ ascii ''.'' @ fmt_06d (s32 (fr_usec f)) @ ?b2) =
      Some (fr_sec f, ascii ''.'' @ fmt_06d (s32 (fr_usec f)) @ ?b2)"
    using ok by (intro read_fmt_d) (simp_all add: frame_ok_def ascii_def is_digit_def)
  moreover have "read_number (fmt_06d (s32 (fr_usec f)) @ ?b2) = Some (fr_usec f, ?b2)"
    using ok by (intro read_fmt_06d) (simp_all add: frame_ok_def text_line_nonempty is_digit_def)
  moreover have "expect (text_line '''' @ ascii ''X-Timestamp: '') ?b1 =
      Some (fmt_d (s32 (fr_sec f)) @ ascii ''.'' @ fmt_06d (s32 (fr_usec f)) @ ?b2)"
    using expect_append [of "text_line '''' @ ascii ''X-Timestamp: ''"] by (simp only: append_assoc)
  moreover have "expect (text_line '''' @ text_line '''') ?b2 = Some ?b3"
    using expect_append [of "text_line '''' @ text_line ''''"] by (simp only: append_assoc)
  ultimately show ?thesis by (simp add: read_part_def)
qed

lemma read_part_shrinks: "read_part b = Some (f, r) \<Longrightarrow> length r < length b"
  unfolding read_part_def
  by (auto simp: bind_eq_Some_conv text_line_nonempty dest!: expect_shrinks read_number_shrinks)

interpretation mjpeg: tlv_codec part_text read_part frame_ok
proof
  show "part_text f \<noteq> []" for f by (simp add: part_text_def part_end_def text_line_nonempty)
qed (rule read_part_text, assumption, rule read_part_shrinks)

subsection \<open>What is sent\<close>

fun sent :: "http_event list \<Rightarrow> u8 list" where
  "sent [] = []"
| "sent (Wrote t # evs) = t @ sent evs"
| "sent (_ # evs) = sent evs"

lemma sent_append: "sent (a @ b) = sent a @ sent b"
  by (induction a rule: sent.induct) auto

lemma stream_loop_sent:
  assumes "mallocs c = []" "writes c = []"
  shows "\<exists>evs. stream_loop m (map Frame fs @ Stop # t) c = (Finished, c\<lparr>hlog := hlog c @ evs\<rparr>) \<and>
    sent evs = concat (map part_text fs)"
  using assms
proof (induction fs arbitrary: m c)
  case Nil
  then show ?case by (intro exI [of _ "[]"]) simp
next
  case (Cons f fs)
  let ?w = "[Wrote (part_header f), Wrote (fr_data f), Wrote part_end]"
  have alloc: "alloc c = (True, c)" using Cons.prems(1) by (simp add: alloc_def)
  have w: "http_write x d = (True, d\<lparr>hlog := hlog d @ [Wrote x]\<rparr>)" if "writes d = []" for x d
    using that by (simp add: http_write_def emit_def)
  obtain m1 where mm: "(if length (fr_data f) > m then (case alloc c of (ok, c) \<Rightarrow> (ok, length (fr_data f) + TEN_K, c))
      else (True, m, c)) = (True, m1, c)"
    using alloc by (cases "length (fr_data f) > m") auto
  have fits: "print_into ReplyBuffer BUFFER_SIZE (part_header f) d = d" "print_into ReplyBuffer BUFFER_SIZE part_end d = d" for d
    using headers_fit(3) [of f] headers_fit(4) by (simp_all add: print_into_def)
  have m1: "stream_loop m (Frame f # map Frame fs @ Stop # t) c =
      stream_loop m1 (map Frame fs @ Stop # t) (c\<lparr>hlog := hlog c @ ?w\<rparr>)"
    unfolding stream_loop.simps mm fits prod.case bool.case using Cons.prems(2) by (simp add: w)
  obtain evs where "stream_loop m1 (map Frame fs @ Stop # t) (c\<lparr>hlog := hlog c @ ?w\<rparr>) =
      (Finished, c\<lparr>hlog := hlog c @ ?w @ evs\<rparr>)" "sent evs = concat (map part_text fs)"
    using Cons.IH [of "c\<lparr>hlog := hlog c @ ?w\<rparr>" m1] Cons.prems by auto
  then show ?case
    using m1 by (intro exI [of _ "?w @ evs"]) (simp add: part_text_def [of f])
qed

text \<open>
  C9: as long as memory lasts and the client takes what is written, a stream is a fixed header followed
  by exactly the pictures the input delivered until the program was stopped, in order, and a client that
  follows the lengths in the part headers reads back every picture with its time stamp, whatever bytes
  the pictures hold.
\<close>

theorem stream_round_trip:
  assumes "mallocs c = []" "writes c = []" and "ticks e n = map Frame fs @ Stop # t" and "list_all frame_ok fs"
  shows "\<exists>evs body. send_stream e n c = (Finished, c\<lparr>hlog := hlog c @ evs\<rparr>) \<and>
    sent evs = stream_header @ body \<and> mjpeg.decode_all (length fs) body = Some fs"
proof -
  let ?c = "c\<lparr>hlog := hlog c @ [Wrote stream_header]\<rparr>"
  obtain evs where "stream_loop 0 (ticks e n) ?c = (Finished, ?c\<lparr>hlog := hlog ?c @ evs\<rparr>)"
      "sent evs = concat (map part_text fs)"
    using stream_loop_sent [of ?c 0 fs t] assms(1-3) by auto
  moreover have "send_stream e n c = stream_loop 0 (ticks e n) ?c"
    using assms(2) headers_fit(2) by (simp add: send_stream_def http_write_def emit_def print_into_def)
  ultimately show ?thesis
    using mjpeg.decode_all_emit [OF assms(4), of "length fs"]
    by (intro exI [of _ "Wrote stream_header # evs"] exI [of _ "concat (map part_text fs)"]) simp
qed

definition demo_frame :: frame where
  "demo_frame = \<lparr>fr_data = ascii ''--boundarydonotcross'', fr_sec = 5, fr_usec = 70\<rparr>"

definition demo_stream_env :: http_env where
  "demo_stream_env = \<lparr>conf = \<lparr>port = 80, credentials = None, www_folder = None, nocommands = True\<rparr>,
     inputs = [], outputs = [], in_cmd = (\<lambda>_ _ _ _ _. 0), out_cmd = (\<lambda>_ _ _ _ _. 0),
     ticks = (\<lambda>_. [Frame demo_frame, Stop]), files = (\<lambda>p. None), scripts = (\<lambda>p. None), junk = [0]\<rparr>"

theorem stream_round_trip_witness:
  "\<exists>evs body. send_stream demo_stream_env 0 (new_client [] [] []) =
     (Finished, (new_client [] [] [])\<lparr>hlog := hlog (new_client [] [] []) @ evs\<rparr>) \<and>
     sent evs = stream_header @ body \<and> mjpeg.decode_all (length [demo_frame]) body = Some [demo_frame]"
  by (rule stream_round_trip [where t = "[]"])
    (simp_all add: new_client_def demo_stream_env_def demo_frame_def frame_ok_def)

end
