(* ===== verification/CommonUtils.thy ===== *)
theory CommonUtils
  imports Prelude
begin

unbundle bit_operations_syntax

section \<open>Text and byte helpers (\<^verbatim>\<open>src/utils/common.c\<close>)\<close>

text \<open>
  Hexadecimal digits, the three notations of hardware addresses, printing of bytes, the increment of
  a byte array that serves as a counter, and the NTP time stamp. A C string is the memory that
  starts at its first character; reads are checked (\<open>rd\<close>), so a result \<open>None\<close> means that the code
  would read outside it. A function that fills a buffer returns the bytes it has written, also when
  it fails half way.
\<close>

definition hex2num :: "u8 \<Rightarrow> int" where
  "hex2num c =
     (if 48 \<le> c \<and> c \<le> 57 then uint c - 48
      else if 97 \<le> c \<and> c \<le> 102 then uint c - 97 + 10
      else if 65 \<le> c \<and> c \<le> 70 then uint c - 65 + 10
      else - 1)"

text \<open>\<open>(a << 4) | b\<close>, stored in a byte.\<close>

definition nibbles :: "int \<Rightarrow> int \<Rightarrow> u8" where
  "nibbles a b = word_of_int (push_bit 4 a OR b)"

definition hex2byte :: "u8 list \<Rightarrow> nat \<Rightarrow> int option" where
  "hex2byte txt p =
     Option.bind (rd txt p) (\<lambda>c. let a = hex2num c in
       if a < 0 then Some (- 1)
       else Option.bind (rd txt (p + 1)) (\<lambda>c. let b = hex2num c in
         if b < 0 then Some (- 1) else Some (push_bit 4 a OR b)))"

subsection \<open>Hardware addresses\<close>

fun aton_loop :: "u8 list \<Rightarrow> nat \<Rightarrow> nat \<Rightarrow> u8 list \<Rightarrow> (int \<times> u8 list) option" where
  "aton_loop txt 0 p addr = Some (0, addr)"
| "aton_loop txt (Suc n) p addr =
     Option.bind (rd txt p) (\<lambda>c. let a = hex2num c in
       if a < 0 then Some (- 1, addr)
       else Option.bind (rd txt (p + 1)) (\<lambda>c. let b = hex2num c in
         if b < 0 then Some (- 1, addr)
         else let addr' = addr @ [nibbles a b] in
           if 0 < n then Option.bind (rd txt (p + 2)) (\<lambda>c.
             if c \<noteq> 58 then Some (- 1, addr') else aton_loop txt n (p + 3) addr')
           else aton_loop txt n (p + 2) addr'))"

definition hwaddr_aton :: "u8 list \<Rightarrow> (int \<times> u8 list) option" where
  "hwaddr_aton txt = aton_loop txt 6 0 []"

fun compact_loop :: "u8 list \<Rightarrow> nat \<Rightarrow> nat \<Rightarrow> u8 list \<Rightarrow> (int \<times> u8 list) option" where
  "compact_loop txt 0 p addr = Some (0, addr)"
| "compact_loop txt (Suc n) p addr =
     Option.bind (rd txt p) (\<lambda>c. let a = hex2num c in
       if a < 0 then Some (- 1, addr)
       else Option.bind (rd txt (p + 1)) (\<lambda>c. let b = hex2num c in
         if b < 0 then Some (- 1, addr) else compact_loop txt n (p + 2) (addr @ [nibbles a b])))"

definition hwaddr_compact_aton :: "u8 list \<Rightarrow> (int \<times> u8 list) option" where
  "hwaddr_compact_aton txt = compact_loop txt 6 0 []"

text \<open>The \<^verbatim>\<open>while\<close> loop that skips separators: the position it stops at.\<close>

function skip_separators :: "u8 list \<Rightarrow> nat \<Rightarrow> nat option" where
  "skip_separators txt p =
     (case rd txt p of None \<Rightarrow> None
      | Some c \<Rightarrow> if c = 58 \<or> c = 46 \<or> c = 45 then skip_separators txt (p + 1) else Some p)"
  by pat_completeness auto
termination by (relation "measure (\<lambda>(txt, p). length txt - p)") (auto simp: rd_def split: if_splits)

declare skip_separators.simps [simp del]

fun aton2_loop :: "u8 list \<Rightarrow> nat \<Rightarrow> nat \<Rightarrow> u8 list \<Rightarrow> (int \<times> u8 list) option" where
  "aton2_loop txt 0 p addr = Some (int p, addr)"
| "aton2_loop txt (Suc n) p addr =
     Option.bind (skip_separators txt p) (\<lambda>p. Option.bind (rd txt p) (\<lambda>c. let a = hex2num c in
       if a < 0 then Some (- 1, addr)
       else Option.bind (rd txt (p + 1)) (\<lambda>c. let b = hex2num c in
         if b < 0 then Some (- 1, addr) else aton2_loop txt n (p + 2) (addr @ [nibbles a b]))))"

definition hwaddr_aton2 :: "u8 list \<Rightarrow> (int \<times> u8 list) option" where
  "hwaddr_aton2 txt = aton2_loop txt 6 0 []"

subsection \<open>Hexadecimal strings\<close>

fun hexstr_loop :: "u8 list \<Rightarrow> nat \<Rightarrow> nat \<Rightarrow> u8 list \<Rightarrow> (int \<times> u8 list) option" where
  "hexstr_loop txt 0 p out = Some (0, out)"
| "hexstr_loop txt (Suc n) p out =
     Option.bind (hex2byte txt p) (\<lambda>a.
       if a < 0 then Some (- 1, out) else hexstr_loop txt n (p + 2) (out @ [word_of_int a]))"

definition hexstr2bin :: "u8 list \<Rightarrow> nat \<Rightarrow> (int \<times> u8 list) option" where
  "hexstr2bin txt len = hexstr_loop txt len 0 []"

text \<open>
  \<^verbatim>\<open>os_snprintf\<close> of the text \<open>s\<close> at offset \<open>p\<close> with room for \<open>sz\<close> bytes: the standard writes
  at most \<open>sz - 1\<close> characters and a NUL. \<open>hex_digits\<close> is the text of \<^verbatim>\<open>"%02x"\<close> and \<^verbatim>\<open>"%02X"\<close>.
\<close>

definition snprintf_at :: "u8 list \<Rightarrow> nat \<Rightarrow> nat \<Rightarrow> u8 list \<Rightarrow> u8 list" where
  "snprintf_at buf p sz s =
     (if sz = 0 then buf
      else let t = take (sz - 1) s @ [0] in take p buf @ t @ drop (p + length t) buf)"

definition hex_digit :: "bool \<Rightarrow> nat \<Rightarrow> u8" where
  "hex_digit uppercase n = of_nat (if n < 10 then 48 + n else (if uppercase then 55 else 87) + n)"

definition hex_digits :: "bool \<Rightarrow> u8 \<Rightarrow> u8 list" where
  "hex_digits uppercase b = [hex_digit uppercase (unat b div 16), hex_digit uppercase (unat b mod 16)]"

fun print_hex_loop :: "bool \<Rightarrow> nat \<Rightarrow> u8 list \<Rightarrow> u8 list \<Rightarrow> nat \<Rightarrow> u8 list \<times> int" where
  "print_hex_loop uppercase sz [] buf p = (buf[sz - 1 := 0], int p)"
| "print_hex_loop uppercase sz (d # ds) buf p =
     (let buf' = snprintf_at buf p (sz - p) (hex_digits uppercase d) in
      if 2 \<ge> sz - p then (buf'[sz - 1 := 0], int p)
      else print_hex_loop uppercase sz ds buf' (p + 2))"

definition snprintf_hex :: "u8 list \<Rightarrow> nat \<Rightarrow> u8 list \<Rightarrow> bool \<Rightarrow> u8 list \<times> int" where
  "snprintf_hex buf buf_size data uppercase =
     (if buf_size = 0 then (buf, 0) else print_hex_loop uppercase buf_size data buf 0)"

definition wpa_snprintf_hex :: "u8 list \<Rightarrow> nat \<Rightarrow> u8 list \<Rightarrow> u8 list \<times> int" where
  "wpa_snprintf_hex buf buf_size data = snprintf_hex buf buf_size data False"

definition wpa_snprintf_hex_uppercase :: "u8 list \<Rightarrow> nat \<Rightarrow> u8 list \<Rightarrow> u8 list \<times> int" where
  "wpa_snprintf_hex_uppercase buf buf_size data = snprintf_hex buf buf_size data True"

subsection \<open>Counters, time stamps and printable names\<close>

fun inc_loop :: "u8 list \<Rightarrow> nat \<Rightarrow> u8 list" where
  "inc_loop counter 0 = counter"
| "inc_loop counter (Suc p) =
     (let c = counter[p := counter ! p + 1] in if c ! p \<noteq> 0 then c else inc_loop c p)"

definition inc_byte_array :: "u8 list \<Rightarrow> nat \<Rightarrow> u8 list" where
  "inc_byte_array counter len = inc_loop counter len"

text \<open>\<open>sec\<close> and \<open>usec\<close> are what \<^verbatim>\<open>os_get_time\<close> stores in \<^verbatim>\<open>now\<close>.\<close>

definition wpa_get_ntp_timestamp :: "int \<Rightarrow> int \<Rightarrow> u8 list" where
  "wpa_get_ntp_timestamp now_sec now_usec =
     (let sec = word_of_int now_sec + 2208988800;
          usec = word_of_int now_usec;
          usec' = 4295 * usec - drop_bit 5 usec - drop_bit 9 usec
      in WPA_PUT_BE32 sec @ WPA_PUT_BE32 usec')"

text \<open>\<open>ssid_txt\<close> is the static buffer of 33 bytes, as the previous call has left it.\<close>

definition wpa_ssid_txt :: "u8 list \<Rightarrow> u8 list \<Rightarrow> nat \<Rightarrow> u8 list" where
  "wpa_ssid_txt ssid_txt ssid ssid_len =
     (let n = (if ssid_len > 32 then 32 else ssid_len);
          t = take n ssid @ 0 # drop (Suc n) ssid_txt
      in map (\<lambda>c. if c < 32 \<or> c \<ge> 127 then 95 else c) (takeWhile (\<lambda>c. c \<noteq> 0) t) @ dropWhile (\<lambda>c. c \<noteq> 0) t)"

subsection \<open>Digits and bytes\<close>

lemma hex2num_digit [codec_simps]: "n < 16 \<Longrightarrow> hex2num (hex_digit up n) = int n"
proof -
  have "list_all (\<lambda>n. hex2num (hex_digit True n) = int n \<and> hex2num (hex_digit False n) = int n) [0..<16]"
    by code_simp
  moreover assume "n < 16"
  ultimately show ?thesis by (cases up) (auto simp: list_all_iff)
qed

lemma byte_nibbles [codec_simps]: "push_bit 4 (int (unat b div 16)) OR int (unat b mod 16) = uint (b :: u8)"
proof -
  have "take_bit 4 (uint b) = int (unat b mod 16)" by (simp add: take_bit_eq_mod zmod_int)
  moreover have "push_bit 4 (drop_bit 4 (uint b)) = push_bit 4 (int (unat b div 16))"
    by (simp add: drop_bit_eq_div zdiv_int)
  moreover have "push_bit 4 (drop_bit 4 (uint b)) OR take_bit 4 (uint b) = uint b"
    by (rule bit_eqI) (auto simp: bit_simps)
  ultimately show ?thesis by simp
qed

lemma digit_values [codec_simps]:
  "hex2num (hex_digit up (unat (b :: u8) div 16)) = int (unat b div 16)"
  "hex2num (hex_digit up (unat b mod 16)) = int (unat b mod 16)"
  using unsigned_less [of b, where 'a = nat] by (simp_all add: hex2num_digit less_mult_imp_div_less)

lemma nibbles_digits [codec_simps]: "nibbles (int (unat (b :: u8) div 16)) (int (unat b mod 16)) = b"
  by (simp only: nibbles_def byte_nibbles) simp

lemma rd_digits [codec_simps]:
  assumes "drop p txt = hex_digits up b @ r"
  shows "rd txt p = Some (hex_digit up (unat b div 16))" "rd txt (Suc p) = Some (hex_digit up (unat b mod 16))"
    "drop (Suc (Suc p)) txt = r"
proof -
  have 1: "drop p txt = hex_digit up (unat b div 16) # hex_digit up (unat b mod 16) # r"
    using assms by (simp add: hex_digits_def)
  then have 2: "drop (Suc p) txt = hex_digit up (unat b mod 16) # r"
    by (metis drop_drop drop0 drop_Suc_Cons plus_1_eq_Suc)
  then have 3: "drop (Suc (Suc p)) txt = r" by (metis drop_drop drop0 drop_Suc_Cons plus_1_eq_Suc)
  show "rd txt p = Some (hex_digit up (unat b div 16))" using 1 by (rule rd_drop)
  show "rd txt (Suc p) = Some (hex_digit up (unat b mod 16))" using 2 by (rule rd_drop)
  show "drop (Suc (Suc p)) txt = r" by (rule 3)
qed

lemma hex2byte_digits [codec_simps]:
  assumes "drop p txt = hex_digits up b @ r"
  shows "hex2byte txt p = Some (uint b)"
  using rd_digits(1,2) [OF assms] by (simp add: hex2byte_def digit_values byte_nibbles)

lemma hexstr_loop_digits:
  "drop p txt = concat (map (hex_digits up) d) @ r \<Longrightarrow> hexstr_loop txt (length d) p out = Some (0, out @ d)"
proof (induction d arbitrary: p out)
  case (Cons b d)
  then have p: "drop p txt = hex_digits up b @ concat (map (hex_digits up) d) @ r" by simp
  then show ?case
    using Cons.IH [of "p + 2" "out @ [b]"] rd_digits(3) [OF p] by (simp add: hex2byte_digits [OF p])
qed simp

lemma length_snprintf_at [simp]:
  "p + sz \<le> length buf \<Longrightarrow> length (snprintf_at buf p sz s) = length buf"
  by (auto simp: snprintf_at_def Let_def)

lemma print_hex_loop_fits:
  assumes "p + 2 * length d < sz" "length buf = sz"
  shows "\<exists>z. print_hex_loop up sz d buf p = (take p buf @ concat (map (hex_digits up) d) @ z, int (p + 2 * length d)) \<and>
    p + 2 * length d + length z = sz"
  using assms
proof (induction d arbitrary: buf p)
  case Nil
  then show ?case
    using append_take_drop_id [of p "buf[sz - 1 := 0]"]
    by (intro exI [of _ "drop p (buf[sz - 1 := 0])"]) (simp add: take_update_cancel)
next
  case (Cons b d)
  let ?b = "snprintf_at buf p (sz - p) (hex_digits up b)"
  have b: "?b = take p buf @ hex_digits up b @ 0 # drop (Suc (Suc (Suc p))) buf"
    using Cons.prems by (simp add: snprintf_at_def hex_digits_def Let_def take_Cons')
  obtain z where "print_hex_loop up sz d ?b (p + 2) =
      (take (p + 2) ?b @ concat (map (hex_digits up) d) @ z, int (p + 2 + 2 * length d))"
    "p + 2 + 2 * length d + length z = sz"
    using Cons.IH [of "p + 2" ?b] Cons.prems by auto
  moreover have "take (p + 2) ?b = take p buf @ hex_digits up b"
    using Cons.prems by (subst b) (simp add: hex_digits_def)
  ultimately show ?case using Cons.prems by (intro exI [of _ z]) (simp add: Let_def)
qed

lemma length_print_hex_loop: "p \<le> sz \<Longrightarrow> length buf = sz \<Longrightarrow> length (fst (print_hex_loop up sz d buf p)) = sz"
  by (induction up sz d buf p rule: print_hex_loop.induct) (simp_all add: Let_def)

text \<open>
  C25: printing bytes in hexadecimal into a buffer that has room for them and the terminator gives a
  text of two characters per byte from which \<^verbatim>\<open>hexstr2bin\<close> gets the bytes back, in upper and lower case;
  the buffer is not exceeded.
\<close>

theorem hex_round_trip:
  assumes "length buf = n" "2 * length d < n"
  shows "case snprintf_hex buf n d up of (txt, ret) \<Rightarrow>
    ret = int (2 * length d) \<and> length txt = n \<and> hexstr2bin txt (length d) = Some (0, d)"
proof -
  obtain z where z: "print_hex_loop up n d buf 0 = (concat (map (hex_digits up) d) @ z, int (2 * length d))"
    "2 * length d + length z = n"
    using print_hex_loop_fits [of 0 d n buf up] assms by auto
  then have "hexstr2bin (concat (map (hex_digits up) d) @ z) (length d) = Some (0, d)"
    using hexstr_loop_digits [of 0 _ up d z "[]"] by (simp add: hexstr2bin_def)
  with z assms show ?thesis
    using length_print_hex_loop [of 0 n buf up d] by (simp add: snprintf_hex_def)
qed

theorem hex_round_trip_witness:
  "case snprintf_hex (replicate 5 7) 5 [0xab, 0x0c] True of (txt, ret) \<Rightarrow>
    ret = 4 \<and> length txt = 5 \<and> hexstr2bin txt 2 = Some (0, [0xab, 0x0c])"
  using hex_round_trip [of "replicate 5 7" 5 "[0xab, 0x0c]" True] by (simp add: numeral_2_eq_2)

subsection \<open>Hardware addresses\<close>

text \<open>The text \<^verbatim>\<open>MACSTR\<close> prints for an address, and \<^verbatim>\<open>COMPACT_MACSTR\<close>.\<close>

definition mac_txt :: "u8 list \<Rightarrow> u8 list" where
  "mac_txt a = hex_digits False (a ! 0) @ 58 # hex_digits False (a ! 1) @ 58 # hex_digits False (a ! 2) @ 58 #
     hex_digits False (a ! 3) @ 58 # hex_digits False (a ! 4) @ 58 # hex_digits False (a ! 5)"

definition compact_mac_txt :: "u8 list \<Rightarrow> u8 list" where
  "compact_mac_txt a = concat (map (hex_digits False) (take 6 a))"

lemma digit_no_separator: "n < 16 \<Longrightarrow> hex_digit up n \<noteq> 58 \<and> hex_digit up n \<noteq> 46 \<and> hex_digit up n \<noteq> 45"
proof -
  have "list_all (\<lambda>n. \<forall>up. hex_digit up n \<noteq> 58 \<and> hex_digit up n \<noteq> 46 \<and> hex_digit up n \<noteq> 45) [0..<16]"
    by code_simp
  moreover assume "n < 16"
  ultimately show ?thesis by (auto simp: list_all_iff)
qed

lemma skip_digit [codec_simps]:
  "drop p txt = hex_digits up b @ r \<Longrightarrow> skip_separators txt p = Some p"
  "drop p txt = 58 # hex_digits up b @ r \<Longrightarrow> skip_separators txt p = Some (Suc p)"
proof -
  have d: "unat b div 16 < 16" using unsigned_less [of b, where 'a = nat] by (simp add: less_mult_imp_div_less)
  have *: "skip_separators txt p = Some p" if "drop p txt = hex_digits up b @ r" for p
    using digit_no_separator [OF d, of up] rd_digits(1) [OF that] by (subst skip_separators.simps) simp
  then show "drop p txt = hex_digits up b @ r \<Longrightarrow> skip_separators txt p = Some p" .
  assume c: "drop p txt = 58 # hex_digits up b @ r"
  then have "drop (Suc p) txt = hex_digits up b @ r" by (metis drop0 drop_Suc_Cons drop_drop plus_1_eq_Suc)
  then show "skip_separators txt p = Some (Suc p)"
    using * [of "Suc p"] rd_drop [OF c] by (subst skip_separators.simps) simp
qed

lemma six_bytes: "length a = 6 \<Longrightarrow> a = [a ! 0, a ! 1, a ! 2, a ! 3, a ! 4, a ! 5]"
  by (rule nth_equalityI) (auto simp: less_Suc_eq numeral_eq_Suc)

lemma aton_last: 
  "drop p txt = hex_digits up b @ r \<Longrightarrow> aton_loop txt (Suc 0) p addr = Some (0, addr @ [b])"
  using rd_digits [of p "txt" up b r] by (simp add: codec_simps)

lemma aton_next:
  assumes "drop p txt = hex_digits up b @ 58 # r"
  shows "aton_loop txt (Suc (Suc n)) p addr = aton_loop txt (Suc n) (p + 3) (addr @ [b])"
    and "drop (p + 3) txt = r"
proof -
  note d = rd_digits [OF assms]
  show "drop (p + 3) txt = r"
    using arg_cong [OF assms, of "drop 3"] by (simp add: hex_digits_def add.commute)
  show "aton_loop txt (Suc (Suc n)) p addr = aton_loop txt (Suc n) (p + 3) (addr @ [b])"
    using d(1,2) rd_drop [OF d(3)]
    by (subst aton_loop.simps(2)) (simp add: codec_simps Let_def del: aton_loop.simps)
qed

lemma aton2_next:
  assumes "drop p txt = hex_digits up b @ r \<or> drop p txt = 58 # hex_digits up b @ r"
  shows "\<exists>q. aton2_loop txt (Suc n) p addr = aton2_loop txt n q (addr @ [b]) \<and> drop q txt = r \<and>
    q + length r = length txt"
proof -
  obtain q where q: "skip_separators txt p = Some q" "drop q txt = hex_digits up b @ r"
    using assms skip_digit [of p "txt" up b r]
    by (metis drop0 drop_Suc_Cons drop_drop plus_1_eq_Suc)
  note d = rd_digits [OF q(2)]
  have "length txt = q + 2 + length r" using arg_cong [OF q(2), of length] by (simp add: hex_digits_def)
  then show ?thesis
    using q(1) d by (intro exI [of _ "q + 2"]) (simp add: codec_simps del: aton2_loop.simps(1))
qed

lemma aton2_rest:
  "drop p txt = concat (map (\<lambda>b. 58 # hex_digits up b) bs) @ r \<Longrightarrow> p + length (drop p txt) = length txt \<Longrightarrow>
   aton2_loop txt (length bs) p addr = Some (int (length txt - length r), addr @ bs)"
proof (induction bs arbitrary: p addr)
  case (Cons b bs)
  then have "drop p txt = 58 # hex_digits up b @ concat (map (\<lambda>b. 58 # hex_digits up b) bs) @ r" by simp
  then obtain q where q: "aton2_loop txt (Suc (length bs)) p addr = aton2_loop txt (length bs) q (addr @ [b])"
    "drop q txt = concat (map (\<lambda>b. 58 # hex_digits up b) bs) @ r"
    "q + length (concat (map (\<lambda>b. 58 # hex_digits up b) bs) @ r) = length txt"
    using aton2_next by blast
  then show ?case using Cons.IH [of q "addr @ [b]"] by simp
qed (auto simp: add_diff_cancel_right')

lemma compact_loop_digits:
  "drop p txt = concat (map (hex_digits up) a) @ r \<Longrightarrow> compact_loop txt (length a) p addr = Some (0, addr @ a)"
proof (induction a arbitrary: p addr)
  case (Cons b a)
  then have p: "drop p txt = hex_digits up b @ concat (map (hex_digits up) a) @ r" by simp
  then show ?case
    using Cons.IH [of "p + 2" "addr @ [b]"] rd_digits [OF p] by (simp add: codec_simps)
qed simp

text \<open>
  Each of the three parsers of hardware addresses reads the address back from the text it is
  printed as (\<^verbatim>\<open>MACSTR\<close>, \<^verbatim>\<open>COMPACT_MACSTR\<close>), whatever follows the terminator.
\<close>

theorem hwaddr_round_trip:
  assumes "length a = 6"
  shows "hwaddr_aton (mac_txt a @ 0 # r) = Some (0, a) \<and>
    hwaddr_aton2 (mac_txt a @ 0 # r) = Some (17, a) \<and>
    hwaddr_compact_aton (compact_mac_txt a @ 0 # r) = Some (0, a)"
proof -
  obtain b0 b1 b2 b3 b4 b5 where a: "a = [b0, b1, b2, b3, b4, b5]" using six_bytes [OF assms] by blast
  let ?t = "mac_txt a @ 0 # r"
  have t: "drop 0 ?t = hex_digits False b0 @ 58 # hex_digits False b1 @ 58 # hex_digits False b2 @ 58 #
     hex_digits False b3 @ 58 # hex_digits False b4 @ 58 # hex_digits False b5 @ 0 # r"
    by (simp add: a mac_txt_def eval_nat_numeral)
  note s0 = aton_next [OF t] note s1 = aton_next [OF s0(2)] note s2 = aton_next [OF s1(2)]
  note s3 = aton_next [OF s2(2)] note s4 = aton_next [OF s3(2)] note s5 = aton_last [OF s4(2)]
  have six: "6 = Suc (Suc (Suc (Suc (Suc (Suc 0)))))" by simp
  have 1: "hwaddr_aton ?t = Some (0, a)"
    unfolding hwaddr_aton_def six by (simp only: s0(1) s1(1) s2(1) s3(1) s4(1) s5) (simp add: a)
  have tail: "mac_txt a = hex_digits False b0 @ concat (map (\<lambda>b. 58 # hex_digits False b) [b1, b2, b3, b4, b5])"
    by (simp add: a mac_txt_def eval_nat_numeral)
  obtain q where q: "aton2_loop ?t (Suc 5) 0 [] = aton2_loop ?t 5 q [b0]"
    "drop q ?t = concat (map (\<lambda>b. 58 # hex_digits False b) [b1, b2, b3, b4, b5]) @ 0 # r"
    "q + length (drop q ?t) = length ?t"
    using aton2_next [of 0 ?t False b0 "concat (map (\<lambda>b. 58 # hex_digits False b) [b1, b2, b3, b4, b5]) @ 0 # r" 5 "[]"] tail
    by auto
  have five: "(5 :: nat) = Suc (Suc (Suc (Suc (Suc 0))))" by simp
  have len: "length ?t - length (0 # r) = 17" by (simp add: mac_txt_def hex_digits_def)
  have "aton2_loop ?t 5 q [b0] = Some (17, a)"
    using aton2_rest [OF q(2,3), of "[b0]"] len by (simp only: list.size five) (simp add: a del: aton2_loop.simps)
  with q(1) have 2: "hwaddr_aton2 ?t = Some (17, a)" by (simp add: hwaddr_aton2_def del: aton2_loop.simps)
  have 3: "hwaddr_compact_aton (compact_mac_txt a @ 0 # r) = Some (0, a)"
    using compact_loop_digits [of 0 _ False a "0 # r" "[]"] assms
    by (simp add: hwaddr_compact_aton_def compact_mac_txt_def)
  from 1 2 3 show ?thesis by blast
qed

theorem hwaddr_round_trip_witness:
  "hwaddr_aton (mac_txt [0, 0x1b, 0xfe, 4, 5, 0xa6] @ [0]) = Some (0, [0, 0x1b, 0xfe, 4, 5, 0xa6])"
  using hwaddr_round_trip [of "[0, 0x1b, 0xfe, 4, 5, 0xa6]" "[]"] by simp

subsection \<open>Counters\<close>

text \<open>The number a byte array stands for, most significant byte first.\<close>

definition be_val :: "u8 list \<Rightarrow> nat" where
  "be_val c = foldl (\<lambda>v b. 256 * v + unat b) 0 c"

lemma be_val_snoc [simp]: "be_val (c @ [b]) = 256 * be_val c + unat b" "be_val [] = 0"
  by (simp_all add: be_val_def)

lemma be_val_less: "be_val c < 256 ^ length c"
proof (induction c rule: rev_induct)
  case (snoc b c)
  then show ?case using unsigned_less [of b, where 'a = nat] by simp
qed simp

lemma minus255: "unat (- 1 :: u8) = 255"
  by code_simp

lemma inc_loop_value:
  "p \<le> length c \<Longrightarrow> be_val (take p (inc_loop c p)) = (be_val (take p c) + 1) mod 256 ^ p \<and>
     drop p (inc_loop c p) = drop p c \<and> length (inc_loop c p) = length c"
proof (induction p arbitrary: c)
  case (Suc p)
  let ?c = "c[p := c ! p + 1]"
  have t: "take (Suc p) c = take p c @ [c ! p]" "take (Suc p) ?c = take p c @ [c ! p + 1]"
    using Suc.prems by (simp_all add: take_Suc_conv_app_nth)
  have l: "be_val (take p c) < 256 ^ p" using be_val_less [of "take p c"] Suc.prems by simp
  show ?case
  proof (cases "c ! p + 1 = 0")
    case False
    then have "unat (c ! p + 1) = unat (c ! p) + 1" by (simp add: unatSuc add.commute)
    moreover have "unat (c ! p + 1) < 256" using unsigned_less [of "c ! p + 1", where 'a = nat] by simp
    ultimately show ?thesis using False Suc.prems t l by (simp add: Let_def)
  next
    case True
    then have u: "unat (c ! p) = 255" by (simp add: add_eq_0_iff2 minus255)
    let ?r = "inc_loop ?c p"
    have r: "be_val (take p ?r) = (be_val (take p c) + 1) mod 256 ^ p" "drop p ?r = drop p ?c" "length ?r = length c"
      using Suc.IH [of ?c] Suc.prems by simp_all
    then have "take (Suc p) ?r = take p ?r @ [0]"
      using Suc.prems True by (metis Suc_le_lessD hd_drop_conv_nth length_list_update nth_list_update_eq take_hd_drop)
    then have "be_val (take (Suc p) ?r) = 256 * ((be_val (take p c) + 1) mod 256 ^ p)" using r by simp
    also have "\<dots> = (be_val (take (Suc p) c) + 1) mod 256 ^ Suc p" using t u by (simp add: mult_mod_right algebra_simps)
    moreover have "drop (Suc p) ?r = drop (Suc p) c" using r(2) by (metis drop_Suc drop_update_cancel lessI tl_drop)
    ultimately show ?thesis using True r Suc.prems by (simp add: Let_def)
  qed
qed simp

text \<open>
  \<^verbatim>\<open>inc_byte_array\<close> adds one to the number the array stands for (most significant byte first),
  modulo the range of the array, and writes nothing outside it.
\<close>

theorem inc_byte_array_increments:
  "be_val (inc_byte_array c (length c)) = (be_val c + 1) mod 256 ^ length c \<and>
   length (inc_byte_array c (length c)) = length c"
proof -
  note v = inc_loop_value [of "length c" c, simplified]
  then have "take (length c) (inc_loop c (length c)) = inc_loop c (length c)" by simp
  with v show ?thesis by (simp add: inc_byte_array_def)
qed

lemma be_val_inj: "length a = length b \<Longrightarrow> be_val a = be_val b \<Longrightarrow> a = b"
proof (induction a arbitrary: b rule: rev_induct)
  case (snoc x a)
  then obtain y b' where b: "b = b' @ [y]" by (metis length_append_singleton length_0_conv nat.distinct(1) rev_exhaust)
  have "unat x < 256" "unat y < 256" using unsigned_less [where 'a = nat, of x] unsigned_less [where 'a = nat, of y] by simp_all
  moreover have e: "256 * be_val a + unat x = 256 * be_val b' + unat y" using snoc.prems b by simp
  ultimately have "be_val a = be_val b'" by linarith
  then have "be_val a = be_val b'" "x = y" using e by (simp_all add: word_unat_eq_iff)
  with snoc b show ?case by simp
qed simp

lemma ssid_txt_printable:
  assumes "c \<in> set (takeWhile (\<lambda>c. c \<noteq> 0) (wpa_ssid_txt old ssid n))"
  shows "32 \<le> c \<and> c < 127"
proof -
  let ?f = "\<lambda>c. if c < 32 \<or> c \<ge> 127 then 95 else c :: u8"
  obtain t where t: "wpa_ssid_txt old ssid n = map ?f (takeWhile (\<lambda>c. c \<noteq> 0) t) @ dropWhile (\<lambda>c. c \<noteq> 0) t"
    unfolding wpa_ssid_txt_def Let_def by blast
  have z: "takeWhile (\<lambda>c. c \<noteq> 0) (dropWhile (\<lambda>c. c \<noteq> 0) t) = []" by (induction t) auto
  have nz: "\<And>c. ?f c \<noteq> 0" by (auto simp: word_less_nat_alt)
  then have "takeWhile (\<lambda>c. c \<noteq> 0) (wpa_ssid_txt old ssid n) = map ?f (takeWhile (\<lambda>c. c \<noteq> 0) t)"
    unfolding t using z by (subst takeWhile_append2) auto
  then show ?thesis using assms by (auto simp: not_less not_le)
qed

subsection \<open>Reads stop at the terminator\<close>

lemma hex2num_zero: "hex2num 0 = - 1"
  by (simp add: hex2num_def)

lemma rd_before:
  assumes "txt ! z = 0" "z < length txt" "p \<le> z"
  shows "\<exists>c. rd txt p = Some c \<and> (0 \<le> hex2num c \<longrightarrow> p < z) \<and> (c \<noteq> 0 \<longrightarrow> p < z)"
  using assms by (cases "p = z") (auto simp: rd_def hex2num_zero)

lemma skip_separators_safe:
  "txt ! z = 0 \<Longrightarrow> z < length txt \<Longrightarrow> p \<le> z \<Longrightarrow> \<exists>q. skip_separators txt p = Some q \<and> q \<le> z"
proof (induction "txt" p rule: skip_separators.induct)
  case (1 "txt" p)
  obtain c where c: "rd txt p = Some c" "c \<noteq> 0 \<longrightarrow> p < z" using rd_before [OF "1.prems"] by blast
  show ?case
  proof (cases "c = 58 \<or> c = 46 \<or> c = 45")
    case True
    then have "p + 1 \<le> z" using c(2) by auto
    then show ?thesis using "1.IH" [OF c(1) True "1.prems"(1,2)] c(1) True by (subst skip_separators.simps) simp
  next
    case False
    then show ?thesis using c(1) "1.prems"(3) by (subst skip_separators.simps) simp
  qed
qed

lemma digits_safe:
  assumes "txt ! z = 0" "z < length txt" "p \<le> z"
    and "\<And>a b. p + 2 \<le> z \<Longrightarrow> f a b \<noteq> None"
  shows "Option.bind (rd txt p) (\<lambda>c. let a = hex2num c in if a < 0 then Some r
      else Option.bind (rd txt (p + 1)) (\<lambda>c. let b = hex2num c in if b < 0 then Some r else f a b)) \<noteq> None"
proof -
  obtain c where c: "rd txt p = Some c" "0 \<le> hex2num c \<longrightarrow> p < z" using rd_before [OF assms(1-3)] by blast
  show ?thesis
  proof (cases "hex2num c < 0")
    case False
    then have p: "p + 1 \<le> z" using c(2) by simp
    obtain c' where "rd txt (p + 1) = Some c'" "0 \<le> hex2num c' \<longrightarrow> p + 1 < z"
      using rd_before [OF assms(1,2) p] by blast
    then show ?thesis using c(1) assms(4) False by (cases "hex2num c' < 0") (simp_all add: Let_def)
  qed (simp add: c(1))
qed

lemma compact_loop_safe:
  "txt ! z = 0 \<Longrightarrow> z < length txt \<Longrightarrow> p \<le> z \<Longrightarrow> compact_loop txt n p addr \<noteq> None"
proof (induction n arbitrary: p addr)
  case (Suc n)
  show ?case unfolding compact_loop.simps by (rule digits_safe [OF Suc.prems]) (rule Suc.IH [OF Suc.prems(1,2)])
qed simp

lemma aton2_loop_safe:
  "txt ! z = 0 \<Longrightarrow> z < length txt \<Longrightarrow> p \<le> z \<Longrightarrow> aton2_loop txt n p addr \<noteq> None"
proof (induction n arbitrary: p addr)
  case (Suc n)
  obtain q where q: "skip_separators txt p = Some q" "q \<le> z" using skip_separators_safe [OF Suc.prems] by blast
  show ?case unfolding aton2_loop.simps q(1) bind.simps
    by (rule digits_safe [OF Suc.prems(1,2) q(2)]) (rule Suc.IH [OF Suc.prems(1,2)])
qed simp

lemma aton_loop_safe:
  "txt ! z = 0 \<Longrightarrow> z < length txt \<Longrightarrow> p \<le> z \<Longrightarrow> aton_loop txt n p addr \<noteq> None"
proof (induction n arbitrary: p addr)
  case (Suc n)
  have sep: "Option.bind (rd txt (p + 2)) (\<lambda>c. if c \<noteq> 58 then Some (- 1, d) else aton_loop txt n (p + 3) d) \<noteq> None"
    if p: "p + 2 \<le> z" for d
  proof -
    obtain c where c: "rd txt (p + 2) = Some c" "c \<noteq> 0 \<longrightarrow> p + 2 < z" using rd_before [OF Suc.prems(1,2) p] by blast
    then show ?thesis using Suc.IH [OF Suc.prems(1,2), of "p + 3" d] by (cases "c = 58") simp_all
  qed
  have f: "(let addr' = addr @ [nibbles a b] in
           if 0 < n then Option.bind (rd txt (p + 2)) (\<lambda>c.
             if c \<noteq> 58 then Some (- 1, addr') else aton_loop txt n (p + 3) addr')
           else aton_loop txt n (p + 2) addr') \<noteq> None" if p: "p + 2 \<le> z" for a b
    using sep [OF p] Suc.IH [OF Suc.prems(1,2) p] by (cases "0 < n") (simp_all only: Let_def if_True if_False not_False_eq_True)
  show ?case unfolding aton_loop.simps by (rule digits_safe [OF Suc.prems f])
qed simp

lemma hexstr_loop_safe:
  "txt ! z = 0 \<Longrightarrow> z < length txt \<Longrightarrow> p \<le> z \<Longrightarrow> hexstr_loop txt n p out \<noteq> None"
proof (induction n arbitrary: p out)
  case (Suc n)
  obtain c where c: "rd txt p = Some c" "0 \<le> hex2num c \<longrightarrow> p < z" using rd_before [OF Suc.prems] by blast
  show ?case
  proof (cases "hex2num c < 0")
    case False
    then have p: "p + 1 \<le> z" using c(2) by simp
    obtain c' where c': "rd txt (p + 1) = Some c'" "0 \<le> hex2num c' \<longrightarrow> p + 1 < z"
      using rd_before [OF Suc.prems(1,2) p] by blast
    then show ?thesis using c(1) False Suc.IH [OF Suc.prems(1,2), of "p + 2"]
      by (cases "hex2num c' < 0") (simp_all add: hex2byte_def Let_def)
  qed (simp add: c(1) hex2byte_def)
qed simp

text \<open>
  On any NUL-terminated text the parsers of addresses and of hexadecimal strings return without
  reading past the terminator, also when more bytes are asked for than the text has.
\<close>

theorem text_parsers_stop_at_terminator:
  assumes "0 \<in> set t"
  shows "hwaddr_aton t \<noteq> None \<and> hwaddr_compact_aton t \<noteq> None \<and> hwaddr_aton2 t \<noteq> None \<and> hexstr2bin t n \<noteq> None"
proof -
  obtain z where z: "t ! z = 0" "z < length t" using assms by (metis in_set_conv_nth)
  show ?thesis
    unfolding hwaddr_aton_def hwaddr_compact_aton_def hwaddr_aton2_def hexstr2bin_def
    using aton_loop_safe [OF z le0] compact_loop_safe [OF z le0] aton2_loop_safe [OF z le0] hexstr_loop_safe [OF z le0]
    by blast
qed

theorem text_parsers_stop_at_terminator_witness:
  "hwaddr_aton [48, 49, 58, 0] \<noteq> None \<and> hwaddr_aton2 [48, 49, 58, 0] \<noteq> None"
  using text_parsers_stop_at_terminator [of "[48, 49, 58, 0]"] by simp

end
