(* ===== verification/RsnIe.thy ===== *)
theory RsnIe
  imports Prelude
begin

unbundle bit_operations_syntax

section \<open>WPA and RSN elements (\<^verbatim>\<open>src/common/wpa_common.c\<close>, \<^verbatim>\<open>src/ap/wpa_auth_ie.c\<close>)\<close>

text \<open>
  What an access point and a station tell each other about the ciphers and the key management they
  support: the parsers of the two kinds of element, which read bytes chosen by a station, and the
  writers of the access point's own elements. The build is without \<^verbatim>\<open>CONFIG_IEEE80211W\<close>,
  \<^verbatim>\<open>CONFIG_IEEE80211R\<close> and \<^verbatim>\<open>CONFIG_RSN_TESTING\<close> (\<^verbatim>\<open>hostapd/.config\<close>).

  A pointer into the element is an offset; a read outside the memory that holds it makes the
  result \<open>None\<close>. A step of a parser either ends it with a return code and the data filled in so far
  (\<open>Inl\<close>) or goes on with the position, the number of bytes left and the data (\<open>Inr\<close>).
\<close>

subsection \<open>Constants (\<^verbatim>\<open>src/common/defs.h\<close>, \<^verbatim>\<open>src/common/wpa_common.h\<close>)\<close>

abbreviation "WPA_CIPHER_NONE \<equiv> (1 :: u32)"
abbreviation "WPA_CIPHER_WEP40 \<equiv> (2 :: u32)"
abbreviation "WPA_CIPHER_WEP104 \<equiv> (4 :: u32)"
abbreviation "WPA_CIPHER_TKIP \<equiv> (8 :: u32)"
abbreviation "WPA_CIPHER_CCMP \<equiv> (16 :: u32)"
abbreviation "WPA_KEY_MGMT_IEEE8021X \<equiv> (1 :: u32)"
abbreviation "WPA_KEY_MGMT_PSK \<equiv> (2 :: u32)"
abbreviation "WPA_KEY_MGMT_WPA_NONE \<equiv> (16 :: u32)"
abbreviation "WPA_PROTO_WPA \<equiv> (1 :: u32)"
abbreviation "WPA_PROTO_RSN \<equiv> (2 :: u32)"

definition RSN_SELECTOR :: "u32 \<Rightarrow> u32 \<Rightarrow> u32 \<Rightarrow> u32 \<Rightarrow> u32" where
  "RSN_SELECTOR a b c d = push_bit 24 a OR push_bit 16 b OR push_bit 8 c OR d"

definition rsn_suite :: "u32 \<Rightarrow> u32" where "rsn_suite n = RSN_SELECTOR 0x00 0x0f 0xac n"
definition wpa_suite :: "u32 \<Rightarrow> u32" where "wpa_suite n = RSN_SELECTOR 0x00 0x50 0xf2 n"

text \<open>The suites of both kinds carry the same numbers.\<close>

abbreviation "SUITE_NONE \<equiv> (0 :: u32)"
abbreviation "SUITE_WEP40 \<equiv> (1 :: u32)"
abbreviation "SUITE_TKIP \<equiv> (2 :: u32)"
abbreviation "SUITE_CCMP \<equiv> (4 :: u32)"
abbreviation "SUITE_WEP104 \<equiv> (5 :: u32)"
abbreviation "AKM_NONE \<equiv> (0 :: u32)"
abbreviation "AKM_8021X \<equiv> (1 :: u32)"
abbreviation "AKM_PSK \<equiv> (2 :: u32)"

definition RSN_SELECTOR_GET :: "u8 list \<Rightarrow> u32" where "RSN_SELECTOR_GET a = WPA_GET_BE32 a"
definition RSN_SELECTOR_PUT :: "u32 \<Rightarrow> u8 list" where "RSN_SELECTOR_PUT v = WPA_PUT_BE32 v"

definition wpa_key_mgmt_wpa_ieee8021x :: "u32 \<Rightarrow> bool" where
  "wpa_key_mgmt_wpa_ieee8021x akm = (akm AND (1 OR 32 OR 128) \<noteq> 0)"

definition wpa_key_mgmt_wpa_psk :: "u32 \<Rightarrow> bool" where
  "wpa_key_mgmt_wpa_psk akm = (akm AND (2 OR 64 OR 256) \<noteq> 0)"

subsection \<open>Parsing\<close>

definition rsn_selector_to_bitfield :: "u8 list \<Rightarrow> u32" where
  "rsn_selector_to_bitfield s =
     (if RSN_SELECTOR_GET s = rsn_suite SUITE_NONE then WPA_CIPHER_NONE
      else if RSN_SELECTOR_GET s = rsn_suite SUITE_WEP40 then WPA_CIPHER_WEP40
      else if RSN_SELECTOR_GET s = rsn_suite SUITE_TKIP then WPA_CIPHER_TKIP
      else if RSN_SELECTOR_GET s = rsn_suite SUITE_CCMP then WPA_CIPHER_CCMP
      else if RSN_SELECTOR_GET s = rsn_suite SUITE_WEP104 then WPA_CIPHER_WEP104
      else 0)"

definition rsn_key_mgmt_to_bitfield :: "u8 list \<Rightarrow> u32" where
  "rsn_key_mgmt_to_bitfield s =
     (if RSN_SELECTOR_GET s = rsn_suite AKM_8021X then WPA_KEY_MGMT_IEEE8021X
      else if RSN_SELECTOR_GET s = rsn_suite AKM_PSK then WPA_KEY_MGMT_PSK
      else 0)"

definition wpa_selector_to_bitfield :: "u8 list \<Rightarrow> u32" where
  "wpa_selector_to_bitfield s =
     (if RSN_SELECTOR_GET s = wpa_suite SUITE_NONE then WPA_CIPHER_NONE
      else if RSN_SELECTOR_GET s = wpa_suite SUITE_WEP40 then WPA_CIPHER_WEP40
      else if RSN_SELECTOR_GET s = wpa_suite SUITE_TKIP then WPA_CIPHER_TKIP
      else if RSN_SELECTOR_GET s = wpa_suite SUITE_CCMP then WPA_CIPHER_CCMP
      else if RSN_SELECTOR_GET s = wpa_suite SUITE_WEP104 then WPA_CIPHER_WEP104
      else 0)"

definition wpa_key_mgmt_to_bitfield :: "u8 list \<Rightarrow> u32" where
  "wpa_key_mgmt_to_bitfield s =
     (if RSN_SELECTOR_GET s = wpa_suite AKM_8021X then WPA_KEY_MGMT_IEEE8021X
      else if RSN_SELECTOR_GET s = wpa_suite AKM_PSK then WPA_KEY_MGMT_PSK
      else if RSN_SELECTOR_GET s = wpa_suite AKM_NONE then WPA_KEY_MGMT_WPA_NONE
      else 0)"

record wpa_ie_data =
  ied_proto :: u32
  ied_pairwise_cipher :: u32
  ied_group_cipher :: u32
  ied_key_mgmt :: u32
  ied_capabilities :: u16
  ied_num_pmkid :: nat
  ied_pmkid :: "nat option"
  ied_mgmt_group_cipher :: u32

type_synonym ie_cursor = "nat \<times> nat \<times> wpa_ie_data"
type_synonym 'a ie_parser = "((int \<times> wpa_ie_data) + 'a) option"

definition ie_bind :: "'a ie_parser \<Rightarrow> ('a \<Rightarrow> 'b ie_parser) \<Rightarrow> 'b ie_parser" where
  "ie_bind m f = (case m of None \<Rightarrow> None | Some (Inl r) \<Rightarrow> Some (Inl r) | Some (Inr x) \<Rightarrow> f x)"

definition ie_return :: "ie_cursor ie_parser \<Rightarrow> (int \<times> wpa_ie_data) option" where
  "ie_return m = (case m of None \<Rightarrow> None | Some (Inl r) \<Rightarrow> Some r | Some (Inr (pos, left, d)) \<Rightarrow> Some (0, d))"

text \<open>The group suite selector; \<open>sel\<close> is the conversion of the kind of element.\<close>

definition ie_group :: "(u8 list \<Rightarrow> u32) \<Rightarrow> u8 list \<Rightarrow> ie_cursor \<Rightarrow> ie_cursor ie_parser" where
  "ie_group sel buf c =
     (case c of (pos, left, d) \<Rightarrow>
        if left \<ge> 4 then
          map_option (\<lambda>s. Inr (pos + 4, left - 4, d\<lparr>ied_group_cipher := sel s\<rparr>)) (rd_n buf pos 4)
        else if left > 0 then Some (Inl (- 3, d))
        else Some (Inr c))"

fun suite_loop :: "(u8 list \<Rightarrow> u32) \<Rightarrow> u8 list \<Rightarrow> nat \<Rightarrow> nat \<Rightarrow> u32 \<Rightarrow> u32 option" where
  "suite_loop sel buf 0 pos acc = Some acc"
| "suite_loop sel buf (Suc n) pos acc =
     Option.bind (rd_n buf pos 4) (\<lambda>s. suite_loop sel buf n (pos + 4) (acc OR sel s))"

text \<open>
  A suite count and its list, stored by \<open>put\<close>; \<open>botch\<close> is the code for a wrong count, \<open>short\<close> the
  one for a single byte left.
\<close>

definition ie_suites :: "(u8 list \<Rightarrow> u32) \<Rightarrow> (u32 \<Rightarrow> wpa_ie_data \<Rightarrow> wpa_ie_data) \<Rightarrow> int \<Rightarrow> int \<Rightarrow> u8 list \<Rightarrow>
    ie_cursor \<Rightarrow> ie_cursor ie_parser" where
  "ie_suites sel put botch short buf c =
     (case c of (pos, left, d) \<Rightarrow>
        if left \<ge> 2 then
          Option.bind (rd_n buf pos 2) (\<lambda>b.
            let count = unat (WPA_GET_LE16 b) in
            if count = 0 \<or> left - 2 < count * 4 then Some (Inl (botch, put 0 d))
            else map_option (\<lambda>v. Inr (pos + 2 + count * 4, left - 2 - count * 4, put v d))
              (suite_loop sel buf count (pos + 2) 0))
        else if left = 1 then Some (Inl (short, d))
        else Some (Inr c))"

definition ie_capabilities :: "u8 list \<Rightarrow> ie_cursor \<Rightarrow> ie_cursor ie_parser" where
  "ie_capabilities buf c =
     (case c of (pos, left, d) \<Rightarrow>
        if left \<ge> 2 then
          map_option (\<lambda>b. Inr (pos + 2, left - 2, d\<lparr>ied_capabilities := WPA_GET_LE16 b\<rparr>)) (rd_n buf pos 2)
        else Some (Inr c))"

definition ie_pmkids :: "u8 list \<Rightarrow> ie_cursor \<Rightarrow> ie_cursor ie_parser" where
  "ie_pmkids buf c =
     (case c of (pos, left, d) \<Rightarrow>
        if left \<ge> 2 then
          map_option (\<lambda>b.
            let n = unat (WPA_GET_LE16 b) in
            if left - 2 < n * 16 then Inl (- 9, d\<lparr>ied_num_pmkid := 0\<rparr>)
            else Inr (pos + 2 + n * 16, left - 2 - n * 16, d\<lparr>ied_num_pmkid := n, ied_pmkid := Some (pos + 2)\<rparr>))
            (rd_n buf pos 2)
        else Some (Inr c))"

definition rsn_ie_defaults :: wpa_ie_data where
  "rsn_ie_defaults = \<lparr>ied_proto = WPA_PROTO_RSN, ied_pairwise_cipher = WPA_CIPHER_CCMP,
     ied_group_cipher = WPA_CIPHER_CCMP, ied_key_mgmt = WPA_KEY_MGMT_IEEE8021X, ied_capabilities = 0,
     ied_num_pmkid = 0, ied_pmkid = None, ied_mgmt_group_cipher = 0\<rparr>"

abbreviation put_pairwise :: "u32 \<Rightarrow> wpa_ie_data \<Rightarrow> wpa_ie_data" where
  "put_pairwise v d \<equiv> d\<lparr>ied_pairwise_cipher := v\<rparr>"

abbreviation put_key_mgmt :: "u32 \<Rightarrow> wpa_ie_data \<Rightarrow> wpa_ie_data" where
  "put_key_mgmt v d \<equiv> d\<lparr>ied_key_mgmt := v\<rparr>"

definition wpa_parse_wpa_ie_rsn :: "u8 list \<Rightarrow> nat \<Rightarrow> (int \<times> wpa_ie_data) option" where
  "wpa_parse_wpa_ie_rsn buf len =
     (let d = rsn_ie_defaults in
      if len < 4 then Some (- 1, d)
      else Option.bind (rd_n buf 0 4) (\<lambda>hdr.
        if hdr ! 0 \<noteq> 48 \<or> unat (hdr ! 1) \<noteq> len - 2 \<or> WPA_GET_LE16 (drop 2 hdr) \<noteq> 1 then Some (- 2, d)
        else ie_return
          (ie_bind (ie_group rsn_selector_to_bitfield buf (4, len - 4, d)) (\<lambda>c.
           ie_bind (ie_suites rsn_selector_to_bitfield put_pairwise (- 4) (- 5) buf c) (\<lambda>c.
           ie_bind (ie_suites rsn_key_mgmt_to_bitfield put_key_mgmt (- 6) (- 7) buf c) (\<lambda>c.
           ie_bind (ie_capabilities buf c) (ie_pmkids buf)))))))"

definition wpa_ie_defaults :: wpa_ie_data where
  "wpa_ie_defaults = \<lparr>ied_proto = WPA_PROTO_WPA, ied_pairwise_cipher = WPA_CIPHER_TKIP,
     ied_group_cipher = WPA_CIPHER_TKIP, ied_key_mgmt = WPA_KEY_MGMT_IEEE8021X, ied_capabilities = 0,
     ied_num_pmkid = 0, ied_pmkid = None, ied_mgmt_group_cipher = 0\<rparr>"

definition wpa_parse_wpa_ie_wpa :: "u8 list \<Rightarrow> nat \<Rightarrow> (int \<times> wpa_ie_data) option" where
  "wpa_parse_wpa_ie_wpa buf len =
     (let d = wpa_ie_defaults in
      if len < 8 then Some (- 1, d)
      else Option.bind (rd_n buf 0 8) (\<lambda>hdr.
        if hdr ! 0 \<noteq> 221 \<or> unat (hdr ! 1) \<noteq> len - 2 \<or> RSN_SELECTOR_GET (drop 2 hdr) \<noteq> wpa_suite 1 \<or>
           WPA_GET_LE16 (drop 6 hdr) \<noteq> 1 then Some (- 2, d)
        else ie_return
          (ie_bind (ie_group wpa_selector_to_bitfield buf (8, len - 8, d)) (\<lambda>c.
           ie_bind (ie_suites wpa_selector_to_bitfield put_pairwise (- 4) (- 5) buf c) (\<lambda>c.
           ie_bind (ie_suites wpa_key_mgmt_to_bitfield put_key_mgmt (- 6) (- 7) buf c)
             (ie_capabilities buf))))))"

text \<open>A missing element is \<open>None\<close>; without 802.11r the first parameter of the C function is not used.\<close>

definition wpa_compare_rsn_ie :: "u8 list option \<Rightarrow> u8 list option \<Rightarrow> int" where
  "wpa_compare_rsn_ie ie1 ie2 =
     (case (ie1, ie2) of (Some a, Some b) \<Rightarrow> if length a = length b \<and> a = b then 0 else - 1 | _ \<Rightarrow> - 1)"

subsection \<open>Writing\<close>

text \<open>
  \<^verbatim>\<open>struct wpa_auth_config\<close>. A flag that is only tested is a \<open>bool\<close>. A writer returns the bytes it
  has put into the buffer, or \<open>None\<close> for -1; \<open>len\<close> is the size of the buffer.
\<close>

record wpa_auth_config =
  cf_wpa :: u32
  cf_wpa_key_mgmt :: u32
  cf_wpa_pairwise :: u32
  cf_wpa_group :: u32
  cf_wpa_group_rekey :: int
  cf_wpa_strict_rekey :: bool
  cf_wpa_gmk_rekey :: int
  cf_wpa_ptk_rekey :: int
  cf_rsn_pairwise :: u32
  cf_rsn_preauth :: bool
  cf_eapol_version :: u8
  cf_peerkey :: bool
  cf_wmm_enabled :: bool
  cf_wmm_uapsd :: bool
  cf_okc :: bool
  cf_tx_status :: bool

definition group_suite :: "u32 \<Rightarrow> u32 option" where
  "group_suite cipher =
     (if cipher = WPA_CIPHER_CCMP then Some SUITE_CCMP
      else if cipher = WPA_CIPHER_TKIP then Some SUITE_TKIP
      else if cipher = WPA_CIPHER_WEP104 then Some SUITE_WEP104
      else if cipher = WPA_CIPHER_WEP40 then Some SUITE_WEP40
      else None)"

definition pairwise_suites :: "u32 \<Rightarrow> u32 list" where
  "pairwise_suites ciphers =
     (if ciphers AND WPA_CIPHER_CCMP \<noteq> 0 then [SUITE_CCMP] else []) @
     (if ciphers AND WPA_CIPHER_TKIP \<noteq> 0 then [SUITE_TKIP] else []) @
     (if ciphers AND WPA_CIPHER_NONE \<noteq> 0 then [SUITE_NONE] else [])"

definition akm_suites :: "u32 \<Rightarrow> u32 list" where
  "akm_suites key_mgmt =
     (if key_mgmt AND WPA_KEY_MGMT_IEEE8021X \<noteq> 0 then [AKM_8021X] else []) @
     (if key_mgmt AND WPA_KEY_MGMT_PSK \<noteq> 0 then [AKM_PSK] else [])"

text \<open>A list of suites with its count in front.\<close>

definition put_suites :: "u32 list \<Rightarrow> u8 list" where
  "put_suites ss = WPA_PUT_LE16 (of_nat (length ss)) @ concat (map RSN_SELECTOR_PUT ss)"

definition wpa_write_wpa_ie :: "wpa_auth_config \<Rightarrow> nat \<Rightarrow> u8 list option" where
  "wpa_write_wpa_ie conf len =
     (case group_suite (cf_wpa_group conf) of
        None \<Rightarrow> None
      | Some g \<Rightarrow>
          let pw = map wpa_suite (pairwise_suites (cf_wpa_pairwise conf));
              akm = map wpa_suite (akm_suites (cf_wpa_key_mgmt conf));
              body = RSN_SELECTOR_PUT (wpa_suite 1) @ WPA_PUT_LE16 1 @ RSN_SELECTOR_PUT (wpa_suite g) @
                put_suites pw @ put_suites akm
          in if pw = [] \<or> akm = [] then None else Some (221 # of_nat (length body) # body))"

definition rsn_capab :: "wpa_auth_config \<Rightarrow> u16" where
  "rsn_capab conf =
     (if cf_rsn_preauth conf then 1 else 0) OR (if cf_peerkey conf then 512 else 0) OR
     (if cf_wmm_enabled conf then push_bit 2 3 else 0)"

definition wpa_write_rsn_ie :: "wpa_auth_config \<Rightarrow> nat \<Rightarrow> u8 list option \<Rightarrow> u8 list option" where
  "wpa_write_rsn_ie conf len pmkid =
     (case group_suite (cf_wpa_group conf) of
        None \<Rightarrow> None
      | Some g \<Rightarrow>
          let pw = map rsn_suite (pairwise_suites (cf_rsn_pairwise conf));
              akm = map rsn_suite (akm_suites (cf_wpa_key_mgmt conf));
              body = WPA_PUT_LE16 1 @ RSN_SELECTOR_PUT (rsn_suite g) @ put_suites pw @ put_suites akm @
                WPA_PUT_LE16 (rsn_capab conf)
          in if pw = [] \<or> akm = [] then None
             else case pmkid of
               None \<Rightarrow> Some (48 # of_nat (length body) # body)
             | Some p \<Rightarrow>
                 if 2 + length body + 2 + 16 > len then None
                 else let body' = body @ WPA_PUT_LE16 1 @ take 16 p
                      in Some (48 # of_nat (length body') # body'))"

subsection \<open>What a step of the parser does on well-formed input\<close>

lemma rd_n_drop_step:
  assumes "drop pos buf = b @ r" "length b = n" "0 < n"
  shows "rd_n buf pos n = Some b" "drop (pos + n) buf = r"
proof -
  show "rd_n buf pos n = Some b" using assms rd_n_drop [OF assms(1)] by auto
  have "drop (pos + n) buf = drop n (drop pos buf)" by (simp add: add.commute)
  then show "drop (pos + n) buf = r" using assms by simp
qed

lemma length_selector_put [simp]: "length (RSN_SELECTOR_PUT v) = 4"
  by (simp add: RSN_SELECTOR_PUT_def)

lemma selector_get_put [codec_simps]:
  "RSN_SELECTOR_GET (RSN_SELECTOR_PUT v) = v" "RSN_SELECTOR_GET (RSN_SELECTOR_PUT v @ r) = v"
  using get_put_BE32 [of v "[]"] by (simp_all add: RSN_SELECTOR_GET_def RSN_SELECTOR_PUT_def get_put_BE32)

lemma length_concat_selectors [simp]: "length (concat (map RSN_SELECTOR_PUT ss)) = 4 * length ss"
  by (induction ss) auto

definition suites_value :: "(u8 list \<Rightarrow> u32) \<Rightarrow> u32 list \<Rightarrow> u32" where
  "suites_value sel ss = foldl (\<lambda>v s. v OR sel (RSN_SELECTOR_PUT s)) 0 ss"

lemma suite_loop_put:
  "drop pos buf = concat (map RSN_SELECTOR_PUT ss) @ r \<Longrightarrow>
   suite_loop sel buf (length ss) pos acc = Some (foldl (\<lambda>v s. v OR sel (RSN_SELECTOR_PUT s)) acc ss)"
proof (induction ss arbitrary: pos acc)
  case (Cons s ss)
  then have d: "drop pos buf = RSN_SELECTOR_PUT s @ concat (map RSN_SELECTOR_PUT ss) @ r" by simp
  note n = rd_n_drop_step [OF d length_selector_put]
  show ?case using n Cons.IH [of "pos + 4"] by simp
qed simp

lemma ie_group_put:
  assumes "drop pos buf = RSN_SELECTOR_PUT g @ r" "left = 4 + length r"
  shows "ie_group sel buf (pos, left, d) =
    Some (Inr (pos + 4, length r, d\<lparr>ied_group_cipher := sel (RSN_SELECTOR_PUT g)\<rparr>))"
  using assms(2) rd_n_drop_step(1) [OF assms(1) length_selector_put] by (simp add: ie_group_def)

lemma ie_suites_put:
  assumes "drop pos buf = put_suites ss @ r" "left = 2 + 4 * length ss + length r" "ss \<noteq> []" "length ss < 65536"
  shows "ie_suites sel put botch short buf (pos, left, d) =
    Some (Inr (pos + 2 + length ss * 4, length r, put (suites_value sel ss) d))"
proof -
  have d: "drop pos buf = WPA_PUT_LE16 (of_nat (length ss)) @ concat (map RSN_SELECTOR_PUT ss) @ r"
    using assms(1) by (simp add: put_suites_def)
  note n = rd_n_drop_step [OF d, of 2, simplified]
  have c: "unat (WPA_GET_LE16 (WPA_PUT_LE16 (of_nat (length ss)))) = length ss"
    using assms(4) get_put_LE16 [of _ "[]"] by (simp add: unat_of_nat)
  show ?thesis
    using assms(2,3) n c suite_loop_put [OF n(2), of sel 0]
    by (simp add: ie_suites_def Let_def suites_value_def)
qed

lemma ie_capabilities_put:
  assumes "drop pos buf = WPA_PUT_LE16 v @ r" "left = 2 + length r"
  shows "ie_capabilities buf (pos, left, d) = Some (Inr (pos + 2, length r, d\<lparr>ied_capabilities := v\<rparr>))"
  using assms(2) rd_n_drop_step(1) [OF assms(1), of 2] get_put_LE16 [of v "[]"] by (simp add: ie_capabilities_def)

lemma ie_pmkids_put:
  assumes "drop pos buf = WPA_PUT_LE16 (of_nat n) @ r" "left = 2 + length r" "length r = n * 16" "n < 65536"
  shows "ie_pmkids buf (pos, left, d) =
    Some (Inr (pos + left, 0, d\<lparr>ied_num_pmkid := n, ied_pmkid := Some (pos + 2)\<rparr>))"
  using assms(2-4) rd_n_drop_step(1) [OF assms(1), of 2] get_put_LE16 [of "of_nat n" "[]"]
  by (simp add: ie_pmkids_def Let_def unat_of_nat)

subsection \<open>The parsers read back what the writers write\<close>

lemma and_bit: "(x :: 'a::len word) AND 2 ^ n = (if bit x n then 2 ^ n else 0)"
  by (rule bit_word_eqI) (auto simp: bit_simps)

lemma suite_bits:
  "(x :: u32) AND 1 = (if bit x 0 then 1 else 0)" "x AND 2 = (if bit x 1 then 2 else 0)"
  "x AND 8 = (if bit x 3 then 8 else 0)" "x AND 16 = (if bit x 4 then 16 else 0)"
  using and_bit [of x 0] and_bit [of x 1] and_bit [of x 3] and_bit [of x 4] by simp_all

lemma suite_numbers [codec_simps]:
  "rsn_suite 0 = 0x000fac00" "rsn_suite 1 = 0x000fac01" "rsn_suite 2 = 0x000fac02" "rsn_suite 4 = 0x000fac04"
  "rsn_suite 5 = 0x000fac05" "wpa_suite 0 = 0x0050f200" "wpa_suite 1 = 0x0050f201" "wpa_suite 2 = 0x0050f202"
  "wpa_suite 4 = 0x0050f204" "wpa_suite 5 = 0x0050f205"
  by (simp_all add: rsn_suite_def wpa_suite_def RSN_SELECTOR_def)

lemma group_suite_value [codec_simps]:
  assumes "group_suite c = Some g"
  shows "rsn_selector_to_bitfield (RSN_SELECTOR_PUT (rsn_suite g)) = c"
    "wpa_selector_to_bitfield (RSN_SELECTOR_PUT (wpa_suite g)) = c"
  using assms
  by (auto simp: group_suite_def rsn_selector_to_bitfield_def wpa_selector_to_bitfield_def codec_simps split: if_splits)

lemma or_masks: "(x :: u32) AND (WPA_CIPHER_CCMP OR WPA_CIPHER_TKIP OR WPA_CIPHER_NONE) = (x AND 16) OR (x AND 8) OR (x AND 1)"
  "x AND (WPA_KEY_MGMT_IEEE8021X OR WPA_KEY_MGMT_PSK) = (x AND 1) OR (x AND 2)"
  by (simp_all only: bit.conj_disj_distrib)

lemma suites_values [codec_simps]:
  "suites_value rsn_selector_to_bitfield (map rsn_suite (pairwise_suites c)) =
     c AND (WPA_CIPHER_CCMP OR WPA_CIPHER_TKIP OR WPA_CIPHER_NONE)"
  "suites_value wpa_selector_to_bitfield (map wpa_suite (pairwise_suites c)) =
     c AND (WPA_CIPHER_CCMP OR WPA_CIPHER_TKIP OR WPA_CIPHER_NONE)"
  "suites_value rsn_key_mgmt_to_bitfield (map rsn_suite (akm_suites c)) =
     c AND (WPA_KEY_MGMT_IEEE8021X OR WPA_KEY_MGMT_PSK)"
  "suites_value wpa_key_mgmt_to_bitfield (map wpa_suite (akm_suites c)) =
     c AND (WPA_KEY_MGMT_IEEE8021X OR WPA_KEY_MGMT_PSK)"
  unfolding or_masks
  by (simp_all add: suites_value_def pairwise_suites_def akm_suites_def suite_bits codec_simps
      rsn_selector_to_bitfield_def wpa_selector_to_bitfield_def rsn_key_mgmt_to_bitfield_def wpa_key_mgmt_to_bitfield_def)

lemma suites_short [simp]: "length (pairwise_suites c) \<le> 3" "length (akm_suites c) \<le> 2"
  by (simp_all add: pairwise_suites_def akm_suites_def)

lemma length_put_suites [simp]: "length (put_suites ss) = 2 + 4 * length ss"
  by (simp add: put_suites_def)

text \<open>The fields before the optional ones, for either kind of element.\<close>

lemma parse_fields_put:
  assumes "drop pos buf = RSN_SELECTOR_PUT g @ put_suites pw @ put_suites akm @ r"
    and "pw \<noteq> []" "akm \<noteq> []" "length pw < 65536" "length akm < 65536"
    and "left = 8 + 4 * length pw + 4 * length akm + length r"
  shows "ie_bind (ie_group sel buf (pos, left, d)) (\<lambda>c.
      ie_bind (ie_suites sel put_pairwise b1 s1 buf c) (\<lambda>c.
      ie_bind (ie_suites akmsel put_key_mgmt b2 s2 buf c) f)) =
    f (pos + (8 + 4 * length pw + 4 * length akm), length r,
       d\<lparr>ied_group_cipher := sel (RSN_SELECTOR_PUT g), ied_pairwise_cipher := suites_value sel pw,
         ied_key_mgmt := suites_value akmsel akm\<rparr>)"
    (is ?parse) and "drop (pos + (8 + 4 * length pw + 4 * length akm)) buf = r"
proof -
  let ?r1 = "put_suites akm @ r"
  note d1 = rd_n_drop_step(2) [OF assms(1) length_selector_put]
  have d2: "drop (pos + 4 + 2 + length pw * 4) buf = ?r1"
    using rd_n_drop_step(2) [OF d1, of "2 + length pw * 4"] by (simp add: ac_simps)
  have d3: "drop (pos + 4 + 2 + length pw * 4 + 2 + length akm * 4) buf = r"
    using rd_n_drop_step(2) [OF d2, of "2 + length akm * 4"] by (simp add: ac_simps)
  have g: "ie_group sel buf (pos, left, d) = Some (Inr (pos + 4, 4 + 4 * length pw + 4 * length akm + length r,
      d\<lparr>ied_group_cipher := sel (RSN_SELECTOR_PUT g)\<rparr>))"
    by (subst ie_group_put [OF assms(1)]) (simp_all add: assms(6))
  have p: "ie_suites sel put_pairwise b1 s1 buf (pos + 4, 4 + 4 * length pw + 4 * length akm + length r, e) =
      Some (Inr (pos + 4 + 2 + length pw * 4, 2 + 4 * length akm + length r, e\<lparr>ied_pairwise_cipher := suites_value sel pw\<rparr>))" for e
    using ie_suites_put [OF d1, of "4 + 4 * length pw + 4 * length akm + length r"] assms(2,4) by simp
  have k: "ie_suites akmsel put_key_mgmt b2 s2 buf (pos + 4 + 2 + length pw * 4, 2 + 4 * length akm + length r, e) =
      Some (Inr (pos + 4 + 2 + length pw * 4 + 2 + length akm * 4, length r, e\<lparr>ied_key_mgmt := suites_value akmsel akm\<rparr>))" for e
    using ie_suites_put [OF d2, of "2 + 4 * length akm + length r"] assms(3,5) by simp
  have q: "pos + 4 + 2 + length pw * 4 + 2 + length akm * 4 = pos + (8 + 4 * length pw + 4 * length akm)" by simp
  show ?parse unfolding ie_bind_def g p k option.case sum.case q by simp
  show "drop (pos + (8 + 4 * length pw + 4 * length akm)) buf = r" using d3 unfolding q .
qed

lemma rsn_header:
  assumes "ie = 48 # of_nat (length body) # body" "body = WPA_PUT_LE16 1 @ r" "length body < 256"
  shows "wpa_parse_wpa_ie_rsn ie (length ie) = ie_return
    (ie_bind (ie_group rsn_selector_to_bitfield ie (4, length r, rsn_ie_defaults)) (\<lambda>c.
     ie_bind (ie_suites rsn_selector_to_bitfield put_pairwise (- 4) (- 5) ie c) (\<lambda>c.
     ie_bind (ie_suites rsn_key_mgmt_to_bitfield put_key_mgmt (- 6) (- 7) ie c) (\<lambda>c.
     ie_bind (ie_capabilities ie c) (ie_pmkids ie)))))" "drop 4 ie = r"
proof -
  have 0: "drop 0 ie = (48 # of_nat (length body) # WPA_PUT_LE16 1) @ r" using assms by simp
  note h = rd_n_drop_step [OF 0, of 4, simplified]
  have n: "unat (of_nat (length body) :: u8) = length ie - 2" using assms(1,3) by (simp add: unat_of_nat)
  have v: "WPA_GET_LE16 (WPA_PUT_LE16 1) = 1" using get_put_LE16 [of 1 "[]"] by simp
  have l: "\<not> length ie < 4" "length ie - 4 = length r" using assms(1,2) by simp_all
  show "wpa_parse_wpa_ie_rsn ie (length ie) = ie_return
    (ie_bind (ie_group rsn_selector_to_bitfield ie (4, length r, rsn_ie_defaults)) (\<lambda>c.
     ie_bind (ie_suites rsn_selector_to_bitfield put_pairwise (- 4) (- 5) ie c) (\<lambda>c.
     ie_bind (ie_suites rsn_key_mgmt_to_bitfield put_key_mgmt (- 6) (- 7) ie c) (\<lambda>c.
     ie_bind (ie_capabilities ie c) (ie_pmkids ie)))))"
    unfolding wpa_parse_wpa_ie_rsn_def Let_def h(1) by (simp add: n v l)
  show "drop 4 ie = r" using h(2) by simp
qed

lemma wpa_header:
  assumes "ie = 221 # of_nat (length body) # body"
    and "body = RSN_SELECTOR_PUT (wpa_suite 1) @ WPA_PUT_LE16 1 @ r" "length body < 256"
  shows "wpa_parse_wpa_ie_wpa ie (length ie) = ie_return
    (ie_bind (ie_group wpa_selector_to_bitfield ie (8, length r, wpa_ie_defaults)) (\<lambda>c.
     ie_bind (ie_suites wpa_selector_to_bitfield put_pairwise (- 4) (- 5) ie c) (\<lambda>c.
     ie_bind (ie_suites wpa_key_mgmt_to_bitfield put_key_mgmt (- 6) (- 7) ie c) (ie_capabilities ie))))"
    "drop 8 ie = r"
proof -
  have 0: "drop 0 ie = (221 # of_nat (length body) # RSN_SELECTOR_PUT (wpa_suite 1) @ WPA_PUT_LE16 1) @ r"
    using assms by simp
  note h = rd_n_drop_step [OF 0, of 8, simplified]
  have n: "unat (of_nat (length body) :: u8) = length ie - 2" using assms(1,3) by (simp add: unat_of_nat)
  have v: "WPA_GET_LE16 (WPA_PUT_LE16 1) = 1" using get_put_LE16 [of 1 "[]"] by simp
  have l: "\<not> length ie < 8" "length ie - 8 = length r" using assms(1,2) by simp_all
  show "wpa_parse_wpa_ie_wpa ie (length ie) = ie_return
    (ie_bind (ie_group wpa_selector_to_bitfield ie (8, length r, wpa_ie_defaults)) (\<lambda>c.
     ie_bind (ie_suites wpa_selector_to_bitfield put_pairwise (- 4) (- 5) ie c) (\<lambda>c.
     ie_bind (ie_suites wpa_key_mgmt_to_bitfield put_key_mgmt (- 6) (- 7) ie c) (ie_capabilities ie))))"
    unfolding wpa_parse_wpa_ie_wpa_def Let_def h(1)
    by (simp add: n v l selector_get_put drop_Cons')
  show "drop 8 ie = r" using h(2) by simp
qed

text \<open>What the access point's own elements mean.\<close>

definition rsn_ie_meaning :: "wpa_auth_config \<Rightarrow> nat \<Rightarrow> nat option \<Rightarrow> wpa_ie_data" where
  "rsn_ie_meaning conf n p = \<lparr>ied_proto = WPA_PROTO_RSN,
     ied_pairwise_cipher = cf_rsn_pairwise conf AND (WPA_CIPHER_CCMP OR WPA_CIPHER_TKIP OR WPA_CIPHER_NONE),
     ied_group_cipher = cf_wpa_group conf,
     ied_key_mgmt = cf_wpa_key_mgmt conf AND (WPA_KEY_MGMT_IEEE8021X OR WPA_KEY_MGMT_PSK),
     ied_capabilities = rsn_capab conf, ied_num_pmkid = n, ied_pmkid = p, ied_mgmt_group_cipher = 0\<rparr>"

definition wpa_ie_meaning :: "wpa_auth_config \<Rightarrow> wpa_ie_data" where
  "wpa_ie_meaning conf = \<lparr>ied_proto = WPA_PROTO_WPA,
     ied_pairwise_cipher = cf_wpa_pairwise conf AND (WPA_CIPHER_CCMP OR WPA_CIPHER_TKIP OR WPA_CIPHER_NONE),
     ied_group_cipher = cf_wpa_group conf,
     ied_key_mgmt = cf_wpa_key_mgmt conf AND (WPA_KEY_MGMT_IEEE8021X OR WPA_KEY_MGMT_PSK),
     ied_capabilities = 0, ied_num_pmkid = 0, ied_pmkid = None, ied_mgmt_group_cipher = 0\<rparr>"

text \<open>
  C26: the RSN element the access point writes is parsed without an error, and what is read back is
  the configuration: its group cipher, the pairwise ciphers and key managements it supports, its
  capabilities and the PMKID, if one was given.
\<close>

theorem rsn_ie_round_trip:
  assumes "wpa_write_rsn_ie conf n pmkid = Some ie" and "\<And>p. pmkid = Some p \<Longrightarrow> length p = 16"
  shows "wpa_parse_wpa_ie_rsn ie (length ie) =
    Some (0, rsn_ie_meaning conf (if pmkid = None then 0 else 1) (if pmkid = None then None else Some (length ie - 16)))"
proof -
  obtain g where g: "group_suite (cf_wpa_group conf) = Some g"
    using assms(1) by (auto simp: wpa_write_rsn_ie_def split: option.splits)
  define pw where "pw = map rsn_suite (pairwise_suites (cf_rsn_pairwise conf))"
  define akm where "akm = map rsn_suite (akm_suites (cf_wpa_key_mgmt conf))"
  define opt where "opt = (case pmkid of None \<Rightarrow> [] | Some p \<Rightarrow> WPA_PUT_LE16 1 @ take 16 p)"
  define r where "r = RSN_SELECTOR_PUT (rsn_suite g) @ put_suites pw @ put_suites akm @ WPA_PUT_LE16 (rsn_capab conf) @ opt"
  have ne: "pw \<noteq> []" "akm \<noteq> []" and ie: "ie = 48 # of_nat (length (WPA_PUT_LE16 1 @ r)) # WPA_PUT_LE16 1 @ r"
    using assms(1) g by (auto simp: wpa_write_rsn_ie_def Let_def pw_def akm_def r_def opt_def split: if_splits option.splits)
  have len: "length pw \<le> 3" "length akm \<le> 2" by (simp_all add: pw_def akm_def)
  have opt: "length opt = (if pmkid = None then 0 else 18)" using assms(2) by (auto simp: opt_def split: option.split)
  have lr: "length r = 10 + 4 * length pw + 4 * length akm + length opt" by (simp add: r_def)
  have h: "length (WPA_PUT_LE16 1 @ r) < 256" using len lr opt by simp
  note p = rsn_header [OF ie refl h]
  have d: "drop 4 ie = RSN_SELECTOR_PUT (rsn_suite g) @ put_suites pw @ put_suites akm @ WPA_PUT_LE16 (rsn_capab conf) @ opt"
    using p(2) r_def by simp
  let ?q = "4 + (8 + 4 * length pw + 4 * length akm)"
  have lq: "length ie = ?q + 2 + length opt" using ie lr by simp
  have e: "length r = 8 + 4 * length pw + 4 * length akm + length (WPA_PUT_LE16 (rsn_capab conf) @ opt)"
    using lr by simp
  note f = parse_fields_put [OF d ne _ _ e]
  have small: "length pw < 65536" "length akm < 65536" using len by simp_all
  note dq = f(2) [OF small]
  note c = ie_capabilities_put [OF dq]
  have dopt: "drop (?q + 2) ie = opt" using rd_n_drop_step(2) [OF dq, of 2] by simp
  have last: "ie_pmkids ie (?q + 2, length opt, e) = Some (Inr (?q + 2 + length opt, 0,
      if pmkid = None then e else e\<lparr>ied_num_pmkid := 1, ied_pmkid := Some (?q + 2 + 2)\<rparr>))" for e
  proof (cases pmkid)
    case None
    then show ?thesis by (simp add: opt_def ie_pmkids_def)
  next
    case (Some p)
    have o: "drop (?q + 2) ie = WPA_PUT_LE16 (of_nat 1) @ take 16 p" using dopt Some by (simp add: opt_def)
    show ?thesis
      using ie_pmkids_put [OF o, of 18] assms(2) [OF Some] opt Some by simp
  qed
  have idx: "pmkid \<noteq> None \<Longrightarrow> ?q + 2 + 2 = length ie - 16" using lq opt by (auto split: if_splits)
  have "wpa_parse_wpa_ie_rsn ie (length ie) = ie_return
     (ie_bind (ie_capabilities ie (?q, length (WPA_PUT_LE16 (rsn_capab conf) @ opt),
        rsn_ie_defaults\<lparr>ied_group_cipher := rsn_selector_to_bitfield (RSN_SELECTOR_PUT (rsn_suite g)),
          ied_pairwise_cipher := suites_value rsn_selector_to_bitfield pw,
          ied_key_mgmt := suites_value rsn_key_mgmt_to_bitfield akm\<rparr>)) (ie_pmkids ie))"
    unfolding p(1) f(1) [OF small] ..
  also have "\<dots> = Some (0, rsn_ie_meaning conf (if pmkid = None then 0 else 1)
      (if pmkid = None then None else Some (length ie - 16)))"
  proof -
    let ?d = "rsn_ie_defaults\<lparr>ied_group_cipher := rsn_selector_to_bitfield (RSN_SELECTOR_PUT (rsn_suite g)),
          ied_pairwise_cipher := suites_value rsn_selector_to_bitfield pw,
          ied_key_mgmt := suites_value rsn_key_mgmt_to_bitfield akm\<rparr>"
    have "ie_capabilities ie (?q, length (WPA_PUT_LE16 (rsn_capab conf) @ opt), ?d) =
        Some (Inr (?q + 2, length opt, ?d\<lparr>ied_capabilities := rsn_capab conf\<rparr>))"
      by (rule c) simp
    moreover have "?d\<lparr>ied_capabilities := rsn_capab conf\<rparr> = rsn_ie_meaning conf 0 None"
      by (simp add: rsn_ie_defaults_def rsn_ie_meaning_def group_suite_value [OF g] suites_values pw_def akm_def)
    ultimately show ?thesis
      using idx by (simp only: ie_bind_def option.case sum.case last) (simp add: ie_return_def rsn_ie_meaning_def)
  qed
  finally show ?thesis .
qed

definition example_conf :: wpa_auth_config where
  "example_conf = \<lparr>cf_wpa = 2, cf_wpa_key_mgmt = 2, cf_wpa_pairwise = 8, cf_wpa_group = 16, cf_wpa_group_rekey = 600,
     cf_wpa_strict_rekey = False, cf_wpa_gmk_rekey = 86400, cf_wpa_ptk_rekey = 0, cf_rsn_pairwise = 16,
     cf_rsn_preauth = False, cf_eapol_version = 2, cf_peerkey = False, cf_wmm_enabled = True, cf_wmm_uapsd = False,
     cf_okc = False, cf_tx_status = False\<rparr>"

theorem rsn_ie_round_trip_witness:
  "wpa_parse_wpa_ie_rsn (the (wpa_write_rsn_ie example_conf 128 None)) 22 = Some (0, rsn_ie_meaning example_conf 0 None)"
proof -
  obtain ie where ie: "wpa_write_rsn_ie example_conf 128 None = Some ie" "length ie = 22"
    by (simp add: wpa_write_rsn_ie_def example_conf_def group_suite_def pairwise_suites_def akm_suites_def Let_def)
  show ?thesis using rsn_ie_round_trip [OF ie(1)] ie by simp
qed

text \<open>
  The WPA element the access point writes is parsed without an error, and what is read back is
  its group cipher and the pairwise ciphers and key managements it supports.
\<close>

theorem wpa_ie_round_trip:
  assumes "wpa_write_wpa_ie conf n = Some ie"
  shows "wpa_parse_wpa_ie_wpa ie (length ie) = Some (0, wpa_ie_meaning conf)"
proof -
  obtain g where g: "group_suite (cf_wpa_group conf) = Some g"
    using assms by (auto simp: wpa_write_wpa_ie_def split: option.splits)
  define pw where "pw = map wpa_suite (pairwise_suites (cf_wpa_pairwise conf))"
  define akm where "akm = map wpa_suite (akm_suites (cf_wpa_key_mgmt conf))"
  define r where "r = RSN_SELECTOR_PUT (wpa_suite g) @ put_suites pw @ put_suites akm"
  let ?b = "RSN_SELECTOR_PUT (wpa_suite 1) @ WPA_PUT_LE16 1 @ r"
  have ne: "pw \<noteq> []" "akm \<noteq> []" and ie: "ie = 221 # of_nat (length ?b) # ?b"
    using assms g by (auto simp: wpa_write_wpa_ie_def Let_def pw_def akm_def r_def split: if_splits)
  have len: "length pw \<le> 3" "length akm \<le> 2" by (simp_all add: pw_def akm_def)
  then have small: "length pw < 65536" "length akm < 65536" by simp_all
  have lr: "length r = 8 + 4 * length pw + 4 * length akm + length ([] :: u8 list)" by (simp add: r_def)
  have h: "length ?b < 256" using len lr by simp
  note p = wpa_header [OF ie refl h]
  have d: "drop 8 ie = RSN_SELECTOR_PUT (wpa_suite g) @ put_suites pw @ put_suites akm @ []" using p(2) r_def by simp
  note f = parse_fields_put [OF d ne small lr]
  show ?thesis
    unfolding p(1) f(1)
    by (simp add: ie_capabilities_def ie_return_def wpa_ie_defaults_def wpa_ie_meaning_def
      group_suite_value [OF g] suites_values pw_def akm_def)
qed

theorem wpa_ie_round_trip_witness:
  "\<exists>ie. wpa_write_wpa_ie example_conf 128 = Some ie \<and>
    wpa_parse_wpa_ie_wpa ie (length ie) = Some (0, wpa_ie_meaning example_conf)"
proof -
  obtain ie where "wpa_write_wpa_ie example_conf 128 = Some ie"
    by (simp add: wpa_write_wpa_ie_def example_conf_def group_suite_def pairwise_suites_def akm_suites_def Let_def)
  then show ?thesis using wpa_ie_round_trip by blast
qed

subsection \<open>Elements chosen by a station\<close>

definition ie_safe :: "nat \<Rightarrow> ie_cursor ie_parser \<Rightarrow> bool" where
  "ie_safe len m =
     (case m of None \<Rightarrow> False
      | Some (Inl (r, d)) \<Rightarrow> r \<noteq> 0 \<and> ied_pmkid d = None \<and> ied_num_pmkid d = 0
      | Some (Inr (pos, left, d)) \<Rightarrow> pos + left = len \<and> ied_pmkid d = None \<and> ied_num_pmkid d = 0)"

lemma ie_safe_bind:
  assumes "ie_safe len m" "\<And>c. ie_safe len (Some (Inr c)) \<Longrightarrow> P (f c)"
    and "\<And>r d. r \<noteq> 0 \<Longrightarrow> ied_pmkid d = None \<Longrightarrow> ied_num_pmkid d = 0 \<Longrightarrow> P (Some (Inl (r, d)))"
  shows "P (ie_bind m f)"
  using assms by (auto simp: ie_safe_def ie_bind_def split: option.splits sum.splits prod.splits)

lemma rd_n_inside: "pos + left = len \<Longrightarrow> len \<le> length buf \<Longrightarrow> n \<le> left \<Longrightarrow> rd_n buf pos n = Some (take n (drop pos buf))"
  by (simp add: rd_n_def)

lemma suite_loop_inside:
  "pos + 4 * n \<le> length buf \<Longrightarrow> suite_loop sel buf n pos acc \<noteq> None"
  by (induction n arbitrary: pos acc) (auto simp: rd_n_def)

lemma ie_group_safe:
  "ie_safe len (Some (Inr c)) \<Longrightarrow> len \<le> length buf \<Longrightarrow> ie_safe len (ie_group sel buf c)"
  by (auto simp: ie_safe_def ie_group_def rd_n_def)

lemma ie_capabilities_safe:
  "ie_safe len (Some (Inr c)) \<Longrightarrow> len \<le> length buf \<Longrightarrow> ie_safe len (ie_capabilities buf c)"
  by (auto simp: ie_safe_def ie_capabilities_def rd_n_def)

lemma ie_suites_safe:
  assumes "ie_safe len (Some (Inr c))" "len \<le> length buf" "botch \<noteq> 0" "short \<noteq> 0"
    and put: "\<And>v d. ied_pmkid (put v d) = ied_pmkid d" "\<And>v d. ied_num_pmkid (put v d) = ied_num_pmkid d"
  shows "ie_safe len (ie_suites sel put botch short buf c)"
proof -
  obtain pos left d where c: "c = (pos, left, d)" by (cases c)
  then have i: "pos + left = len" "ied_pmkid d = None" "ied_num_pmkid d = 0" using assms(1) by (simp_all add: ie_safe_def)
  show ?thesis
  proof (cases "left \<ge> 2")
    case True
    let ?n = "unat (WPA_GET_LE16 (take 2 (drop pos buf)))"
    have r: "rd_n buf pos 2 = Some (take 2 (drop pos buf))" using i(1) assms(2) True by (rule rd_n_inside)
    show ?thesis
    proof (cases "?n = 0 \<or> left - 2 < ?n * 4")
      case True
      then show ?thesis using \<open>left \<ge> 2\<close> r i put assms(3) by (simp add: c ie_suites_def ie_safe_def Let_def)
    next
      case False
      then have "pos + 2 + 4 * ?n \<le> length buf" using i(1) assms(2) True by linarith
      then obtain v where "suite_loop sel buf ?n (pos + 2) 0 = Some v" using suite_loop_inside by blast
      then have "ie_suites sel put botch short buf c = Some (Inr (pos + 2 + ?n * 4, left - 2 - ?n * 4, put v d))"
        using \<open>left \<ge> 2\<close> False r by (simp add: c ie_suites_def Let_def)
      moreover have "pos + 2 + ?n * 4 + (left - 2 - ?n * 4) = len" using False True i(1) by linarith
      ultimately show ?thesis using i(2,3) put by (simp only: ie_safe_def option.case sum.case prod.case simp_thms)
    qed
  next
    case False
    then show ?thesis using i assms(4) by (simp add: c ie_suites_def ie_safe_def)
  qed
qed

definition result_safe :: "nat \<Rightarrow> (int \<times> wpa_ie_data) option \<Rightarrow> bool" where
  "result_safe len m =
     (case m of None \<Rightarrow> False
      | Some (r, d) \<Rightarrow> (case ied_pmkid d of None \<Rightarrow> ied_num_pmkid d = 0 | Some p \<Rightarrow> r = 0 \<and> p + ied_num_pmkid d * 16 \<le> len))"

lemma result_safe_early:
  "r \<noteq> 0 \<Longrightarrow> ied_pmkid d = None \<Longrightarrow> ied_num_pmkid d = 0 \<Longrightarrow> result_safe len (ie_return (Some (Inl (r, d))))"
  by (simp add: result_safe_def ie_return_def)

lemma ie_pmkids_safe:
  "ie_safe len (Some (Inr c)) \<Longrightarrow> len \<le> length buf \<Longrightarrow> result_safe len (ie_return (ie_pmkids buf c))"
  by (auto simp: ie_safe_def ie_pmkids_def rd_n_def result_safe_def ie_return_def Let_def)

lemma result_safe_cursor:
  "ie_safe len m \<Longrightarrow> result_safe len (ie_return m)"
  by (auto simp: ie_safe_def result_safe_def ie_return_def split: option.splits sum.splits prod.splits)

lemma parse_rsn_safe:
  assumes "len \<le> length buf"
  shows "result_safe len (wpa_parse_wpa_ie_rsn buf len)"
proof (cases "len < 4 \<or> take 4 buf ! 0 \<noteq> 48 \<or> unat (take 4 buf ! 1) \<noteq> len - 2 \<or> WPA_GET_LE16 (drop 2 (take 4 buf)) \<noteq> 1")
  case True
  then show ?thesis using assms
    by (auto simp: wpa_parse_wpa_ie_rsn_def rd_n_def result_safe_def rsn_ie_defaults_def Let_def)
next
  case False
  then have s: "ie_safe len (Some (Inr (4, len - 4, rsn_ie_defaults)))" by (simp add: ie_safe_def rsn_ie_defaults_def)
  have "result_safe len (ie_return
    (ie_bind (ie_group rsn_selector_to_bitfield buf (4, len - 4, rsn_ie_defaults)) (\<lambda>c.
     ie_bind (ie_suites rsn_selector_to_bitfield put_pairwise (- 4) (- 5) buf c) (\<lambda>c.
     ie_bind (ie_suites rsn_key_mgmt_to_bitfield put_key_mgmt (- 6) (- 7) buf c) (\<lambda>c.
     ie_bind (ie_capabilities buf c) (ie_pmkids buf))))))"
    using assms s
    by (intro ie_safe_bind [where P = "\<lambda>m. result_safe len (ie_return m)"] ie_group_safe ie_suites_safe
        ie_capabilities_safe ie_pmkids_safe result_safe_early) simp_all
  then show ?thesis using False assms
    by (simp add: wpa_parse_wpa_ie_rsn_def rd_n_def Let_def)
qed

lemma parse_wpa_safe:
  assumes "len \<le> length buf"
  shows "result_safe len (wpa_parse_wpa_ie_wpa buf len)"
proof (cases "len < 8 \<or> take 8 buf ! 0 \<noteq> 221 \<or> unat (take 8 buf ! 1) \<noteq> len - 2 \<or>
    RSN_SELECTOR_GET (drop 2 (take 8 buf)) \<noteq> wpa_suite 1 \<or> WPA_GET_LE16 (drop 6 (take 8 buf)) \<noteq> 1")
  case True
  then show ?thesis using assms
    by (auto simp: wpa_parse_wpa_ie_wpa_def rd_n_def result_safe_def wpa_ie_defaults_def Let_def)
next
  case False
  then have s: "ie_safe len (Some (Inr (8, len - 8, wpa_ie_defaults)))" by (simp add: ie_safe_def wpa_ie_defaults_def)
  have "result_safe len (ie_return
    (ie_bind (ie_group wpa_selector_to_bitfield buf (8, len - 8, wpa_ie_defaults)) (\<lambda>c.
     ie_bind (ie_suites wpa_selector_to_bitfield put_pairwise (- 4) (- 5) buf c) (\<lambda>c.
     ie_bind (ie_suites wpa_key_mgmt_to_bitfield put_key_mgmt (- 6) (- 7) buf c) (ie_capabilities buf)))))"
    using assms s
    by (intro ie_safe_bind [where P = "\<lambda>m. result_safe len (ie_return m)"] ie_group_safe ie_suites_safe
        ie_capabilities_safe result_safe_cursor result_safe_early) simp_all
  then show ?thesis using False assms
    by (simp add: wpa_parse_wpa_ie_wpa_def rd_n_def Let_def)
qed

text \<open>
  C27: on any bytes whatsoever the parsers of RSN and WPA elements return, read nothing outside the
  \<open>len\<close> bytes they are given, and a PMKID list they report lies inside them, is only reported with
  the return code 0, and is empty otherwise.
\<close>

theorem rsn_parsers_memory_safe:
  assumes "len \<le> length buf"
  shows "result_safe len (wpa_parse_wpa_ie_rsn buf len) \<and> result_safe len (wpa_parse_wpa_ie_wpa buf len)"
  using parse_rsn_safe [OF assms] parse_wpa_safe [OF assms] by simp

theorem rsn_parsers_memory_safe_witness:
  "result_safe 6 (wpa_parse_wpa_ie_rsn [48, 4, 1, 0, 0, 15] 6)"
  using rsn_parsers_memory_safe [of 6 "[48, 4, 1, 0, 0, 15]"] by simp

end
