(* ===== verification/WpaEapol.thy ===== *)
theory WpaEapol
  imports RsnIe CommonUtils "HOL-Library.Monad_Syntax"
begin

unbundle bit_operations_syntax

section \<open>EAPOL-Key frames (\<^verbatim>\<open>src/common/wpa_common.c\<close>, \<^verbatim>\<open>src/ap/wpa_auth_ie.c\<close>, \<^verbatim>\<open>src/ap/wpa_auth.c\<close>)\<close>

text \<open>
  The frames of the key handshakes: their layout, the derivation of the pairwise transient key, the
  message integrity code, and the key data (elements and KDEs) with their parser. The cryptographic
  primitives (\<^verbatim>\<open>src/crypto\<close>) are the argument \<open>wpa_crypto\<close>: a digest gives the bytes it leaves in the
  output buffer and whether it succeeded.
\<close>

record wpa_crypto =
  hmac_md5 :: "u8 list \<Rightarrow> u8 list \<Rightarrow> u8 list \<times> bool"
  hmac_sha1 :: "u8 list \<Rightarrow> u8 list \<Rightarrow> u8 list \<times> bool"
  sha1_prf :: "u8 list \<Rightarrow> string \<Rightarrow> u8 list \<Rightarrow> nat \<Rightarrow> u8 list \<times> bool"
  aes_wrap :: "u8 list \<Rightarrow> u8 list \<Rightarrow> u8 list option"
  rc4_skip :: "u8 list \<Rightarrow> nat \<Rightarrow> u8 list \<Rightarrow> u8 list"

subsection \<open>Keys\<close>

text \<open>
  \<^verbatim>\<open>ptk_u\<close> is what the derivation has written of the union \<^verbatim>\<open>u\<close> (nothing for CCMP, where it is not read).
\<close>

record wpa_ptk =
  kck :: "u8 list"
  kek :: "u8 list"
  tk1 :: "u8 list"
  ptk_u :: "u8 list"

definition zero_ptk :: wpa_ptk where
  "zero_ptk = \<lparr>kck = replicate 16 0, kek = replicate 16 0, tk1 = replicate 16 0, ptk_u = replicate 16 0\<rparr>"

definition ptk_of_bytes :: "u8 list \<Rightarrow> wpa_ptk" where
  "ptk_of_bytes b = \<lparr>kck = take 16 b, kek = take 16 (drop 16 b), tk1 = take 16 (drop 32 b), ptk_u = drop 48 b\<rparr>"

text \<open>\<^verbatim>\<open>os_memcmp\<close> on arrays of the same size.\<close>

fun os_memcmp :: "u8 list \<Rightarrow> u8 list \<Rightarrow> int" where
  "os_memcmp (x # xs) (y # ys) = (if x = y then os_memcmp xs ys else int (unat x) - int (unat y))"
| "os_memcmp _ _ = 0"

definition wpa_pmk_to_ptk :: "wpa_crypto \<Rightarrow> u8 list \<Rightarrow> string \<Rightarrow> u8 list \<Rightarrow> u8 list \<Rightarrow> u8 list \<Rightarrow> u8 list \<Rightarrow> nat \<Rightarrow> u8 list" where
  "wpa_pmk_to_ptk cr pmk label addr1 addr2 nonce1 nonce2 ptk_len =
     (let addrs = (if os_memcmp addr1 addr2 < 0 then addr1 @ addr2 else addr2 @ addr1);
          nonces = (if os_memcmp nonce1 nonce2 < 0 then nonce1 @ nonce2 else nonce2 @ nonce1)
      in fst (sha1_prf cr pmk label (addrs @ nonces) ptk_len))"

definition rsn_pmkid :: "wpa_crypto \<Rightarrow> u8 list \<Rightarrow> u8 list \<Rightarrow> u8 list \<Rightarrow> u8 list" where
  "rsn_pmkid cr pmk aa spa = take 16 (fst (hmac_sha1 cr pmk (map (\<lambda>c. of_nat (of_char c)) ''PMK Name'' @ aa @ spa)))"

definition wpa_eapol_key_mic :: "wpa_crypto \<Rightarrow> u8 list \<Rightarrow> u16 \<Rightarrow> u8 list \<Rightarrow> u8 list option" where
  "wpa_eapol_key_mic cr key ver buf =
     (if ver = 1 then (case hmac_md5 cr key buf of (mic, ok) \<Rightarrow> if ok then Some mic else None)
      else if ver = 2 then (case hmac_sha1 cr key buf of (h, ok) \<Rightarrow> if ok then Some (take 16 h) else None)
      else None)"

subsection \<open>The frame\<close>

text \<open>
  \<^verbatim>\<open>struct wpa_eapol_key\<close> behind the four bytes of \<^verbatim>\<open>struct ieee802_1x_hdr\<close>. Multi-byte fields are kept as
  the numbers they stand for.
\<close>

record wpa_eapol_key =
  ek_type :: u8
  ek_key_info :: u16
  ek_key_length :: u16
  ek_replay_counter :: "u8 list"
  ek_key_nonce :: "u8 list"
  ek_key_iv :: "u8 list"
  ek_key_rsc :: "u8 list"
  ek_key_id :: "u8 list"
  ek_key_mic :: "u8 list"
  ek_key_data_length :: u16

abbreviation EAPOL_KEY_LEN :: nat where "EAPOL_KEY_LEN \<equiv> 99"

definition eapol_key_bytes :: "wpa_eapol_key \<Rightarrow> u8 list" where
  "eapol_key_bytes k =
     [ek_type k] @ WPA_PUT_BE16 (ek_key_info k) @ WPA_PUT_BE16 (ek_key_length k) @ ek_replay_counter k @
     ek_key_nonce k @ ek_key_iv k @ ek_key_rsc k @ ek_key_id k @ ek_key_mic k @ WPA_PUT_BE16 (ek_key_data_length k)"

definition eapol_key_frame :: "u8 \<Rightarrow> wpa_eapol_key \<Rightarrow> u8 list \<Rightarrow> u8 list" where
  "eapol_key_frame version k key_data =
     [version, 3] @ WPA_PUT_BE16 (of_nat (95 + length key_data)) @ eapol_key_bytes k @ key_data"

text \<open>The view of received bytes (at least 99 of them) as that structure.\<close>

definition eapol_key_of :: "u8 list \<Rightarrow> wpa_eapol_key" where
  "eapol_key_of data =
     \<lparr>ek_type = data ! 4, ek_key_info = WPA_GET_BE16 (drop 5 data), ek_key_length = WPA_GET_BE16 (drop 7 data),
      ek_replay_counter = take 8 (drop 9 data), ek_key_nonce = take 32 (drop 17 data), ek_key_iv = take 16 (drop 49 data),
      ek_key_rsc = take 8 (drop 65 data), ek_key_id = take 8 (drop 73 data), ek_key_mic = take 16 (drop 81 data),
      ek_key_data_length = WPA_GET_BE16 (drop 97 data)\<rparr>"

definition zero_eapol_key :: wpa_eapol_key where
  "zero_eapol_key =
     \<lparr>ek_type = 0, ek_key_info = 0, ek_key_length = 0, ek_replay_counter = replicate 8 0,
      ek_key_nonce = replicate 32 0, ek_key_iv = replicate 16 0, ek_key_rsc = replicate 8 0,
      ek_key_id = replicate 8 0, ek_key_mic = replicate 16 0, ek_key_data_length = 0\<rparr>"

text \<open>The bits of \<^verbatim>\<open>key_info\<close>.\<close>

abbreviation "WPA_KEY_INFO_TYPE_MASK \<equiv> (7 :: u16)"
abbreviation "WPA_KEY_INFO_TYPE_HMAC_MD5_RC4 \<equiv> (1 :: u16)"
abbreviation "WPA_KEY_INFO_TYPE_HMAC_SHA1_AES \<equiv> (2 :: u16)"
abbreviation "WPA_KEY_INFO_KEY_TYPE \<equiv> (0x8 :: u16)"
abbreviation "WPA_KEY_INFO_INSTALL \<equiv> (0x40 :: u16)"
abbreviation "WPA_KEY_INFO_ACK \<equiv> (0x80 :: u16)"
abbreviation "WPA_KEY_INFO_MIC \<equiv> (0x100 :: u16)"
abbreviation "WPA_KEY_INFO_SECURE \<equiv> (0x200 :: u16)"
abbreviation "WPA_KEY_INFO_ERROR \<equiv> (0x400 :: u16)"
abbreviation "WPA_KEY_INFO_REQUEST \<equiv> (0x800 :: u16)"
abbreviation "WPA_KEY_INFO_ENCR_KEY_DATA \<equiv> (0x1000 :: u16)"
abbreviation "WPA_KEY_INFO_SMK_MESSAGE \<equiv> (0x2000 :: u16)"

definition key_flag :: "u16 \<Rightarrow> u16 \<Rightarrow> bool" where
  "key_flag key_info f = (key_info AND f \<noteq> 0)"

text \<open>\<^verbatim>\<open>wpa_verify_key_mic\<close> clears the MIC field for the computation and restores it.\<close>

definition clear_mic :: "u8 list \<Rightarrow> u8 list" where
  "clear_mic data = take 81 data @ replicate 16 0 @ drop 97 data"

definition wpa_verify_key_mic :: "wpa_crypto \<Rightarrow> wpa_ptk \<Rightarrow> u8 list \<Rightarrow> int" where
  "wpa_verify_key_mic cr PTK data =
     (if length data < EAPOL_KEY_LEN then - 1
      else
        let key = eapol_key_of data
        in case wpa_eapol_key_mic cr (kck PTK) (ek_key_info key AND WPA_KEY_INFO_TYPE_MASK) (clear_mic data) of
             None \<Rightarrow> - 1
           | Some mic \<Rightarrow> if take 16 mic = ek_key_mic key then 0 else - 1)"

subsection \<open>Key data\<close>

definition RSN_KEY_DATA_GROUPKEY :: u32 where "RSN_KEY_DATA_GROUPKEY = rsn_suite 1"
definition RSN_KEY_DATA_MAC_ADDR :: u32 where "RSN_KEY_DATA_MAC_ADDR = rsn_suite 3"
definition RSN_KEY_DATA_PMKID :: u32 where "RSN_KEY_DATA_PMKID = rsn_suite 4"

definition wpa_add_kde :: "u32 \<Rightarrow> u8 list \<Rightarrow> u8 list \<Rightarrow> u8 list" where
  "wpa_add_kde kde data data2 =
     [221, of_nat (4 + length data + length data2)] @ RSN_SELECTOR_PUT kde @ data @ data2"

text \<open>Pointers into the key data are offsets, with the lengths that go with them.\<close>

record wpa_eapol_ie_parse =
  kd_wpa_ie :: "(nat \<times> nat) option"
  kd_rsn_ie :: "(nat \<times> nat) option"
  kd_pmkid :: "nat option"
  kd_gtk :: "(nat \<times> nat) option"
  kd_mac_addr :: "(nat \<times> nat) option"

definition no_kde :: wpa_eapol_ie_parse where
  "no_kde = \<lparr>kd_wpa_ie = None, kd_rsn_ie = None, kd_pmkid = None, kd_gtk = None, kd_mac_addr = None\<rparr>"

text \<open>
  A read of four bytes that is only done when \<open>guard\<close> holds, compared with a selector.
\<close>

definition selector_is :: "bool \<Rightarrow> u8 list \<Rightarrow> nat \<Rightarrow> u32 \<Rightarrow> bool option" where
  "selector_is guard buf pos sel =
     (if guard then map_option (\<lambda>s. RSN_SELECTOR_GET s = sel) (rd_n buf pos 4) else Some False)"

definition byte_is :: "bool \<Rightarrow> u8 list \<Rightarrow> nat \<Rightarrow> u8 \<Rightarrow> bool option" where
  "byte_is guard buf pos v = (if guard then map_option (\<lambda>b. b = v) (rd buf pos) else Some False)"

definition wpa_parse_generic :: "u8 list \<Rightarrow> nat \<Rightarrow> nat \<Rightarrow> wpa_eapol_ie_parse \<Rightarrow> (int \<times> wpa_eapol_ie_parse) option" where
  "wpa_parse_generic buf pos fin ie = do {
     n \<leftarrow> map_option unat (rd buf (pos + 1));
     if n = 0 then Some (1, ie) else do {
       oui \<leftarrow> selector_is (n \<ge> 6) buf (pos + 2) (wpa_suite 1);
       v0 \<leftarrow> byte_is oui buf (pos + 6) 1;
       v1 \<leftarrow> byte_is v0 buf (pos + 7) 0;
       if v1 then Some (0, ie\<lparr>kd_wpa_ie := Some (pos, n + 2)\<rparr>) else do {
         pmkid \<leftarrow> selector_is (pos + 5 < fin \<and> n \<ge> 20) buf (pos + 2) RSN_KEY_DATA_PMKID;
         if pmkid then Some (0, ie\<lparr>kd_pmkid := Some (pos + 6)\<rparr>) else do {
           gtk \<leftarrow> selector_is (n > 6) buf (pos + 2) RSN_KEY_DATA_GROUPKEY;
           if gtk then Some (0, ie\<lparr>kd_gtk := Some (pos + 6, n - 4)\<rparr>) else do {
             mac \<leftarrow> selector_is (n > 6) buf (pos + 2) RSN_KEY_DATA_MAC_ADDR;
             if mac then Some (0, ie\<lparr>kd_mac_addr := Some (pos + 6, n - 4)\<rparr>)
             else Some (0, ie) }}}}}"

function parse_kde_loop :: "u8 list \<Rightarrow> nat \<Rightarrow> nat \<Rightarrow> wpa_eapol_ie_parse \<Rightarrow> (int \<times> wpa_eapol_ie_parse) option" where
  "parse_kde_loop buf fin pos ie =
     (if pos + 1 < fin then
        Option.bind (rd buf pos) (\<lambda>t. Option.bind (map_option unat (rd buf (pos + 1))) (\<lambda>n.
          if t = 0xdd \<and> (pos = fin - 1 \<or> n = 0) then Some (0, ie)
          else if pos + 2 + n > fin then Some (- 1, ie)
          else if t = 48 then parse_kde_loop buf fin (pos + 2 + n) (ie\<lparr>kd_rsn_ie := Some (pos, n + 2)\<rparr>)
          else if t = 221 then
            Option.bind (wpa_parse_generic buf pos fin ie) (\<lambda>(ret, ie').
              if ret < 0 then Some (ret, ie')
              else if ret > 0 then Some (0, ie')
              else parse_kde_loop buf fin (pos + 2 + n) ie')
          else parse_kde_loop buf fin (pos + 2 + n) ie))
      else Some (0, ie))"
  by pat_completeness auto
termination
  by (relation "measure (\<lambda>(buf, fin, pos, ie). fin - pos)") auto

declare parse_kde_loop.simps [simp del]

definition wpa_parse_kde_ies :: "u8 list \<Rightarrow> nat \<Rightarrow> (int \<times> wpa_eapol_ie_parse) option" where
  "wpa_parse_kde_ies buf len = parse_kde_loop buf len 0 no_kde"

subsection \<open>Comparison and key derivation\<close>

lemma os_memcmp_sym: "length a = length b \<Longrightarrow> os_memcmp b a = - os_memcmp a b"
  by (induction a b rule: list_induct2) auto

lemma os_memcmp_eq: "length a = length b \<Longrightarrow> os_memcmp a b = 0 \<longleftrightarrow> a = b"
  by (induction a b rule: list_induct2) (auto simp: word_uint_eq_iff)

lemma be_val_Cons: "be_val (x # xs) = unat x * 256 ^ length xs + be_val xs"
proof (induction xs rule: rev_induct)
  case Nil
  then show ?case using be_val_snoc(1) [of "[]" x] by simp
next
  case (snoc y xs)
  have "be_val (x # xs @ [y]) = 256 * be_val (x # xs) + unat y" using be_val_snoc(1) [of "x # xs" y] by simp
  then show ?case using snoc by (simp add: algebra_simps)
qed

text \<open>The order of \<^verbatim>\<open>os_memcmp\<close> is that of the big-endian numbers.\<close>

lemma os_memcmp_less: "length a = length b \<Longrightarrow> os_memcmp a b < 0 \<longleftrightarrow> be_val a < be_val b"
proof (induction a b rule: list_induct2)
  case (Cons x xs y ys)
  let ?B = "256 ^ length ys :: nat"
  have unat_less: "uint x < uint y \<longleftrightarrow> unat x < unat y" for x y :: u8
    by (simp add: word_less_def [symmetric] word_less_nat_alt [symmetric])
  have l: "be_val xs < ?B" "be_val ys < ?B" using be_val_less [of xs] be_val_less [of ys] Cons.hyps by simp_all
  show ?case
  proof (cases "x = y")
    case True
    then show ?thesis using Cons by (simp add: be_val_Cons)
  next
    case False
    then consider "unat x < unat y" | "unat y < unat x" by (meson nat_neq_iff word_unat_eq_iff)
    then show ?thesis
    proof cases
      case 1
      then have "unat x * ?B + ?B \<le> unat y * ?B" by (metis Suc_leI add.commute mult_Suc mult_le_mono1)
      then show ?thesis using 1 False l Cons.hyps unat_less by (simp add: be_val_Cons)
    next
      case 2
      then have "unat y * ?B + ?B \<le> unat x * ?B" by (metis Suc_leI add.commute mult_Suc mult_le_mono1)
      then show ?thesis using 2 False l Cons.hyps unat_less by (simp add: be_val_Cons)
    qed
  qed
qed simp

text \<open>
  Both ends of a handshake derive the same transient key: the derivation does not depend on
  which address and which nonce is called the first.
\<close>

theorem ptk_same_on_both_sides:
  assumes "length aa = length spa" and "length anonce = length snonce"
  shows "wpa_pmk_to_ptk cr pmk label aa spa anonce snonce len = wpa_pmk_to_ptk cr pmk label spa aa snonce anonce len \<and>
    wpa_pmk_to_ptk cr pmk label aa spa anonce snonce len = wpa_pmk_to_ptk cr pmk label spa aa anonce snonce len"
proof -
  have "(if os_memcmp a b < 0 then a @ b else b @ a) = (if os_memcmp b a < 0 then b @ a else a @ b)"
    if "length a = length b" for a b
    using os_memcmp_sym [OF that] os_memcmp_eq [OF that] by auto
  from this [OF assms(1)] this [OF assms(2)] show ?thesis
    by (auto simp: wpa_pmk_to_ptk_def Let_def)
qed

theorem ptk_same_on_both_sides_witness:
  "\<forall>cr pmk. wpa_pmk_to_ptk cr pmk ''Pairwise key expansion'' [1, 2] [1, 1] [9] [8] 48 =
   wpa_pmk_to_ptk cr pmk ''Pairwise key expansion'' [1, 1] [1, 2] [8] [9] 48"
  using ptk_same_on_both_sides [of "[1, 2]" "[1, 1]" "[9]" "[8]"] by simp

subsection \<open>Frames and their MIC\<close>

definition eapol_key_ok :: "wpa_eapol_key \<Rightarrow> bool" where
  "eapol_key_ok k \<longleftrightarrow> length (ek_replay_counter k) = 8 \<and> length (ek_key_nonce k) = 32 \<and> length (ek_key_iv k) = 16 \<and>
     length (ek_key_rsc k) = 8 \<and> length (ek_key_id k) = 8 \<and> length (ek_key_mic k) = 16"

lemma eapol_key_bytes_length: "eapol_key_ok k \<Longrightarrow> length (eapol_key_bytes k) = 95"
  by (simp add: eapol_key_bytes_def eapol_key_ok_def)

lemma eapol_key_frame_length: "eapol_key_ok k \<Longrightarrow> length (eapol_key_frame v k d) = 99 + length d"
  by (simp add: eapol_key_frame_def eapol_key_bytes_length)

lemma drop_skip: "n = length a + m \<Longrightarrow> drop n (a @ b) = drop m b"
  by simp

definition eapol_key_bytes_tail :: "wpa_eapol_key \<Rightarrow> u8 list" where
  "eapol_key_bytes_tail k =
     WPA_PUT_BE16 (ek_key_info k) @ WPA_PUT_BE16 (ek_key_length k) @ ek_replay_counter k @
     ek_key_nonce k @ ek_key_iv k @ ek_key_rsc k @ ek_key_id k @ ek_key_mic k @ WPA_PUT_BE16 (ek_key_data_length k)"

lemma eapol_key_of_frame:
  assumes "eapol_key_ok k"
  shows "eapol_key_of (eapol_key_frame v k d) = k"
proof -
  let ?F = "eapol_key_frame v k d"
  have len: "length (ek_replay_counter k) = 8" "length (ek_key_nonce k) = 32" "length (ek_key_iv k) = 16"
    "length (ek_key_rsc k) = 8" "length (ek_key_id k) = 8" "length (ek_key_mic k) = 16"
    using assms by (simp_all add: eapol_key_ok_def)
  have d4: "drop 4 ?F = ek_type k # eapol_key_bytes_tail k @ d"
    by (simp add: eapol_key_frame_def eapol_key_bytes_def eapol_key_bytes_tail_def WPA_PUT_BE16_def)
  have step: "drop (n + m) ?F = r" if "drop n ?F = a @ r" "length a = m" for n m a r
    using that by (metis add.commute append_eq_conv_conj drop_drop)
  note t = eapol_key_bytes_tail_def append_assoc
  have d5: "drop 5 ?F = WPA_PUT_BE16 (ek_key_info k) @ drop 7 ?F" "drop 7 ?F = WPA_PUT_BE16 (ek_key_length k) @ drop 9 ?F"
    using step [of 4 "[ek_type k]" _ 1] step [of 5 "WPA_PUT_BE16 (ek_key_info k)" _ 2]
      step [of 7 "WPA_PUT_BE16 (ek_key_length k)" _ 2] by (simp_all add: d4 t)
  have d9: "drop 9 ?F = ek_replay_counter k @ drop 17 ?F" "drop 17 ?F = ek_key_nonce k @ drop 49 ?F"
    "drop 49 ?F = ek_key_iv k @ drop 65 ?F" "drop 65 ?F = ek_key_rsc k @ drop 73 ?F" "drop 73 ?F = ek_key_id k @ drop 81 ?F"
    "drop 81 ?F = ek_key_mic k @ drop 97 ?F" "drop 97 ?F = WPA_PUT_BE16 (ek_key_data_length k) @ d"
    using step [of 4 "[ek_type k]" _ 1] step [of 5 "WPA_PUT_BE16 (ek_key_info k)" _ 2]
      step [of 7 "WPA_PUT_BE16 (ek_key_length k)" _ 2] step [of 9 "ek_replay_counter k" _ 8] step [of 17 "ek_key_nonce k" _ 32]
      step [of 49 "ek_key_iv k" _ 16] step [of 65 "ek_key_rsc k" _ 8] step [of 73 "ek_key_id k" _ 8]
      step [of 81 "ek_key_mic k" _ 16] len by (simp_all add: d4 t)
  have "?F ! 4 = ek_type k" using d4 by (metis drop_eq_Nil2 hd_drop_conv_nth linorder_not_less list.discI list.sel(1))
  then show ?thesis
    unfolding eapol_key_of_def d5 d9 using len by (simp add: get_put_BE16)
qed

lemma eapol_key_frame_mic:
  assumes "eapol_key_ok k" "length mic = 16"
  shows "take 81 (eapol_key_frame v k d) @ mic @ drop 97 (eapol_key_frame v k d) = eapol_key_frame v (k\<lparr>ek_key_mic := mic\<rparr>) d"
  using assms by (simp add: eapol_key_frame_def eapol_key_bytes_def eapol_key_ok_def take_Cons' drop_Cons')

lemma clear_mic_frame:
  "eapol_key_ok k \<Longrightarrow> clear_mic (eapol_key_frame v k d) = eapol_key_frame v (k\<lparr>ek_key_mic := replicate 16 0\<rparr>) d"
  using eapol_key_frame_mic [of k "replicate 16 0"] by (simp add: clear_mic_def)

text \<open>What the sender puts into the MIC field of a frame the receiver accepts under the same key.\<close>

lemma verify_sent_frame:
  assumes "eapol_key_ok k" and "wpa_eapol_key_mic cr (kck P) (ek_key_info k AND WPA_KEY_INFO_TYPE_MASK)
      (eapol_key_frame v (k\<lparr>ek_key_mic := replicate 16 0\<rparr>) d) = Some mic" and "length mic = 16"
  shows "wpa_verify_key_mic cr P (eapol_key_frame v (k\<lparr>ek_key_mic := mic\<rparr>) d) = 0"
proof -
  let ?k = "k\<lparr>ek_key_mic := mic\<rparr>"
  have ok: "eapol_key_ok ?k" using assms(1,3) by (simp add: eapol_key_ok_def)
  show ?thesis
    using assms eapol_key_frame_length [OF ok, of v d] eapol_key_of_frame [OF ok, of v d] clear_mic_frame [OF ok, of v d]
    by (simp add: wpa_verify_key_mic_def)
qed

subsection \<open>The key data parser\<close>

definition kde_inside :: "nat \<Rightarrow> wpa_eapol_ie_parse \<Rightarrow> bool" where
  "kde_inside len ie \<longleftrightarrow>
     (\<forall>r \<in> {kd_wpa_ie ie, kd_rsn_ie ie, kd_gtk ie, kd_mac_addr ie}. case r of None \<Rightarrow> True | Some (p, n) \<Rightarrow> p + n \<le> len) \<and>
     (case kd_pmkid ie of None \<Rightarrow> True | Some p \<Rightarrow> p + 16 \<le> len)"

lemma rd_in: "i < length buf \<Longrightarrow> rd buf i = Some (buf ! i)"
  by (simp add: rd_def)

lemma rd_n_in: "i + n \<le> length buf \<Longrightarrow> rd_n buf i n = Some (take n (drop i buf))"
  by (simp add: rd_n_def)

lemma selector_is_in: "(g \<Longrightarrow> pos + 4 \<le> length buf) \<Longrightarrow>
    selector_is g buf pos sel = Some (g \<and> RSN_SELECTOR_GET (take 4 (drop pos buf)) = sel)"
  by (simp add: selector_is_def rd_n_in)

lemma byte_is_in: "(g \<Longrightarrow> pos < length buf) \<Longrightarrow> byte_is g buf pos v = Some (g \<and> buf ! pos = v)"
  by (simp add: byte_is_def rd_in)

lemma parse_generic_safe:
  assumes fin: "fin \<le> length buf" and pos: "pos + 2 + unat (buf ! (pos + 1)) \<le> fin" and i: "kde_inside fin ie"
  shows "\<exists>ret ie'. wpa_parse_generic buf pos fin ie = Some (ret, ie') \<and> kde_inside fin ie' \<and> (ret = 0 \<or> ret = 1)"
proof -
  let ?n = "unat (buf ! (pos + 1))"
  let ?s = "RSN_SELECTOR_GET (take 4 (drop (pos + 2) buf))"
  have r: "rd buf (pos + 1) = Some (buf ! (pos + 1))" using fin pos by (simp add: rd_in)
  have s: "selector_is (g \<and> ?n \<ge> 4) buf (pos + 2) sel = Some ((g \<and> ?n \<ge> 4) \<and> ?s = sel)" for g sel
    using fin pos by (intro selector_is_in) simp
  have s6: "selector_is (?n \<ge> 6) buf (pos + 2) sel = Some (?n \<ge> 6 \<and> ?s = sel)"
    and s7: "selector_is (?n > 6) buf (pos + 2) sel = Some (?n > 6 \<and> ?s = sel)"
    and s20: "selector_is (pos + 5 < fin \<and> ?n \<ge> 20) buf (pos + 2) sel = Some ((pos + 5 < fin \<and> ?n \<ge> 20) \<and> ?s = sel)" for sel
    using fin pos by (intro selector_is_in; simp)+
  have b0: "byte_is (?n \<ge> 6 \<and> ?s = x) buf (pos + 6) v = Some ((?n \<ge> 6 \<and> ?s = x) \<and> buf ! (pos + 6) = v)"
    and b1: "byte_is ((?n \<ge> 6 \<and> ?s = x) \<and> y) buf (pos + 7) v = Some (((?n \<ge> 6 \<and> ?s = x) \<and> y) \<and> buf ! (pos + 7) = v)" for x y v
    using fin pos by (intro byte_is_in; simp)+
  have up: "kde_inside fin (ie\<lparr>kd_wpa_ie := Some (pos, ?n + 2)\<rparr>)" using i pos by (simp add: kde_inside_def)
  have "kde_inside fin (ie\<lparr>kd_pmkid := Some (pos + 6)\<rparr>)" if "?n \<ge> 20" using i pos that by (simp add: kde_inside_def)
  moreover have "kde_inside fin (ie\<lparr>kd_gtk := Some (pos + 6, ?n - 4)\<rparr>)" "kde_inside fin (ie\<lparr>kd_mac_addr := Some (pos + 6, ?n - 4)\<rparr>)"
    if "?n > 6" using i pos that by (simp_all add: kde_inside_def)
  ultimately show ?thesis
    unfolding wpa_parse_generic_def r
    by (simp only: option.map Option.bind_lunit s6 s7 s20 b0 b1) (use up i in \<open>simp\<close>)
qed

lemma parse_kde_loop_step:
  assumes "pos + 1 < fin" "fin \<le> length buf"
  shows "parse_kde_loop buf fin pos ie =
     (let t = buf ! pos; n = unat (buf ! (pos + 1)) in
      if t = 0xdd \<and> (pos = fin - 1 \<or> n = 0) then Some (0, ie)
      else if pos + 2 + n > fin then Some (- 1, ie)
      else if t = 48 then parse_kde_loop buf fin (pos + 2 + n) (ie\<lparr>kd_rsn_ie := Some (pos, n + 2)\<rparr>)
      else if t = 221 then
        Option.bind (wpa_parse_generic buf pos fin ie) (\<lambda>(ret, ie').
          if ret < 0 then Some (ret, ie')
          else if ret > 0 then Some (0, ie')
          else parse_kde_loop buf fin (pos + 2 + n) ie')
      else parse_kde_loop buf fin (pos + 2 + n) ie)"
proof -
  have r: "rd buf pos = Some (buf ! pos)" "map_option unat (rd buf (pos + 1)) = Some (unat (buf ! (pos + 1)))"
    using assms by (simp_all add: rd_in)
  show ?thesis by (subst parse_kde_loop.simps) (simp only: assms r if_True Option.bind_lunit Let_def)
qed

lemma parse_kde_loop_safe:
  "fin \<le> length buf \<Longrightarrow> kde_inside fin ie \<Longrightarrow>
   \<exists>r ie'. parse_kde_loop buf fin pos ie = Some (r, ie') \<and> kde_inside fin ie' \<and> (r = 0 \<or> r = - 1)"
proof (induction buf fin pos ie rule: parse_kde_loop.induct)
  case (1 buf fin pos ie)
  show ?case
  proof (cases "pos + 1 < fin")
    case False
    then show ?thesis using "1.prems"(2) by (subst parse_kde_loop.simps) simp
  next
    case True
    let ?t = "buf ! pos" let ?n = "unat (buf ! (pos + 1))"
    have r: "rd buf pos = Some ?t" "map_option unat (rd buf (pos + 1)) = Some ?n" using True "1.prems"(1) by (simp_all add: rd_in)
    note eq = parse_kde_loop_step [OF True "1.prems"(1), unfolded Let_def]
    consider "?t = 0xdd \<and> (pos = fin - 1 \<or> ?n = 0)" | "\<not> (?t = 0xdd \<and> (pos = fin - 1 \<or> ?n = 0))" "pos + 2 + ?n > fin"
      | "\<not> (?t = 0xdd \<and> (pos = fin - 1 \<or> ?n = 0))" "\<not> pos + 2 + ?n > fin" by metis
    then show ?thesis
    proof cases
      case 1
      then show ?thesis using eq \<open>kde_inside fin ie\<close> by simp
    next
      case 2
      then show ?thesis using eq \<open>kde_inside fin ie\<close> by simp
    next
      case 3
      note ih = "1.IH"(1) [OF True r 3] "1.IH"(2) [OF True r 3] "1.IH"(3) [OF True r 3]
      have p: "pos + 2 + ?n \<le> fin" using 3 by simp
      have u: "kde_inside fin (ie\<lparr>kd_rsn_ie := Some (pos, ?n + 2)\<rparr>)"
        using p \<open>kde_inside fin ie\<close> by (simp add: kde_inside_def)
      show ?thesis
      proof (cases "?t = 48")
        case t: True
        then show ?thesis using 3 eq ih(1) [OF t \<open>fin \<le> length buf\<close> u]
          by simp
      next
        case f: False
        show ?thesis
        proof (cases "?t = 221")
          case t: True
          obtain ret ie' where g: "wpa_parse_generic buf pos fin ie = Some (ret, ie')" "kde_inside fin ie'" "ret = 0 \<or> ret = 1"
            using parse_generic_safe [OF \<open>fin \<le> length buf\<close> p \<open>kde_inside fin ie\<close>] by blast
          show ?thesis
          proof (cases "ret = 0")
            case z: True
            then show ?thesis
              using 3 eq f t g ih(2) [OF f t, of "(ret, ie')" ret ie'] \<open>fin \<le> length buf\<close>
              by simp
          next
            case False
            then have "ret = 1" using g(3) by blast
            then show ?thesis using 3 eq f t g by simp
          qed
        next
          case False
          then show ?thesis
            using 3 eq f ih(3) [OF f False \<open>fin \<le> length buf\<close> \<open>kde_inside fin ie\<close>]
            by simp
        qed
      qed
    qed
  qed
qed

lemma parse_kde_safe:
  "len \<le> length buf \<Longrightarrow> \<exists>r ie. wpa_parse_kde_ies buf len = Some (r, ie) \<and> kde_inside len ie \<and> (r = 0 \<or> r = - 1)"
  unfolding wpa_parse_kde_ies_def by (erule parse_kde_loop_safe) (simp add: kde_inside_def no_kde_def)

text \<open>
  C28: on any key data whatsoever the KDE parser returns 0 or -1, reads nothing outside the \<open>len\<close> bytes
  it is given, and every element it reports lies inside them.
\<close>

theorem kde_parser_memory_safe:
  assumes "len \<le> length buf"
  shows "\<exists>r ie. wpa_parse_kde_ies buf len = Some (r, ie) \<and> kde_inside len ie \<and> (r = 0 \<or> r = - 1)"
  by (rule parse_kde_safe [OF assms])

theorem kde_parser_memory_safe_witness:
  "\<exists>r ie. wpa_parse_kde_ies [0xdd, 6, 0, 0x0f, 0xac] 5 = Some (r, ie) \<and> kde_inside 5 ie \<and> (r = 0 \<or> r = - 1)"
  using kde_parser_memory_safe [of 5 "[0xdd, 6, 0, 0x0f, 0xac]"] by simp

text \<open>
  C29: the key data of message 3/4 - the access point's element, the group key and the padding - is
  parsed without an error, and the element and the group key are found where they were put.
\<close>

theorem kde_round_trip:
  assumes body: "length body < 256" and hdr: "length hdr = 2" and gtk: "gtk \<noteq> []" "length gtk \<le> 32"
    and pad: "pad \<in> insert [] (range (\<lambda>m. 0xdd # replicate m 0))"
    and ie: "ie = [48, of_nat (length body)] @ body"
    and kd: "kd = ie @ wpa_add_kde RSN_KEY_DATA_GROUPKEY hdr gtk @ pad"
  shows "wpa_parse_kde_ies kd (length kd) =
    Some (0, no_kde\<lparr>kd_rsn_ie := Some (0, length ie), kd_gtk := Some (length ie + 6, 2 + length gtk)\<rparr>)"
proof -
  let ?K = "wpa_add_kde RSN_KEY_DATA_GROUPKEY hdr gtk" and ?p = "length ie" and ?n = "6 + length gtk"
  let ?q = "length ie + 8 + length gtk"
  have lie: "length ie = 2 + length body" using ie by simp
  have K: "?K = [221, of_nat ?n] @ RSN_SELECTOR_PUT RSN_KEY_DATA_GROUPKEY @ hdr @ gtk"
    using hdr by (simp add: wpa_add_kde_def)
  have lK: "length ?K = 8 + length gtk" using hdr by (simp add: K)
  have lkd: "length kd = ?q + length pad" using kd lK by simp
  have n0: "kd ! 0 = 48" "unat (kd ! (0 + 1)) = length body" using kd ie body by (simp_all add: unat_of_nat)
  have d: "drop ?p kd = ?K @ pad" using kd by simp
  have at: "kd ! (?p + k) = (?K @ pad) ! k" for k using kd by (simp add: nth_append)
  have u: "unat (of_nat m :: u8) = m" if "m < 256" for m using that by (simp add: unat_of_nat)
  have n1: "kd ! ?p = 221" "unat (kd ! (?p + 1)) = ?n"
    using at [of 0] at [of 1] gtk u [of ?n] by (simp_all add: K del: of_nat_add)
  have sel: "take 4 (drop (?p + 2) kd) = RSN_SELECTOR_PUT RSN_KEY_DATA_GROUPKEY"
  proof -
    have "drop (?p + 2) kd = drop 2 (drop ?p kd)" by (simp add: add.commute)
    then show ?thesis by (simp add: d K)
  qed
  let ?ie = "no_kde\<lparr>kd_rsn_ie := Some (0, length ie)\<rparr>"
  have ne: "RSN_KEY_DATA_GROUPKEY \<noteq> wpa_suite 1" "RSN_KEY_DATA_GROUPKEY \<noteq> RSN_KEY_DATA_PMKID" by code_simp+
  have g: "wpa_parse_generic kd ?p (length kd) ?ie = Some (0, ?ie\<lparr>kd_gtk := Some (?p + 6, ?n - 4)\<rparr>)"
    using n1 lkd gtk sel ne
    by (simp add: wpa_parse_generic_def rd_in selector_is_in byte_is_in selector_get_put)
  have pad: "parse_kde_loop kd (length kd) ?q ie' = Some (0, ie')" for ie'
  proof (cases "?q + 1 < length kd")
    case False
    then show ?thesis by (subst parse_kde_loop.simps) simp
  next
    case True
    then obtain m where m: "pad = 0xdd # replicate m 0" "m > 0" using pad lkd by auto
    have "drop ?q kd = pad" using kd lK by simp
    then have "kd ! ?q = pad ! 0" "kd ! (?q + 1) = pad ! 1"
      using True nth_drop [of ?q kd 0] nth_drop [of ?q kd 1] by (simp_all del: nth_drop)
    then have "kd ! ?q = 0xdd" "unat (kd ! (?q + 1)) = 0" using m by simp_all
    then show ?thesis using parse_kde_loop_step [OF True] by simp
  qed
  have "parse_kde_loop kd (length kd) 0 no_kde = parse_kde_loop kd (length kd) ?p ?ie"
    using parse_kde_loop_step [of 0 "length kd" kd no_kde] n0 lkd lie by (simp add: Let_def)
  also have "\<dots> = parse_kde_loop kd (length kd) (?p + 2 + ?n) (?ie\<lparr>kd_gtk := Some (?p + 6, ?n - 4)\<rparr>)"
    using parse_kde_loop_step [of ?p "length kd" kd ?ie] n1 lkd g by (simp add: Let_def)
  also have "?p + 2 + ?n = ?q" by simp
  also note pad
  finally show ?thesis by (simp add: wpa_parse_kde_ies_def)
qed

theorem kde_round_trip_witness:
  "wpa_parse_kde_ies ([48, 2, 1, 0] @ wpa_add_kde RSN_KEY_DATA_GROUPKEY [1, 0] [7, 7, 7] @ [0xdd]) 16 =
     Some (0, no_kde\<lparr>kd_rsn_ie := Some (0, 4), kd_gtk := Some (10, 5)\<rparr>)"
  using kde_round_trip [of "[1, 0]" "[1, 0]" "[7, 7, 7]" "0xdd # replicate 0 0" "[48, 2, 1, 0]", OF _ _ _ _ _ _ refl]
  by (simp add: wpa_add_kde_def)

end
