(* ===== verification/PmksaCache.thy ===== *)
theory PmksaCache
  imports Prelude "HOL-Library.Monad_Syntax"
begin

unbundle bit_operations_syntax

section \<open>The authenticator's PMKSA cache (\<^verbatim>\<open>src/ap/pmksa_cache_auth.c\<close>)\<close>

text \<open>
  Entries live on two linked structures at once: the list \<^verbatim>\<open>pmksa\<close> ordered by expiration time and
  the hash chains \<^verbatim>\<open>pmkid[128]\<close>. An entry is named by its address, a number; \<open>ent\<close> is the part of the
  heap that holds entries (freed entries are absent), and the chains of \<^verbatim>\<open>next\<close> and \<^verbatim>\<open>hnext\<close> pointers
  are lists of addresses. \<open>timer\<close> is the delay with which \<^verbatim>\<open>pmksa_cache_expire\<close> is registered with the
  event loop. The PMKID derivation \<^verbatim>\<open>rsn_pmkid\<close> (HMAC-SHA1 or SHA256, \<^verbatim>\<open>src/common/wpa_common.c\<close>) is
  the argument \<open>kd\<close>; the result of \<^verbatim>\<open>os_zalloc\<close> is the argument \<open>new\<close>: the address of the entry, or
  \<open>None\<close>.
\<close>

type_synonym addr = nat
type_synonym pmkid_fun = "u8 list \<Rightarrow> u8 list \<Rightarrow> u8 list \<Rightarrow> bool \<Rightarrow> u8 list"

record eapol_ident =
  sm_identity :: "u8 list option"
  class_attrs :: "u8 list list"
  eap_type_authsrv :: u8
  sta_vlan_id :: int

record pmksa_entry =
  pmkid :: "u8 list"
  pmk :: "u8 list"
  expiration :: int
  akmp :: nat
  spa :: "u8 list"
  identity :: "u8 list option"
  radius_class :: "u8 list list"
  entry_eap_type :: u8
  vlan_id :: int
  opportunistic :: bool

record rsn_pmksa_cache =
  ent :: "addr \<Rightarrow> pmksa_entry option"
  pmksa :: "addr list"
  hash :: "nat \<Rightarrow> addr list"
  pmksa_count :: int
  timer :: "int option"
  free_cbs :: "addr list"

definition pmksa_cache_max_entries :: int where "pmksa_cache_max_entries = 1024"
definition dot11RSNAConfigPMKLifetime :: int where "dot11RSNAConfigPMKLifetime = 43200"

definition PMKID_HASH :: "u8 list \<Rightarrow> nat" where
  "PMKID_HASH p = unat (p ! 0 AND 0x7f)"

text \<open>\<^verbatim>\<open>wpa_key_mgmt_sha256\<close> of \<^verbatim>\<open>src/common/defs.h\<close>: PSK-SHA256 and 802.1X-SHA256 bits.\<close>

definition wpa_key_mgmt_sha256 :: "nat \<Rightarrow> bool" where
  "wpa_key_mgmt_sha256 a = ((word_of_nat a :: u32) AND 0x180 \<noteq> 0)"

definition entry_at :: "rsn_pmksa_cache \<Rightarrow> addr \<Rightarrow> pmksa_entry" where
  "entry_at c e = the (ent c e)"

text \<open>The walk that unlinks an entry from a chain of pointers.\<close>

fun unlink :: "addr \<Rightarrow> addr list \<Rightarrow> addr list" where
  "unlink e [] = []"
| "unlink e (p # ps) = (if p = e then ps else p # unlink e ps)"

definition pmksa_cache_free_entry :: "rsn_pmksa_cache \<Rightarrow> addr \<Rightarrow> rsn_pmksa_cache" where
  "pmksa_cache_free_entry c e =
     (let h = PMKID_HASH (pmkid (entry_at c e));
          c1 = c\<lparr>pmksa_count := pmksa_count c - 1, free_cbs := free_cbs c @ [e]\<rparr>;
          c2 = c1\<lparr>hash := (hash c1)(h := unlink e (hash c1 h))\<rparr>;
          c3 = c2\<lparr>pmksa := unlink e (pmksa c2)\<rparr>
      in c3\<lparr>ent := (ent c3)(e := None)\<rparr>)"

text \<open>\<open>now\<close> is \<^verbatim>\<open>now.sec\<close> of the clock.\<close>

definition pmksa_cache_set_expiration :: "int \<Rightarrow> rsn_pmksa_cache \<Rightarrow> rsn_pmksa_cache" where
  "pmksa_cache_set_expiration now c =
     (let c1 = c\<lparr>timer := None\<rparr>
      in case pmksa c1 of
           [] \<Rightarrow> c1
         | e # _ \<Rightarrow>
             let sec = s32 (expiration (entry_at c1 e) - now);
                 sec1 = (if sec < 0 then 0 else sec)
             in c1\<lparr>timer := Some (s32 (sec1 + 1))\<rparr>)"

text \<open>The loop of \<^verbatim>\<open>pmksa_cache_expire\<close> takes the head off the list before it frees it.\<close>

function expire_loop :: "int \<Rightarrow> rsn_pmksa_cache \<Rightarrow> rsn_pmksa_cache" where
  "expire_loop now c =
     (case pmksa c of
        [] \<Rightarrow> c
      | e # rest \<Rightarrow>
          if expiration (entry_at c e) \<le> now
          then expire_loop now (pmksa_cache_free_entry (c\<lparr>pmksa := rest\<rparr>) e)
          else c)"
  by pat_completeness auto

lemma unlink_length: "length (unlink e ps) \<le> length ps"
  by (induction ps) auto

lemma free_entry_list [simp]: "pmksa (pmksa_cache_free_entry c e) = unlink e (pmksa c)"
  by (simp add: pmksa_cache_free_entry_def Let_def)

termination expire_loop
  by (relation "measure (\<lambda>(now, c). length (pmksa c))") (auto simp: less_Suc_eq_le unlink_length)

declare expire_loop.simps [simp del]

definition pmksa_cache_expire :: "int \<Rightarrow> rsn_pmksa_cache \<Rightarrow> rsn_pmksa_cache" where
  "pmksa_cache_expire now c = pmksa_cache_set_expiration now (expire_loop now c)"

definition pmksa_cache_from_eapol_data :: "bool \<Rightarrow> pmksa_entry \<Rightarrow> eapol_ident option \<Rightarrow> pmksa_entry" where
  "pmksa_cache_from_eapol_data mem e eapol =
     (case eapol of
        None \<Rightarrow> e
      | Some s \<Rightarrow>
          let e1 = (case sm_identity s of None \<Rightarrow> e | Some i \<Rightarrow> e\<lparr>identity := if mem then Some i else None\<rparr>)
          in e1\<lparr>radius_class := class_attrs s, entry_eap_type := eap_type_authsrv s, vlan_id := sta_vlan_id s\<rparr>)"

definition pmksa_cache_to_eapol_data :: "bool \<Rightarrow> pmksa_entry option \<Rightarrow> eapol_ident option \<Rightarrow> eapol_ident option" where
  "pmksa_cache_to_eapol_data mem e eapol =
     (case (e, eapol) of
        (Some e, Some s) \<Rightarrow>
          let s1 = (case identity e of None \<Rightarrow> s | Some i \<Rightarrow> s\<lparr>sm_identity := if mem then Some i else None\<rparr>)
          in Some (s1\<lparr>class_attrs := radius_class e, eap_type_authsrv := entry_eap_type e, sta_vlan_id := vlan_id e\<rparr>)
      | _ \<Rightarrow> eapol)"

text \<open>Insertion before the first entry that expires later.\<close>

fun insert_by_expiration :: "(addr \<Rightarrow> int) \<Rightarrow> addr \<Rightarrow> int \<Rightarrow> addr list \<Rightarrow> addr list" where
  "insert_by_expiration ex e t [] = [e]"
| "insert_by_expiration ex e t (p # ps) =
     (if ex p > t then e # p # ps else p # insert_by_expiration ex e t ps)"

definition pmksa_cache_link_entry :: "addr \<Rightarrow> pmksa_entry \<Rightarrow> rsn_pmksa_cache \<Rightarrow> rsn_pmksa_cache" where
  "pmksa_cache_link_entry a e c =
     (let h = PMKID_HASH (pmkid e);
          c1 = c\<lparr>ent := (ent c)(a := Some e),
                pmksa := insert_by_expiration (\<lambda>p. expiration (entry_at c p)) a (expiration e) (pmksa c)\<rparr>
      in c1\<lparr>hash := (hash c1)(h := a # hash c1 h), pmksa_count := pmksa_count c1 + 1\<rparr>)"

definition matches :: "rsn_pmksa_cache \<Rightarrow> u8 list option \<Rightarrow> u8 list option \<Rightarrow> addr \<Rightarrow> bool" where
  "matches c s p e =
     ((case s of None \<Rightarrow> True | Some s' \<Rightarrow> spa (entry_at c e) = s') \<and>
      (case p of None \<Rightarrow> True | Some p' \<Rightarrow> pmkid (entry_at c e) = p'))"

definition pmksa_cache_auth_get :: "rsn_pmksa_cache \<Rightarrow> u8 list option \<Rightarrow> u8 list option \<Rightarrow> addr option" where
  "pmksa_cache_auth_get c s p =
     List.find (matches c s p) (case p of Some p' \<Rightarrow> hash c (PMKID_HASH p') | None \<Rightarrow> pmksa c)"

definition zeroed_entry :: pmksa_entry where
  "zeroed_entry = \<lparr>pmkid = replicate 16 0, pmk = [], expiration = 0, akmp = 0, spa = replicate 6 0,
     identity = None, radius_class = [], entry_eap_type = 0, vlan_id = 0, opportunistic = False\<rparr>"

definition pmksa_cache_auth_add :: "pmkid_fun \<Rightarrow> int \<Rightarrow> addr option \<Rightarrow> bool \<Rightarrow> u8 list \<Rightarrow> u8 list \<Rightarrow> u8 list \<Rightarrow>
    int \<Rightarrow> eapol_ident option \<Rightarrow> nat \<Rightarrow> rsn_pmksa_cache \<Rightarrow> addr option \<times> rsn_pmksa_cache" where
  "pmksa_cache_auth_add kd now new mem key aa sta session_timeout eapol mgmt c =
     (if length key > 32 then (None, c)
      else case new of
        None \<Rightarrow> (None, c)
      | Some a \<Rightarrow>
          let e1 = zeroed_entry\<lparr>pmk := key, pmkid := kd key aa sta (wpa_key_mgmt_sha256 mgmt)\<rparr>;
              e2 = e1\<lparr>expiration := s32 (now + (if session_timeout > 0 then session_timeout
                                               else dot11RSNAConfigPMKLifetime))\<rparr>;
              e3 = pmksa_cache_from_eapol_data mem (e2\<lparr>akmp := mgmt, spa := sta\<rparr>) eapol;
              c1 = (case pmksa_cache_auth_get c (Some sta) None of
                      Some pos \<Rightarrow> pmksa_cache_free_entry c pos | None \<Rightarrow> c);
              c2 = (if pmksa_count c1 \<ge> pmksa_cache_max_entries \<and> pmksa c1 \<noteq> []
                    then pmksa_cache_free_entry c1 (hd (pmksa c1)) else c1)
          in (Some a, pmksa_cache_link_entry a e3 c2))"

text \<open>The entry copied (\<open>old\<close>) may live in the cache of another BSS.\<close>

definition pmksa_cache_add_okc :: "addr option \<Rightarrow> bool \<Rightarrow> pmksa_entry \<Rightarrow> u8 list \<Rightarrow> rsn_pmksa_cache \<Rightarrow>
    addr option \<times> rsn_pmksa_cache" where
  "pmksa_cache_add_okc new mem old p c =
     (case new of
        None \<Rightarrow> (None, c)
      | Some a \<Rightarrow>
          let e = zeroed_entry\<lparr>pmkid := p, pmk := pmk old, expiration := expiration old, akmp := akmp old,
                    spa := spa old, opportunistic := True,
                    identity := (if mem then identity old else None),
                    radius_class := radius_class old, entry_eap_type := entry_eap_type old,
                    vlan_id := vlan_id old\<rparr>
          in (Some a, pmksa_cache_link_entry a e c))"

text \<open>
  The walk of \<^verbatim>\<open>pmksa_cache_get_okc\<close>. The \<^verbatim>\<open>continue\<close> for an entry of another station does not advance
  \<^verbatim>\<open>entry\<close>; not returning is the outer \<open>None\<close>.
\<close>

partial_function (option) okc_loop :: "pmkid_fun \<Rightarrow> rsn_pmksa_cache \<Rightarrow> u8 list \<Rightarrow> u8 list \<Rightarrow> u8 list \<Rightarrow>
    addr list \<Rightarrow> addr option option" where
  "okc_loop kd c aa s p es =
     (case es of
        [] \<Rightarrow> Some None
      | e # rest \<Rightarrow>
          if spa (entry_at c e) \<noteq> s then okc_loop kd c aa s p es
          else if kd (pmk (entry_at c e)) aa s (wpa_key_mgmt_sha256 (akmp (entry_at c e))) = p then Some (Some e)
          else okc_loop kd c aa s p rest)"

definition pmksa_cache_get_okc :: "pmkid_fun \<Rightarrow> rsn_pmksa_cache \<Rightarrow> u8 list \<Rightarrow> u8 list \<Rightarrow> u8 list \<Rightarrow>
    addr option option" where
  "pmksa_cache_get_okc kd c aa s p = okc_loop kd c aa s p (pmksa c)"

definition pmksa_cache_auth_init :: "bool \<Rightarrow> rsn_pmksa_cache option" where
  "pmksa_cache_auth_init mem =
     (if mem then Some \<lparr>ent = \<lambda>a. None, pmksa = [], hash = \<lambda>h. [], pmksa_count = 0, timer = None, free_cbs = []\<rparr>
      else None)"

text \<open>\<^verbatim>\<open>pmksa_cache_auth_deinit\<close> frees the entries along the list, without the callback.\<close>

definition pmksa_cache_auth_deinit :: "rsn_pmksa_cache \<Rightarrow> rsn_pmksa_cache" where
  "pmksa_cache_auth_deinit c =
     (let c1 = c\<lparr>ent := (\<lambda>a. if a \<in> set (pmksa c) then None else ent c a)\<rparr>
      in c1\<lparr>timer := None, hash := (\<lambda>h. if h < 128 then [] else hash c1 h)\<rparr>)"

subsection \<open>Invariant\<close>

definition expires :: "rsn_pmksa_cache \<Rightarrow> addr \<Rightarrow> int" where
  "expires c e = expiration (entry_at c e)"

definition cache_inv :: "rsn_pmksa_cache \<Rightarrow> bool" where
  "cache_inv c \<longleftrightarrow>
     distinct (pmksa c) \<and> {a. ent c a \<noteq> None} = set (pmksa c) \<and> sorted (map (expires c) (pmksa c)) \<and>
     (\<forall>h. distinct (hash c h)) \<and>
     (\<forall>h. set (hash c h) = {e \<in> set (pmksa c). PMKID_HASH (pmkid (entry_at c e)) = h}) \<and>
     pmksa_count c = int (length (pmksa c))"

lemma unlink_set: "distinct ps \<Longrightarrow> set (unlink e ps) = set ps - {e}"
  by (induction ps) auto

lemma unlink_distinct: "distinct ps \<Longrightarrow> distinct (unlink e ps)"
  by (induction ps) (auto simp: unlink_set)

lemma unlink_absent: "e \<notin> set ps \<Longrightarrow> unlink e ps = ps"
  by (induction ps) auto

lemma unlink_sorted: "sorted (map f ps) \<Longrightarrow> distinct ps \<Longrightarrow> sorted (map f (unlink e ps))"
  by (induction ps) (auto simp: unlink_set)

lemma unlink_length_in: "e \<in> set ps \<Longrightarrow> length (unlink e ps) = length ps - 1"
  by (induction ps) (auto split: if_splits, metis One_nat_def Suc_pred length_pos_if_in_set)

lemma entry_at_free: "x \<noteq> e \<Longrightarrow> entry_at (pmksa_cache_free_entry c e) x = entry_at c x"
  by (simp add: entry_at_def pmksa_cache_free_entry_def Let_def)

text \<open>Freeing keeps the invariant whether or not the head was unlinked by the caller before.\<close>

lemma free_entry_inv:
  assumes i: "cache_inv c" and e: "e \<in> set (pmksa c)" and l: "ps = unlink e (pmksa c) \<or> ps = pmksa c"
  shows "cache_inv (pmksa_cache_free_entry (c\<lparr>pmksa := ps\<rparr>) e)"
proof -
  let ?f = "pmksa_cache_free_entry (c\<lparr>pmksa := ps\<rparr>) e"
  have d: "distinct (pmksa c)" using i by (simp add: cache_inv_def)
  have ps: "unlink e ps = unlink e (pmksa c)"
    using l d by (auto simp: unlink_set unlink_distinct intro!: unlink_absent)
  have at: "entry_at ?f x = entry_at c x" if "x \<noteq> e" for x
    using entry_at_free [OF that] by (simp add: entry_at_def)
  have h: "hash ?f h = (if h = PMKID_HASH (pmkid (entry_at c e)) then unlink e (hash c h) else hash c h)" for h
    by (simp add: pmksa_cache_free_entry_def Let_def entry_at_def)
  have "map (expires ?f) (pmksa ?f) = map (expires c) (unlink e (pmksa c))"
    using d at by (simp add: ps expires_def unlink_set)
  moreover have "sorted (map (expires c) (unlink e (pmksa c)))"
    using i d by (simp add: cache_inv_def unlink_sorted)
  ultimately have "sorted (map (expires ?f) (pmksa ?f))" by (simp only:)
  moreover have "distinct (hash ?f k)" for k using i by (simp add: h cache_inv_def unlink_distinct)
  moreover have "set (hash ?f k) = {x \<in> set (pmksa ?f). PMKID_HASH (pmkid (entry_at ?f x)) = k}" for k
  proof -
    have "hash c k = hash c k" "set (hash c k) = {x \<in> set (pmksa c). PMKID_HASH (pmkid (entry_at c x)) = k}"
      "distinct (hash c k)" using i by (simp_all add: cache_inv_def)
    then show ?thesis using d e at by (cases "k = PMKID_HASH (pmkid (entry_at c e))") (auto simp: h unlink_set ps, metis+)
  qed
  moreover have "{a. ent ?f a \<noteq> None} = set (pmksa ?f)"
    using i d by (auto simp: ps cache_inv_def unlink_set pmksa_cache_free_entry_def Let_def)
  moreover have "pmksa_count ?f = int (length (pmksa ?f))"
  proof -
    have "length (pmksa c) > 0" using e by auto
    moreover have "pmksa_count ?f = pmksa_count c - 1" by (simp add: pmksa_cache_free_entry_def Let_def)
    moreover have "pmksa_count c = int (length (pmksa c))" using i by (simp only: cache_inv_def)
    moreover have "length (pmksa ?f) = length (pmksa c) - 1" by (simp add: ps unlink_length_in [OF e])
    ultimately show ?thesis by linarith
  qed
  moreover have "distinct (pmksa ?f)" using d by (simp add: ps unlink_distinct)
  ultimately show ?thesis unfolding cache_inv_def by blast
qed

lemma free_inv: "cache_inv c \<Longrightarrow> e \<in> set (pmksa c) \<Longrightarrow> cache_inv (pmksa_cache_free_entry c e)"
  using free_entry_inv [of c e "pmksa c"] by simp


lemma insert_set [simp]: "set (insert_by_expiration ex e t ps) = insert e (set ps)"
  by (induction ps) auto

lemma insert_distinct: "distinct ps \<Longrightarrow> e \<notin> set ps \<Longrightarrow> distinct (insert_by_expiration ex e t ps)"
  by (induction ps) auto

lemma insert_length [simp]: "length (insert_by_expiration ex e t ps) = Suc (length ps)"
  by (induction ps) auto

lemma insert_sorted: "sorted (map f ps) \<Longrightarrow> f e = t \<Longrightarrow> (\<And>x. x \<in> set ps \<Longrightarrow> ex x = f x) \<Longrightarrow>
    sorted (map f (insert_by_expiration ex e t ps))"
  by (induction ps) (fastforce simp: not_less)+

lemma link_entry_at: "entry_at (pmksa_cache_link_entry a e c) x = (if x = a then e else entry_at c x)"
  by (simp add: pmksa_cache_link_entry_def Let_def entry_at_def)

lemma link_inv:
  assumes i: "cache_inv c" and a: "ent c a = None"
  shows "cache_inv (pmksa_cache_link_entry a e c)"
proof -
  let ?l = "pmksa_cache_link_entry a e c"
  have "set (pmksa c) = {a. ent c a \<noteq> None}" using i by (simp only: cache_inv_def)
  then have n: "a \<notin> set (pmksa c)" using a by simp
  have l: "pmksa ?l = insert_by_expiration (\<lambda>p. expiration (entry_at c p)) a (expiration e) (pmksa c)"
    by (simp add: pmksa_cache_link_entry_def Let_def)
  have h: "hash ?l k = (if k = PMKID_HASH (pmkid e) then a # hash c k else hash c k)" for k
    by (simp add: pmksa_cache_link_entry_def Let_def)
  have "sorted (map (expires ?l) (pmksa ?l))"
  proof -
    have "map (expires ?l) (pmksa c) = map (expires c) (pmksa c)"
      using n by (auto simp: expires_def link_entry_at)
    moreover have "sorted (map (expires c) (pmksa c))" using i by (simp only: cache_inv_def)
    ultimately have "sorted (map (expires ?l) (pmksa c))" by (simp only:)
    then show ?thesis
      using n unfolding l by (intro insert_sorted) (auto simp: expires_def link_entry_at)
  qed
  moreover have "set (hash ?l k) = {x \<in> set (pmksa ?l). PMKID_HASH (pmkid (entry_at ?l x)) = k}" for k
    using i n by (auto simp: h l link_entry_at cache_inv_def)
  moreover have "distinct (hash ?l k)" for k
    using i n by (auto simp: h cache_inv_def)
  moreover have "{x. ent ?l x \<noteq> None} = set (pmksa ?l)"
    using i by (auto simp: l cache_inv_def pmksa_cache_link_entry_def Let_def)
  moreover have "pmksa_count ?l = int (length (pmksa ?l))"
    using i by (simp add: l cache_inv_def) (simp add: pmksa_cache_link_entry_def Let_def)
  ultimately show ?thesis using i n by (simp add: cache_inv_def l insert_distinct)
qed

lemma find_in: "List.find P xs = Some x \<Longrightarrow> x \<in> set xs \<and> P x"
  by (induction xs) (auto split: if_splits)

lemma get_in_list: "cache_inv c \<Longrightarrow> pmksa_cache_auth_get c s p = Some e \<Longrightarrow> e \<in> set (pmksa c) \<and> matches c s p e"
  by (auto simp: pmksa_cache_auth_get_def cache_inv_def dest!: find_in split: option.splits)

lemma free_ent_other: "x \<noteq> e \<Longrightarrow> ent (pmksa_cache_free_entry c e) x = ent c x"
  "ent c x = None \<Longrightarrow> ent (pmksa_cache_free_entry c e) x = None"
  by (simp_all add: pmksa_cache_free_entry_def Let_def)

text \<open>What \<^verbatim>\<open>pmksa_cache_auth_add\<close> removes before it links the new entry.\<close>

definition make_room :: "u8 list \<Rightarrow> rsn_pmksa_cache \<Rightarrow> rsn_pmksa_cache" where
  "make_room s c =
     (let c1 = (case pmksa_cache_auth_get c (Some s) None of
                  Some pos \<Rightarrow> pmksa_cache_free_entry c pos | None \<Rightarrow> c)
      in if pmksa_count c1 \<ge> pmksa_cache_max_entries \<and> pmksa c1 \<noteq> []
         then pmksa_cache_free_entry c1 (hd (pmksa c1)) else c1)"

lemma make_room_inv: "cache_inv c \<Longrightarrow> cache_inv (make_room s c)"
  using get_in_list [of c "Some s" None]
  by (auto simp: make_room_def Let_def intro!: free_inv split: option.splits)

lemma make_room_ent: "ent c a = None \<Longrightarrow> ent (make_room s c) a = None"
  by (auto simp: make_room_def Let_def free_ent_other split: option.splits)

lemma add_shape:
  "length key \<le> 32 \<Longrightarrow> \<exists>e. snd (pmksa_cache_auth_add kd now (Some a) mem key aa sta st eapol m c) =
     pmksa_cache_link_entry a e (make_room sta c) \<and> spa e = sta \<and> pmk e = key \<and>
     pmkid e = kd key aa sta (wpa_key_mgmt_sha256 m) \<and>
     expiration e = s32 (now + (if st > 0 then st else dot11RSNAConfigPMKLifetime))"
  by (auto simp: pmksa_cache_auth_add_def Let_def make_room_def pmksa_cache_from_eapol_data_def
      split: option.splits)

lemma add_inv:
  "cache_inv c \<Longrightarrow> (\<And>a. new = Some a \<Longrightarrow> ent c a = None) \<Longrightarrow>
   cache_inv (snd (pmksa_cache_auth_add kd now new mem key aa sta st eapol m c))"
proof (cases "length key \<le> 32 \<and> new \<noteq> None")
  case True
  assume c: "cache_inv c" and n: "\<And>a. new = Some a \<Longrightarrow> ent c a = None"
  from True obtain a where a: "new = Some a" "length key \<le> 32" by auto
  show ?thesis
    using add_shape [OF a(2), of kd now a mem aa sta st eapol m c] link_inv [OF make_room_inv [OF c] make_room_ent [OF n [OF a(1)]]]
    by (auto simp: a(1))
qed (auto simp: pmksa_cache_auth_add_def)

lemma add_okc_inv:
  "cache_inv c \<Longrightarrow> (\<And>a. new = Some a \<Longrightarrow> ent c a = None) \<Longrightarrow> cache_inv (snd (pmksa_cache_add_okc new mem old p c))"
  by (auto simp: pmksa_cache_add_okc_def Let_def intro!: link_inv split: option.split)

lemma cache_inv_timer [simp]: "cache_inv (c\<lparr>timer := t\<rparr>) = cache_inv c"
  by (simp add: cache_inv_def entry_at_def expires_def [abs_def])

lemma set_expiration_inv [simp]: "cache_inv (pmksa_cache_set_expiration now c) = cache_inv c"
  by (simp add: pmksa_cache_set_expiration_def Let_def split: list.split)

lemma expire_loop_inv: "cache_inv c \<Longrightarrow> cache_inv (expire_loop now c) \<and>
   (\<forall>e \<in> set (pmksa (expire_loop now c)). now < expires (expire_loop now c) e)"
proof (induction now c rule: expire_loop.induct)
  case (1 now c)
  show ?case
  proof (cases "pmksa c")
    case Nil
    then show ?thesis using 1(2) by (simp add: expire_loop.simps)
  next
    case (Cons e rest)
    show ?thesis
    proof (cases "expiration (entry_at c e) \<le> now")
      case True
      have "cache_inv (pmksa_cache_free_entry (c\<lparr>pmksa := rest\<rparr>) e)"
        using 1(2) by (intro free_entry_inv) (auto simp: Cons)
      then show ?thesis using 1(1) Cons True expire_loop.simps [of now c] by simp
    next
      case False
      then have "expire_loop now c = c" using expire_loop.simps [of now c] Cons by simp
      then show ?thesis using 1(2) False Cons by (auto simp: cache_inv_def expires_def)
    qed
  qed
qed

lemma expire_inv: "cache_inv c \<Longrightarrow> cache_inv (pmksa_cache_expire now c)"
  using expire_loop_inv by (simp add: pmksa_cache_expire_def)


subsection \<open>Runs of the cache\<close>

text \<open>
  The operations hostapd applies, with the addresses the allocator returns. The allocator never
  returns the address of a live entry; an operation that breaks this is not a behaviour of the program and is skipped. The event loop calls
  \<^verbatim>\<open>pmksa_cache_expire\<close> only when it is registered.
\<close>

datatype cache_op =
    Add int "addr option" bool "u8 list" "u8 list" "u8 list" int "eapol_ident option" nat
  | AddOkc "addr option" bool pmksa_entry "u8 list"
  | FireTimer int

definition fresh :: "rsn_pmksa_cache \<Rightarrow> addr option \<Rightarrow> bool" where
  "fresh c new = (case new of None \<Rightarrow> True | Some a \<Rightarrow> ent c a = None)"

fun cache_apply :: "pmkid_fun \<Rightarrow> cache_op \<Rightarrow> rsn_pmksa_cache \<Rightarrow> rsn_pmksa_cache" where
  "cache_apply kd (Add now new mem key aa sta st eapol m) c =
     (if fresh c new then snd (pmksa_cache_auth_add kd now new mem key aa sta st eapol m c) else c)"
| "cache_apply kd (AddOkc new mem old p) c =
     (if fresh c new then snd (pmksa_cache_add_okc new mem old p c) else c)"
| "cache_apply kd (FireTimer now) c = (if timer c \<noteq> None then pmksa_cache_expire now c else c)"

definition empty_cache :: rsn_pmksa_cache where
  "empty_cache = the (pmksa_cache_auth_init True)"

lemma empty_cache_simps [simp]:
  "ent empty_cache = (\<lambda>a. None)" "pmksa empty_cache = []" "hash empty_cache = (\<lambda>h. [])"
  "pmksa_count empty_cache = 0" "timer empty_cache = None"
  by (simp_all add: empty_cache_def pmksa_cache_auth_init_def)

lemma cache_apply_inv: "cache_inv c \<Longrightarrow> cache_inv (cache_apply kd op c)"
proof (cases op)
  case (Add now new mem key aa sta st eapol m)
  then show "cache_inv c \<Longrightarrow> ?thesis"
    using add_inv [of c new] by (cases new) (simp_all add: fresh_def)
next
  case (AddOkc new mem old p)
  then show "cache_inv c \<Longrightarrow> ?thesis"
    using add_okc_inv [of c new] by (cases new) (simp_all add: fresh_def)
qed (simp add: expire_inv)

interpretation pmksa_machine: machine "cache_apply kd" cache_inv for kd
  by unfold_locales (rule cache_apply_inv)

definition cache_run :: "pmkid_fun \<Rightarrow> cache_op list \<Rightarrow> rsn_pmksa_cache" where
  "cache_run kd ops = fold (cache_apply kd) ops empty_cache"

lemma cache_run_inv: "cache_inv (cache_run kd ops)"
  unfolding cache_run_def by (rule pmksa_machine.run_inv) (simp add: cache_inv_def)

subsection \<open>Properties\<close>

text \<open>
  C14: at every moment the two linked structures hold the same entries: the list has no repetition, is
  ordered by expiration and consists of the live entries; the chain of a hash value consists of the
  live entries whose PMKID has that value; the counter is the length of the list.
\<close>

theorem cache_structures_agree:
  "let c = cache_run kd ops in
     distinct (pmksa c) \<and> sorted (map (expires c) (pmksa c)) \<and> {a. ent c a \<noteq> None} = set (pmksa c) \<and>
     (\<forall>h. distinct (hash c h) \<and> set (hash c h) = {e \<in> set (pmksa c). PMKID_HASH (pmkid (entry_at c e)) = h}) \<and>
     pmksa_count c = int (length (pmksa c))"
  using cache_run_inv [of kd ops] unfolding cache_inv_def Let_def by blast

text \<open>
  C19: a lookup succeeds exactly when some live entry matches, whether it goes through the hash chain
  (PMKID given) or the list, and what it returns is live and matches.
\<close>

theorem get_complete:
  "case pmksa_cache_auth_get (cache_run kd ops) s p of
     None \<Rightarrow> \<not> (\<exists>e. ent (cache_run kd ops) e \<noteq> None \<and> matches (cache_run kd ops) s p e)
   | Some e \<Rightarrow> ent (cache_run kd ops) e \<noteq> None \<and> matches (cache_run kd ops) s p e"
proof -
  let ?c = "cache_run kd ops"
  have i: "cache_inv ?c" by (rule cache_run_inv)
  have live: "ent ?c e \<noteq> None \<longleftrightarrow> e \<in> set (pmksa ?c)" for e
    using i unfolding cache_inv_def by blast
  show ?thesis
  proof (cases "pmksa_cache_auth_get ?c s p")
    case None
    then have "\<not> matches ?c s p e" if "e \<in> set (case p of Some p' \<Rightarrow> hash ?c (PMKID_HASH p') | None \<Rightarrow> pmksa ?c)" for e
      using that by (auto simp: pmksa_cache_auth_get_def find_None_iff split: option.splits)
    moreover have "e \<in> set (hash ?c (PMKID_HASH p'))" if "p = Some p'" "e \<in> set (pmksa ?c)" "matches ?c s p e" for e p'
      using that i by (simp add: cache_inv_def matches_def)
    ultimately have "\<not> matches ?c s p e" if "e \<in> set (pmksa ?c)" for e
      using that by (cases p) (metis option.case(1), metis option.case(2))
    then show ?thesis using None live by auto
  next
    case (Some e)
    then show ?thesis using get_in_list [OF i Some] live by simp
  qed
qed

text \<open>
  An entry that has just been added is the one a station's PMKID selects, with the key that was
  added, also when older entries have the same hash value or the same PMKID.
\<close>

theorem add_then_get:
  assumes "length key \<le> 32" and "ent (cache_run kd ops) a = None"
  shows "let c' = snd (pmksa_cache_auth_add kd now (Some a) mem key aa sta st eapol m (cache_run kd ops)) in
    pmksa_cache_auth_get c' (Some sta) (Some (kd key aa sta (wpa_key_mgmt_sha256 m))) = Some a \<and>
    pmk (entry_at c' a) = key \<and>
    expiration (entry_at c' a) = s32 (now + (if st > 0 then st else dot11RSNAConfigPMKLifetime))"
proof -
  define c' where "c' = snd (pmksa_cache_auth_add kd now (Some a) mem key aa sta st eapol m (cache_run kd ops))"
  obtain e where e: "c' = pmksa_cache_link_entry a e (make_room sta (cache_run kd ops))" "spa e = sta" "pmk e = key"
    "pmkid e = kd key aa sta (wpa_key_mgmt_sha256 m)"
    "expiration e = s32 (now + (if st > 0 then st else dot11RSNAConfigPMKLifetime))"
    using add_shape [OF assms(1)] unfolding c'_def by metis
  have "hash c' (PMKID_HASH (pmkid e)) = a # hash (make_room sta (cache_run kd ops)) (PMKID_HASH (pmkid e))"
    by (simp add: e(1) pmksa_cache_link_entry_def Let_def)
  moreover have "entry_at c' a = e" by (simp add: e(1) link_entry_at)
  ultimately show ?thesis using e unfolding c'_def [symmetric] Let_def
    by (simp add: pmksa_cache_auth_get_def matches_def)
qed

theorem add_then_get_witness:
  "pmksa_cache_auth_get (snd (pmksa_cache_auth_add (\<lambda>k a s h. k) 100 (Some 7) True (replicate 32 1) [0,0,0,0,0,1]
      [0,0,0,0,0,2] 0 None 1 (cache_run (\<lambda>k a s h. k) []))) (Some [0,0,0,0,0,2]) (Some (replicate 32 1)) = Some 7"
  using add_then_get [of "replicate 32 1" "\<lambda>k a s h. k" "[]" 7 100 True "[0,0,0,0,0,1]" "[0,0,0,0,0,2]" 0 None 1]
  by (simp add: cache_run_def Let_def)

lemma unlink_subset: "set (unlink e ps) \<subseteq> set ps"
  by (induction ps) auto

text \<open>
  The expiry handler frees exactly the entries whose time has come and leaves the others as they
  are, although it only looks at the head of the list.
\<close>

theorem expire_exact:
  "ent (pmksa_cache_expire now (cache_run kd ops)) a =
     (case ent (cache_run kd ops) a of
        Some e \<Rightarrow> if expiration e \<le> now then None else Some e
      | None \<Rightarrow> None)"
proof -
  have e: "ent (pmksa_cache_expire now c) a = ent (expire_loop now c) a" for c
    by (simp add: pmksa_cache_expire_def pmksa_cache_set_expiration_def Let_def split: list.split)
  have "cache_inv c \<Longrightarrow> ent (expire_loop now c) a =
     (case ent c a of Some e \<Rightarrow> if expiration e \<le> now then None else Some e | None \<Rightarrow> None)" for c
  proof (induction now c rule: expire_loop.induct)
    case (1 now c)
    have live: "ent c x \<noteq> None \<longleftrightarrow> x \<in> set (pmksa c)" for x using 1(2) unfolding cache_inv_def by blast
    show ?case
    proof (cases "pmksa c")
      case Nil
      then show ?thesis using live [of a] by (simp add: expire_loop.simps)
    next
      case (Cons h rest)
      show ?thesis
      proof (cases "expiration (entry_at c h) \<le> now")
        case True
        let ?f = "pmksa_cache_free_entry (c\<lparr>pmksa := rest\<rparr>) h"
        have "cache_inv ?f" using 1(2) by (intro free_entry_inv) (auto simp: Cons)
        then have "ent (expire_loop now ?f) a =
          (case ent ?f a of Some e \<Rightarrow> if expiration e \<le> now then None else Some e | None \<Rightarrow> None)"
          using 1(1) Cons True by blast
        moreover have "expire_loop now c = expire_loop now ?f"
          using expire_loop.simps [of now c] Cons True by simp
        moreover have "ent ?f a = (if a = h then None else ent c a)"
          by (simp add: pmksa_cache_free_entry_def Let_def)
        ultimately show ?thesis
          using True live [of h] Cons by (auto simp: entry_at_def split: option.split)
      next
        case False
        have "now < expires c x" if "x \<in> set (pmksa c)" for x
          using that False 1(2) Cons by (auto simp: cache_inv_def expires_def)
        then have "now < expiration x" if "ent c a = Some x" for x
          using that live [of a] by (metis entry_at_def expires_def option.distinct(1) option.sel)
        moreover have "expire_loop now c = c" using expire_loop.simps [of now c] Cons False by simp
        ultimately show ?thesis by (auto split: option.split)
      qed
    qed
  qed
  then show ?thesis using cache_run_inv e by metis
qed

lemma timer_kept [simp]:
  "timer (pmksa_cache_free_entry c e) = timer c" "timer (pmksa_cache_link_entry a x c) = timer c"
  by (simp_all add: pmksa_cache_free_entry_def pmksa_cache_link_entry_def Let_def)

lemma cache_run_timer: "timer (cache_run kd ops) = None"
proof -
  have "timer (snd (pmksa_cache_auth_add kd n new mem key aa sta st eapol m c)) = timer c" for n new mem key aa sta st eapol m c
    by (simp add: pmksa_cache_auth_add_def Let_def split: option.split)
  moreover have "timer (snd (pmksa_cache_add_okc new mem old p c)) = timer c" for new mem old p c
    by (simp add: pmksa_cache_add_okc_def Let_def split: option.split)
  ultimately have "timer c = None \<Longrightarrow> timer (cache_apply kd op c) = None" for op c
    by (cases op) simp_all
  then have "timer c = None \<Longrightarrow> timer (fold (cache_apply kd) ops c) = None" for c
    by (induction ops arbitrary: c) auto
  then show ?thesis by (simp add: cache_run_def)
qed

text \<open>
  The expiry handler is never registered. \<^verbatim>\<open>pmksa_cache_set_expiration\<close> is called from the handler
  alone, so after any sequence of operations no timer is armed, a timer event does nothing, and
  entries stay usable past their expiration.
\<close>

theorem expiry_never_armed:
  "timer (cache_run kd ops) = None \<and> cache_run kd (ops @ [FireTimer now]) = cache_run kd ops"
  using cache_run_timer by (simp add: cache_run_def)

definition okc_hit :: "pmkid_fun \<Rightarrow> rsn_pmksa_cache \<Rightarrow> u8 list \<Rightarrow> u8 list \<Rightarrow> u8 list \<Rightarrow> addr \<Rightarrow> bool" where
  "okc_hit kd c aa s p e = (kd (pmk (entry_at c e)) aa s (wpa_key_mgmt_sha256 (akmp (entry_at c e))) = p)"

lemma okc_stuck:
  assumes "spa (entry_at c e) \<noteq> s"
  shows "okc_loop kd c aa s p (e # rest) = None"
proof -
  have "es \<noteq> [] \<longrightarrow> spa (entry_at c (hd es)) = s" if "okc_loop kd c aa s p es = Some r" for es r
  proof (rule okc_loop.raw_induct
      [where P = "\<lambda>kd c aa s p es r. es \<noteq> [] \<longrightarrow> spa (entry_at c (hd es)) = s", OF _ that])
    fix loop kd c aa s p es r
    assume IH: "\<And>kd c aa s p es r. loop kd c aa s p es = Some r \<Longrightarrow> es \<noteq> [] \<longrightarrow> spa (entry_at c (hd es)) = s"
      and b: "(case es of [] \<Rightarrow> Some None
        | e # rest \<Rightarrow> if spa (entry_at c e) \<noteq> s then loop kd c aa s p es
            else if kd (pmk (entry_at c e)) aa s (wpa_key_mgmt_sha256 (akmp (entry_at c e))) = p then Some (Some e)
            else loop kd c aa s p rest) = Some r"
    show "es \<noteq> [] \<longrightarrow> spa (entry_at c (hd es)) = s"
    proof (cases es)
      case (Cons e rest)
      then have "spa (entry_at c e) \<noteq> s \<Longrightarrow> loop kd c aa s p es = Some r" using b by simp
      then show ?thesis using IH [of kd c aa s p es r] Cons by auto
    qed simp
  qed
  then show ?thesis using assms by (cases "okc_loop kd c aa s p (e # rest)") fastforce+
qed

text \<open>
  C24: as long as no entry of another station comes before the answer, the opportunistic lookup
  returns the first entry of the list whose key gives the PMKID, or NULL when there is none; at the
  first entry of another station it loops forever, because the loop's \<^verbatim>\<open>continue\<close> does not move to
  the next entry.
\<close>

theorem get_okc_returns_iff:
  "pmksa_cache_get_okc kd c aa s p =
     (if set (takeWhile (\<lambda>e. \<not> (spa (entry_at c e) = s \<and> okc_hit kd c aa s p e)) (pmksa c)) \<subseteq>
         {e. spa (entry_at c e) = s}
      then Some (List.find (\<lambda>e. okc_hit kd c aa s p e) (pmksa c)) else None)"
proof -
  have "okc_loop kd c aa s p es =
     (if set (takeWhile (\<lambda>e. \<not> (spa (entry_at c e) = s \<and> okc_hit kd c aa s p e)) es) \<subseteq>
         {e. spa (entry_at c e) = s}
      then Some (List.find (\<lambda>e. okc_hit kd c aa s p e) es) else None)" for es
  proof (induction es)
    case Nil
    then show ?case by (simp add: okc_loop.simps)
  next
    case (Cons e es)
    show ?case
    proof (cases "spa (entry_at c e) = s")
      case True
      have "okc_loop kd c aa s p (e # es) =
          (if okc_hit kd c aa s p e then Some (Some e) else okc_loop kd c aa s p es)"
        using True by (subst okc_loop.simps) (simp add: okc_hit_def)
      then show ?thesis using Cons True by (auto simp: subset_iff)
    next
      case False
      then show ?thesis by (simp add: okc_stuck)
    qed
  qed
  then show ?thesis by (simp add: pmksa_cache_get_okc_def)
qed

definition is_okc :: "cache_op \<Rightarrow> bool" where
  "is_okc op = (case op of AddOkc _ _ _ _ \<Rightarrow> True | _ \<Rightarrow> False)"

lemma free_count [simp]: "pmksa_count (pmksa_cache_free_entry c e) = pmksa_count c - 1"
  by (simp add: pmksa_cache_free_entry_def Let_def)

lemma make_room_count:
  "cache_inv c \<Longrightarrow> pmksa_count c \<le> pmksa_cache_max_entries \<Longrightarrow> pmksa_count (make_room s c) < pmksa_cache_max_entries"
proof -
  assume c: "cache_inv c" "pmksa_count c \<le> pmksa_cache_max_entries"
  have "pmksa c = [] \<Longrightarrow> pmksa_count c = 0" using c(1) by (simp add: cache_inv_def)
  then show ?thesis
    using c(2) by (auto simp: make_room_def Let_def pmksa_cache_max_entries_def split: option.splits)
qed

text \<open>
  Additions for full authentications never take the cache beyond 1024 entries.
\<close>

theorem full_auth_entries_bounded:
  assumes "list_all (\<lambda>op. \<not> is_okc op) ops"
  shows "pmksa_count (cache_run kd ops) \<le> 1024"
proof -
  have step: "cache_inv c \<and> pmksa_count c \<le> 1024 \<Longrightarrow> \<not> is_okc op \<Longrightarrow> timer c = None \<Longrightarrow>
      pmksa_count (cache_apply kd op c) \<le> 1024" for c op
  proof (cases op)
    case (Add n new mem key aa sta st eapol m)
    assume c: "cache_inv c \<and> pmksa_count c \<le> 1024"
    then have "pmksa_count (make_room sta c) < 1024"
      using make_room_count [of c sta] by (simp add: pmksa_cache_max_entries_def)
    then have "pmksa_count (pmksa_cache_link_entry a e (make_room sta c)) \<le> 1024" for a e
      by (simp add: pmksa_cache_link_entry_def Let_def)
    moreover have "\<exists>e. snd (pmksa_cache_auth_add kd n (Some a) mem key aa sta st eapol m c) =
        pmksa_cache_link_entry a e (make_room sta c)" if "length key \<le> 32" for a
      using add_shape [OF that] by metis
    moreover have "snd (pmksa_cache_auth_add kd n new mem key aa sta st eapol m c) = c"
      if "length key > 32 \<or> new = None"
      using that by (auto simp: pmksa_cache_auth_add_def)
    ultimately have "pmksa_count (snd (pmksa_cache_auth_add kd n new mem key aa sta st eapol m c)) \<le> 1024"
      using c by (metis not_le option.exhaust)
    then show ?thesis using c by (simp add: Add)
  qed (auto simp: is_okc_def)
  have "pmksa_count (cache_run kd ops) \<le> 1024"
    using assms
  proof (induction ops rule: rev_induct)
    case (snoc op ops)
    have "cache_run kd (ops @ [op]) = cache_apply kd op (cache_run kd ops)" by (simp add: cache_run_def)
    then show ?case using snoc step [of "cache_run kd ops" op] cache_run_inv cache_run_timer by simp
  qed (simp add: cache_run_def)
  then show ?thesis .
qed

theorem full_auth_entries_bounded_witness:
  "pmksa_count (cache_run (\<lambda>k a s h. k) [Add 100 (Some 1) True [1] [] [0,0,0,0,0,2] 0 None 1,
     Add 101 (Some 2) True [2] [] [0,0,0,0,0,3] 60 None 1, FireTimer 200]) \<le> 1024"
  by (rule full_auth_entries_bounded) (simp add: is_okc_def)

end
