(* ===== verification/WpaAuth.thy ===== *)
theory WpaAuth
  imports WpaEapol PmksaCache
begin

unbundle bit_operations_syntax

section \<open>The WPA authenticator: state and state machines (\<^verbatim>\<open>src/ap/wpa_auth.c\<close>, \<^verbatim>\<open>src/ap/wpa_auth_i.h\<close>)\<close>

text \<open>
  The four-way handshake and the group key handshake of the access point: for each station the two
  machines \<^verbatim>\<open>WPA_PTK\<close> and \<^verbatim>\<open>WPA_PTK_GROUP\<close>, for each VLAN a group machine, and the loop
  \<^verbatim>\<open>wpa_sm_step\<close> that runs them. A station is a number \<open>i\<close>: \<open>w_sm w i\<close> is its \<^verbatim>\<open>struct wpa_state_machine\<close>
  while \<open>w_live w i\<close>; a group is a number too, \<open>0\<close> is \<^verbatim>\<open>wpa_auth->group\<close>, and \<open>w_groups\<close> is the chain of
  \<^verbatim>\<open>next\<close> pointers; \<open>w_stas\<close> is the station list \<^verbatim>\<open>for_each_sta\<close> walks.

  What the code asks of the outside (random bytes, the clock, allocation, the answers of the
  callbacks) is the record \<open>wpa_env\<close>: the answer to a question is a function of how many questions were
  asked before, so the outside may answer anything at any time. What the code tells the outside, and the
  frames it is given, are the log \<open>w_log\<close>. The callbacks do not call back (\<^verbatim>\<open>src/ap/wpa_auth_glue.c\<close>):
  they set flags and register timeouts. The configuration is the deployed one (\<^verbatim>\<open>hostapd/.config\<close>: no
  802.11r, 802.11w, PeerKey or pre-authentication); log messages are left out.
\<close>

subsection \<open>State\<close>

datatype wpa_ptk_state = WPA_PTK_INITIALIZE | WPA_PTK_DISCONNECT | WPA_PTK_DISCONNECTED | WPA_PTK_AUTHENTICATION
  | WPA_PTK_AUTHENTICATION2 | WPA_PTK_INITPMK | WPA_PTK_INITPSK | WPA_PTK_PTKSTART | WPA_PTK_PTKCALCNEGOTIATING
  | WPA_PTK_PTKCALCNEGOTIATING2 | WPA_PTK_PTKINITNEGOTIATING | WPA_PTK_PTKINITDONE

datatype wpa_ptk_group_state = WPA_PTK_GROUP_IDLE | WPA_PTK_GROUP_REKEYNEGOTIATING | WPA_PTK_GROUP_REKEYESTABLISHED
  | WPA_PTK_GROUP_KEYERROR

datatype wpa_group_state = WPA_GROUP_GTK_INIT | WPA_GROUP_SETKEYS | WPA_GROUP_SETKEYSDONE

datatype wpa_version = WPA_VERSION_NO_WPA | WPA_VERSION_WPA | WPA_VERSION_WPA2

datatype wpa_eapol_variable = WPA_EAPOL_portEnabled | WPA_EAPOL_portValid | WPA_EAPOL_authorized
  | WPA_EAPOL_portControl_Auto | WPA_EAPOL_keyRun | WPA_EAPOL_keyAvailable | WPA_EAPOL_keyDone
  | WPA_EAPOL_inc_EapolFramesTx

datatype wpa_alg = WPA_ALG_NONE | WPA_ALG_WEP | WPA_ALG_TKIP | WPA_ALG_CCMP

text \<open>\<^verbatim>\<open>key_replay\<close> is the array of counters with their \<^verbatim>\<open>valid\<close> flags.\<close>

record wpa_state_machine =
  sm_addr :: "u8 list"
  sm_group :: nat
  wpa_ptk_state :: wpa_ptk_state
  wpa_ptk_group_state :: wpa_ptk_group_state
  Init :: bool
  DeauthenticationRequest :: bool
  AuthenticationRequest :: bool
  ReAuthenticationRequest :: bool
  Disconnect :: bool
  TimeoutCtr :: int
  GTimeoutCtr :: int
  TimeoutEvt :: bool
  EAPOLKeyReceived :: bool
  EAPOLKeyPairwise :: bool
  EAPOLKeyRequest :: bool
  MICVerified :: bool
  GUpdateStationKeys :: bool
  ANonce :: "u8 list"
  SNonce :: "u8 list"
  PMK :: "u8 list"
  PTK :: wpa_ptk
  PTK_valid :: bool
  pairwise_set :: bool
  keycount :: int
  sm_Pair :: bool
  key_replay :: "(u8 list \<times> bool) list"
  PInitAKeys :: bool
  PTKRequest :: bool
  has_GTK :: bool
  PtkGroupInit :: bool
  last_rx_eapol_key :: "u8 list option"
  sm_changed :: bool
  in_step_loop :: bool
  pending_deinit :: bool
  sm_started :: bool
  mgmt_frame_prot :: bool
  req_replay_counter :: "u8 list"
  req_replay_counter_used :: bool
  sm_wpa_ie :: "u8 list option"
  sm_wpa :: wpa_version
  sm_pairwise :: u32
  sm_key_mgmt :: u32
  sm_pmksa :: "nat option"
  sm_LocalMICFailures :: u32
  sm_RemoteMICFailures :: u32
  pending_1_of_4_timeout :: bool

record wpa_group =
  g_vlan_id :: int
  GInit :: bool
  GKeyDoneStations :: int
  GTKReKey :: bool
  GTK_len :: nat
  GN :: nat
  GM :: nat
  GTKAuthenticator :: bool
  g_Counter :: "u8 list"
  wpa_group_state :: wpa_group_state
  GMK :: "u8 list"
  GTK :: "u8 list list"
  GNonce :: "u8 list"
  g_changed :: bool
  first_sta_seen :: bool
  reject_4way_hs_for_entropy :: bool

record wpa_authenticator =
  a_RemoteMICFailures :: u32
  AuthenticationSuiteSelected :: u32
  PairwiseCipherSelected :: u32
  GroupCipherSelected :: u32
  PMKIDUsed :: "u8 list"
  CounterMeasuresInvoked :: u32
  FourWayHandshakeFailures :: u32
  a_conf :: wpa_auth_config
  a_wpa_ie :: "u8 list option"
  a_addr :: "u8 list"
  a_pmksa :: rsn_pmksa_cache

text \<open>The timeouts of the authenticator, and what passes between it and the outside.\<close>

datatype wpa_timer = SendEapolTimeout nat | SmCallStep nat | RekeyPtk nat | RekeyGtk | RekeyGmk | CountermeasuresStop

datatype wpa_log =
    Received "u8 list" "u8 list"
  | SetEapol "u8 list" wpa_eapol_variable int
  | SendEapol "u8 list" "u8 list" bool
  | SetKey int wpa_alg "u8 list" nat "u8 list"
  | DisconnectSta "u8 list"
  | DeauthSta "u8 list"
  | SetCountermeasures bool
  | AddRandomness "u8 list"
  | MarkPoolReady
  | RegisterTimeout wpa_timer int int
  | CancelTimeout wpa_timer

text \<open>
  The last three fields are those of \<^verbatim>\<open>struct hostapd_data\<close> that \<^verbatim>\<open>src/ap/tkip_countermeasures.c\<close> uses.
\<close>

record wpa_world =
  w_auth :: wpa_authenticator
  w_group :: "nat \<Rightarrow> wpa_group"
  w_groups :: "nat list"
  w_sm :: "nat \<Rightarrow> wpa_state_machine"
  w_live :: "nat \<Rightarrow> bool"
  w_stas :: "nat list"
  w_calls :: nat
  w_log :: "wpa_log list"
  michael_mic_failure_time :: int
  michael_mic_failures :: int
  tkip_countermeasures :: bool

record hostapd_wpa_psk =
  psk_group :: bool
  psk_key :: "u8 list"
  psk_addr :: "u8 list"

record wpa_env =
  crypto :: wpa_crypto
  psk_list :: "hostapd_wpa_psk list"
  e_random :: "nat \<Rightarrow> nat \<Rightarrow> u8 list \<times> bool"
  e_pool_ready :: "nat \<Rightarrow> bool"
  e_time :: "nat \<Rightarrow> int \<times> int"
  e_group_pointer :: "nat \<Rightarrow> u8 list"
  e_set_key :: "nat \<Rightarrow> int"
  e_get_seqnum :: "nat \<Rightarrow> u8 list option"
  e_get_eapol :: "nat \<Rightarrow> int"
  e_get_msk :: "nat \<Rightarrow> u8 list option"
  e_alloc :: "nat \<Rightarrow> bool"

definition ask :: "(nat \<Rightarrow> 'a) \<Rightarrow> wpa_world \<Rightarrow> 'a \<times> wpa_world" where
  "ask f w = (f (w_calls w), w\<lparr>w_calls := Suc (w_calls w)\<rparr>)"

definition log_out :: "wpa_log \<Rightarrow> wpa_world \<Rightarrow> wpa_world" where
  "log_out x w = w\<lparr>w_log := w_log w @ [x]\<rparr>"

definition upd :: "nat \<Rightarrow> (wpa_state_machine \<Rightarrow> wpa_state_machine) \<Rightarrow> wpa_world \<Rightarrow> wpa_world" where
  "upd i f w = w\<lparr>w_sm := (w_sm w)(i := f (w_sm w i))\<rparr>"

definition updg :: "nat \<Rightarrow> (wpa_group \<Rightarrow> wpa_group) \<Rightarrow> wpa_world \<Rightarrow> wpa_world" where
  "updg g f w = w\<lparr>w_group := (w_group w)(g := f (w_group w g))\<rparr>"

definition upda :: "(wpa_authenticator \<Rightarrow> wpa_authenticator) \<Rightarrow> wpa_world \<Rightarrow> wpa_world" where
  "upda f w = w\<lparr>w_auth := f (w_auth w)\<rparr>"

abbreviation sm_grp :: "nat \<Rightarrow> wpa_world \<Rightarrow> wpa_group" where
  "sm_grp i w \<equiv> w_group w (sm_group (w_sm w i))"

abbreviation conf :: "wpa_world \<Rightarrow> wpa_auth_config" where
  "conf w \<equiv> a_conf (w_auth w)"

abbreviation is_psk :: "wpa_state_machine \<Rightarrow> bool" where
  "is_psk sm \<equiv> wpa_key_mgmt_wpa_psk (sm_key_mgmt sm)"

definition dot11RSNAConfigGroupUpdateCount :: int where "dot11RSNAConfigGroupUpdateCount = 4"
definition dot11RSNAConfigPairwiseUpdateCount :: int where "dot11RSNAConfigPairwiseUpdateCount = 4"

subsection \<open>Callbacks\<close>

definition wpa_auth_set_eapol :: "nat \<Rightarrow> wpa_eapol_variable \<Rightarrow> int \<Rightarrow> wpa_world \<Rightarrow> wpa_world" where
  "wpa_auth_set_eapol i var value w = log_out (SetEapol (sm_addr (w_sm w i)) var value) w"

definition wpa_auth_set_key :: "wpa_env \<Rightarrow> int \<Rightarrow> wpa_alg \<Rightarrow> u8 list \<Rightarrow> nat \<Rightarrow> u8 list \<Rightarrow> wpa_world \<Rightarrow> int \<times> wpa_world" where
  "wpa_auth_set_key e vlan alg addr idx key w =
     (case ask (e_set_key e) w of (r, w1) \<Rightarrow> (r, log_out (SetKey vlan alg addr idx key) w1))"

definition wpa_sta_disconnect :: "nat \<Rightarrow> wpa_world \<Rightarrow> wpa_world" where
  "wpa_sta_disconnect i w = log_out (DisconnectSta (sm_addr (w_sm w i))) w"

definition register_timeout :: "wpa_timer \<Rightarrow> int \<Rightarrow> int \<Rightarrow> wpa_world \<Rightarrow> wpa_world" where
  "register_timeout t sec usec w = log_out (RegisterTimeout t sec usec) w"

definition cancel_timeout :: "wpa_timer \<Rightarrow> wpa_world \<Rightarrow> wpa_world" where
  "cancel_timeout t w = log_out (CancelTimeout t) w"

text \<open>
  \<^verbatim>\<open>hostapd_get_psk\<close> (\<^verbatim>\<open>src/ap/ap_config.c\<close>): the pointer to a key is the position of its entry.
\<close>

fun psk_loop :: "u8 list \<Rightarrow> nat option \<Rightarrow> bool \<Rightarrow> nat \<Rightarrow> hostapd_wpa_psk list \<Rightarrow> nat option" where
  "psk_loop addr prev next_ok k [] = None"
| "psk_loop addr prev next_ok k (p # ps) =
     (if next_ok \<and> (psk_group p \<or> psk_addr p = addr) then Some k
      else psk_loop addr prev (next_ok \<or> prev = Some k) (Suc k) ps)"

definition hostapd_get_psk :: "hostapd_wpa_psk list \<Rightarrow> u8 list \<Rightarrow> nat option \<Rightarrow> nat option" where
  "hostapd_get_psk psks addr prev = psk_loop addr prev (prev = None) 0 psks"

lemma psk_loop_bounds:
  "psk_loop addr prev ok k ps = Some r \<Longrightarrow> (ok \<or> prev = None \<or> k \<le> the prev) \<Longrightarrow>
   k \<le> r \<and> r < k + length ps \<and> (ok \<or> (\<exists>p. prev = Some p \<and> p < r))"
proof (induction ps arbitrary: k ok)
  case (Cons p ps)
  show ?case
  proof (cases "ok \<and> (psk_group p \<or> psk_addr p = addr)")
    case False
    then have r: "psk_loop addr prev (ok \<or> prev = Some k) (Suc k) ps = Some r"
      using Cons.prems(1) False by (auto split: if_splits)
    have "(ok \<or> prev = Some k) \<or> prev = None \<or> Suc k \<le> the prev" using Cons.prems(2) by (cases prev) auto
    from Cons.IH [OF r this] show ?thesis by auto
  qed (use Cons.prems in auto)
qed simp

lemma hostapd_get_psk_advances:
  "hostapd_get_psk psks addr prev = Some r \<Longrightarrow> r < length psks \<and> (case prev of None \<Rightarrow> True | Some p \<Rightarrow> p < r)"
  using psk_loop_bounds [of addr prev "prev = None" 0 psks r] by (auto simp: hostapd_get_psk_def split: option.splits)


subsection \<open>Group keys\<close>

text \<open>\<^verbatim>\<open>random_get_bytes\<close>: the bytes it leaves in the buffer and whether it succeeded.\<close>

definition random_get_bytes :: "wpa_env \<Rightarrow> nat \<Rightarrow> wpa_world \<Rightarrow> (u8 list \<times> bool) \<times> wpa_world" where
  "random_get_bytes e n w = ask (\<lambda>k. e_random e k n) w"

definition ntp_timestamp :: "wpa_env \<Rightarrow> wpa_world \<Rightarrow> u8 list \<times> wpa_world" where
  "ntp_timestamp e w = ask (\<lambda>k. wpa_get_ntp_timestamp (fst (e_time e k)) (snd (e_time e k))) w"

definition wpa_alg_enum :: "u32 \<Rightarrow> wpa_alg" where
  "wpa_alg_enum alg =
     (if alg = WPA_CIPHER_CCMP then WPA_ALG_CCMP
      else if alg = WPA_CIPHER_TKIP then WPA_ALG_TKIP
      else if alg = WPA_CIPHER_WEP104 \<or> alg = WPA_CIPHER_WEP40 then WPA_ALG_WEP
      else WPA_ALG_NONE)"

definition wpa_group_set_key_len :: "u32 \<Rightarrow> wpa_group \<Rightarrow> wpa_group" where
  "wpa_group_set_key_len cipher g =
     (if cipher = WPA_CIPHER_CCMP then g\<lparr>GTK_len := 16\<rparr>
      else if cipher = WPA_CIPHER_TKIP then g\<lparr>GTK_len := 32\<rparr>
      else if cipher = WPA_CIPHER_WEP104 then g\<lparr>GTK_len := 13\<rparr>
      else if cipher = WPA_CIPHER_WEP40 then g\<lparr>GTK_len := 5\<rparr>
      else g)"

definition inc_counter :: "nat \<Rightarrow> wpa_world \<Rightarrow> wpa_world" where
  "inc_counter g = updg g (\<lambda>x. x\<lparr>g_Counter := inc_byte_array (g_Counter x) 32\<rparr>)"

definition wpa_group_init_gmk_and_counter :: "wpa_env \<Rightarrow> nat \<Rightarrow> wpa_world \<Rightarrow> int \<times> wpa_world" where
  "wpa_group_init_gmk_and_counter e g w =
     (let ((r, ok), w1) = random_get_bytes e 32 w;
          w2 = updg g (\<lambda>x. x\<lparr>GMK := r\<rparr>) w1
      in if \<not> ok then (- 1, w2)
      else
        let (t, w3) = ntp_timestamp e w2;
            buf = a_addr (w_auth w3) @ t @ e_group_pointer e g;
            ((rkey, ok), w4) = random_get_bytes e 32 w3
        in if \<not> ok then (- 1, w4)
        else
          let (c, ok) = sha1_prf (crypto e) rkey ''Init Counter'' buf 32
          in (if ok then 0 else - 1, updg g (\<lambda>x. x\<lparr>g_Counter := c\<rparr>) w4))"

definition wpa_gmk_to_gtk :: "wpa_env \<Rightarrow> u8 list \<Rightarrow> string \<Rightarrow> u8 list \<Rightarrow> u8 list \<Rightarrow> nat \<Rightarrow> wpa_world \<Rightarrow>
    (u8 list \<times> int) \<times> wpa_world" where
  "wpa_gmk_to_gtk e gmk label addr gnonce len w =
     (let (t, w1) = ntp_timestamp e w;
          ((r, ok1), w2) = random_get_bytes e 16 w1;
          (gtk, ok2) = sha1_prf (crypto e) gmk label (addr @ gnonce @ t @ r) len
      in ((gtk, if ok1 \<and> ok2 then 0 else - 1), w2))"

text \<open>The key is written over the first \<^verbatim>\<open>GTK_len\<close> bytes of its array.\<close>

definition put_gtk :: "u8 list \<Rightarrow> wpa_group \<Rightarrow> wpa_group" where
  "put_gtk k x = x\<lparr>GTK := (GTK x)[GN x - 1 := k @ drop (length k) (GTK x ! (GN x - 1))]\<rparr>"

definition wpa_gtk_update :: "wpa_env \<Rightarrow> nat \<Rightarrow> wpa_world \<Rightarrow> int \<times> wpa_world" where
  "wpa_gtk_update e g w =
     (let w1 = updg g (\<lambda>x. x\<lparr>GNonce := g_Counter x\<rparr>) w;
          w2 = inc_counter g w1;
          x = w_group w2 g;
          ((k, ret), w3) = wpa_gmk_to_gtk e (GMK x) ''Group key expansion'' (a_addr (w_auth w2)) (GNonce x) (GTK_len x) w2
      in (ret, updg g (put_gtk k) w3))"

definition broadcast_ether_addr :: "u8 list" where "broadcast_ether_addr = replicate 6 0xff"

definition current_gtk :: "wpa_group \<Rightarrow> u8 list" where
  "current_gtk x = take (GTK_len x) (GTK x ! (GN x - 1))"

definition wpa_group_config_group_keys :: "wpa_env \<Rightarrow> nat \<Rightarrow> wpa_world \<Rightarrow> int \<times> wpa_world" where
  "wpa_group_config_group_keys e g w =
     (let x = w_group w g;
          (r, w1) = wpa_auth_set_key e (g_vlan_id x) (wpa_alg_enum (cf_wpa_group (conf w))) broadcast_ether_addr
            (GN x) (current_gtk x) w
      in (if r < 0 then - 1 else 0, w1))"

definition wpa_group_first_station :: "wpa_env \<Rightarrow> nat \<Rightarrow> wpa_world \<Rightarrow> wpa_world" where
  "wpa_group_first_station e g w =
     (let (ready, w1) = ask (e_pool_ready e) w;
          w2 = (if ready then w1 else updg g (\<lambda>x. x\<lparr>reject_4way_hs_for_entropy := True\<rparr>) w1);
          w3 = snd (wpa_group_init_gmk_and_counter e g w2);
          w4 = snd (wpa_gtk_update e g w3)
      in snd (wpa_group_config_group_keys e g w4))"

subsection \<open>Sending EAPOL-Key frames\<close>

definition shift_replay :: "(u8 list \<times> bool) list \<Rightarrow> (u8 list \<times> bool) list" where
  "shift_replay r = (inc_byte_array (fst (r ! 0)) 8, True) # take 3 r"

definition key_length_of :: "u32 \<Rightarrow> u16" where
  "key_length_of alg =
     (if alg = WPA_CIPHER_CCMP then 16
      else if alg = WPA_CIPHER_TKIP then 32
      else if alg = WPA_CIPHER_WEP40 then 5
      else if alg = WPA_CIPHER_WEP104 then 13
      else 0)"

text \<open>
  The key data field, its length field and the IV, as \<^verbatim>\<open>__wpa_send_eapol\<close> fills them in: in clear, wrapped
  with AES, or encrypted with RC4 under the IV taken from the group's counter. \<open>None\<close> means that the
  frame is given up.
\<close>

definition key_data_field :: "wpa_env \<Rightarrow> nat \<Rightarrow> u16 \<Rightarrow> bool \<Rightarrow> u8 list option \<Rightarrow> nat \<Rightarrow> wpa_world \<Rightarrow>
    (u8 list \<times> u16 \<times> u8 list) option \<times> wpa_world" where
  "key_data_field e i version encr kde pad_len w =
     (let iv0 = replicate 16 0;
          aes = (version = WPA_KEY_INFO_TYPE_HMAC_SHA1_AES \<or> version = 3);
          key_data_len = (case kde of None \<Rightarrow> 0 | Some k \<Rightarrow> length k) + (if aes \<and> encr then pad_len + 8 else 0)
      in case kde of
           None \<Rightarrow> (Some (replicate key_data_len 0, 0, iv0), w)
         | Some k \<Rightarrow>
             if \<not> encr then (Some (k, of_nat (length k), iv0), w)
             else
               let (mem, w1) = ask (e_alloc e) w
               in if \<not> mem then (None, w1)
               else
                 let buf = k @ (if pad_len \<noteq> 0 then [0xdd] else []);
                     buf = buf @ replicate (key_data_len - length buf) 0
                 in if aes then
                      (case aes_wrap (crypto e) (kek (PTK (w_sm w1 i))) (take ((key_data_len - 8) div 8 * 8) buf) of
                         None \<Rightarrow> (None, w1)
                       | Some c \<Rightarrow> (Some (c, of_nat key_data_len, iv0), w1))
                    else
                      let iv = drop 16 (g_Counter (sm_grp i w1));
                          w2 = inc_counter (sm_group (w_sm w1 i)) w1
                      in (Some (rc4_skip (crypto e) (iv @ kek (PTK (w_sm w2 i))) 256 buf, of_nat key_data_len, iv), w2))"

text \<open>
  \<^verbatim>\<open>__wpa_send_eapol\<close>; the number \<open>keyidx\<close>, the nonce and the RSC are the caller's, and \<open>force_version\<close> is
  zero for "the version of the station's cipher".
\<close>

definition descriptor_version :: "wpa_state_machine \<Rightarrow> u16 \<Rightarrow> u16" where
  "descriptor_version sm force_version =
     (if force_version \<noteq> 0 then force_version
      else if sm_pairwise sm = WPA_CIPHER_CCMP then WPA_KEY_INFO_TYPE_HMAC_SHA1_AES
      else WPA_KEY_INFO_TYPE_HMAC_MD5_RC4)"

definition sent_key_info :: "wpa_state_machine \<Rightarrow> u16 \<Rightarrow> u16 \<Rightarrow> nat \<Rightarrow> bool \<Rightarrow> u16" where
  "sent_key_info sm version key_info keyidx encr =
     key_info OR version OR
     (if encr \<and> sm_wpa sm = WPA_VERSION_WPA2 then WPA_KEY_INFO_ENCR_KEY_DATA else 0) OR
     (if sm_wpa sm \<noteq> WPA_VERSION_WPA2 then push_bit 4 (of_nat keyidx) else 0)"

definition sent_key :: "wpa_state_machine \<Rightarrow> u32 \<Rightarrow> u16 \<Rightarrow> u16 \<Rightarrow> u8 list option \<Rightarrow> u8 list option \<Rightarrow> u16 \<Rightarrow> u8 list \<Rightarrow> wpa_eapol_key" where
  "sent_key sm wpa_group key_info info key_rsc nonce key_data_length iv =
     zero_eapol_key\<lparr>ek_type := (if sm_wpa sm = WPA_VERSION_WPA2 then 2 else 254), ek_key_info := info,
       ek_key_length := (if key_flag info WPA_KEY_INFO_SMK_MESSAGE then 0
         else key_length_of (if key_flag key_info WPA_KEY_INFO_KEY_TYPE then sm_pairwise sm else wpa_group)),
       ek_replay_counter := fst (key_replay sm ! 0),
       ek_key_nonce := (case nonce of None \<Rightarrow> replicate 32 0 | Some n \<Rightarrow> n),
       ek_key_iv := iv, ek_key_rsc := (case key_rsc of None \<Rightarrow> replicate 8 0 | Some r \<Rightarrow> r),
       ek_key_data_length := key_data_length\<rparr>"

text \<open>The frame, with the MIC when the flag for it is set.\<close>

definition signed_frame :: "wpa_crypto \<Rightarrow> wpa_ptk \<Rightarrow> u16 \<Rightarrow> u8 \<Rightarrow> wpa_eapol_key \<Rightarrow> u8 list \<Rightarrow> u8 list" where
  "signed_frame cr P version eapol_version key key_data =
     eapol_key_frame eapol_version
       (if key_flag (ek_key_info key) WPA_KEY_INFO_MIC
        then (case wpa_eapol_key_mic cr (kck P) version (eapol_key_frame eapol_version key key_data) of
                None \<Rightarrow> key | Some mic \<Rightarrow> key\<lparr>ek_key_mic := mic\<rparr>)
        else key)
       key_data"

definition send_eapol_key :: "wpa_env \<Rightarrow> nat \<Rightarrow> u16 \<Rightarrow> u8 list option \<Rightarrow> u8 list option \<Rightarrow> u8 list option \<Rightarrow> nat \<Rightarrow>
    bool \<Rightarrow> u16 \<Rightarrow> wpa_world \<Rightarrow> wpa_world" where
  "send_eapol_key e i key_info key_rsc nonce kde keyidx encr force_version w =
     (let sm = w_sm w i;
          version = descriptor_version sm force_version;
          kde_len = (case kde of None \<Rightarrow> 0 | Some k \<Rightarrow> length k);
          pad_len = (if (version = WPA_KEY_INFO_TYPE_HMAC_SHA1_AES \<or> version = 3) \<and> encr \<and> kde_len mod 8 \<noteq> 0
                     then 8 - kde_len mod 8 else 0);
          (mem, w1) = ask (e_alloc e) w
      in if \<not> mem then w1
      else
        let info = sent_key_info sm version key_info keyidx encr;
            w2 = upd i (\<lambda>sm. sm\<lparr>key_replay := shift_replay (key_replay sm)\<rparr>) w1;
            (field, w3) = key_data_field e i version encr kde pad_len w2
        in case field of
             None \<Rightarrow> w3
           | Some (key_data, key_data_length, iv) \<Rightarrow>
               let sm = w_sm w3 i
               in if key_flag info WPA_KEY_INFO_MIC \<and> \<not> PTK_valid sm then w3
                  else log_out (SendEapol (sm_addr sm)
                         (signed_frame (crypto e) (PTK sm) version (cf_eapol_version (conf w3))
                           (sent_key sm (cf_wpa_group (conf w3)) key_info info key_rsc nonce key_data_length iv) key_data)
                         (pairwise_set sm))
                       (wpa_auth_set_eapol i WPA_EAPOL_inc_EapolFramesTx 1 w3))"

definition wpa_send_eapol :: "wpa_env \<Rightarrow> nat \<Rightarrow> u16 \<Rightarrow> u8 list option \<Rightarrow> u8 list option \<Rightarrow> u8 list option \<Rightarrow> nat \<Rightarrow>
    bool \<Rightarrow> wpa_world \<Rightarrow> wpa_world" where
  "wpa_send_eapol e i key_info key_rsc nonce kde keyidx encr w =
     (let w1 = send_eapol_key e i key_info key_rsc nonce kde keyidx encr 0 w;
          sm = w_sm w1 i;
          pairwise = key_flag key_info WPA_KEY_INFO_KEY_TYPE;
          ctr = (if pairwise then TimeoutCtr sm else GTimeoutCtr sm);
          timeout_ms = (if ctr = 1 \<and> cf_tx_status (conf w1) then 500 else 1000);
          w2 = (if pairwise \<and> ctr = 1 \<and> \<not> key_flag key_info WPA_KEY_INFO_MIC
                then upd i (\<lambda>sm. sm\<lparr>pending_1_of_4_timeout := True\<rparr>) w1 else w1)
      in register_timeout (SendEapolTimeout i) (timeout_ms div 1000) ((timeout_ms mod 1000) * 1000) w2)"

subsection \<open>The pairwise key machine\<close>

text \<open>\<^verbatim>\<open>SM_ENTRY_MA\<close>: machines here are only entered with \<^verbatim>\<open>SM_ENTER\<close>, so \<^verbatim>\<open>changed\<close> is always set.\<close>

definition enter_ptk :: "wpa_ptk_state \<Rightarrow> nat \<Rightarrow> wpa_world \<Rightarrow> wpa_world" where
  "enter_ptk s i = upd i (\<lambda>sm. sm\<lparr>sm_changed := True, wpa_ptk_state := s\<rparr>)"

definition enter_ptk_group :: "wpa_ptk_group_state \<Rightarrow> nat \<Rightarrow> wpa_world \<Rightarrow> wpa_world" where
  "enter_ptk_group s i = upd i (\<lambda>sm. sm\<lparr>sm_changed := True, wpa_ptk_group_state := s\<rparr>)"

definition wpa_remove_ptk :: "wpa_env \<Rightarrow> nat \<Rightarrow> wpa_world \<Rightarrow> wpa_world" where
  "wpa_remove_ptk e i w =
     (let w1 = upd i (\<lambda>sm. sm\<lparr>PTK_valid := False, PTK := zero_ptk\<rparr>) w;
          w2 = snd (wpa_auth_set_key e 0 WPA_ALG_NONE (sm_addr (w_sm w1 i)) 0 [] w1);
          w3 = upd i (\<lambda>sm. sm\<lparr>pairwise_set := False\<rparr>) w2
      in cancel_timeout (RekeyPtk i) w3)"

text \<open>A station that leaves the group key update it was counted for.\<close>

definition leave_update :: "nat \<Rightarrow> wpa_world \<Rightarrow> wpa_world" where
  "leave_update i w =
     (let w1 = (if GUpdateStationKeys (w_sm w i)
                then updg (sm_group (w_sm w i)) (\<lambda>x. x\<lparr>GKeyDoneStations := GKeyDoneStations x - 1\<rparr>) w else w)
      in upd i (\<lambda>sm. sm\<lparr>GUpdateStationKeys := False\<rparr>) w1)"

definition WPA_PTK_INITIALIZE_Enter :: "wpa_env \<Rightarrow> nat \<Rightarrow> wpa_world \<Rightarrow> wpa_world" where
  "WPA_PTK_INITIALIZE_Enter e i w =
     (let w1 = enter_ptk WPA_PTK_INITIALIZE i w;
          w2 = (if Init (w_sm w1 i) then upd i (\<lambda>sm. sm\<lparr>sm_changed := False\<rparr>) w1 else w1);
          w3 = upd i (\<lambda>sm. sm\<lparr>keycount := 0\<rparr>) w2;
          w4 = leave_update i w3;
          w5 = upd i (\<lambda>sm. sm\<lparr>PInitAKeys := (if sm_wpa sm = WPA_VERSION_WPA then False else PInitAKeys sm),
                 sm_Pair := True\<rparr>) w4;
          w6 = wpa_auth_set_eapol i WPA_EAPOL_portEnabled 0 w5;
          w7 = wpa_remove_ptk e i w6;
          w8 = wpa_auth_set_eapol i WPA_EAPOL_portValid 0 w7;
          w9 = upd i (\<lambda>sm. sm\<lparr>TimeoutCtr := 0\<rparr>) w8
      in if is_psk (w_sm w9 i) then wpa_auth_set_eapol i WPA_EAPOL_authorized 0 w9 else w9)"

definition WPA_PTK_DISCONNECT_Enter :: "nat \<Rightarrow> wpa_world \<Rightarrow> wpa_world" where
  "WPA_PTK_DISCONNECT_Enter i w =
     wpa_sta_disconnect i (upd i (\<lambda>sm. sm\<lparr>Disconnect := False\<rparr>) (enter_ptk WPA_PTK_DISCONNECT i w))"

definition WPA_PTK_DISCONNECTED_Enter :: "nat \<Rightarrow> wpa_world \<Rightarrow> wpa_world" where
  "WPA_PTK_DISCONNECTED_Enter i w =
     upd i (\<lambda>sm. sm\<lparr>DeauthenticationRequest := False\<rparr>) (enter_ptk WPA_PTK_DISCONNECTED i w)"

definition WPA_PTK_AUTHENTICATION_Enter :: "nat \<Rightarrow> wpa_world \<Rightarrow> wpa_world" where
  "WPA_PTK_AUTHENTICATION_Enter i w =
     (let w1 = upd i (\<lambda>sm. sm\<lparr>PTK := zero_ptk, PTK_valid := False\<rparr>) (enter_ptk WPA_PTK_AUTHENTICATION i w);
          w2 = wpa_auth_set_eapol i WPA_EAPOL_portControl_Auto 1 w1;
          w3 = wpa_auth_set_eapol i WPA_EAPOL_portEnabled 1 w2
      in upd i (\<lambda>sm. sm\<lparr>AuthenticationRequest := False\<rparr>) w3)"

definition WPA_PTK_AUTHENTICATION2_Enter :: "wpa_env \<Rightarrow> nat \<Rightarrow> wpa_world \<Rightarrow> wpa_world" where
  "WPA_PTK_AUTHENTICATION2_Enter e i w =
     (let w1 = enter_ptk WPA_PTK_AUTHENTICATION2 i w;
          g = sm_group (w_sm w1 i);
          w2 = (if first_sta_seen (w_group w1 g) then w1
                else updg g (\<lambda>x. x\<lparr>first_sta_seen := True\<rparr>) (wpa_group_first_station e g w1));
          w3 = upd i (\<lambda>sm. sm\<lparr>ANonce := g_Counter (w_group w2 g)\<rparr>) w2;
          w4 = inc_counter g w3
      in upd i (\<lambda>sm. sm\<lparr>ReAuthenticationRequest := False, TimeoutCtr := 0\<rparr>) w4)"

definition WPA_PTK_INITPMK_Enter :: "wpa_env \<Rightarrow> nat \<Rightarrow> wpa_world \<Rightarrow> wpa_world" where
  "WPA_PTK_INITPMK_Enter e i w =
     (let w1 = enter_ptk WPA_PTK_INITPMK i w;
          w2 = (case sm_pmksa (w_sm w1 i) of
                  Some p \<Rightarrow> upd i (\<lambda>sm. sm\<lparr>PMK := take 32 (pmk (entry_at (a_pmksa (w_auth w1)) p) @ replicate 32 0)\<rparr>) w1
                | None \<Rightarrow>
                    (case ask (e_get_msk e) w1 of
                       (Some msk, w') \<Rightarrow> upd i (\<lambda>sm. sm\<lparr>PMK := take 32 msk\<rparr>) w'
                     | (None, w') \<Rightarrow> w'));
          w3 = upd i (\<lambda>sm. sm\<lparr>req_replay_counter_used := False\<rparr>) w2
      in wpa_auth_set_eapol i WPA_EAPOL_keyRun 0 w3)"

definition psk_at :: "wpa_env \<Rightarrow> nat \<Rightarrow> u8 list" where
  "psk_at e k = psk_key (psk_list e ! k)"

abbreviation get_psk :: "wpa_env \<Rightarrow> nat \<Rightarrow> wpa_world \<Rightarrow> nat option \<Rightarrow> nat option" where
  "get_psk e i w prev \<equiv> hostapd_get_psk (psk_list e) (sm_addr (w_sm w i)) prev"

definition WPA_PTK_INITPSK_Enter :: "wpa_env \<Rightarrow> nat \<Rightarrow> wpa_world \<Rightarrow> wpa_world" where
  "WPA_PTK_INITPSK_Enter e i w =
     (let w1 = enter_ptk WPA_PTK_INITPSK i w;
          w2 = (case get_psk e i w1 None of
                  Some k \<Rightarrow> upd i (\<lambda>sm. sm\<lparr>PMK := psk_at e k\<rparr>) w1 | None \<Rightarrow> w1)
      in upd i (\<lambda>sm. sm\<lparr>req_replay_counter_used := False\<rparr>) w2)"

definition WPA_PTK_PTKSTART_Enter :: "wpa_env \<Rightarrow> nat \<Rightarrow> wpa_world \<Rightarrow> wpa_world" where
  "WPA_PTK_PTKSTART_Enter e i w =
     (let w1 = upd i (\<lambda>sm. sm\<lparr>PTKRequest := False, TimeoutEvt := False, TimeoutCtr := TimeoutCtr sm + 1\<rparr>)
            (enter_ptk WPA_PTK_PTKSTART i w);
          sm = w_sm w1 i
      in if TimeoutCtr sm > dot11RSNAConfigPairwiseUpdateCount then w1
      else
        let kde = (if sm_wpa sm = WPA_VERSION_WPA2 \<and> wpa_key_mgmt_wpa_ieee8021x (sm_key_mgmt sm)
              then Some ([221, 20] @ RSN_SELECTOR_PUT RSN_KEY_DATA_PMKID @
                (case sm_pmksa sm of
                   Some p \<Rightarrow> take 16 (pmkid (entry_at (a_pmksa (w_auth w1)) p))
                 | None \<Rightarrow> rsn_pmkid (crypto e) (PMK sm) (a_addr (w_auth w1)) (sm_addr sm)))
              else None)
        in wpa_send_eapol e i (WPA_KEY_INFO_ACK OR WPA_KEY_INFO_KEY_TYPE) None (Some (ANonce sm)) kde 0 False w1)"

definition wpa_derive_ptk :: "wpa_env \<Rightarrow> u8 list \<Rightarrow> wpa_state_machine \<Rightarrow> u8 list \<Rightarrow> wpa_ptk" where
  "wpa_derive_ptk e aa sm k =
     ptk_of_bytes (wpa_pmk_to_ptk (crypto e) k ''Pairwise key expansion'' aa (sm_addr sm) (ANonce sm) (SNonce sm)
       (if sm_pairwise sm = WPA_CIPHER_CCMP then 48 else 64))"

text \<open>
  The loop of \<^verbatim>\<open>PTKCALCNEGOTIATING\<close> over the keys configured for the station: the first whose transient
  key gives the MIC of the frame.
\<close>

function try_psks :: "wpa_env \<Rightarrow> (u8 list \<Rightarrow> wpa_ptk) \<Rightarrow> u8 list \<Rightarrow> u8 list \<Rightarrow> nat option \<Rightarrow> (u8 list \<times> wpa_ptk) option" where
  "try_psks e derive frame addr prev =
     (case hostapd_get_psk (psk_list e) addr prev of
        None \<Rightarrow> None
      | Some k \<Rightarrow>
          if wpa_verify_key_mic (crypto e) (derive (psk_at e k)) frame = 0 then Some (psk_at e k, derive (psk_at e k))
          else try_psks e derive frame addr (Some k))"
  by pat_completeness auto
termination
  by (relation "measure (\<lambda>(e, derive, frame, addr, prev).
      case prev of None \<Rightarrow> Suc (length (psk_list e)) | Some k \<Rightarrow> length (psk_list e) - k)")
    (auto dest: hostapd_get_psk_advances split: option.splits)

declare try_psks.simps [simp del]

text \<open>
  The key the received frame belongs to. (When the frame could not be stored for lack of memory the
  pointer is NULL; the model counts that as a wrong MIC.)
\<close>

definition select_pmk :: "wpa_env \<Rightarrow> nat \<Rightarrow> wpa_world \<Rightarrow> (u8 list \<times> wpa_ptk) option" where
  "select_pmk e i w =
     (let sm = w_sm w i;
          derive = wpa_derive_ptk e (a_addr (w_auth w)) sm;
          frame = (case last_rx_eapol_key sm of None \<Rightarrow> [] | Some f \<Rightarrow> f)
      in if is_psk sm then try_psks e derive frame (sm_addr sm) None
         else if wpa_verify_key_mic (crypto e) (derive (PMK sm)) frame = 0 then Some (PMK sm, derive (PMK sm))
         else None)"

definition WPA_PTK_PTKCALCNEGOTIATING_Enter :: "wpa_env \<Rightarrow> nat \<Rightarrow> wpa_world \<Rightarrow> wpa_world" where
  "WPA_PTK_PTKCALCNEGOTIATING_Enter e i w =
     (let w1 = upd i (\<lambda>sm. sm\<lparr>EAPOLKeyReceived := False\<rparr>) (enter_ptk WPA_PTK_PTKCALCNEGOTIATING i w)
      in case select_pmk e i w1 of
           None \<Rightarrow> w1
         | Some (k, P) \<Rightarrow>
             let w2 = cancel_timeout (SendEapolTimeout i) (upd i (\<lambda>sm. sm\<lparr>pending_1_of_4_timeout := False\<rparr>) w1);
                 w3 = (if is_psk (w_sm w2 i) then upd i (\<lambda>sm. sm\<lparr>PMK := k\<rparr>) w2 else w2)
             in upd i (\<lambda>sm. sm\<lparr>MICVerified := True, PTK := P, PTK_valid := True\<rparr>) w3)"

definition WPA_PTK_PTKCALCNEGOTIATING2_Enter :: "nat \<Rightarrow> wpa_world \<Rightarrow> wpa_world" where
  "WPA_PTK_PTKCALCNEGOTIATING2_Enter i w =
     upd i (\<lambda>sm. sm\<lparr>TimeoutCtr := 0\<rparr>) (enter_ptk WPA_PTK_PTKCALCNEGOTIATING2 i w)"

text \<open>The elements of message 3/4: a station that speaks only WPA is not sent the RSN element.\<close>

definition own_ie_for :: "wpa_auth_config \<Rightarrow> wpa_version \<Rightarrow> u8 list \<Rightarrow> u8 list" where
  "own_ie_for c v ie =
     (if v = WPA_VERSION_WPA \<and> cf_wpa c AND WPA_PROTO_RSN \<noteq> 0 \<and> length ie > unat (ie ! 1) + 2 \<and> ie ! 0 = 48
      then let rest = drop (unat (ie ! 1) + 2) ie in take (unat (rest ! 1) + 2) rest
      else ie)"

definition get_rsc :: "wpa_env \<Rightarrow> wpa_world \<Rightarrow> u8 list \<times> wpa_world" where
  "get_rsc e w = (case ask (e_get_seqnum e) w of (r, w1) \<Rightarrow> (case r of None \<Rightarrow> replicate 8 0 | Some s \<Rightarrow> s, w1))"

definition gtk_kde :: "wpa_group \<Rightarrow> u8 list" where
  "gtk_kde x = wpa_add_kde RSN_KEY_DATA_GROUPKEY [of_nat (GN x) AND 3, 0] (current_gtk x)"

definition WPA_PTK_PTKINITNEGOTIATING_Enter :: "wpa_env \<Rightarrow> nat \<Rightarrow> wpa_world \<Rightarrow> wpa_world" where
  "WPA_PTK_PTKINITNEGOTIATING_Enter e i w =
     (let w1 = upd i (\<lambda>sm. sm\<lparr>TimeoutEvt := False, TimeoutCtr := TimeoutCtr sm + 1\<rparr>)
            (enter_ptk WPA_PTK_PTKINITNEGOTIATING i w);
          sm = w_sm w1 i
      in if TimeoutCtr sm > dot11RSNAConfigPairwiseUpdateCount then w1
      else
        let (rsc, w2) = get_rsc e w1;
            ie = own_ie_for (conf w2) (sm_wpa sm) (case a_wpa_ie (w_auth w2) of None \<Rightarrow> [] | Some x \<Rightarrow> x);
            wpa2 = (sm_wpa sm = WPA_VERSION_WPA2);
            x = w_group w2 (sm_group sm);
            (mem, w3) = ask (e_alloc e) w2
        in if \<not> mem then w3
        else wpa_send_eapol e i
               ((if wpa2 then WPA_KEY_INFO_SECURE else 0) OR WPA_KEY_INFO_MIC OR WPA_KEY_INFO_ACK OR
                WPA_KEY_INFO_INSTALL OR WPA_KEY_INFO_KEY_TYPE)
               (if wpa2 then Some rsc else None) (Some (ANonce sm)) (Some (ie @ (if wpa2 then gtk_kde x else [])))
               (if wpa2 then GN x else 0) wpa2 w3)"

definition set_pairwise_key :: "wpa_env \<Rightarrow> nat \<Rightarrow> wpa_world \<Rightarrow> int \<times> wpa_world" where
  "set_pairwise_key e i w =
     (let sm = w_sm w i
      in if sm_pairwise sm = WPA_CIPHER_TKIP
         then wpa_auth_set_key e 0 WPA_ALG_TKIP (sm_addr sm) 0 (take 32 (tk1 (PTK sm) @ ptk_u (PTK sm))) w
         else wpa_auth_set_key e 0 WPA_ALG_CCMP (sm_addr sm) 0 (tk1 (PTK sm)) w)"

text \<open>The block under \<^verbatim>\<open>if (sm->Pair)\<close>; the flag says that the driver refused the key.\<close>

definition install_ptk :: "wpa_env \<Rightarrow> nat \<Rightarrow> wpa_world \<Rightarrow> bool \<times> wpa_world" where
  "install_ptk e i w =
     (let (r, w1) = set_pairwise_key e i w
      in if r \<noteq> 0 then (True, wpa_sta_disconnect i w1)
      else
        let w2 = upd i (\<lambda>sm. sm\<lparr>pairwise_set := True\<rparr>) w1;
            rekey = cf_wpa_ptk_rekey (conf w2);
            w3 = (if rekey \<noteq> 0 then register_timeout (RekeyPtk i) rekey 0 (cancel_timeout (RekeyPtk i) w2) else w2)
        in (False, if is_psk (w_sm w3 i) then wpa_auth_set_eapol i WPA_EAPOL_authorized 1 w3 else w3))"

definition WPA_PTK_PTKINITDONE_Enter :: "wpa_env \<Rightarrow> nat \<Rightarrow> wpa_world \<Rightarrow> wpa_world" where
  "WPA_PTK_PTKINITDONE_Enter e i w =
     (let w1 = upd i (\<lambda>sm. sm\<lparr>EAPOLKeyReceived := False\<rparr>) (enter_ptk WPA_PTK_PTKINITDONE i w);
          (failed, w2) = (if sm_Pair (w_sm w1 i) then install_ptk e i w1 else (False, w1))
      in if failed then w2
      else
        let w3 = wpa_auth_set_eapol i WPA_EAPOL_portValid 1 w2;
            w4 = wpa_auth_set_eapol i WPA_EAPOL_keyAvailable 0 w3;
            w5 = wpa_auth_set_eapol i WPA_EAPOL_keyDone 1 w4
        in upd i (\<lambda>sm. if sm_wpa sm = WPA_VERSION_WPA then sm\<lparr>PInitAKeys := True\<rparr> else sm\<lparr>has_GTK := True\<rparr>) w5)"

definition count_failure :: "wpa_world \<Rightarrow> wpa_world" where
  "count_failure = upda (\<lambda>a. a\<lparr>FourWayHandshakeFailures := FourWayHandshakeFailures a + 1\<rparr>)"

text \<open>\<^verbatim>\<open>wpa_auth_get_eapol\<close> asked for \<^verbatim>\<open>keyRun\<close> or \<^verbatim>\<open>keyAvailable\<close>: whether the answer is positive.\<close>

definition get_eapol_positive :: "wpa_env \<Rightarrow> wpa_world \<Rightarrow> bool \<times> wpa_world" where
  "get_eapol_positive e w = (case ask (e_get_eapol e) w of (r, w1) \<Rightarrow> (r > 0, w1))"

definition pairwise_reply :: "wpa_state_machine \<Rightarrow> bool" where
  "pairwise_reply sm = (EAPOLKeyReceived sm \<and> \<not> EAPOLKeyRequest sm \<and> EAPOLKeyPairwise sm)"

definition WPA_PTK_Step :: "wpa_env \<Rightarrow> nat \<Rightarrow> wpa_world \<Rightarrow> wpa_world" where
  "WPA_PTK_Step e i w =
     (let sm = w_sm w i in
      if Init sm then WPA_PTK_INITIALIZE_Enter e i w
      else if Disconnect sm then WPA_PTK_DISCONNECT_Enter i w
      else if DeauthenticationRequest sm then WPA_PTK_DISCONNECTED_Enter i w
      else if AuthenticationRequest sm then WPA_PTK_AUTHENTICATION_Enter i w
      else if ReAuthenticationRequest sm then WPA_PTK_AUTHENTICATION2_Enter e i w
      else if PTKRequest sm then WPA_PTK_PTKSTART_Enter e i w
      else case wpa_ptk_state sm of
        WPA_PTK_INITIALIZE \<Rightarrow> w
      | WPA_PTK_DISCONNECT \<Rightarrow> WPA_PTK_DISCONNECTED_Enter i w
      | WPA_PTK_DISCONNECTED \<Rightarrow> WPA_PTK_INITIALIZE_Enter e i w
      | WPA_PTK_AUTHENTICATION \<Rightarrow> WPA_PTK_AUTHENTICATION2_Enter e i w
      | WPA_PTK_AUTHENTICATION2 \<Rightarrow>
          (let (run, w1) = (if wpa_key_mgmt_wpa_ieee8021x (sm_key_mgmt sm) then get_eapol_positive e w else (False, w))
           in if run then WPA_PTK_INITPMK_Enter e i w1
              else if is_psk sm then WPA_PTK_INITPSK_Enter e i w1
              else w1)
      | WPA_PTK_INITPMK \<Rightarrow>
          (let (avail, w1) = get_eapol_positive e w
           in if avail then WPA_PTK_PTKSTART_Enter e i w1
              else WPA_PTK_DISCONNECT_Enter i (count_failure w1))
      | WPA_PTK_INITPSK \<Rightarrow>
          (if get_psk e i w None \<noteq> None then WPA_PTK_PTKSTART_Enter e i w
           else WPA_PTK_DISCONNECT_Enter i (count_failure w))
      | WPA_PTK_PTKSTART \<Rightarrow>
          (if pairwise_reply sm then WPA_PTK_PTKCALCNEGOTIATING_Enter e i w
           else if TimeoutCtr sm > dot11RSNAConfigPairwiseUpdateCount then WPA_PTK_DISCONNECT_Enter i (count_failure w)
           else if TimeoutEvt sm then WPA_PTK_PTKSTART_Enter e i w
           else w)
      | WPA_PTK_PTKCALCNEGOTIATING \<Rightarrow>
          (if MICVerified sm then WPA_PTK_PTKCALCNEGOTIATING2_Enter i w
           else if pairwise_reply sm then WPA_PTK_PTKCALCNEGOTIATING_Enter e i w
           else if TimeoutEvt sm then WPA_PTK_PTKSTART_Enter e i w
           else w)
      | WPA_PTK_PTKCALCNEGOTIATING2 \<Rightarrow> WPA_PTK_PTKINITNEGOTIATING_Enter e i w
      | WPA_PTK_PTKINITNEGOTIATING \<Rightarrow>
          (if pairwise_reply sm \<and> MICVerified sm then WPA_PTK_PTKINITDONE_Enter e i w
           else if TimeoutCtr sm > dot11RSNAConfigPairwiseUpdateCount then WPA_PTK_DISCONNECT_Enter i (count_failure w)
           else if TimeoutEvt sm then WPA_PTK_PTKINITNEGOTIATING_Enter e i w
           else w)
      | WPA_PTK_PTKINITDONE \<Rightarrow> w)"

subsection \<open>The group key machine of a station\<close>

definition WPA_PTK_GROUP_IDLE_Enter :: "nat \<Rightarrow> wpa_world \<Rightarrow> wpa_world" where
  "WPA_PTK_GROUP_IDLE_Enter i w =
     (let w1 = enter_ptk_group WPA_PTK_GROUP_IDLE i w;
          w2 = (if Init (w_sm w1 i) then upd i (\<lambda>sm. sm\<lparr>sm_changed := False\<rparr>) w1 else w1)
      in upd i (\<lambda>sm. sm\<lparr>GTimeoutCtr := 0\<rparr>) w2)"

definition WPA_PTK_GROUP_REKEYNEGOTIATING_Enter :: "wpa_env \<Rightarrow> nat \<Rightarrow> wpa_world \<Rightarrow> wpa_world" where
  "WPA_PTK_GROUP_REKEYNEGOTIATING_Enter e i w =
     (let w1 = upd i (\<lambda>sm. sm\<lparr>GTimeoutCtr := GTimeoutCtr sm + 1\<rparr>) (enter_ptk_group WPA_PTK_GROUP_REKEYNEGOTIATING i w)
      in if GTimeoutCtr (w_sm w1 i) > dot11RSNAConfigGroupUpdateCount then w1
      else
        let w2 = upd i (\<lambda>sm. sm\<lparr>PInitAKeys := (if sm_wpa sm = WPA_VERSION_WPA then False else PInitAKeys sm),
              TimeoutEvt := False\<rparr>) w1;
            sm = w_sm w2 i;
            x = w_group w2 (sm_group sm);
            (rsc, w3) = (if wpa_group_state x = WPA_GROUP_SETKEYSDONE then get_rsc e w2 else (replicate 8 0, w2));
            wpa2 = (sm_wpa sm = WPA_VERSION_WPA2);
            (mem, w4) = (if wpa2 then ask (e_alloc e) w3 else (True, w3))
        in if \<not> mem then w4
        else wpa_send_eapol e i
               (WPA_KEY_INFO_SECURE OR WPA_KEY_INFO_MIC OR WPA_KEY_INFO_ACK OR
                (if sm_Pair sm then 0 else WPA_KEY_INFO_INSTALL))
               (Some rsc) (Some (GNonce x)) (Some (if wpa2 then gtk_kde x else current_gtk x)) (GN x) True w4)"

definition WPA_PTK_GROUP_REKEYESTABLISHED_Enter :: "nat \<Rightarrow> wpa_world \<Rightarrow> wpa_world" where
  "WPA_PTK_GROUP_REKEYESTABLISHED_Enter i w =
     (let w1 = upd i (\<lambda>sm. sm\<lparr>EAPOLKeyReceived := False\<rparr>) (enter_ptk_group WPA_PTK_GROUP_REKEYESTABLISHED i w);
          w2 = leave_update i w1
      in upd i (\<lambda>sm. sm\<lparr>GTimeoutCtr := 0, has_GTK := True\<rparr>) w2)"

definition WPA_PTK_GROUP_KEYERROR_Enter :: "nat \<Rightarrow> wpa_world \<Rightarrow> wpa_world" where
  "WPA_PTK_GROUP_KEYERROR_Enter i w =
     upd i (\<lambda>sm. sm\<lparr>Disconnect := True\<rparr>) (leave_update i (enter_ptk_group WPA_PTK_GROUP_KEYERROR i w))"

definition group_reply :: "wpa_state_machine \<Rightarrow> bool" where
  "group_reply sm = (EAPOLKeyReceived sm \<and> \<not> EAPOLKeyRequest sm \<and> \<not> EAPOLKeyPairwise sm \<and> MICVerified sm)"

definition WPA_PTK_GROUP_Step :: "wpa_env \<Rightarrow> nat \<Rightarrow> wpa_world \<Rightarrow> wpa_world" where
  "WPA_PTK_GROUP_Step e i w =
     (let sm = w_sm w i in
      if Init sm \<or> PtkGroupInit sm then upd i (\<lambda>sm. sm\<lparr>PtkGroupInit := False\<rparr>) (WPA_PTK_GROUP_IDLE_Enter i w)
      else case wpa_ptk_group_state sm of
        WPA_PTK_GROUP_IDLE \<Rightarrow>
          (if GUpdateStationKeys sm \<or> (sm_wpa sm = WPA_VERSION_WPA \<and> PInitAKeys sm)
           then WPA_PTK_GROUP_REKEYNEGOTIATING_Enter e i w else w)
      | WPA_PTK_GROUP_REKEYNEGOTIATING \<Rightarrow>
          (if group_reply sm then WPA_PTK_GROUP_REKEYESTABLISHED_Enter i w
           else if GTimeoutCtr sm > dot11RSNAConfigGroupUpdateCount then WPA_PTK_GROUP_KEYERROR_Enter i w
           else if TimeoutEvt sm then WPA_PTK_GROUP_REKEYNEGOTIATING_Enter e i w
           else w)
      | WPA_PTK_GROUP_KEYERROR \<Rightarrow> WPA_PTK_GROUP_IDLE_Enter i w
      | WPA_PTK_GROUP_REKEYESTABLISHED \<Rightarrow> WPA_PTK_GROUP_IDLE_Enter i w)"

subsection \<open>The group machine and the step loop\<close>

text \<open>
  A group that starts a new key makes every station that has its keys run its own machine
  (\<^verbatim>\<open>wpa_group_update_sta\<close>), so \<^verbatim>\<open>wpa_sm_step\<close> and \<^verbatim>\<open>wpa_group_sm_step\<close> call each other. The functions of the
  group take that call as the argument \<open>step\<close>; \<open>None\<close> stands for a step loop that has used up its fuel.
\<close>

fun for_each_sta :: "(nat \<Rightarrow> wpa_world \<Rightarrow> wpa_world option) \<Rightarrow> nat list \<Rightarrow> wpa_world \<Rightarrow> wpa_world option" where
  "for_each_sta cb [] w = Some w"
| "for_each_sta cb (i # js) w = Option.bind (cb i w) (for_each_sta cb js)"

definition wpa_group_gtk_init :: "wpa_env \<Rightarrow> nat \<Rightarrow> wpa_world \<Rightarrow> wpa_world" where
  "wpa_group_gtk_init e g w =
     snd (wpa_gtk_update e g (updg g (\<lambda>x. x\<lparr>g_changed := False, wpa_group_state := WPA_GROUP_GTK_INIT,
       GTK := replicate 2 (replicate 32 0), GN := 1, GM := 2\<rparr>) w))"

definition wpa_group_update_sta :: "(nat \<Rightarrow> wpa_world \<Rightarrow> wpa_world option) \<Rightarrow> nat \<Rightarrow> wpa_world \<Rightarrow> wpa_world option" where
  "wpa_group_update_sta step i w =
     (if wpa_ptk_state (w_sm w i) \<noteq> WPA_PTK_PTKINITDONE then Some (upd i (\<lambda>sm. sm\<lparr>GUpdateStationKeys := False\<rparr>) w)
      else
        let w1 = updg (sm_group (w_sm w i)) (\<lambda>x. x\<lparr>GKeyDoneStations := GKeyDoneStations x + 1\<rparr>) w
        in step i (upd i (\<lambda>sm. sm\<lparr>GUpdateStationKeys := True\<rparr>) w1))"

definition swap_gn :: "wpa_group \<Rightarrow> wpa_group" where
  "swap_gn x = x\<lparr>GM := GN x, GN := GM x\<rparr>"

definition wpa_group_setkeys :: "(nat \<Rightarrow> wpa_world \<Rightarrow> wpa_world option) \<Rightarrow> wpa_env \<Rightarrow> nat \<Rightarrow> wpa_world \<Rightarrow> wpa_world option" where
  "wpa_group_setkeys step e g w =
     (let w1 = updg g (\<lambda>x. swap_gn (x\<lparr>g_changed := True, wpa_group_state := WPA_GROUP_SETKEYS, GTKReKey := False\<rparr>)) w;
          w2 = snd (wpa_gtk_update e g w1);
          w3 = updg g (\<lambda>x. x\<lparr>GKeyDoneStations := 0\<rparr>) w2
      in for_each_sta (wpa_group_update_sta step) (w_stas w3) w3)"

definition wpa_group_setkeysdone :: "wpa_env \<Rightarrow> nat \<Rightarrow> wpa_world \<Rightarrow> int \<times> wpa_world" where
  "wpa_group_setkeysdone e g w =
     wpa_group_config_group_keys e g
       (updg g (\<lambda>x. x\<lparr>g_changed := True, wpa_group_state := WPA_GROUP_SETKEYSDONE\<rparr>) w)"

definition wpa_group_sm_step :: "(nat \<Rightarrow> wpa_world \<Rightarrow> wpa_world option) \<Rightarrow> wpa_env \<Rightarrow> nat \<Rightarrow> wpa_world \<Rightarrow> wpa_world option" where
  "wpa_group_sm_step step e g w =
     (let x = w_group w g in
      if GInit x then Some (wpa_group_gtk_init e g w)
      else if wpa_group_state x = WPA_GROUP_GTK_INIT \<and> GTKAuthenticator x then Some (snd (wpa_group_setkeysdone e g w))
      else if wpa_group_state x = WPA_GROUP_SETKEYSDONE \<and> GTKReKey x then wpa_group_setkeys step e g w
      else if wpa_group_state x = WPA_GROUP_SETKEYS then
        (if GKeyDoneStations x = 0 then Some (snd (wpa_group_setkeysdone e g w))
         else if GTKReKey x then wpa_group_setkeys step e g w
         else Some w)
      else Some w)"

text \<open>Freeing a station, and the wrapper of the loop: a station already in its loop is left alone.\<close>

definition wpa_free_sta_sm :: "nat \<Rightarrow> wpa_world \<Rightarrow> wpa_world" where
  "wpa_free_sta_sm i w = (let w1 = leave_update i w in w1\<lparr>w_live := (w_live w1)(i := False)\<rparr>)"

definition call_sm_step :: "(nat \<Rightarrow> wpa_world \<Rightarrow> wpa_world option) \<Rightarrow> nat \<Rightarrow> wpa_world \<Rightarrow> wpa_world option" where
  "call_sm_step loop i w =
     (if in_step_loop (w_sm w i) then Some w
      else map_option (\<lambda>w1.
             let w2 = upd i (\<lambda>sm. sm\<lparr>in_step_loop := False\<rparr>) w1
             in if pending_deinit (w_sm w2 i) then wpa_free_sta_sm i w2 else w2)
           (loop i (upd i (\<lambda>sm. sm\<lparr>in_step_loop := True\<rparr>) w)))"

text \<open>
  One pass of the loop; the flag says whether the condition of the \<^verbatim>\<open>do while\<close> asks for another one.
\<close>

definition sm_pass :: "(nat \<Rightarrow> wpa_world \<Rightarrow> wpa_world option) \<Rightarrow> wpa_env \<Rightarrow> nat \<Rightarrow> wpa_world \<Rightarrow> (bool \<times> wpa_world) option" where
  "sm_pass step e i w =
     (if pending_deinit (w_sm w i) then Some (False, w)
      else
        let w1 = updg 0 (\<lambda>x. x\<lparr>g_changed := False\<rparr>) (upd i (\<lambda>sm. sm\<lparr>sm_changed := False\<rparr>) w);
            w2 = WPA_PTK_Step e i w1
        in if pending_deinit (w_sm w2 i) then Some (False, w2)
        else
          let w3 = WPA_PTK_GROUP_Step e i w2
          in if pending_deinit (w_sm w3 i) then Some (False, w3)
          else map_option (\<lambda>w4. (sm_changed (w_sm w4 i) \<or> g_changed (w_group w4 0), w4))
                 (wpa_group_sm_step step e (sm_group (w_sm w3 i)) w3))"

fun sm_loop :: "nat \<Rightarrow> wpa_env \<Rightarrow> nat \<Rightarrow> wpa_world \<Rightarrow> wpa_world option" where
  "sm_loop 0 e i w = None"
| "sm_loop (Suc n) e i w =
     (case sm_pass (call_sm_step (sm_loop n e)) e i w of
        None \<Rightarrow> None
      | Some (again, w') \<Rightarrow> if again then sm_loop n e i w' else Some w')"

text \<open>
  Fuel that is always enough: \<open>group_rank\<close> bounds how often a group machine can still move, and between
  two of its moves the machines of a station make fewer than 200 transitions (\<open>sm_loop_total\<close>).
\<close>

definition group_rank :: "wpa_group \<Rightarrow> nat" where
  "group_rank x =
     (if GTKReKey x then 3 else 0) +
     (case wpa_group_state x of WPA_GROUP_GTK_INIT \<Rightarrow> 2 | WPA_GROUP_SETKEYS \<Rightarrow> 1 | WPA_GROUP_SETKEYSDONE \<Rightarrow> 0)"

definition groups_rank :: "wpa_world \<Rightarrow> nat" where
  "groups_rank w = sum_list (map (\<lambda>g. group_rank (w_group w g)) (w_groups w))"

definition step_fuel :: "wpa_world \<Rightarrow> nat" where
  "step_fuel w = Suc (groups_rank w) * 200"

definition wpa_sm_step :: "wpa_env \<Rightarrow> nat \<Rightarrow> wpa_world \<Rightarrow> wpa_world option" where
  "wpa_sm_step e i w = call_sm_step (sm_loop (step_fuel w) e) i w"

end
