(* ===== verification/WpaAuthIe.thy ===== *)
theory WpaAuthIe
  imports WpaAuth
begin

unbundle bit_operations_syntax

section \<open>Negotiation of ciphers and key management (\<^verbatim>\<open>src/ap/wpa_auth_ie.c\<close>)\<close>

text \<open>
  The access point's own elements, and the check of the element a station sends when it associates:
  \<^verbatim>\<open>wpa_validate_wpa_ie\<close> decides whether the station gets in, which cipher and key management it will use,
  and whether a cached key spares it the EAP authentication.
\<close>

datatype wpa_ie_result = WPA_IE_OK | WPA_INVALID_IE | WPA_INVALID_GROUP | WPA_INVALID_PAIRWISE | WPA_INVALID_AKMP
  | WPA_NOT_ENABLED | WPA_ALLOC_FAIL | WPA_MGMT_FRAME_PROTECTION_VIOLATION | WPA_INVALID_MGMT_GROUP_CIPHER
  | WPA_INVALID_MDIE | WPA_INVALID_PROTO

definition proto_bit :: "u32 \<Rightarrow> u32 \<Rightarrow> bool" where
  "proto_bit v f = (v AND f \<noteq> 0)"

text \<open>The buffer of \<^verbatim>\<open>wpa_auth_gen_wpa_ie\<close> has 128 bytes; the RSN element comes first.\<close>

definition gen_ie :: "wpa_auth_config \<Rightarrow> u8 list option" where
  "gen_ie c =
     (case (if proto_bit (cf_wpa c) WPA_PROTO_RSN then wpa_write_rsn_ie c 128 None else Some []) of
        None \<Rightarrow> None
      | Some rsn \<Rightarrow>
          (case (if proto_bit (cf_wpa c) WPA_PROTO_WPA then wpa_write_wpa_ie c (128 - length rsn) else Some []) of
             None \<Rightarrow> None
           | Some wpa \<Rightarrow> Some (rsn @ wpa)))"

definition wpa_auth_gen_wpa_ie :: "wpa_env \<Rightarrow> wpa_world \<Rightarrow> int \<times> wpa_world" where
  "wpa_auth_gen_wpa_ie e w =
     (case gen_ie (conf w) of
        None \<Rightarrow> (- 1, w)
      | Some ie \<Rightarrow>
          let (mem, w1) = ask (e_alloc e) w
          in if mem then (0, upda (\<lambda>a. a\<lparr>a_wpa_ie := Some ie\<rparr>) w1)
             else (- 1, upda (\<lambda>a. a\<lparr>a_wpa_ie := None\<rparr>) w1))"

definition selected_akm :: "u32 \<Rightarrow> u32" where
  "selected_akm m =
     (if m AND WPA_KEY_MGMT_IEEE8021X \<noteq> 0 then AKM_8021X
      else if m AND WPA_KEY_MGMT_PSK \<noteq> 0 then AKM_PSK
      else AKM_8021X)"

definition selected_cipher :: "u32 \<Rightarrow> u32 \<Rightarrow> u32" where
  "selected_cipher dflt c =
     (if c AND WPA_CIPHER_CCMP \<noteq> 0 then SUITE_CCMP
      else if c AND WPA_CIPHER_TKIP \<noteq> 0 then SUITE_TKIP
      else if c AND WPA_CIPHER_WEP104 \<noteq> 0 then SUITE_WEP104
      else if c AND WPA_CIPHER_WEP40 \<noteq> 0 then SUITE_WEP40
      else if c AND WPA_CIPHER_NONE \<noteq> 0 then SUITE_NONE
      else dflt)"

text \<open>The three \<^verbatim>\<open>dot11RSNA...Selected\<close> variables.\<close>

definition note_selected :: "bool \<Rightarrow> wpa_ie_data \<Rightarrow> wpa_authenticator \<Rightarrow> wpa_authenticator" where
  "note_selected rsn d a =
     (let suite = (if rsn then rsn_suite else wpa_suite);
          dflt = (if rsn then SUITE_CCMP else SUITE_TKIP)
      in a\<lparr>AuthenticationSuiteSelected := suite (selected_akm (ied_key_mgmt d)),
           PairwiseCipherSelected := suite (selected_cipher dflt (ied_pairwise_cipher d)),
           GroupCipherSelected := suite (selected_cipher dflt (ied_group_cipher d))\<rparr>)"

text \<open>The \<open>k\<close>-th PMKID of the element.\<close>

definition pmkid_at :: "u8 list \<Rightarrow> wpa_ie_data \<Rightarrow> nat \<Rightarrow> u8 list" where
  "pmkid_at ie d k = (case ied_pmkid d of None \<Rightarrow> [] | Some p \<Rightarrow> take 16 (drop (p + k * 16) ie))"

fun find_cached :: "rsn_pmksa_cache \<Rightarrow> u8 list \<Rightarrow> u8 list list \<Rightarrow> (nat \<times> u8 list) option" where
  "find_cached c sta [] = None"
| "find_cached c sta (p # ps) =
     (case pmksa_cache_auth_get c (Some sta) (Some p) of
        Some a \<Rightarrow> Some (a, p)
      | None \<Rightarrow> find_cached c sta ps)"

text \<open>
  Opportunistic key caching walks the caches of all BSSs (\<^verbatim>\<open>wpa_auth_for_each_auth\<close>): \<open>None\<close> in the list is
  this one. The outer \<open>None\<close> of the result is a lookup that does not return.
\<close>

definition pmkid_deriv :: "wpa_env \<Rightarrow> pmkid_fun" where
  "pmkid_deriv e k aa sta sha256 = rsn_pmkid (crypto e) k aa sta"

fun okc_caches :: "wpa_env \<Rightarrow> rsn_pmksa_cache \<Rightarrow> rsn_pmksa_cache option list \<Rightarrow> u8 list \<Rightarrow> u8 list \<Rightarrow> u8 list \<Rightarrow>
    pmksa_entry option option" where
  "okc_caches e own [] aa sta p = Some None"
| "okc_caches e own (c # cs) aa sta p =
     (let cache = (case c of None \<Rightarrow> own | Some x \<Rightarrow> x) in
      case pmksa_cache_get_okc (pmkid_deriv e) cache aa sta p of
        None \<Rightarrow> None
      | Some (Some a) \<Rightarrow> Some (Some (entry_at cache a))
      | Some None \<Rightarrow> okc_caches e own cs aa sta p)"

fun okc_loop_pmkids :: "wpa_env \<Rightarrow> rsn_pmksa_cache \<Rightarrow> rsn_pmksa_cache option list \<Rightarrow> u8 list \<Rightarrow> u8 list \<Rightarrow> u8 list list \<Rightarrow>
    (pmksa_entry \<times> u8 list) option option" where
  "okc_loop_pmkids e own cs aa sta [] = Some None"
| "okc_loop_pmkids e own cs aa sta (p # ps) =
     (case okc_caches e own cs aa sta p of
        None \<Rightarrow> None
      | Some (Some x) \<Rightarrow> Some (Some (x, p))
      | Some None \<Rightarrow> okc_loop_pmkids e own cs aa sta ps)"

text \<open>
  The lookup of \<^verbatim>\<open>sm->pmksa\<close>; \<open>new\<close> is the address a new cache entry gets (\<open>None\<close>: out of memory), \<open>mem\<close>
  whether its strings can be copied.
\<close>

definition find_pmksa :: "wpa_env \<Rightarrow> rsn_pmksa_cache option list \<Rightarrow> nat option \<Rightarrow> bool \<Rightarrow> nat \<Rightarrow> u8 list list \<Rightarrow>
    wpa_world \<Rightarrow> wpa_world option" where
  "find_pmksa e cs new mem i pmkids w =
     (let sm = w_sm w i; cache = a_pmksa (w_auth w) in
      case find_cached cache (sm_addr sm) pmkids of
        Some (a, p) \<Rightarrow>
          Some (upda (\<lambda>x. x\<lparr>PMKIDUsed := pmkid (entry_at cache a)\<rparr>) (upd i (\<lambda>sm. sm\<lparr>sm_pmksa := Some a\<rparr>) w))
      | None \<Rightarrow>
          let w1 = upd i (\<lambda>sm. sm\<lparr>sm_pmksa := None\<rparr>) w in
          if \<not> cf_okc (conf w) then Some w1
          else case okc_loop_pmkids e cache cs (a_addr (w_auth w)) (sm_addr sm) pmkids of
                 None \<Rightarrow> None
               | Some None \<Rightarrow> Some w1
               | Some (Some (old, p)) \<Rightarrow>
                   let (r, c) = pmksa_cache_add_okc new mem old p cache;
                       w2 = upd i (\<lambda>sm. sm\<lparr>sm_pmksa := r\<rparr>) (upda (\<lambda>x. x\<lparr>a_pmksa := c\<rparr>) w1)
                   in Some (if r = None then w2 else upda (\<lambda>x. x\<lparr>PMKIDUsed := p\<rparr>) w2))"

definition store_wpa_ie :: "wpa_env \<Rightarrow> nat \<Rightarrow> u8 list \<Rightarrow> wpa_world \<Rightarrow> wpa_ie_result \<times> wpa_world" where
  "store_wpa_ie e i ie w =
     (let grow = (case sm_wpa_ie (w_sm w i) of None \<Rightarrow> True | Some x \<Rightarrow> length x < length ie);
          (mem, w1) = (if grow then ask (e_alloc e) w else (True, w))
      in if mem then (WPA_IE_OK, upd i (\<lambda>sm. sm\<lparr>sm_wpa_ie := Some ie\<rparr>) w1)
         else (WPA_ALLOC_FAIL, upd i (\<lambda>sm. sm\<lparr>sm_wpa_ie := None\<rparr>) w1))"

definition negotiated_akm :: "u32 \<Rightarrow> u32" where
  "negotiated_akm m = (if m AND WPA_KEY_MGMT_IEEE8021X \<noteq> 0 then WPA_KEY_MGMT_IEEE8021X else WPA_KEY_MGMT_PSK)"

definition negotiated_cipher :: "u32 \<Rightarrow> u32" where
  "negotiated_cipher c = (if c AND WPA_CIPHER_CCMP \<noteq> 0 then WPA_CIPHER_CCMP else WPA_CIPHER_TKIP)"

text \<open>
  \<open>None\<close> is a call that does not return; \<open>present\<close> says whether the authenticator and the station's state
  machine exist, and an absent element is \<open>None\<close>.
\<close>

definition wpa_validate_wpa_ie :: "wpa_env \<Rightarrow> rsn_pmksa_cache option list \<Rightarrow> nat option \<Rightarrow> bool \<Rightarrow> bool \<Rightarrow> nat \<Rightarrow>
    u8 list option \<Rightarrow> wpa_world \<Rightarrow> (wpa_ie_result \<times> wpa_world) option" where
  "wpa_validate_wpa_ie e cs new mem present i wpa_ie w =
     (if \<not> present then Some (WPA_NOT_ENABLED, w)
      else case wpa_ie of
        None \<Rightarrow> Some (WPA_INVALID_IE, w)
      | Some ie \<Rightarrow>
          if ie = [] then Some (WPA_INVALID_IE, w)
          else
            let rsn = (ie ! 0 = 48); c = conf w in
            if \<not> proto_bit (cf_wpa c) (if rsn then WPA_PROTO_RSN else WPA_PROTO_WPA) then Some (WPA_INVALID_PROTO, w)
            else
              Option.bind (if rsn then wpa_parse_wpa_ie_rsn ie (length ie) else wpa_parse_wpa_ie_wpa ie (length ie))
              (\<lambda>(res, d).
                let w1 = upda (note_selected rsn d) w in
                if res \<noteq> 0 then Some (WPA_INVALID_IE, w1)
                else if ied_group_cipher d \<noteq> cf_wpa_group c then Some (WPA_INVALID_GROUP, w1)
                else
                  let key_mgmt = ied_key_mgmt d AND cf_wpa_key_mgmt c in
                  if key_mgmt = 0 then Some (WPA_INVALID_AKMP, w1)
                  else
                    let w2 = upd i (\<lambda>sm. sm\<lparr>sm_key_mgmt := negotiated_akm key_mgmt\<rparr>) w1;
                        ciphers = ied_pairwise_cipher d AND (if rsn then cf_rsn_pairwise c else cf_wpa_pairwise c)
                    in if ciphers = 0 then Some (WPA_INVALID_PAIRWISE, w2)
                    else
                      let w3 = upd i (\<lambda>sm. sm\<lparr>sm_pairwise := negotiated_cipher ciphers,
                            sm_wpa := (if rsn then WPA_VERSION_WPA2 else WPA_VERSION_WPA)\<rparr>) w2
                      in map_option (store_wpa_ie e i ie)
                           (find_pmksa e cs new mem i (map (pmkid_at ie d) [0..<ied_num_pmkid d]) w3)))"

end
