(* ===== verification/WpaAuthApi.thy ===== *)
theory WpaAuthApi
  imports WpaAuthIe
begin

unbundle bit_operations_syntax

section \<open>The WPA authenticator: frames, events and set-up (\<^verbatim>\<open>src/ap/wpa_auth.c\<close>)\<close>

text \<open>
  What the rest of hostapd calls: reception of EAPOL-Key frames, the events of association and
  authentication, the timeouts, and the set-up of the authenticator and of its stations, with the TKIP
  countermeasures of \<^verbatim>\<open>src/ap/tkip_countermeasures.c\<close> that a reported MIC failure can start. A result
  \<open>None\<close> is a step loop that does not end or a read outside the frame; neither happens.
\<close>

subsection \<open>Rekeying\<close>

definition wpa_request_new_ptk :: "nat \<Rightarrow> wpa_world \<Rightarrow> wpa_world" where
  "wpa_request_new_ptk i = upd i (\<lambda>sm. sm\<lparr>PTKRequest := True, PTK_valid := False\<rparr>)"

definition wpa_rekey_gmk :: "wpa_env \<Rightarrow> wpa_world \<Rightarrow> wpa_world" where
  "wpa_rekey_gmk e w =
     (let ((r, ok), w1) = random_get_bytes e 32 w;
          w2 = updg 0 (\<lambda>x. x\<lparr>GMK := r\<rparr>) w1
      in if cf_wpa_gmk_rekey (conf w2) \<noteq> 0 then register_timeout RekeyGmk (cf_wpa_gmk_rekey (conf w2)) 0 w2 else w2)"

text \<open>The \<^verbatim>\<open>do while\<close> of one group; a pass that changes the group lowers its rank.\<close>

fun rekey_group_loop :: "nat \<Rightarrow> wpa_env \<Rightarrow> nat \<Rightarrow> wpa_world \<Rightarrow> wpa_world option" where
  "rekey_group_loop 0 e g w = None"
| "rekey_group_loop (Suc n) e g w =
     Option.bind (wpa_group_sm_step (wpa_sm_step e) e g (updg g (\<lambda>x. x\<lparr>g_changed := False\<rparr>) w)) (\<lambda>w1.
       if g_changed (w_group w1 g) then rekey_group_loop n e g w1 else Some w1)"

fun rekey_groups :: "wpa_env \<Rightarrow> nat list \<Rightarrow> wpa_world \<Rightarrow> wpa_world option" where
  "rekey_groups e [] w = Some w"
| "rekey_groups e (g # gs) w =
     (let w1 = updg g (\<lambda>x. x\<lparr>GTKReKey := True\<rparr>) w
      in Option.bind (rekey_group_loop (Suc (groups_rank w1)) e g w1) (rekey_groups e gs))"

definition wpa_rekey_gtk :: "wpa_env \<Rightarrow> wpa_world \<Rightarrow> wpa_world option" where
  "wpa_rekey_gtk e w =
     map_option (\<lambda>w1.
       if cf_wpa_group_rekey (conf w1) \<noteq> 0 then register_timeout RekeyGtk (cf_wpa_group_rekey (conf w1)) 0 w1 else w1)
       (rekey_groups e (w_groups w) w)"

definition wpa_rekey_ptk :: "wpa_env \<Rightarrow> nat \<Rightarrow> wpa_world \<Rightarrow> wpa_world option" where
  "wpa_rekey_ptk e i w = wpa_sm_step e i (wpa_request_new_ptk i w)"

definition wpa_gtk_rekey :: "wpa_env \<Rightarrow> wpa_world \<Rightarrow> wpa_world" where
  "wpa_gtk_rekey e w =
     (let w1 = snd (wpa_gtk_update e 0 (updg 0 swap_gn w))
      in snd (wpa_gtk_update e 0 (updg 0 swap_gn w1)))"

subsection \<open>TKIP countermeasures\<close>

definition wpa_auth_countermeasures_start :: "wpa_world \<Rightarrow> wpa_world" where
  "wpa_auth_countermeasures_start = upda (\<lambda>a. a\<lparr>CounterMeasuresInvoked := CounterMeasuresInvoked a + 1\<rparr>)"

definition ieee80211_tkip_countermeasures_stop :: "wpa_world \<Rightarrow> wpa_world" where
  "ieee80211_tkip_countermeasures_stop w = log_out (SetCountermeasures False) (w\<lparr>tkip_countermeasures := False\<rparr>)"

text \<open>Every station is deauthenticated and removed from the driver; its state machine stays.\<close>

definition ieee80211_tkip_countermeasures_start :: "wpa_env \<Rightarrow> wpa_world \<Rightarrow> wpa_world" where
  "ieee80211_tkip_countermeasures_start e w =
     (let w1 = wpa_auth_countermeasures_start w;
          w2 = log_out (SetCountermeasures True) (w1\<lparr>tkip_countermeasures := True\<rparr>);
          w3 = wpa_gtk_rekey e w2;
          w4 = register_timeout CountermeasuresStop 60 0 (cancel_timeout CountermeasuresStop w3)
      in fold (\<lambda>i w. log_out (DeauthSta (sm_addr (w_sm w i))) w) (w_stas w4) w4)"

definition count_mic_failure :: "wpa_env \<Rightarrow> wpa_world \<Rightarrow> wpa_world" where
  "count_mic_failure e w =
     (let (now, w1) = ask (\<lambda>k. fst (e_time e k)) w;
          w2 = (if now > michael_mic_failure_time w1 + 60 then w1\<lparr>michael_mic_failures := 1\<rparr>
                else
                  let w' = w1\<lparr>michael_mic_failures := michael_mic_failures w1 + 1\<rparr>
                  in if michael_mic_failures w' > 1 then ieee80211_tkip_countermeasures_start e w' else w')
      in w2\<lparr>michael_mic_failure_time := now\<rparr>)"

text \<open>
  \<^verbatim>\<open>michael_mic_failure\<close>: \<open>local_sta\<close> is the station for a failure the access point has seen itself
  (\<open>Some None\<close>: it is not associated), \<open>None\<close> for one a station has reported.
\<close>

definition michael_mic_failure :: "wpa_env \<Rightarrow> nat option option \<Rightarrow> wpa_world \<Rightarrow> wpa_world" where
  "michael_mic_failure e local_sta w =
     (case local_sta of
        None \<Rightarrow> count_mic_failure e w
      | Some None \<Rightarrow> w
      | Some (Some i) \<Rightarrow> count_mic_failure e (upd i (\<lambda>sm. sm\<lparr>sm_LocalMICFailures := sm_LocalMICFailures sm + 1\<rparr>) w))"

subsection \<open>Reception of EAPOL-Key frames\<close>

datatype key_msg = PAIRWISE_2 | PAIRWISE_4 | GROUP_2 | REQUEST | SMK_M1 | SMK_M3 | SMK_ERROR

definition key_msg_of :: "u16 \<Rightarrow> u16 \<Rightarrow> key_msg" where
  "key_msg_of key_info key_data_length =
     (if key_flag key_info WPA_KEY_INFO_SMK_MESSAGE \<and> key_flag key_info WPA_KEY_INFO_REQUEST then
        (if key_flag key_info WPA_KEY_INFO_ERROR then SMK_ERROR else SMK_M1)
      else if key_flag key_info WPA_KEY_INFO_SMK_MESSAGE then SMK_M3
      else if key_flag key_info WPA_KEY_INFO_REQUEST then REQUEST
      else if \<not> key_flag key_info WPA_KEY_INFO_KEY_TYPE then GROUP_2
      else if key_data_length = 0 then PAIRWISE_4
      else PAIRWISE_2)"

fun replay_match :: "nat \<Rightarrow> (u8 list \<times> bool) list \<Rightarrow> u8 list \<Rightarrow> bool" where
  "replay_match 0 r c = False"
| "replay_match (Suc n) [] c = False"
| "replay_match (Suc n) ((x, valid) # r) c = (valid \<and> (c = x \<or> replay_match n r c))"

definition wpa_replay_counter_valid :: "wpa_state_machine \<Rightarrow> u8 list \<Rightarrow> bool" where
  "wpa_replay_counter_valid sm c = replay_match 4 (key_replay sm) c"

text \<open>The checks before the \<^verbatim>\<open>switch (msg)\<close>: lengths, descriptor type and version, replay counters.\<close>

definition rx_acceptable :: "wpa_state_machine \<Rightarrow> u8 list \<Rightarrow> bool" where
  "rx_acceptable sm data =
     (let key = eapol_key_of data;
          info = ek_key_info key;
          msg = key_msg_of info (ek_key_data_length key)
      in length data \<ge> EAPOL_KEY_LEN \<and>
         \<not> unat (ek_key_data_length key) > length data - EAPOL_KEY_LEN \<and>
         ek_type key = (if sm_wpa sm = WPA_VERSION_WPA2 then 2 else 254) \<and>
         \<not> (msg \<in> {REQUEST, PAIRWISE_2, PAIRWISE_4, GROUP_2} \<and> sm_pairwise sm = WPA_CIPHER_CCMP \<and>
            info AND WPA_KEY_INFO_TYPE_MASK \<noteq> WPA_KEY_INFO_TYPE_HMAC_SHA1_AES) \<and>
         \<not> (key_flag info WPA_KEY_INFO_REQUEST \<and> req_replay_counter_used sm \<and>
            os_memcmp (ek_replay_counter key) (req_replay_counter sm) \<le> 0) \<and>
         \<not> (\<not> key_flag info WPA_KEY_INFO_REQUEST \<and> \<not> wpa_replay_counter_valid sm (ek_replay_counter key)))"

definition key_data_of :: "u8 list \<Rightarrow> u8 list" where "key_data_of data = drop EAPOL_KEY_LEN data"

text \<open>
  Message 2/4: the first handshakes are refused while entropy is short, and the element in the frame must be
  the one the station has associated with. The flag says whether the frame goes on to the MIC check.
\<close>

definition rx_pairwise_2 :: "nat \<Rightarrow> u8 list \<Rightarrow> wpa_world \<Rightarrow> (bool \<times> wpa_world) option" where
  "rx_pairwise_2 i data w =
     (let sm = w_sm w i; key = eapol_key_of data in
      if wpa_ptk_state sm \<noteq> WPA_PTK_PTKSTART \<and> wpa_ptk_state sm \<noteq> WPA_PTK_PTKCALCNEGOTIATING then Some (False, w)
      else
        let w1 = log_out (AddRandomness (ek_key_nonce key)) w in
        if reject_4way_hs_for_entropy (sm_grp i w1) then
          let w2 = updg (sm_group sm) (\<lambda>x. x\<lparr>reject_4way_hs_for_entropy := False\<rparr>) w1;
              w3 = updg (sm_group sm) (\<lambda>x. x\<lparr>first_sta_seen := False\<rparr>) (log_out MarkPoolReady w2)
          in Some (False, wpa_sta_disconnect i w3)
        else
          Option.bind (wpa_parse_kde_ies (key_data_of data) (unat (ek_key_data_length key))) (\<lambda>(res, kde).
            if res < 0 then Some (False, w1)
            else
              let p = (case kd_rsn_ie kde of Some x \<Rightarrow> Some x | None \<Rightarrow> kd_wpa_ie kde);
                  ie = map_option (\<lambda>(off, n). take n (drop off (key_data_of data))) p
              in if sm_wpa_ie sm = None \<or> wpa_compare_rsn_ie (sm_wpa_ie sm) ie \<noteq> 0
                 then Some (False, wpa_sta_disconnect i w1)
                 else Some (True, w1)))"

definition rx_switch :: "nat \<Rightarrow> u8 list \<Rightarrow> wpa_world \<Rightarrow> (bool \<times> wpa_world) option" where
  "rx_switch i data w =
     (let sm = w_sm w i; key = eapol_key_of data in
      case key_msg_of (ek_key_info key) (ek_key_data_length key) of
        PAIRWISE_2 \<Rightarrow> rx_pairwise_2 i data w
      | PAIRWISE_4 \<Rightarrow> Some (\<not> (wpa_ptk_state sm \<noteq> WPA_PTK_PTKINITNEGOTIATING \<or> \<not> PTK_valid sm), w)
      | GROUP_2 \<Rightarrow> Some (\<not> (wpa_ptk_group_state sm \<noteq> WPA_PTK_GROUP_REKEYNEGOTIATING \<or> \<not> PTK_valid sm), w)
      | REQUEST \<Rightarrow> Some (True, w)
      | _ \<Rightarrow> Some (False, w))"

text \<open>The MIC check with the key in use; without one the flag \<^verbatim>\<open>MICVerified\<close> just stays down.\<close>

definition rx_mic :: "wpa_env \<Rightarrow> nat \<Rightarrow> u8 list \<Rightarrow> wpa_world \<Rightarrow> bool \<times> wpa_world" where
  "rx_mic e i data w =
     (let info = ek_key_info (eapol_key_of data) in
      if key_flag info WPA_KEY_INFO_ACK \<or> \<not> key_flag info WPA_KEY_INFO_MIC then (False, w)
      else
        let w1 = upd i (\<lambda>sm. sm\<lparr>MICVerified := False\<rparr>) w in
        if \<not> PTK_valid (w_sm w1 i) then (True, w1)
        else if wpa_verify_key_mic (crypto e) (PTK (w_sm w1 i)) data \<noteq> 0 then (False, w1)
        else
          let w2 = cancel_timeout (SendEapolTimeout i) (upd i (\<lambda>sm. sm\<lparr>MICVerified := True\<rparr>) w1)
          in (True, upd i (\<lambda>sm. sm\<lparr>pending_1_of_4_timeout := False\<rparr>) w2))"

text \<open>A request: a Michael MIC failure report, a request for a new handshake, or one for a new group key.\<close>

definition rx_request :: "wpa_env \<Rightarrow> nat \<Rightarrow> u8 list \<Rightarrow> wpa_world \<Rightarrow> (bool \<times> wpa_world) option" where
  "rx_request e i data w =
     (let key = eapol_key_of data; info = ek_key_info key;
          len = unat (ek_key_data_length key)
      in if \<not> MICVerified (w_sm w i) then Some (False, w)
      else
        let w1 = upd i (\<lambda>sm. sm\<lparr>req_replay_counter_used := True, req_replay_counter := ek_replay_counter key\<rparr>) w in
        if key_msg_of info (ek_key_data_length key) = SMK_ERROR then Some (False, w1)
        else if key_flag info WPA_KEY_INFO_ERROR then
          let w2 = michael_mic_failure e None w1;
              w3 = upda (\<lambda>a. a\<lparr>a_RemoteMICFailures := a_RemoteMICFailures a + 1\<rparr>)
                     (upd i (\<lambda>sm. sm\<lparr>sm_RemoteMICFailures := sm_RemoteMICFailures sm + 1\<rparr>) w2)
          in Some (True, wpa_request_new_ptk i w3)
        else if key_flag info WPA_KEY_INFO_KEY_TYPE then Some (True, wpa_request_new_ptk i w1)
        else
          Option.bind (if len > 0 then map_option (\<lambda>(res, kde). res = 0 \<and> kd_mac_addr kde \<noteq> None)
                  (wpa_parse_kde_ies (key_data_of data) len) else Some False) (\<lambda>mac.
            if mac then Some (True, w1)
            else map_option (Pair True) (wpa_rekey_gtk e (cancel_timeout RekeyGtk w1))))"

text \<open>The frame is stored and the machines run.\<close>

definition rx_deliver :: "wpa_env \<Rightarrow> nat \<Rightarrow> u8 list \<Rightarrow> wpa_world \<Rightarrow> wpa_world option" where
  "rx_deliver e i data w =
     (let info = ek_key_info (eapol_key_of data);
          (mem, w1) = ask (e_alloc e) w
      in if \<not> mem then Some (upd i (\<lambda>sm. sm\<lparr>last_rx_eapol_key := None\<rparr>) w1)
      else wpa_sm_step e i
             (upd i (\<lambda>sm. sm\<lparr>last_rx_eapol_key := Some data, EAPOLKeyReceived := True,
                EAPOLKeyPairwise := key_flag info WPA_KEY_INFO_KEY_TYPE,
                EAPOLKeyRequest := key_flag info WPA_KEY_INFO_REQUEST,
                SNonce := ek_key_nonce (eapol_key_of data)\<rparr>) w1))"

definition invalidate_replay :: "wpa_state_machine \<Rightarrow> wpa_state_machine" where
  "invalidate_replay sm = sm\<lparr>key_replay := (key_replay sm)[0 := (fst (key_replay sm ! 0), False)]\<rparr>"

definition rx_verified :: "wpa_env \<Rightarrow> nat \<Rightarrow> u8 list \<Rightarrow> wpa_world \<Rightarrow> wpa_world option" where
  "rx_verified e i data w =
     (if key_flag (ek_key_info (eapol_key_of data)) WPA_KEY_INFO_REQUEST then
        Option.bind (rx_request e i data w) (\<lambda>(go, w1). if go then rx_deliver e i data w1 else Some w1)
      else rx_deliver e i data (upd i invalidate_replay w))"

definition wpa_receive :: "wpa_env \<Rightarrow> nat \<Rightarrow> u8 list \<Rightarrow> wpa_world \<Rightarrow> wpa_world option" where
  "wpa_receive e i data w0 =
     (let w = log_out (Received (sm_addr (w_sm w0 i)) data) w0 in
      if cf_wpa (conf w) = 0 \<or> \<not> rx_acceptable (w_sm w i) data then Some w
      else
        Option.bind (rx_switch i data w) (\<lambda>(go, w1).
          if \<not> go then Some w1
          else
            let (go, w2) = rx_mic e i data w1
            in if go then rx_verified e i data w2 else Some w2))"

subsection \<open>Timeouts and events\<close>

definition wpa_send_eapol_timeout :: "wpa_env \<Rightarrow> nat \<Rightarrow> wpa_world \<Rightarrow> wpa_world option" where
  "wpa_send_eapol_timeout e i w = wpa_sm_step e i (upd i (\<lambda>sm. sm\<lparr>pending_1_of_4_timeout := False, TimeoutEvt := True\<rparr>) w)"

definition wpa_sm_call_step :: "wpa_env \<Rightarrow> nat \<Rightarrow> wpa_world \<Rightarrow> wpa_world option" where
  "wpa_sm_call_step e i w = wpa_sm_step e i w"

definition wpa_auth_sm_notify :: "nat \<Rightarrow> wpa_world \<Rightarrow> wpa_world" where
  "wpa_auth_sm_notify i w = register_timeout (SmCallStep i) 0 0 w"

definition wpa_auth_eapol_key_tx_status :: "nat \<Rightarrow> bool \<Rightarrow> wpa_world \<Rightarrow> wpa_world" where
  "wpa_auth_eapol_key_tx_status i ack w =
     (if pending_1_of_4_timeout (w_sm w i) \<and> ack
      then register_timeout (SendEapolTimeout i) 1 0 (cancel_timeout (SendEapolTimeout i) w)
      else w)"

datatype wpa_event = WPA_AUTH | WPA_ASSOC | WPA_DISASSOC | WPA_DEAUTH | WPA_REAUTH | WPA_REAUTH_EAPOL | WPA_ASSOC_FT

text \<open>The first run of the machines of a station: \<^verbatim>\<open>Init\<close> is set for one step.\<close>

definition start_machines :: "wpa_env \<Rightarrow> nat \<Rightarrow> wpa_world \<Rightarrow> wpa_world option" where
  "start_machines e i w =
     map_option (\<lambda>w1. if \<not> w_live w1 i then w1
         else upd i (\<lambda>sm. sm\<lparr>Init := False, AuthenticationRequest := True\<rparr>) w1)
       (wpa_sm_step e i (upd i (\<lambda>sm. sm\<lparr>sm_started := True, Init := True\<rparr>) w))"

text \<open>The switch of \<^verbatim>\<open>wpa_auth_sm_event\<close>; a station that was freed on the way ends it.\<close>

definition event_flags :: "wpa_env \<Rightarrow> nat \<Rightarrow> wpa_event \<Rightarrow> wpa_world \<Rightarrow> wpa_world option" where
  "event_flags e i ev w =
     (case ev of
        WPA_DEAUTH \<Rightarrow> Some (upd i (\<lambda>sm. sm\<lparr>DeauthenticationRequest := True\<rparr>) w)
      | WPA_DISASSOC \<Rightarrow> Some (upd i (\<lambda>sm. sm\<lparr>DeauthenticationRequest := True\<rparr>) w)
      | _ \<Rightarrow>
          if ev \<noteq> WPA_REAUTH \<and> ev \<noteq> WPA_REAUTH_EAPOL then Some w
          else if \<not> sm_started (w_sm w i) then start_machines e i w
          else
            let w1 = (if GUpdateStationKeys (w_sm w i)
                  then upd i (\<lambda>sm. sm\<lparr>PtkGroupInit := True\<rparr>) (leave_update i w) else w)
            in Some (upd i (\<lambda>sm. sm\<lparr>ReAuthenticationRequest := True\<rparr>) w1))"

definition wpa_auth_sm_event :: "wpa_env \<Rightarrow> nat \<Rightarrow> wpa_event \<Rightarrow> wpa_world \<Rightarrow> wpa_world option" where
  "wpa_auth_sm_event e i ev w =
     Option.bind (event_flags e i ev w) (\<lambda>w1.
       if \<not> w_live w1 i then Some w1
       else
         let w2 = upd i (\<lambda>sm. sm\<lparr>PTK_valid := False, PTK := zero_ptk\<rparr>) w1;
             w3 = (if ev \<noteq> WPA_REAUTH_EAPOL then wpa_remove_ptk e i w2 else w2)
         in wpa_sm_step e i w3)"

definition zero_replay :: "(u8 list \<times> bool) list" where
  "zero_replay = replicate 4 (replicate 8 0, False)"

definition wpa_auth_sta_associated :: "wpa_env \<Rightarrow> nat \<Rightarrow> wpa_world \<Rightarrow> wpa_world option" where
  "wpa_auth_sta_associated e i w =
     (if cf_wpa (conf w) = 0 then Some w
      else if sm_started (w_sm w i) then
        wpa_sm_step e i (upd i (\<lambda>sm. sm\<lparr>key_replay := zero_replay, ReAuthenticationRequest := True\<rparr>) w)
      else Option.bind (start_machines e i w) (\<lambda>w1. if \<not> w_live w1 i then Some w1 else wpa_sm_step e i w1))"

definition wpa_auth_sta_no_wpa :: "nat \<Rightarrow> wpa_world \<Rightarrow> wpa_world" where
  "wpa_auth_sta_no_wpa i = upd i (\<lambda>sm. sm\<lparr>sm_key_mgmt := 0\<rparr>)"

text \<open>\<^verbatim>\<open>wpa_auth_sta_clear_pmksa\<close>; its result is not used here.\<close>

definition sm_clear_pmksa :: "nat \<Rightarrow> nat \<Rightarrow> wpa_world \<Rightarrow> wpa_world" where
  "sm_clear_pmksa i a = upd i (\<lambda>sm. if sm_pmksa sm = Some a then sm\<lparr>sm_pmksa := None\<rparr> else sm)"

text \<open>
  An operation on the key cache, with the callback \<^verbatim>\<open>wpa_auth_pmksa_free_cb\<close> for every entry it frees: no
  station keeps a pointer to it.
\<close>

definition wpa_auth_pmksa_free_cb :: "nat \<Rightarrow> wpa_world \<Rightarrow> wpa_world" where
  "wpa_auth_pmksa_free_cb a w = fold (\<lambda>i. sm_clear_pmksa i a) (w_stas w) w"

definition with_cache :: "rsn_pmksa_cache \<Rightarrow> wpa_world \<Rightarrow> wpa_world" where
  "with_cache c w = fold wpa_auth_pmksa_free_cb (free_cbs c) (upda (\<lambda>a. a\<lparr>a_pmksa := c\<lparr>free_cbs := []\<rparr>\<rparr>) w)"

definition wpa_auth_pmksa_add :: "wpa_env \<Rightarrow> int \<Rightarrow> nat option \<Rightarrow> bool \<Rightarrow> nat \<Rightarrow> u8 list \<Rightarrow> int \<Rightarrow> eapol_ident option \<Rightarrow>
    wpa_world \<Rightarrow> int \<times> wpa_world" where
  "wpa_auth_pmksa_add e now new mem i key session_timeout eapol w =
     (if sm_wpa (w_sm w i) \<noteq> WPA_VERSION_WPA2 then (- 1, w)
      else
        let (r, c) = pmksa_cache_auth_add (pmkid_deriv e) now new mem key (a_addr (w_auth w)) (sm_addr (w_sm w i))
              session_timeout eapol (unat (sm_key_mgmt (w_sm w i))) (a_pmksa (w_auth w))
        in (if r = None then - 1 else 0, with_cache c w))"

definition wpa_auth_pmksa_add_preauth :: "wpa_env \<Rightarrow> int \<Rightarrow> nat option \<Rightarrow> bool \<Rightarrow> u8 list \<Rightarrow> u8 list \<Rightarrow> int \<Rightarrow>
    eapol_ident option \<Rightarrow> wpa_world \<Rightarrow> int \<times> wpa_world" where
  "wpa_auth_pmksa_add_preauth e now new mem key sta session_timeout eapol w =
     (let (r, c) = pmksa_cache_auth_add (pmkid_deriv e) now new mem key (a_addr (w_auth w)) sta
            session_timeout eapol 1 (a_pmksa (w_auth w))
      in (if r = None then - 1 else 0, with_cache c w))"

subsection \<open>Set-up\<close>

definition zeroed_group :: wpa_group where
  "zeroed_group = \<lparr>g_vlan_id = 0, GInit = False, GKeyDoneStations = 0, GTKReKey = False, GTK_len = 0, GN = 0, GM = 0,
     GTKAuthenticator = False, g_Counter = replicate 32 0, wpa_group_state = WPA_GROUP_GTK_INIT, GMK = replicate 32 0,
     GTK = replicate 2 (replicate 32 0), GNonce = replicate 32 0, g_changed = False, first_sta_seen = False,
     reject_4way_hs_for_entropy = False\<rparr>"

text \<open>\<^verbatim>\<open>wpa_group_init\<close> builds the group \<open>g\<close>; the chain of groups is the caller's business.\<close>

definition wpa_group_init :: "wpa_env \<Rightarrow> nat \<Rightarrow> int \<Rightarrow> wpa_world \<Rightarrow> (bool \<times> wpa_world) option" where
  "wpa_group_init e g vlan w =
     (let (mem, w1) = ask (e_alloc e) w
      in if \<not> mem then Some (False, w1)
      else
        let w2 = updg g (\<lambda>_. wpa_group_set_key_len (cf_wpa_group (conf w1))
              (zeroed_group\<lparr>GTKAuthenticator := True, g_vlan_id := vlan\<rparr>)) w1;
            w3 = snd (ask (e_pool_ready e) w2);
            (res, w4) = wpa_group_init_gmk_and_counter e g w3
        in if res < 0 then Some (False, w4)
        else
          Option.bind (wpa_group_sm_step (wpa_sm_step e) e g (updg g (\<lambda>x. x\<lparr>GInit := True\<rparr>) w4)) (\<lambda>w5.
            map_option (Pair True) (wpa_group_sm_step (wpa_sm_step e) e g (updg g (\<lambda>x. x\<lparr>GInit := False\<rparr>) w5))))"

definition zeroed_auth :: wpa_authenticator where
  "zeroed_auth = \<lparr>a_RemoteMICFailures = 0, AuthenticationSuiteSelected = 0, PairwiseCipherSelected = 0,
     GroupCipherSelected = 0, PMKIDUsed = replicate 16 0, CounterMeasuresInvoked = 0, FourWayHandshakeFailures = 0,
     a_conf = \<lparr>cf_wpa = 0, cf_wpa_key_mgmt = 0, cf_wpa_pairwise = 0, cf_wpa_group = 0, cf_wpa_group_rekey = 0,
       cf_wpa_strict_rekey = False, cf_wpa_gmk_rekey = 0, cf_wpa_ptk_rekey = 0, cf_rsn_pairwise = 0,
       cf_rsn_preauth = False, cf_eapol_version = 0, cf_peerkey = False, cf_wmm_enabled = False, cf_wmm_uapsd = False,
       cf_okc = False, cf_tx_status = False\<rparr>,
     a_wpa_ie = None, a_addr = replicate 6 0,
     a_pmksa = \<lparr>ent = \<lambda>a. None, pmksa = [], hash = \<lambda>h. [], pmksa_count = 0, timer = None, free_cbs = []\<rparr>\<rparr>"

definition zeroed_wpa_sm :: wpa_state_machine where
  "zeroed_wpa_sm =
     \<lparr>sm_addr = replicate 6 0, sm_group = 0, wpa_ptk_state = WPA_PTK_INITIALIZE, wpa_ptk_group_state = WPA_PTK_GROUP_IDLE,
      Init = False, DeauthenticationRequest = False, AuthenticationRequest = False, ReAuthenticationRequest = False,
      Disconnect = False, TimeoutCtr = 0, GTimeoutCtr = 0, TimeoutEvt = False, EAPOLKeyReceived = False,
      EAPOLKeyPairwise = False, EAPOLKeyRequest = False, MICVerified = False, GUpdateStationKeys = False,
      ANonce = replicate 32 0, SNonce = replicate 32 0, PMK = replicate 32 0, PTK = zero_ptk, PTK_valid = False,
      pairwise_set = False, keycount = 0, sm_Pair = False, key_replay = zero_replay, PInitAKeys = False,
      PTKRequest = False, has_GTK = False, PtkGroupInit = False, last_rx_eapol_key = None, sm_changed = False,
      in_step_loop = False, pending_deinit = False, sm_started = False, mgmt_frame_prot = False,
      req_replay_counter = replicate 8 0, req_replay_counter_used = False, sm_wpa_ie = None,
      sm_wpa = WPA_VERSION_NO_WPA, sm_pairwise = 0, sm_key_mgmt = 0, sm_pmksa = None, sm_LocalMICFailures = 0,
      sm_RemoteMICFailures = 0, pending_1_of_4_timeout = False\<rparr>"

text \<open>Memory before \<^verbatim>\<open>wpa_init\<close>, and \<^verbatim>\<open>wpa_init\<close> itself; \<open>False\<close> is its NULL.\<close>

definition no_world :: wpa_world where
  "no_world = \<lparr>w_auth = zeroed_auth, w_group = (\<lambda>_. zeroed_group), w_groups = [], w_sm = (\<lambda>_. zeroed_wpa_sm),
     w_live = (\<lambda>_. False), w_stas = [], w_calls = 0, w_log = [], michael_mic_failure_time = 0,
     michael_mic_failures = 0, tkip_countermeasures = False\<rparr>"

definition wpa_init :: "wpa_env \<Rightarrow> u8 list \<Rightarrow> wpa_auth_config \<Rightarrow> (bool \<times> wpa_world) option" where
  "wpa_init e addr c =
     (let (mem, w1) = ask (e_alloc e) no_world
      in if \<not> mem then Some (False, w1)
      else
        let w2 = upda (\<lambda>a. a\<lparr>a_addr := addr, a_conf := c\<rparr>) w1;
            (res, w3) = wpa_auth_gen_wpa_ie e w2
        in if res \<noteq> 0 then Some (False, w3)
        else
          Option.bind (wpa_group_init e 0 0 w3) (\<lambda>(ok, w4).
            if \<not> ok then Some (False, w4)
            else
              let w5 = w4\<lparr>w_groups := [0]\<rparr>;
                  (mem, w6) = ask (e_alloc e) w5
              in case pmksa_cache_auth_init mem of
                   None \<Rightarrow> Some (False, w6)
                 | Some cache \<Rightarrow>
                     let w7 = upda (\<lambda>a. a\<lparr>a_pmksa := cache\<rparr>) w6;
                         w8 = (if cf_wpa_gmk_rekey c \<noteq> 0 then register_timeout RekeyGmk (cf_wpa_gmk_rekey c) 0 w7 else w7);
                         w9 = (if cf_wpa_group_rekey c \<noteq> 0 then register_timeout RekeyGtk (cf_wpa_group_rekey c) 0 w8 else w8)
                     in Some (True, w9)))"

definition wpa_reconfig :: "wpa_env \<Rightarrow> wpa_auth_config \<Rightarrow> wpa_world \<Rightarrow> (int \<times> wpa_world) option" where
  "wpa_reconfig e c w =
     (let (res, w1) = wpa_auth_gen_wpa_ie e (upda (\<lambda>a. a\<lparr>a_conf := c\<rparr>) w)
      in if res \<noteq> 0 then Some (- 1, w1)
      else
        Option.bind (wpa_group_sm_step (wpa_sm_step e) e 0
            (updg 0 (\<lambda>x. (wpa_group_set_key_len (cf_wpa_group c) x)\<lparr>GInit := True\<rparr>) w1)) (\<lambda>w2.
          map_option (Pair 0) (wpa_group_sm_step (wpa_sm_step e) e 0 (updg 0 (\<lambda>x. x\<lparr>GInit := False\<rparr>) w2))))"

text \<open>
  A new state machine gets the number \<open>i\<close>; its place \<open>pos\<close> among those \<^verbatim>\<open>for_each_sta\<close> finds is the place of
  its station in the list of stations.
\<close>

definition wpa_auth_sta_init :: "wpa_env \<Rightarrow> nat \<Rightarrow> nat \<Rightarrow> u8 list \<Rightarrow> wpa_world \<Rightarrow> wpa_world" where
  "wpa_auth_sta_init e i pos addr w =
     (let (mem, w1) = ask (e_alloc e) w
      in if \<not> mem then w1
         else (upd i (\<lambda>_. zeroed_wpa_sm\<lparr>sm_addr := addr\<rparr>) w1)
                \<lparr>w_live := (w_live w1)(i := True), w_stas := take pos (w_stas w1) @ i # drop pos (w_stas w1)\<rparr>)"

text \<open>\<^verbatim>\<open>ap_free_sta\<close> takes the station off the list first.\<close>

definition wpa_auth_sta_deinit :: "nat \<Rightarrow> wpa_world \<Rightarrow> wpa_world" where
  "wpa_auth_sta_deinit i w =
     (let w1 = (if cf_wpa_strict_rekey (conf w) \<and> has_GTK (w_sm w i)
            then register_timeout RekeyGtk 0 500000 (cancel_timeout RekeyGtk w) else w);
          w2 = upd i (\<lambda>sm. sm\<lparr>pending_1_of_4_timeout := False\<rparr>) (cancel_timeout (SendEapolTimeout i) w1);
          w3 = cancel_timeout (RekeyPtk i) (cancel_timeout (SmCallStep i) w2)
      in if in_step_loop (w_sm w3 i) then upd i (\<lambda>sm. sm\<lparr>pending_deinit := True\<rparr>) w3
         else wpa_free_sta_sm i w3)"

definition ap_free_sta :: "nat \<Rightarrow> wpa_world \<Rightarrow> wpa_world" where
  "ap_free_sta i w = wpa_auth_sta_deinit i (w\<lparr>w_stas := removeAll i (w_stas w)\<rparr>)"

text \<open>\<^verbatim>\<open>wpa_auth_add_group\<close> links a new group behind the first one.\<close>

definition wpa_auth_add_group :: "wpa_env \<Rightarrow> int \<Rightarrow> wpa_world \<Rightarrow> (nat option \<times> wpa_world) option" where
  "wpa_auth_add_group e vlan w =
     (let g = length (w_groups w) in
      map_option (\<lambda>(ok, w1).
          if ok then (Some g, w1\<lparr>w_groups := hd (w_groups w1) # g # tl (w_groups w1)\<rparr>) else (None, w1))
        (wpa_group_init e g vlan w))"

definition wpa_auth_sta_set_vlan :: "wpa_env \<Rightarrow> nat \<Rightarrow> int \<Rightarrow> wpa_world \<Rightarrow> (int \<times> wpa_world) option" where
  "wpa_auth_sta_set_vlan e i vlan w =
     (case List.find (\<lambda>g. g_vlan_id (w_group w g) = vlan) (w_groups w) of
        Some g \<Rightarrow> Some (0, upd i (\<lambda>sm. sm\<lparr>sm_group := g\<rparr>) w)
      | None \<Rightarrow>
          map_option (\<lambda>(r, w1). case r of None \<Rightarrow> (- 1, w1) | Some g \<Rightarrow> (0, upd i (\<lambda>sm. sm\<lparr>sm_group := g\<rparr>) w1))
            (wpa_auth_add_group e vlan w))"

text \<open>\<^verbatim>\<open>wpa_deinit\<close>: the memory of the authenticator and of its groups is given back.\<close>

definition wpa_deinit :: "wpa_world \<Rightarrow> wpa_world" where
  "wpa_deinit w =
     (let w1 = cancel_timeout RekeyGtk (cancel_timeout RekeyGmk w)
      in upda (\<lambda>a. a\<lparr>a_pmksa := pmksa_cache_auth_deinit (a_pmksa a), a_wpa_ie := None\<rparr>) (w1\<lparr>w_groups := []\<rparr>))"

subsection \<open>Questions about a station\<close>

text \<open>An absent state machine is \<open>None\<close>.\<close>

definition wpa_auth_pairwise_set :: "wpa_state_machine option \<Rightarrow> bool" where
  "wpa_auth_pairwise_set s = (case s of None \<Rightarrow> False | Some sm \<Rightarrow> pairwise_set sm)"

definition wpa_auth_get_pairwise :: "wpa_state_machine \<Rightarrow> u32" where
  "wpa_auth_get_pairwise sm = sm_pairwise sm"

definition wpa_auth_sta_key_mgmt :: "wpa_state_machine option \<Rightarrow> int" where
  "wpa_auth_sta_key_mgmt s = (case s of None \<Rightarrow> - 1 | Some sm \<Rightarrow> sint (sm_key_mgmt sm))"

definition wpa_auth_sta_wpa_version :: "wpa_state_machine option \<Rightarrow> wpa_version" where
  "wpa_auth_sta_wpa_version s = (case s of None \<Rightarrow> WPA_VERSION_NO_WPA | Some sm \<Rightarrow> sm_wpa sm)"

definition wpa_auth_get_wpa_ie :: "wpa_world \<Rightarrow> u8 list option" where
  "wpa_auth_get_wpa_ie w = a_wpa_ie (w_auth w)"

end
