(* ===== verification/WpaAuthSteps.thy ===== *)
theory WpaAuthSteps
  imports WpaAuthApi
begin

unbundle bit_operations_syntax

section \<open>What the operations of the WPA authenticator leave alone, and invariants of its step loop\<close>

text \<open>
  The elementary updates of the authenticator's world and what each operation changes in it. The locale
  \<open>sm_invariant\<close> is the contract of an invariant of the step loop: what the machines and the group functions
  keep, the whole loop keeps, nested calls included.
\<close>

subsection \<open>Elementary updates\<close>

lemma world_upd [simp]:
  "w_sm (upd i f w) j = (if j = i then f (w_sm w i) else w_sm w j)"
  "w_group (upd i f w) = w_group w" "w_groups (upd i f w) = w_groups w" "w_live (upd i f w) = w_live w"
  "w_stas (upd i f w) = w_stas w" "w_log (upd i f w) = w_log w" "w_auth (upd i f w) = w_auth w"
  by (simp_all add: upd_def)

lemma world_updg [simp]:
  "w_group (updg g f w) h = (if h = g then f (w_group w g) else w_group w h)"
  "w_sm (updg g f w) = w_sm w" "w_groups (updg g f w) = w_groups w" "w_live (updg g f w) = w_live w"
  "w_stas (updg g f w) = w_stas w" "w_log (updg g f w) = w_log w" "w_auth (updg g f w) = w_auth w"
  by (simp_all add: updg_def)

lemma world_upda [simp]:
  "w_auth (upda f w) = f (w_auth w)" "w_sm (upda f w) = w_sm w" "w_group (upda f w) = w_group w"
  "w_groups (upda f w) = w_groups w" "w_live (upda f w) = w_live w" "w_stas (upda f w) = w_stas w"
  "w_log (upda f w) = w_log w"
  by (simp_all add: upda_def)

lemma world_log_out [simp]:
  "w_log (log_out x w) = w_log w @ [x]" "w_sm (log_out x w) = w_sm w" "w_group (log_out x w) = w_group w"
  "w_groups (log_out x w) = w_groups w" "w_live (log_out x w) = w_live w" "w_stas (log_out x w) = w_stas w"
  "w_auth (log_out x w) = w_auth w"
  by (simp_all add: log_out_def)

lemma world_ask [simp]:
  "w_log (snd (ask f w)) = w_log w" "w_sm (snd (ask f w)) = w_sm w" "w_group (snd (ask f w)) = w_group w"
  "w_groups (snd (ask f w)) = w_groups w" "w_live (snd (ask f w)) = w_live w" "w_stas (snd (ask f w)) = w_stas w"
  "w_auth (snd (ask f w)) = w_auth w"
  by (simp_all add: ask_def)

lemmas callback_defs = wpa_auth_set_eapol_def wpa_sta_disconnect_def register_timeout_def cancel_timeout_def
  count_failure_def

subsection \<open>Operations on group keys\<close>

text \<open>\<open>same_but_groups\<close>: nothing but groups, the log and the number of questions has changed.\<close>

definition same_but_groups :: "wpa_world \<Rightarrow> wpa_world \<Rightarrow> bool" where
  "same_but_groups w w' \<longleftrightarrow> w_sm w' = w_sm w \<and> w_groups w' = w_groups w \<and> w_live w' = w_live w \<and> w_stas w' = w_stas w \<and>
     w_auth w' = w_auth w"

lemma random_get_bytes_world [simp]:
  "w_log (snd (random_get_bytes e n w)) = w_log w" "w_group (snd (random_get_bytes e n w)) = w_group w"
  "same_but_groups w (snd (random_get_bytes e n w))"
  by (simp_all add: random_get_bytes_def same_but_groups_def)

lemma ntp_timestamp_world [simp]:
  "w_log (snd (ntp_timestamp e w)) = w_log w" "w_group (snd (ntp_timestamp e w)) = w_group w"
  "same_but_groups w (snd (ntp_timestamp e w))"
  by (simp_all add: ntp_timestamp_def same_but_groups_def)

lemma inc_counter_world [simp]:
  "w_log (inc_counter g w) = w_log w" "same_but_groups w (inc_counter g w)" "w_sm (inc_counter g w) = w_sm w"
  "w_auth (inc_counter g w) = w_auth w"
  by (simp_all add: inc_counter_def same_but_groups_def)

lemma wpa_gmk_to_gtk_world [simp]:
  "w_log (snd (wpa_gmk_to_gtk e k l a n len w)) = w_log w" "w_group (snd (wpa_gmk_to_gtk e k l a n len w)) = w_group w"
  "same_but_groups w (snd (wpa_gmk_to_gtk e k l a n len w))"
  by (simp_all add: wpa_gmk_to_gtk_def ntp_timestamp_def random_get_bytes_def ask_def same_but_groups_def split: prod.splits)

lemma wpa_gtk_update_world [simp]:
  "w_log (snd (wpa_gtk_update e g w)) = w_log w" "same_but_groups w (snd (wpa_gtk_update e g w))"
  by (simp_all add: wpa_gtk_update_def inc_counter_def wpa_gmk_to_gtk_def ntp_timestamp_def random_get_bytes_def ask_def
      same_but_groups_def Let_def split: prod.splits)

lemma wpa_group_init_gmk_world [simp]:
  "w_log (snd (wpa_group_init_gmk_and_counter e g w)) = w_log w"
  "same_but_groups w (snd (wpa_group_init_gmk_and_counter e g w))"
  by (simp_all add: wpa_group_init_gmk_and_counter_def ntp_timestamp_def random_get_bytes_def ask_def same_but_groups_def
      Let_def split: prod.splits)

lemma wpa_auth_set_key_world [simp]:
  "w_log (snd (wpa_auth_set_key e v a addr n k w)) = w_log w @ [SetKey v a addr n k]"
  "same_but_groups w (snd (wpa_auth_set_key e v a addr n k w))" "w_group (snd (wpa_auth_set_key e v a addr n k w)) = w_group w"
  by (simp_all add: wpa_auth_set_key_def ask_def same_but_groups_def)

lemma config_group_keys_world [simp]:
  "w_log (snd (wpa_group_config_group_keys e g w)) = w_log w @
     [SetKey (g_vlan_id (w_group w g)) (wpa_alg_enum (cf_wpa_group (conf w))) broadcast_ether_addr (GN (w_group w g))
       (current_gtk (w_group w g))]"
  "same_but_groups w (snd (wpa_group_config_group_keys e g w))" "w_group (snd (wpa_group_config_group_keys e g w)) = w_group w"
  by (simp_all add: wpa_group_config_group_keys_def wpa_auth_set_key_def ask_def same_but_groups_def Let_def)

lemma same_but_groups_trans: "same_but_groups a b \<Longrightarrow> same_but_groups b c \<Longrightarrow> same_but_groups a c"
  by (simp add: same_but_groups_def)

lemma same_but_groups_simps:
  assumes "same_but_groups w w'"
  shows "w_sm w' = w_sm w" "w_groups w' = w_groups w" "w_live w' = w_live w" "w_stas w' = w_stas w" "w_auth w' = w_auth w"
  using assms by (simp_all add: same_but_groups_def)

lemmas group_op_frames [simp] =
  same_but_groups_simps [OF random_get_bytes_world(3)] same_but_groups_simps [OF ntp_timestamp_world(3)]
  same_but_groups_simps [OF wpa_gtk_update_world(2)] same_but_groups_simps [OF wpa_group_init_gmk_world(2)]
  same_but_groups_simps [OF wpa_auth_set_key_world(2)] same_but_groups_simps [OF config_group_keys_world(2)]
  same_but_groups_simps [OF wpa_gmk_to_gtk_world(3)] same_but_groups_simps [OF inc_counter_world(2)]

lemma wpa_group_first_station_world [simp]:
  "same_but_groups w (wpa_group_first_station e g w)"
  by (simp add: wpa_group_first_station_def same_but_groups_def ask_def)

lemma wpa_group_gtk_init_world [simp]:
  "w_log (wpa_group_gtk_init e g w) = w_log w" "same_but_groups w (wpa_group_gtk_init e g w)"
  by (simp_all add: wpa_group_gtk_init_def same_but_groups_def)

lemma wpa_group_setkeysdone_world [simp]:
  "same_but_groups w (snd (wpa_group_setkeysdone e g w))"
  by (simp add: wpa_group_setkeysdone_def same_but_groups_def)

lemmas group_op_frames2 [simp] =
  same_but_groups_simps [OF wpa_group_first_station_world] same_but_groups_simps [OF wpa_group_gtk_init_world(2)]
  same_but_groups_simps [OF wpa_group_setkeysdone_world]

subsection \<open>Contract: an invariant of the step loop\<close>

text \<open>The first part of \<^verbatim>\<open>wpa_group_setkeys\<close>, before it goes through the stations.\<close>

definition setkeys_start :: "wpa_env \<Rightarrow> nat \<Rightarrow> wpa_world \<Rightarrow> wpa_world" where
  "setkeys_start e g w =
     updg g (\<lambda>x. x\<lparr>GKeyDoneStations := 0\<rparr>) (snd (wpa_gtk_update e g
       (updg g (\<lambda>x. swap_gn (x\<lparr>g_changed := True, wpa_group_state := WPA_GROUP_SETKEYS, GTKReKey := False\<rparr>)) w)))"

lemma wpa_group_setkeys_alt:
  "wpa_group_setkeys step e g w =
     for_each_sta (wpa_group_update_sta step) (w_stas w) (setkeys_start e g w)"
  by (simp add: wpa_group_setkeys_def setkeys_start_def Let_def)

definition mark_for_update :: "nat \<Rightarrow> wpa_world \<Rightarrow> wpa_world" where
  "mark_for_update i w =
     upd i (\<lambda>sm. sm\<lparr>GUpdateStationKeys := True\<rparr>)
       (updg (sm_group (w_sm w i)) (\<lambda>x. x\<lparr>GKeyDoneStations := GKeyDoneStations x + 1\<rparr>) w)"

locale sm_invariant =
  fixes e :: wpa_env and P :: "wpa_world \<Rightarrow> bool"
  assumes ptk_step: "P w \<Longrightarrow> P (WPA_PTK_Step e i w)"
    and group_step: "P w \<Longrightarrow> P (WPA_PTK_GROUP_Step e i w)"
    and clear_changed: "P w \<Longrightarrow> P (upd i (\<lambda>sm. sm\<lparr>sm_changed := False\<rparr>) w)"
    and clear_group_changed: "P w \<Longrightarrow> P (updg g (\<lambda>x. x\<lparr>g_changed := False\<rparr>) w)"
    and set_in_loop: "P w \<Longrightarrow> P (upd i (\<lambda>sm. sm\<lparr>in_step_loop := b\<rparr>) w)"
    and gtk_init: "P w \<Longrightarrow> GInit (w_group w g) \<Longrightarrow> P (wpa_group_gtk_init e g w)"
    and setkeysdone: "P w \<Longrightarrow> P (snd (wpa_group_setkeysdone e g w))"
    and start: "P w \<Longrightarrow> GTKReKey (w_group w g) \<Longrightarrow> P (setkeys_start e g w)"
    and unmark: "P w \<Longrightarrow> wpa_ptk_state (w_sm w i) \<noteq> WPA_PTK_PTKINITDONE \<Longrightarrow>
       P (upd i (\<lambda>sm. sm\<lparr>GUpdateStationKeys := False\<rparr>) w)"
    and mark: "P w \<Longrightarrow> wpa_ptk_state (w_sm w i) = WPA_PTK_PTKINITDONE \<Longrightarrow> P (mark_for_update i w)"
    and free: "P w \<Longrightarrow> P (wpa_free_sta_sm i w)"
begin

lemma update_stas:
  assumes step: "\<And>i w w'. P w \<Longrightarrow> step i w = Some w' \<Longrightarrow> P w'"
  shows "P w \<Longrightarrow> for_each_sta (wpa_group_update_sta step) js w = Some w' \<Longrightarrow> P w'"
proof (induction js arbitrary: w)
  case (Cons j js)
  from Cons.prems(2) obtain w1 where w1: "wpa_group_update_sta step j w = Some w1"
    "for_each_sta (wpa_group_update_sta step) js w1 = Some w'" by (auto simp: bind_eq_Some_conv)
  have "P w1"
  proof (cases "wpa_ptk_state (w_sm w j) = WPA_PTK_PTKINITDONE")
    case True
    then have "step j (mark_for_update j w) = Some w1"
      using w1(1) by (simp add: wpa_group_update_sta_def mark_for_update_def Let_def)
    then show ?thesis using step mark [OF Cons.prems(1) True] by blast
  next
    case False
    then have "w1 = upd j (\<lambda>sm. sm\<lparr>GUpdateStationKeys := False\<rparr>) w"
      using w1(1) by (simp add: wpa_group_update_sta_def)
    then show ?thesis using unmark [OF Cons.prems(1) False] by simp
  qed
  then show ?case using Cons.IH w1(2) by blast
qed simp

lemma group_sm_step:
  assumes step: "\<And>i w w'. P w \<Longrightarrow> step i w = Some w' \<Longrightarrow> P w'"
    and w: "P w" and r: "wpa_group_sm_step step e g w = Some w'"
  shows "P w'"
proof -
  have k: "P w'" if "wpa_group_setkeys step e g w = Some w'" "GTKReKey (w_group w g)"
    using that(1) update_stas [OF step, where w = "setkeys_start e g w"] start [OF w that(2)] by (simp add: wpa_group_setkeys_alt)
  show ?thesis
    using r w k gtk_init [OF w] setkeysdone [OF w] by (auto simp: wpa_group_sm_step_def Let_def split: if_splits)
qed

lemma pass:
  assumes step: "\<And>i w w'. P w \<Longrightarrow> step i w = Some w' \<Longrightarrow> P w'"
    and w: "P w" and r: "sm_pass step e i w = Some (b, w')"
  shows "P w'"
proof -
  let ?w1 = "updg 0 (\<lambda>x. x\<lparr>g_changed := False\<rparr>) (upd i (\<lambda>sm. sm\<lparr>sm_changed := False\<rparr>) w)"
  let ?w2 = "WPA_PTK_Step e i ?w1" and ?w3 = "WPA_PTK_GROUP_Step e i (WPA_PTK_Step e i ?w1)"
  have "P ?w1" using w by (intro clear_group_changed clear_changed)
  then have 2: "P ?w2" and 3: "P ?w3" by (auto intro: ptk_step group_step)
  consider "w' = w" | "w' = ?w2" | "w' = ?w3" | "wpa_group_sm_step step e (sm_group (w_sm ?w3 i)) ?w3 = Some w'"
    using r unfolding sm_pass_def Let_def by (fastforce split: if_split_asm)
  then show ?thesis
    using w 2 3 group_sm_step [OF step 3] by cases simp_all
qed

lemma call:
  assumes loop: "\<And>i w w'. P w \<Longrightarrow> loop i w = Some w' \<Longrightarrow> P w'" and w: "P w" and r: "call_sm_step loop i w = Some w'"
  shows "P w'"
  using r w set_in_loop [of w i True] set_in_loop [of _ i False] free loop
  by (auto simp: call_sm_step_def Let_def split: if_splits)

lemma loop: "P w \<Longrightarrow> sm_loop n e i w = Some w' \<Longrightarrow> P w'"
proof (induction n arbitrary: i w w')
  case (Suc n)
  then have c: "P w \<Longrightarrow> call_sm_step (sm_loop n e) i w = Some w' \<Longrightarrow> P w'" for i w w'
    using call [of "sm_loop n e"] by blast
  from Suc.prems(2) obtain b w1 where p: "sm_pass (call_sm_step (sm_loop n e)) e i w = Some (b, w1)"
    and r: "(if b then sm_loop n e i w1 else Some w1) = Some w'" by (auto split: option.splits)
  have "P w1" using pass [OF c Suc.prems(1) p] .
  then show ?case using r Suc.IH by (cases b) auto
qed simp

lemma step: "P w \<Longrightarrow> wpa_sm_step e i w = Some w' \<Longrightarrow> P w'"
  unfolding wpa_sm_step_def by (rule call) (auto intro: loop)

lemma group: "P w \<Longrightarrow> wpa_group_sm_step (wpa_sm_step e) e g w = Some w' \<Longrightarrow> P w'"
  by (rule group_sm_step) (auto intro: step)

end

end
