(* ===== verification/WpaAuthSafe.thy ===== *)
theory WpaAuthSafe
  imports WpaAuthSteps
begin

unbundle bit_operations_syntax

section \<open>Which keys reach the driver\<close>

text \<open>
  The invariant behind the security of the handshake: a transient key is only marked valid, and only
  given to the driver, after a frame of that station has proved that it knows the key. The log of the
  authenticator is the history this is stated over.
\<close>

text \<open>The transient key \<open>P\<close> is the one the handshake derives with the nonce of the frame \<open>f\<close>, and the MIC of \<open>f\<close> is made with it.\<close>

definition derived_ptk :: "wpa_env \<Rightarrow> u8 list \<Rightarrow> u8 list \<Rightarrow> u8 list \<Rightarrow> wpa_ptk \<Rightarrow> bool" where
  "derived_ptk e aa addr f P \<longleftrightarrow>
     (\<exists>k anonce len. P = ptk_of_bytes (wpa_pmk_to_ptk (crypto e) k ''Pairwise key expansion'' aa addr anonce
        (ek_key_nonce (eapol_key_of f)) len)) \<and>
     wpa_verify_key_mic (crypto e) P f = 0"

definition proved_ptk :: "wpa_env \<Rightarrow> u8 list \<Rightarrow> wpa_log list \<Rightarrow> u8 list \<Rightarrow> wpa_ptk \<Rightarrow> bool" where
  "proved_ptk e aa l addr P \<longleftrightarrow> (\<exists>f. Received addr f \<in> set l \<and> derived_ptk e aa addr f P)"

text \<open>The frame \<open>f\<close> has come in after \<open>P\<close> was proved, and its MIC is made with \<open>P\<close>.\<close>

definition confirmed :: "wpa_env \<Rightarrow> u8 list \<Rightarrow> wpa_log list \<Rightarrow> u8 list \<Rightarrow> wpa_ptk \<Rightarrow> u8 list \<Rightarrow> bool" where
  "confirmed e aa l addr P f \<longleftrightarrow>
     (\<exists>l1 l2. l = l1 @ Received addr f # l2 \<and> proved_ptk e aa l1 addr P) \<and> wpa_verify_key_mic (crypto e) P f = 0"

text \<open>A key for a single station given to the driver.\<close>

fun pairwise_key_log :: "wpa_log \<Rightarrow> bool" where
  "pairwise_key_log (SetKey v alg addr n k) = (alg \<noteq> WPA_ALG_NONE \<and> addr \<noteq> broadcast_ether_addr)"
| "pairwise_key_log _ = False"

text \<open>
  What justifies it, given the history \<open>l\<close> before: the key is part of a proved transient key, and a later frame
  under that key confirmed it.
\<close>

fun justified :: "wpa_env \<Rightarrow> u8 list \<Rightarrow> wpa_log list \<Rightarrow> wpa_log \<Rightarrow> bool" where
  "justified e aa l (SetKey v alg addr n k) =
     (\<exists>P f. confirmed e aa l addr P f \<and> (k = tk1 P \<or> k = take 32 (tk1 P @ ptk_u P)))"
| "justified e aa l _ = False"

definition keys_justified :: "wpa_env \<Rightarrow> u8 list \<Rightarrow> wpa_log list \<Rightarrow> bool" where
  "keys_justified e aa l \<longleftrightarrow> (\<forall>n < length l. pairwise_key_log (l ! n) \<longrightarrow> justified e aa (take n l) (l ! n))"

lemma keys_justified_snoc:
  "keys_justified e aa (l @ [x]) \<longleftrightarrow> keys_justified e aa l \<and> (pairwise_key_log x \<longrightarrow> justified e aa l x)"
  by (auto simp: keys_justified_def nth_append less_Suc_eq)

lemma proved_ptk_snoc: "proved_ptk e aa l addr P \<Longrightarrow> proved_ptk e aa (l @ [x]) addr P"
  by (auto simp: proved_ptk_def)

lemma confirmed_snoc: "confirmed e aa l addr P f \<Longrightarrow> confirmed e aa (l @ [x]) addr P f"
  by (fastforce simp: confirmed_def)

subsection \<open>The invariant\<close>

definition in_exchange :: "wpa_state_machine \<Rightarrow> bool" where
  "in_exchange sm \<longleftrightarrow>
     wpa_ptk_state sm \<in> {WPA_PTK_PTKCALCNEGOTIATING, WPA_PTK_PTKCALCNEGOTIATING2, WPA_PTK_PTKINITNEGOTIATING}"

definition ptk_proved :: "wpa_env \<Rightarrow> u8 list \<Rightarrow> wpa_log list \<Rightarrow> wpa_state_machine \<Rightarrow> bool" where
  "ptk_proved e aa l sm \<longleftrightarrow> (PTK_valid sm \<longrightarrow> proved_ptk e aa l (sm_addr sm) (PTK sm))"

definition rx_recorded :: "wpa_log list \<Rightarrow> wpa_state_machine \<Rightarrow> bool" where
  "rx_recorded l sm \<longleftrightarrow>
     (\<forall>f. last_rx_eapol_key sm = Some f \<longrightarrow> Received (sm_addr sm) f \<in> set l \<and> SNonce sm = ek_key_nonce (eapol_key_of f))"

text \<open>A reply that is waiting in an exchange has passed the MIC check with the key that is valid.\<close>

definition reply_checked :: "wpa_env \<Rightarrow> u8 list \<Rightarrow> wpa_log list \<Rightarrow> wpa_state_machine \<Rightarrow> bool" where
  "reply_checked e aa l sm \<longleftrightarrow>
     (in_exchange sm \<and> pairwise_reply sm \<and> MICVerified sm \<longrightarrow>
        PTK_valid sm \<and> (\<exists>f. confirmed e aa l (sm_addr sm) (PTK sm) f)) \<and>
     (wpa_ptk_state sm = WPA_PTK_PTKCALCNEGOTIATING2 \<or> wpa_ptk_state sm = WPA_PTK_PTKINITNEGOTIATING \<longrightarrow>
        pairwise_reply sm \<longrightarrow> MICVerified sm)"

definition sta_safe :: "wpa_env \<Rightarrow> u8 list \<Rightarrow> wpa_log list \<Rightarrow> wpa_state_machine \<Rightarrow> bool" where
  "sta_safe e aa l sm \<longleftrightarrow> ptk_proved e aa l sm \<and> rx_recorded l sm \<and> reply_checked e aa l sm"

lemmas sta_safe_defs = sta_safe_def ptk_proved_def rx_recorded_def reply_checked_def

text \<open>The fields this speaks about.\<close>

definition sta_view :: "wpa_state_machine \<Rightarrow> u8 list \<times> wpa_ptk_state \<times> wpa_ptk \<times> bool \<times> bool \<times> bool \<times> u8 list option \<times> u8 list" where
  "sta_view sm = (sm_addr sm, wpa_ptk_state sm, PTK sm, PTK_valid sm, MICVerified sm, pairwise_reply sm,
     last_rx_eapol_key sm, SNonce sm)"

lemma sta_safe_view: "sta_view a = sta_view b \<Longrightarrow> sta_safe e aa l a = sta_safe e aa l b"
  by (simp add: sta_safe_defs sta_view_def in_exchange_def)

definition safe :: "wpa_env \<Rightarrow> wpa_world \<Rightarrow> bool" where
  "safe e w \<longleftrightarrow> (\<forall>i. sta_safe e (a_addr (w_auth w)) (w_log w) (w_sm w i)) \<and> keys_justified e (a_addr (w_auth w)) (w_log w)"

lemma sta_safe_snoc: "sta_safe e aa l sm \<Longrightarrow> sta_safe e aa (l @ [x]) sm"
  unfolding sta_safe_def ptk_proved_def rx_recorded_def reply_checked_def using proved_ptk_snoc confirmed_snoc by fastforce

lemma safe_upd:
  assumes "safe e w" "sta_safe e (a_addr (w_auth w)) (w_log w) (f (w_sm w i))"
  shows "safe e (upd i f w)"
  unfolding safe_def
proof (intro conjI allI)
  show "sta_safe e (a_addr (w_auth (upd i f w))) (w_log (upd i f w)) (w_sm (upd i f w) j)" for j
    using assms by (cases "j = i") (simp_all add: safe_def)
  show "keys_justified e (a_addr (w_auth (upd i f w))) (w_log (upd i f w))"
    using assms by (simp add: safe_def)
qed

lemma safe_upd_view [simp]: "safe e w \<Longrightarrow> sta_view (f (w_sm w i)) = sta_view (w_sm w i) \<Longrightarrow> safe e (upd i f w)"
  using sta_safe_view [of "f (w_sm w i)" "w_sm w i"] by (intro safe_upd) (simp_all only: safe_def simp_thms)

lemma safe_updg [simp]: "safe e (updg g f w) = safe e w"
  by (simp add: safe_def)

lemma safe_inc_counter [simp]: "safe e (inc_counter g w) = safe e w"
  by (simp add: inc_counter_def)

lemma safe_upda [simp]: "safe e w \<Longrightarrow> a_addr (f (w_auth w)) = a_addr (w_auth w) \<Longrightarrow> safe e (upda f w)"
  by (simp add: safe_def)

lemma safe_calls [simp]: "safe e (w\<lparr>w_calls := n\<rparr>) = safe e w"
  by (simp add: safe_def)

lemma safe_log [simp]: "safe e w \<Longrightarrow> \<not> pairwise_key_log x \<Longrightarrow> safe e (log_out x w)"
  by (auto simp: safe_def keys_justified_snoc intro: sta_safe_snoc)

lemma safe_log_key: "safe e w \<Longrightarrow> justified e (a_addr (w_auth w)) (w_log w) x \<Longrightarrow> safe e (log_out x w)"
  by (auto simp: safe_def keys_justified_snoc intro: sta_safe_snoc)

lemma safe_same: "safe e w \<Longrightarrow> same_but_groups w w' \<Longrightarrow> w_log w' = w_log w \<Longrightarrow> safe e w'"
  by (simp add: safe_def same_but_groups_def)

lemma safe_gtk_update [simp]: "safe e w \<Longrightarrow> safe e (snd (wpa_gtk_update e g w))"
  by (rule safe_same) simp_all

lemma safe_init_gmk [simp]: "safe e w \<Longrightarrow> safe e (snd (wpa_group_init_gmk_and_counter e g w))"
  by (rule safe_same) simp_all

lemma safe_set_key_other [simp]:
  "safe e w \<Longrightarrow> a = WPA_ALG_NONE \<or> addr = broadcast_ether_addr \<Longrightarrow> safe e (snd (wpa_auth_set_key e v a addr n k w))"
  by (auto simp: wpa_auth_set_key_def ask_def)

lemma safe_config [simp]: "safe e w \<Longrightarrow> safe e (snd (wpa_group_config_group_keys e g w))"
  using safe_set_key_other [of e w "wpa_alg_enum (cf_wpa_group (conf w))" broadcast_ether_addr]
  by (simp add: wpa_group_config_group_keys_def Let_def case_prod_beta)

lemma safe_first_station [simp]: "safe e w \<Longrightarrow> safe e (wpa_group_first_station e g w)"
  by (simp add: wpa_group_first_station_def ask_def)

lemma safe_key_data_field [simp]: "safe e w \<Longrightarrow> safe e (snd (key_data_field e i v encr kde pad w))"
  by (cases kde) (simp_all add: key_data_field_def ask_def Let_def split: option.split)

lemma safe_send_eapol_key [simp]: "safe e w \<Longrightarrow> safe e (send_eapol_key e i info rsc nonce kde idx encr fv w)"
  unfolding send_eapol_key_def Let_def case_prod_beta callback_defs
  by (simp add: ask_def sta_view_def pairwise_reply_def split: option.split)

lemma safe_send [simp]: "safe e w \<Longrightarrow> safe e (wpa_send_eapol e i info rsc nonce kde idx encr w)"
  by (simp add: wpa_send_eapol_def Let_def callback_defs sta_view_def pairwise_reply_def)


lemma view_other [simp]:
  "sta_view (sm\<lparr>sm_changed := b\<rparr>) = sta_view sm" "sta_view (sm\<lparr>in_step_loop := b\<rparr>) = sta_view sm"
  "sta_view (sm\<lparr>GUpdateStationKeys := b\<rparr>) = sta_view sm" "sta_view (sm\<lparr>pending_deinit := b\<rparr>) = sta_view sm"
  by (simp_all add: sta_view_def pairwise_reply_def)

lemmas view_simps = sta_view_def pairwise_reply_def

subsection \<open>The machines keep it\<close>

text \<open>A machine that enters another state, with the fields it changes first: outside the exchange nothing is claimed of replies.\<close>

lemma safe_leave_update [simp]: "safe e w \<Longrightarrow> safe e (leave_update i w)"
  by (simp add: leave_update_def Let_def)

lemma leave_update_sm [simp]:
  "w_sm (leave_update i w) j = (if j = i then (w_sm w i)\<lparr>GUpdateStationKeys := False\<rparr> else w_sm w j)"
  "w_log (leave_update i w) = w_log w" "w_auth (leave_update i w) = w_auth w" "w_live (leave_update i w) = w_live w"
  "w_stas (leave_update i w) = w_stas w" "w_groups (leave_update i w) = w_groups w"
  by (simp_all add: leave_update_def Let_def)

lemma sta_safe_of: "safe e w \<Longrightarrow> sta_safe e (a_addr (w_auth w)) (w_log w) (w_sm w i)"
  by (simp add: safe_def)

lemma sta_safe_out:
  assumes "sta_safe e aa l sm" and "\<not> (in_exchange sm' \<and> pairwise_reply sm')"
    and "PTK_valid sm' \<Longrightarrow> PTK_valid sm \<and> PTK sm' = PTK sm" and "sm_addr sm' = sm_addr sm"
    and "last_rx_eapol_key sm' = last_rx_eapol_key sm" "SNonce sm' = SNonce sm"
  shows "sta_safe e aa l sm'"
proof -
  have "ptk_proved e aa l sm'" "rx_recorded l sm'"
    using assms unfolding sta_safe_def ptk_proved_def rx_recorded_def by simp_all
  moreover have "reply_checked e aa l sm'" using assms(2) by (auto simp: reply_checked_def in_exchange_def)
  ultimately show ?thesis by (simp add: sta_safe_def)
qed

lemma safe_upd_out:
  assumes "safe e w" and "\<not> (in_exchange (f (w_sm w i)) \<and> pairwise_reply (f (w_sm w i)))"
    and "PTK_valid (f (w_sm w i)) \<Longrightarrow> PTK_valid (w_sm w i) \<and> PTK (f (w_sm w i)) = PTK (w_sm w i)"
    and "sm_addr (f (w_sm w i)) = sm_addr (w_sm w i)"
    and "last_rx_eapol_key (f (w_sm w i)) = last_rx_eapol_key (w_sm w i)" "SNonce (f (w_sm w i)) = SNonce (w_sm w i)"
  shows "safe e (upd i f w)"
  by (rule safe_upd [OF assms(1)], rule sta_safe_out [OF sta_safe_of [OF assms(1), of i]]) (use assms(2-6) in blast)+

lemma safe_enter_out [simp]:
  assumes "safe e w" and "s \<notin> {WPA_PTK_PTKCALCNEGOTIATING, WPA_PTK_PTKCALCNEGOTIATING2, WPA_PTK_PTKINITNEGOTIATING}"
  shows "safe e (enter_ptk s i w)"
  unfolding enter_ptk_def using assms by (intro safe_upd_out) (simp_all add: in_exchange_def)

lemma enter_ptk_sm [simp]:
  "w_sm (enter_ptk s i w) j = (if j = i then (w_sm w i)\<lparr>sm_changed := True, wpa_ptk_state := s\<rparr> else w_sm w j)"
  "w_log (enter_ptk s i w) = w_log w" "w_auth (enter_ptk s i w) = w_auth w" "w_group (enter_ptk s i w) = w_group w"
  by (simp_all add: enter_ptk_def)

lemma safe_remove_ptk:
  assumes "safe e w" and "\<not> (in_exchange (w_sm w i) \<and> pairwise_reply (w_sm w i))"
  shows "safe e (wpa_remove_ptk e i w)"
proof -
  have "safe e (upd i (\<lambda>sm. sm\<lparr>PTK_valid := False, PTK := zero_ptk\<rparr>) w)"
    using assms by (intro safe_upd_out) (simp_all add: in_exchange_def pairwise_reply_def)
  then show ?thesis by (simp add: wpa_remove_ptk_def Let_def callback_defs view_simps)
qed

lemma remove_ptk_sm [simp]:
  "w_sm (wpa_remove_ptk e i w) j =
     (if j = i then (w_sm w i)\<lparr>PTK_valid := False, PTK := zero_ptk, pairwise_set := False\<rparr> else w_sm w j)"
  "w_auth (wpa_remove_ptk e i w) = w_auth w" "w_live (wpa_remove_ptk e i w) = w_live w"
  "w_stas (wpa_remove_ptk e i w) = w_stas w" "w_groups (wpa_remove_ptk e i w) = w_groups w"
  "w_group (wpa_remove_ptk e i w) = w_group w"
  by (simp_all add: wpa_remove_ptk_def Let_def callback_defs)

lemma safe_INITIALIZE: "safe e w \<Longrightarrow> safe e (WPA_PTK_INITIALIZE_Enter e i w)"
  unfolding WPA_PTK_INITIALIZE_Enter_def Let_def callback_defs
  by (simp add: safe_remove_ptk in_exchange_def view_simps)

lemma safe_DISCONNECT: "safe e w \<Longrightarrow> safe e (WPA_PTK_DISCONNECT_Enter i w)"
  by (simp add: WPA_PTK_DISCONNECT_Enter_def callback_defs view_simps)

lemma safe_DISCONNECTED: "safe e w \<Longrightarrow> safe e (WPA_PTK_DISCONNECTED_Enter i w)"
  by (simp add: WPA_PTK_DISCONNECTED_Enter_def view_simps)

lemma safe_AUTHENTICATION:
  assumes "safe e w"
  shows "safe e (WPA_PTK_AUTHENTICATION_Enter i w)"
proof -
  have "safe e (upd i (\<lambda>sm. sm\<lparr>PTK := zero_ptk, PTK_valid := False\<rparr>) (enter_ptk WPA_PTK_AUTHENTICATION i w))"
    using assms by (intro safe_upd_out) (simp_all add: in_exchange_def)
  then show ?thesis by (simp add: WPA_PTK_AUTHENTICATION_Enter_def Let_def callback_defs view_simps)
qed

lemma safe_AUTHENTICATION2: "safe e w \<Longrightarrow> safe e (WPA_PTK_AUTHENTICATION2_Enter e i w)"
  by (simp add: WPA_PTK_AUTHENTICATION2_Enter_def Let_def view_simps)

lemma safe_INITPMK: "safe e w \<Longrightarrow> safe e (WPA_PTK_INITPMK_Enter e i w)"
  unfolding WPA_PTK_INITPMK_Enter_def Let_def callback_defs
  by (simp add: view_simps ask_def split: option.split)

lemma safe_INITPSK: "safe e w \<Longrightarrow> safe e (WPA_PTK_INITPSK_Enter e i w)"
  unfolding WPA_PTK_INITPSK_Enter_def Let_def
  by (simp add: view_simps split: option.split)

lemma safe_PTKSTART: "safe e w \<Longrightarrow> safe e (WPA_PTK_PTKSTART_Enter e i w)"
  unfolding WPA_PTK_PTKSTART_Enter_def Let_def
  by (simp add: view_simps)


lemma proves_intro:
  assumes "last_rx_eapol_key sm = Some f" "rx_recorded l sm" "wpa_verify_key_mic (crypto e) (wpa_derive_ptk e aa sm k) f = 0"
  shows "proved_ptk e aa l (sm_addr sm) (wpa_derive_ptk e aa sm k)"
proof -
  have r: "Received (sm_addr sm) f \<in> set l" "SNonce sm = ek_key_nonce (eapol_key_of f)"
    using assms(1,2) by (simp_all add: rx_recorded_def)
  have "derived_ptk e aa (sm_addr sm) f (wpa_derive_ptk e aa sm k)"
    unfolding derived_ptk_def using assms(3) r(2) by (auto simp: wpa_derive_ptk_def)
  then show ?thesis using r(1) by (auto simp: proved_ptk_def)
qed

lemma try_psks_verified:
  "try_psks e derive frame addr prev = Some (k, P) \<Longrightarrow> P = derive k \<and> wpa_verify_key_mic (crypto e) (derive k) frame = 0"
proof (induction e derive frame addr prev rule: try_psks.induct)
  case (1 e derive frame addr prev)
  then show ?case
    by (subst (asm) (2) try_psks.simps) (auto split: option.splits if_splits)
qed

lemma verify_long: "wpa_verify_key_mic cr P f = 0 \<Longrightarrow> 99 \<le> length f"
  by (simp add: wpa_verify_key_mic_def split: if_splits)

text \<open>The key that is selected is derived from the frame that was received last, and that frame's MIC is made with it.\<close>

lemma select_pmk_proved:
  assumes "select_pmk e i w = Some (k, P)" "rx_recorded l (w_sm w i)"
  shows "proved_ptk e (a_addr (w_auth w)) l (sm_addr (w_sm w i)) P"
proof -
  let ?f = "case last_rx_eapol_key (w_sm w i) of None \<Rightarrow> [] | Some f \<Rightarrow> f"
  have v: "P = wpa_derive_ptk e (a_addr (w_auth w)) (w_sm w i) k" "wpa_verify_key_mic (crypto e) P ?f = 0"
  proof (atomize (full), cases "is_psk (w_sm w i)")
    case True
    then have "try_psks e (wpa_derive_ptk e (a_addr (w_auth w)) (w_sm w i)) ?f (sm_addr (w_sm w i)) None = Some (k, P)"
      using assms(1) by (simp add: select_pmk_def Let_def)
    from try_psks_verified [OF this]
    show "P = wpa_derive_ptk e (a_addr (w_auth w)) (w_sm w i) k \<and> wpa_verify_key_mic (crypto e) P ?f = 0" by simp
  next
    case False
    then show "P = wpa_derive_ptk e (a_addr (w_auth w)) (w_sm w i) k \<and> wpa_verify_key_mic (crypto e) P ?f = 0"
      using assms(1) by (auto simp: select_pmk_def Let_def split: if_splits)
  qed
  then obtain f where "last_rx_eapol_key (w_sm w i) = Some f"
    using verify_long by (cases "last_rx_eapol_key (w_sm w i)") force+
  then show ?thesis using v assms(2) proves_intro by simp
qed

lemma safe_new_ptk:
  assumes "safe e w" "proved_ptk e (a_addr (w_auth w)) (w_log w) (sm_addr (w_sm w i)) P" "\<not> pairwise_reply (w_sm w i)"
  shows "safe e (upd i (\<lambda>sm. sm\<lparr>MICVerified := True, PTK := P, PTK_valid := True\<rparr>) w)"
proof (rule safe_upd [OF assms(1)])
  let ?sm = "(w_sm w i)\<lparr>MICVerified := True, PTK := P, PTK_valid := True\<rparr>"
  have "\<not> pairwise_reply ?sm" using assms(3) by (simp add: pairwise_reply_def)
  then have "reply_checked e (a_addr (w_auth w)) (w_log w) ?sm" by (simp add: reply_checked_def)
  then show "sta_safe e (a_addr (w_auth w)) (w_log w) ?sm"
    using assms(2) sta_safe_of [OF assms(1), of i] by (simp add: sta_safe_def ptk_proved_def rx_recorded_def)
qed

lemma safe_PTKCALCNEGOTIATING:
  assumes "safe e w"
  shows "safe e (WPA_PTK_PTKCALCNEGOTIATING_Enter e i w)"
proof -
  let ?w1 = "upd i (\<lambda>sm. sm\<lparr>EAPOLKeyReceived := False\<rparr>) (enter_ptk WPA_PTK_PTKCALCNEGOTIATING i w)"
  have "?w1 = upd i (\<lambda>sm. sm\<lparr>sm_changed := True, wpa_ptk_state := WPA_PTK_PTKCALCNEGOTIATING, EAPOLKeyReceived := False\<rparr>) w"
    by (simp add: enter_ptk_def upd_def)
  moreover have "safe e (upd i (\<lambda>sm. sm\<lparr>sm_changed := True, wpa_ptk_state := WPA_PTK_PTKCALCNEGOTIATING, EAPOLKeyReceived := False\<rparr>) w)"
    using assms by (intro safe_upd_out) (simp_all add: pairwise_reply_def)
  ultimately have 1: "safe e ?w1" by (simp only:)
  show ?thesis
  proof (cases "select_pmk e i ?w1")
    case None
    then show ?thesis using 1 by (simp add: WPA_PTK_PTKCALCNEGOTIATING_Enter_def Let_def)
  next
    case (Some kP)
    obtain k P where kP: "kP = (k, P)" by (cases kP)
    let ?w2 = "cancel_timeout (SendEapolTimeout i) (upd i (\<lambda>sm. sm\<lparr>pending_1_of_4_timeout := False\<rparr>) ?w1)"
    let ?w3 = "if is_psk (w_sm ?w2 i) then upd i (\<lambda>sm. sm\<lparr>PMK := k\<rparr>) ?w2 else ?w2"
    have s3: "safe e ?w3" using 1 by (simp add: callback_defs view_simps)
    have "rx_recorded (w_log w) (w_sm ?w1 i)" using sta_safe_of [OF 1, of i] by (simp add: sta_safe_def)
    from select_pmk_proved [OF Some [unfolded kP] this]
    moreover have "w_auth ?w3 = w_auth w" "w_log ?w3 = w_log w @ [CancelTimeout (SendEapolTimeout i)]"
      "sm_addr (w_sm ?w3 i) = sm_addr (w_sm w i)"
      by (simp_all add: callback_defs)
    ultimately have "proved_ptk e (a_addr (w_auth ?w3)) (w_log ?w3) (sm_addr (w_sm ?w3 i)) P"
      by (simp add: proved_ptk_snoc)
    moreover have "\<not> pairwise_reply (w_sm ?w3 i)" by (simp add: callback_defs pairwise_reply_def)
    ultimately have "safe e (upd i (\<lambda>sm. sm\<lparr>MICVerified := True, PTK := P, PTK_valid := True\<rparr>) ?w3)"
      by (rule safe_new_ptk [OF s3])
    then show ?thesis using Some kP by (simp add: WPA_PTK_PTKCALCNEGOTIATING_Enter_def Let_def)
  qed
qed

text \<open>States of the exchange that are entered with the fields as they are.\<close>

lemma safe_enter_in:
  assumes "safe e w" "in_exchange (w_sm w i)" "MICVerified (w_sm w i) \<or> wpa_ptk_state (w_sm w i) \<noteq> WPA_PTK_PTKCALCNEGOTIATING"
    and "s = WPA_PTK_PTKCALCNEGOTIATING2 \<or> s = WPA_PTK_PTKINITNEGOTIATING"
  shows "safe e (enter_ptk s i w)"
proof -
  have "reply_checked e (a_addr (w_auth w)) (w_log w) ((w_sm w i)\<lparr>sm_changed := True, wpa_ptk_state := s\<rparr>)"
    using assms sta_safe_of [OF assms(1), of i]
    by (auto simp: sta_safe_def reply_checked_def in_exchange_def pairwise_reply_def)
  then show ?thesis
    unfolding enter_ptk_def using assms(1) sta_safe_of [OF assms(1), of i]
    by (intro safe_upd) (simp_all add: sta_safe_def ptk_proved_def rx_recorded_def)
qed

lemma safe_PTKCALCNEGOTIATING2:
  "safe e w \<Longrightarrow> in_exchange (w_sm w i) \<Longrightarrow> MICVerified (w_sm w i) \<Longrightarrow> safe e (WPA_PTK_PTKCALCNEGOTIATING2_Enter i w)"
  by (simp add: WPA_PTK_PTKCALCNEGOTIATING2_Enter_def safe_enter_in view_simps)

lemma safe_PTKINITNEGOTIATING:
  assumes "safe e w"
    and "wpa_ptk_state (w_sm w i) = WPA_PTK_PTKCALCNEGOTIATING2 \<or> wpa_ptk_state (w_sm w i) = WPA_PTK_PTKINITNEGOTIATING"
  shows "safe e (WPA_PTK_PTKINITNEGOTIATING_Enter e i w)"
proof -
  have "safe e (enter_ptk WPA_PTK_PTKINITNEGOTIATING i w)"
    using assms by (intro safe_enter_in) (auto simp: in_exchange_def)
  then show ?thesis
    unfolding WPA_PTK_PTKINITNEGOTIATING_Enter_def Let_def get_rsc_def case_prod_beta
    by (simp add: view_simps ask_def)
qed

text \<open>The keys of a station whose reply has been checked may be set.\<close>

lemma reply_justifies:
  assumes "sta_safe e aa l sm" "in_exchange sm" "pairwise_reply sm" "MICVerified sm"
    and "k = tk1 (PTK sm) \<or> k = take 32 (tk1 (PTK sm) @ ptk_u (PTK sm))"
  shows "justified e aa l (SetKey v alg (sm_addr sm) n k)"
proof -
  have "\<exists>f. confirmed e aa l (sm_addr sm) (PTK sm) f"
    using assms(1-4) unfolding sta_safe_def reply_checked_def by blast
  then show ?thesis using assms(5) by auto
qed

lemma safe_set_key:
  "safe e w \<Longrightarrow> justified e (a_addr (w_auth w)) (w_log w) (SetKey v a addr n k) \<Longrightarrow>
   safe e (snd (wpa_auth_set_key e v a addr n k w))"
  using safe_log_key [of e "snd (ask (e_set_key e) w)"]
  by (simp add: wpa_auth_set_key_def case_prod_beta ask_def del: justified.simps)

lemma safe_install_ptk:
  assumes "safe e w" and "\<And>v a n k. k = tk1 (PTK (w_sm w i)) \<or> k = take 32 (tk1 (PTK (w_sm w i)) @ ptk_u (PTK (w_sm w i))) \<Longrightarrow>
      justified e (a_addr (w_auth w)) (w_log w) (SetKey v a (sm_addr (w_sm w i)) n k)"
  shows "safe e (snd (install_ptk e i w))"
proof -
  have "safe e (snd (set_pairwise_key e i w))"
    unfolding set_pairwise_key_def Let_def using safe_set_key [OF assms] by simp
  then show ?thesis
    unfolding install_ptk_def Let_def case_prod_beta callback_defs by (simp add: view_simps)
qed

lemma safe_PTKINITDONE:
  assumes "safe e w" "in_exchange (w_sm w i)" "pairwise_reply (w_sm w i)" "MICVerified (w_sm w i)"
  shows "safe e (WPA_PTK_PTKINITDONE_Enter e i w)"
proof -
  let ?w1 = "upd i (\<lambda>sm. sm\<lparr>EAPOLKeyReceived := False\<rparr>) (enter_ptk WPA_PTK_PTKINITDONE i w)"
  have "safe e (enter_ptk WPA_PTK_PTKINITDONE i w)" using assms(1) by simp
  then have 1: "safe e ?w1"
    using sta_safe_of [of e "enter_ptk WPA_PTK_PTKINITDONE i w" i] by (intro safe_upd_out) (simp_all add: in_exchange_def)
  have "safe e (snd (install_ptk e i ?w1))"
    using reply_justifies [OF sta_safe_of [OF assms(1)] assms(2-4)]
    by (intro safe_install_ptk [OF 1]) (simp del: justified.simps)
  then show ?thesis
    using 1 unfolding WPA_PTK_PTKINITDONE_Enter_def Let_def case_prod_beta callback_defs by (simp add: view_simps)
qed

lemma safe_count_failure [simp]: "safe e w \<Longrightarrow> safe e (count_failure w)"
  by (simp add: count_failure_def)

lemma get_eapol_positive_world [simp]:
  "safe e w \<Longrightarrow> safe e (snd (get_eapol_positive e w))" "w_sm (snd (get_eapol_positive e w)) = w_sm w"
  by (simp_all add: get_eapol_positive_def ask_def)

lemma safe_PTK_Step:
  assumes w: "safe e w"
  shows "safe e (WPA_PTK_Step e i w)"
proof -
  have c: "reply_checked e (a_addr (w_auth w)) (w_log w) (w_sm w i)" using sta_safe_of [OF w, of i] by (simp add: sta_safe_def)
  have f: "safe e (count_failure w)" "safe e (snd (get_eapol_positive e w))" using w by simp_all
  note enter = safe_INITIALIZE [OF w] safe_DISCONNECT [OF w] safe_DISCONNECTED [OF w] safe_AUTHENTICATION [OF w]
    safe_AUTHENTICATION2 [OF w] safe_PTKSTART [OF w] safe_INITPSK [OF w] safe_PTKCALCNEGOTIATING [OF w]
    safe_DISCONNECT [OF f(1)] safe_INITPMK [OF f(2)] safe_INITPSK [OF f(2)] safe_PTKSTART [OF f(2)]
    safe_DISCONNECT [OF safe_count_failure [OF f(2)]]
  show ?thesis
  proof (cases "wpa_ptk_state (w_sm w i)")
    case WPA_PTK_PTKCALCNEGOTIATING
    then show ?thesis
      using w enter safe_PTKCALCNEGOTIATING2 [OF w] by (simp add: WPA_PTK_Step_def Let_def in_exchange_def)
  next
    case WPA_PTK_PTKCALCNEGOTIATING2
    then show ?thesis
      using w enter safe_PTKINITNEGOTIATING [OF w] by (simp add: WPA_PTK_Step_def Let_def)
  next
    case WPA_PTK_PTKINITNEGOTIATING
    then show ?thesis
      using w enter safe_PTKINITNEGOTIATING [OF w] safe_PTKINITDONE [OF w]
      by (simp add: WPA_PTK_Step_def Let_def in_exchange_def)
  qed (use w enter in \<open>simp_all add: WPA_PTK_Step_def Let_def case_prod_beta\<close>)
qed

lemma safe_GROUP_IDLE: "safe e w \<Longrightarrow> safe e (WPA_PTK_GROUP_IDLE_Enter i w)"
  by (simp add: WPA_PTK_GROUP_IDLE_Enter_def enter_ptk_group_def view_simps Let_def)

lemma safe_GROUP_REKEYNEGOTIATING: "safe e w \<Longrightarrow> safe e (WPA_PTK_GROUP_REKEYNEGOTIATING_Enter e i w)"
  unfolding WPA_PTK_GROUP_REKEYNEGOTIATING_Enter_def Let_def get_rsc_def case_prod_beta
  by (simp add: enter_ptk_group_def view_simps ask_def)

text \<open>A group reply is not a pairwise one.\<close>

lemma safe_drop_reply:
  "safe e w \<Longrightarrow> safe e (upd i (\<lambda>sm. sm\<lparr>EAPOLKeyReceived := False\<rparr>) w)"
  by (rule safe_upd_out) (simp_all add: pairwise_reply_def)

lemma safe_GROUP_REKEYESTABLISHED: "safe e w \<Longrightarrow> safe e (WPA_PTK_GROUP_REKEYESTABLISHED_Enter i w)"
  by (simp add: WPA_PTK_GROUP_REKEYESTABLISHED_Enter_def enter_ptk_group_def view_simps safe_drop_reply Let_def)

lemma safe_GROUP_KEYERROR: "safe e w \<Longrightarrow> safe e (WPA_PTK_GROUP_KEYERROR_Enter i w)"
  by (simp add: WPA_PTK_GROUP_KEYERROR_Enter_def enter_ptk_group_def view_simps)

lemma safe_GROUP_Step: "safe e w \<Longrightarrow> safe e (WPA_PTK_GROUP_Step e i w)"
  using safe_GROUP_IDLE safe_GROUP_REKEYNEGOTIATING safe_GROUP_REKEYESTABLISHED safe_GROUP_KEYERROR
  by (cases "wpa_ptk_group_state (w_sm w i)") (simp_all add: WPA_PTK_GROUP_Step_def Let_def view_simps)

lemma safe_gtk_init: "safe e w \<Longrightarrow> safe e (wpa_group_gtk_init e g w)"
  by (simp add: wpa_group_gtk_init_def)

lemma safe_setkeysdone: "safe e w \<Longrightarrow> safe e (snd (wpa_group_setkeysdone e g w))"
  by (simp add: wpa_group_setkeysdone_def)

lemma safe_setkeys_start: "safe e w \<Longrightarrow> safe e (setkeys_start e g w)"
  by (simp add: setkeys_start_def)

lemma safe_live [simp]: "safe e (w\<lparr>w_live := l\<rparr>) = safe e w"
  by (simp add: safe_def)

lemma safe_free: "safe e w \<Longrightarrow> safe e (wpa_free_sta_sm i w)"
  by (simp add: wpa_free_sta_sm_def Let_def)

interpretation safe_loop: sm_invariant e "safe e" for e
proof
  fix w i
  assume "safe e w"
  then show "safe e (mark_for_update i w)" by (simp add: mark_for_update_def)
qed (simp_all add: safe_PTK_Step safe_GROUP_Step safe_gtk_init safe_setkeysdone safe_setkeys_start safe_free)

end
