(* ===== verification/WpaAuthCtl.thy ===== *)
theory WpaAuthCtl
  imports WpaAuthSafe
begin

section \<open>The control part of the station machines\<close>

text \<open>
  What each state of the two machines of a station does to its control fields: the flags, counters and
  states that decide the next transition. The data (keys, nonces, replay counters) is erased by \<open>ctl\<close>.
\<close>

definition ctl :: "wpa_state_machine \<Rightarrow> wpa_state_machine" where
  "ctl sm = sm\<lparr>ANonce := [], PMK := [], PTK := zero_ptk, PTK_valid := False, pairwise_set := False, keycount := 0,
     sm_Pair := False, key_replay := [], has_GTK := False, req_replay_counter_used := False,
     pending_1_of_4_timeout := False\<rparr>"

lemma ctl_fields:
  "Init (ctl sm) = Init sm" "DeauthenticationRequest (ctl sm) = DeauthenticationRequest sm"
  "AuthenticationRequest (ctl sm) = AuthenticationRequest sm" "ReAuthenticationRequest (ctl sm) = ReAuthenticationRequest sm"
  "Disconnect (ctl sm) = Disconnect sm" "TimeoutCtr (ctl sm) = TimeoutCtr sm" "GTimeoutCtr (ctl sm) = GTimeoutCtr sm"
  "TimeoutEvt (ctl sm) = TimeoutEvt sm" "EAPOLKeyReceived (ctl sm) = EAPOLKeyReceived sm"
  "EAPOLKeyPairwise (ctl sm) = EAPOLKeyPairwise sm" "EAPOLKeyRequest (ctl sm) = EAPOLKeyRequest sm"
  "MICVerified (ctl sm) = MICVerified sm" "GUpdateStationKeys (ctl sm) = GUpdateStationKeys sm"
  "PInitAKeys (ctl sm) = PInitAKeys sm" "PTKRequest (ctl sm) = PTKRequest sm" "PtkGroupInit (ctl sm) = PtkGroupInit sm"
  "sm_changed (ctl sm) = sm_changed sm" "in_step_loop (ctl sm) = in_step_loop sm" "pending_deinit (ctl sm) = pending_deinit sm"
  "wpa_ptk_state (ctl sm) = wpa_ptk_state sm" "wpa_ptk_group_state (ctl sm) = wpa_ptk_group_state sm"
  "sm_wpa (ctl sm) = sm_wpa sm" "sm_key_mgmt (ctl sm) = sm_key_mgmt sm" "sm_group (ctl sm) = sm_group sm"
  by (simp_all add: ctl_def)

text \<open>\<open>own f i w w'\<close>: of the stations only \<open>i\<close> has changed, and its control part as \<open>f\<close> says.\<close>

definition own :: "(wpa_state_machine \<Rightarrow> wpa_state_machine) \<Rightarrow> nat \<Rightarrow> wpa_world \<Rightarrow> wpa_world \<Rightarrow> bool" where
  "own f i w w' \<longleftrightarrow> (\<forall>j. j \<noteq> i \<longrightarrow> w_sm w' j = w_sm w j) \<and> ctl (w_sm w' i) = ctl (f (w_sm w i))"

lemma set_key_sm [simp]: "w_sm (snd (wpa_auth_set_key e v a addr n k w)) = w_sm w"
  by simp

lemma key_data_field_sm [simp]: "w_sm (snd (key_data_field e i v encr kde pad w)) = w_sm w"
  by (cases kde) (simp_all add: key_data_field_def ask_def Let_def split: option.split)

lemma send_eapol_key_stations:
  "w_sm (send_eapol_key e i info rsc nonce kde idx encr fv w) j =
     (if fst (ask (e_alloc e) w) \<and> j = i then (w_sm w i)\<lparr>key_replay := shift_replay (key_replay (w_sm w i))\<rparr> else w_sm w j)"
  unfolding send_eapol_key_def Let_def case_prod_beta wpa_auth_set_eapol_def option.case_eq_if
  by simp

lemma send_eapol_key_sm [simp]:
  "j \<noteq> i \<Longrightarrow> w_sm (send_eapol_key e i info rsc nonce kde idx encr fv w) j = w_sm w j"
  "ctl (w_sm (send_eapol_key e i info rsc nonce kde idx encr fv w) i) = ctl (w_sm w i)"
  by (simp_all add: send_eapol_key_stations ctl_def)

lemma ctl_pending: "ctl (sm\<lparr>pending_1_of_4_timeout := b\<rparr>) = ctl sm"
  by (simp add: ctl_def)

lemma wpa_send_eapol_sm [simp]:
  "j \<noteq> i \<Longrightarrow> w_sm (wpa_send_eapol e i info rsc nonce kde idx encr w) j = w_sm w j"
  "ctl (w_sm (wpa_send_eapol e i info rsc nonce kde idx encr w) i) = ctl (w_sm w i)"
proof -
  obtain a b p where s: "wpa_send_eapol e i info rsc nonce kde idx encr w =
     register_timeout (SendEapolTimeout i) a b
       (if p then upd i (\<lambda>sm. sm\<lparr>pending_1_of_4_timeout := True\<rparr>) (send_eapol_key e i info rsc nonce kde idx encr 0 w)
        else send_eapol_key e i info rsc nonce kde idx encr 0 w)"
    unfolding wpa_send_eapol_def Let_def by blast
  show "j \<noteq> i \<Longrightarrow> w_sm (wpa_send_eapol e i info rsc nonce kde idx encr w) j = w_sm w j"
    and "ctl (w_sm (wpa_send_eapol e i info rsc nonce kde idx encr w) i) = ctl (w_sm w i)"
    unfolding s register_timeout_def by (simp_all add: ctl_pending)
qed

lemma first_station_sm [simp]: "w_sm (wpa_group_first_station e g w) = w_sm w"
  by simp

lemma own_INITIALIZE:
  "own (\<lambda>sm. sm\<lparr>sm_changed := \<not> Init sm, wpa_ptk_state := WPA_PTK_INITIALIZE, GUpdateStationKeys := False,
      PInitAKeys := PInitAKeys sm \<and> sm_wpa sm \<noteq> WPA_VERSION_WPA, TimeoutCtr := 0\<rparr>) i w (WPA_PTK_INITIALIZE_Enter e i w)"
  unfolding own_def WPA_PTK_INITIALIZE_Enter_def Let_def callback_defs by (simp add: ctl_def)

lemma own_DISCONNECT:
  "own (\<lambda>sm. sm\<lparr>sm_changed := True, wpa_ptk_state := WPA_PTK_DISCONNECT, Disconnect := False\<rparr>) i w (WPA_PTK_DISCONNECT_Enter i w)"
  unfolding own_def WPA_PTK_DISCONNECT_Enter_def callback_defs by (simp add: ctl_def)

lemma own_DISCONNECTED:
  "own (\<lambda>sm. sm\<lparr>sm_changed := True, wpa_ptk_state := WPA_PTK_DISCONNECTED, DeauthenticationRequest := False\<rparr>) i w
     (WPA_PTK_DISCONNECTED_Enter i w)"
  unfolding own_def WPA_PTK_DISCONNECTED_Enter_def by (simp add: ctl_def)

lemma own_AUTHENTICATION:
  "own (\<lambda>sm. sm\<lparr>sm_changed := True, wpa_ptk_state := WPA_PTK_AUTHENTICATION, AuthenticationRequest := False\<rparr>) i w
     (WPA_PTK_AUTHENTICATION_Enter i w)"
  unfolding own_def WPA_PTK_AUTHENTICATION_Enter_def Let_def callback_defs by (simp add: ctl_def)

lemma own_AUTHENTICATION2:
  "own (\<lambda>sm. sm\<lparr>sm_changed := True, wpa_ptk_state := WPA_PTK_AUTHENTICATION2, ReAuthenticationRequest := False, TimeoutCtr := 0\<rparr>)
     i w (WPA_PTK_AUTHENTICATION2_Enter e i w)"
  unfolding own_def WPA_PTK_AUTHENTICATION2_Enter_def Let_def by (simp add: ctl_def)

lemma own_INITPMK:
  "own (\<lambda>sm. sm\<lparr>sm_changed := True, wpa_ptk_state := WPA_PTK_INITPMK\<rparr>) i w (WPA_PTK_INITPMK_Enter e i w)"
  unfolding own_def WPA_PTK_INITPMK_Enter_def Let_def callback_defs by (simp add: ctl_def ask_def split: option.split)

lemma own_INITPSK:
  "own (\<lambda>sm. sm\<lparr>sm_changed := True, wpa_ptk_state := WPA_PTK_INITPSK\<rparr>) i w (WPA_PTK_INITPSK_Enter e i w)"
  unfolding own_def WPA_PTK_INITPSK_Enter_def Let_def by (simp add: ctl_def split: option.split)

lemma own_PTKSTART:
  "own (\<lambda>sm. sm\<lparr>sm_changed := True, wpa_ptk_state := WPA_PTK_PTKSTART, PTKRequest := False, TimeoutEvt := False,
      TimeoutCtr := TimeoutCtr sm + 1\<rparr>) i w (WPA_PTK_PTKSTART_Enter e i w)"
  unfolding own_def WPA_PTK_PTKSTART_Enter_def Let_def by simp

lemma own_PTKCALCNEGOTIATING:
  "\<exists>b. own (\<lambda>sm. sm\<lparr>sm_changed := True, wpa_ptk_state := WPA_PTK_PTKCALCNEGOTIATING, EAPOLKeyReceived := False,
      MICVerified := MICVerified sm \<or> b\<rparr>) i w (WPA_PTK_PTKCALCNEGOTIATING_Enter e i w)"
proof (cases "select_pmk e i (upd i (\<lambda>sm. sm\<lparr>EAPOLKeyReceived := False\<rparr>) (enter_ptk WPA_PTK_PTKCALCNEGOTIATING i w))")
  case None
  then show ?thesis
    by (intro exI [of _ False]) (simp add: own_def WPA_PTK_PTKCALCNEGOTIATING_Enter_def Let_def ctl_def)
next
  case (Some kP)
  then show ?thesis
    by (intro exI [of _ True])
      (simp add: own_def WPA_PTK_PTKCALCNEGOTIATING_Enter_def Let_def ctl_def callback_defs case_prod_beta)
qed

lemma own_PTKCALCNEGOTIATING2:
  "own (\<lambda>sm. sm\<lparr>sm_changed := True, wpa_ptk_state := WPA_PTK_PTKCALCNEGOTIATING2, TimeoutCtr := 0\<rparr>) i w
     (WPA_PTK_PTKCALCNEGOTIATING2_Enter i w)"
  unfolding own_def WPA_PTK_PTKCALCNEGOTIATING2_Enter_def by (simp add: ctl_def)

lemma own_PTKINITNEGOTIATING:
  "own (\<lambda>sm. sm\<lparr>sm_changed := True, wpa_ptk_state := WPA_PTK_PTKINITNEGOTIATING, TimeoutEvt := False,
      TimeoutCtr := TimeoutCtr sm + 1\<rparr>) i w (WPA_PTK_PTKINITNEGOTIATING_Enter e i w)"
  unfolding own_def WPA_PTK_PTKINITNEGOTIATING_Enter_def Let_def get_rsc_def case_prod_beta by (simp add: ask_def)

lemma install_ptk_sm:
  "j \<noteq> i \<Longrightarrow> w_sm (snd (install_ptk e i w)) j = w_sm w j"
  "ctl (w_sm (snd (install_ptk e i w)) i) = ctl (w_sm w i)"
proof -
  have s: "w_sm (snd (set_pairwise_key e i w)) = w_sm w"
    by (simp add: set_pairwise_key_def Let_def)
  have c: "ctl (sm\<lparr>pairwise_set := True\<rparr>) = ctl sm" for sm by (simp add: ctl_def)
  show "j \<noteq> i \<Longrightarrow> w_sm (snd (install_ptk e i w)) j = w_sm w j"
    and "ctl (w_sm (snd (install_ptk e i w)) i) = ctl (w_sm w i)"
    unfolding install_ptk_def Let_def case_prod_beta callback_defs by (simp_all add: s c)
qed

lemma own_PTKINITDONE:
  "\<exists>b. own (\<lambda>sm. sm\<lparr>sm_changed := True, wpa_ptk_state := WPA_PTK_PTKINITDONE, EAPOLKeyReceived := False,
      PInitAKeys := PInitAKeys sm \<or> b \<and> sm_wpa sm = WPA_VERSION_WPA\<rparr>) i w (WPA_PTK_PTKINITDONE_Enter e i w)"
proof -
  let ?w1 = "upd i (\<lambda>sm. sm\<lparr>EAPOLKeyReceived := False\<rparr>) (enter_ptk WPA_PTK_PTKINITDONE i w)"
  obtain failed w2 where r: "(if sm_Pair (w_sm ?w1 i) then install_ptk e i ?w1 else (False, ?w1)) = (failed, w2)"
    by (rule prod.exhaust)
  have w2: "w2 = snd (install_ptk e i ?w1) \<or> w2 = ?w1" using r by (auto split: if_splits)
  have other: "w_sm w2 j = w_sm w j" if "j \<noteq> i" for j using that w2 by (auto simp: install_ptk_sm)
  have "ctl (w_sm w2 i) = ctl (w_sm ?w1 i)" using w2 by (auto simp: install_ptk_sm)
  then have self: "ctl (w_sm w2 i) = ctl ((w_sm w i)\<lparr>sm_changed := True, wpa_ptk_state := WPA_PTK_PTKINITDONE,
      EAPOLKeyReceived := False\<rparr>)" by simp
  have wpa: "sm_wpa (w_sm w2 i) = sm_wpa (w_sm w i)" using arg_cong [OF self, of sm_wpa] by (simp add: ctl_fields)
  have p: "ctl (sm\<lparr>PInitAKeys := b\<rparr>) = (ctl sm)\<lparr>PInitAKeys := b\<rparr>" "ctl (sm\<lparr>has_GTK := b\<rparr>) = ctl sm" for sm b
    by (simp_all add: ctl_def)
  have d: "\<exists>x y z. WPA_PTK_PTKINITDONE_Enter e i w = (if failed then w2 else
      upd i (\<lambda>sm. if sm_wpa sm = WPA_VERSION_WPA then sm\<lparr>PInitAKeys := True\<rparr> else sm\<lparr>has_GTK := True\<rparr>)
        (log_out x (log_out y (log_out z w2))))"
    unfolding WPA_PTK_PTKINITDONE_Enter_def Let_def r prod.case wpa_auth_set_eapol_def by blast
  have "own (\<lambda>sm. sm\<lparr>sm_changed := True, wpa_ptk_state := WPA_PTK_PTKINITDONE, EAPOLKeyReceived := False,
      PInitAKeys := PInitAKeys sm \<or> (\<not> failed) \<and> sm_wpa sm = WPA_VERSION_WPA\<rparr>) i w (WPA_PTK_PTKINITDONE_Enter e i w)"
    using d other self wpa unfolding own_def by (cases failed) (auto simp: p, simp_all add: ctl_def)
  then show ?thesis by blast
qed

lemma own_GROUP_IDLE:
  "own (\<lambda>sm. sm\<lparr>sm_changed := \<not> Init sm, wpa_ptk_group_state := WPA_PTK_GROUP_IDLE, GTimeoutCtr := 0\<rparr>) i w
     (WPA_PTK_GROUP_IDLE_Enter i w)"
  unfolding own_def WPA_PTK_GROUP_IDLE_Enter_def Let_def enter_ptk_group_def by (simp add: ctl_def)

lemma own_GROUP_REKEYNEGOTIATING:
  "own (\<lambda>sm. if GTimeoutCtr sm + 1 > dot11RSNAConfigGroupUpdateCount
      then sm\<lparr>sm_changed := True, wpa_ptk_group_state := WPA_PTK_GROUP_REKEYNEGOTIATING, GTimeoutCtr := GTimeoutCtr sm + 1\<rparr>
      else sm\<lparr>sm_changed := True, wpa_ptk_group_state := WPA_PTK_GROUP_REKEYNEGOTIATING, GTimeoutCtr := GTimeoutCtr sm + 1,
        PInitAKeys := PInitAKeys sm \<and> sm_wpa sm \<noteq> WPA_VERSION_WPA, TimeoutEvt := False\<rparr>) i w
     (WPA_PTK_GROUP_REKEYNEGOTIATING_Enter e i w)"
proof (cases "GTimeoutCtr (w_sm w i) + 1 > dot11RSNAConfigGroupUpdateCount")
  case True
  then show ?thesis
    unfolding own_def WPA_PTK_GROUP_REKEYNEGOTIATING_Enter_def Let_def enter_ptk_group_def by simp
next
  case False
  have rsc: "w_sm (snd (if b then get_rsc e v else (r, v))) = w_sm v" for b r v
    by (simp add: get_rsc_def ask_def case_prod_beta)
  have mem: "w_sm (snd (if b then ask f v else (r, v))) = w_sm v" for b r v and f :: "nat \<Rightarrow> bool"
    by (simp add: ask_def)
  show ?thesis
    using False unfolding own_def WPA_PTK_GROUP_REKEYNEGOTIATING_Enter_def Let_def enter_ptk_group_def case_prod_beta
    by (simp add: rsc mem)
qed

lemma own_GROUP_REKEYESTABLISHED:
  "own (\<lambda>sm. sm\<lparr>sm_changed := True, wpa_ptk_group_state := WPA_PTK_GROUP_REKEYESTABLISHED, EAPOLKeyReceived := False,
      GUpdateStationKeys := False, GTimeoutCtr := 0\<rparr>) i w (WPA_PTK_GROUP_REKEYESTABLISHED_Enter i w)"
  unfolding own_def WPA_PTK_GROUP_REKEYESTABLISHED_Enter_def Let_def enter_ptk_group_def by (simp add: ctl_def)

lemma own_GROUP_KEYERROR:
  "own (\<lambda>sm. sm\<lparr>sm_changed := True, wpa_ptk_group_state := WPA_PTK_GROUP_KEYERROR, GUpdateStationKeys := False,
      Disconnect := True\<rparr>) i w (WPA_PTK_GROUP_KEYERROR_Enter i w)"
  unfolding own_def WPA_PTK_GROUP_KEYERROR_Enter_def enter_ptk_group_def by (simp add: ctl_def)

end
