(* ===== verification/WpaAuthHistory.thy ===== *)
theory WpaAuthHistory
  imports WpaAuthSteps
begin

section \<open>The history of the WPA authenticator only grows\<close>

text \<open>
  \<open>history l A w\<close>: the log of \<open>w\<close> extends \<open>l\<close>, and the stations still have the addresses \<open>A\<close>. Every
  operation of the step loop keeps it.
\<close>

definition history :: "wpa_log list \<Rightarrow> (nat \<Rightarrow> u8 list) \<Rightarrow> wpa_world \<Rightarrow> bool" where
  "history l A w \<longleftrightarrow> (\<exists>r. w_log w = l @ r) \<and> (\<forall>i. sm_addr (w_sm w i) = A i)"

lemma history_refl: "history (w_log w) (\<lambda>i. sm_addr (w_sm w i)) w"
  by (simp add: history_def)

lemma history_member: "history (w_log w) (\<lambda>i. sm_addr (w_sm w i)) w' \<Longrightarrow> x \<in> set (w_log w) \<Longrightarrow> x \<in> set (w_log w')"
  by (auto simp: history_def)

lemma history_upd [simp]:
  "history l A w \<Longrightarrow> sm_addr (f (w_sm w i)) = sm_addr (w_sm w i) \<Longrightarrow> history l A (upd i f w)"
  by (simp add: history_def)

lemma history_updg [simp]: "history l A (updg g f w) = history l A w"
  by (simp add: history_def)

lemma history_upda [simp]: "history l A (upda f w) = history l A w"
  by (simp add: history_def)

lemma history_log [simp]: "history l A w \<Longrightarrow> history l A (log_out x w)"
  by (auto simp: history_def)

lemma history_ask [simp]: "history l A (snd (ask f w)) = history l A w"
  by (simp add: history_def)

lemma history_live [simp]: "history l A (w\<lparr>w_live := v\<rparr>) = history l A w"
  by (simp add: history_def)

lemma history_same: "same_but_groups w w' \<Longrightarrow> w_log w' = w_log w \<Longrightarrow> history l A w' = history l A w"
  by (simp add: history_def same_but_groups_def)

lemma history_gtk_update [simp]: "history l A (snd (wpa_gtk_update e g w)) = history l A w"
  by (rule history_same) simp_all

lemma history_init_gmk [simp]: "history l A (snd (wpa_group_init_gmk_and_counter e g w)) = history l A w"
  by (rule history_same) simp_all

lemma history_inc_counter [simp]: "history l A (inc_counter g w) = history l A w"
  by (rule history_same) simp_all

lemma history_set_key [simp]: "history l A w \<Longrightarrow> history l A (snd (wpa_auth_set_key e v a addr n k w))"
  by (auto simp: history_def)

lemma history_config [simp]: "history l A w \<Longrightarrow> history l A (snd (wpa_group_config_group_keys e g w))"
  by (auto simp: history_def)

lemma history_callbacks [simp]:
  assumes "history l A w"
  shows "history l A (wpa_auth_set_eapol i var val w)" "history l A (wpa_sta_disconnect i w)"
    "history l A (register_timeout t a b w)" "history l A (cancel_timeout t w)" "history l A (count_failure w)"
  using assms by (simp_all add: callback_defs)

lemma history_first_station [simp]: "history l A w \<Longrightarrow> history l A (wpa_group_first_station e g w)"
  by (simp add: wpa_group_first_station_def Let_def case_prod_beta)

lemma history_key_data_field [simp]: "history l A w \<Longrightarrow> history l A (snd (key_data_field e i v encr kde pad w))"
  by (cases kde) (simp_all add: key_data_field_def Let_def case_prod_beta split: option.split)

lemma history_send_eapol_key [simp]:
  "history l A w \<Longrightarrow> history l A (send_eapol_key e i info rsc nonce kde idx encr fv w)"
  unfolding send_eapol_key_def Let_def case_prod_beta option.case_eq_if by simp

lemma history_send [simp]: "history l A w \<Longrightarrow> history l A (wpa_send_eapol e i info rsc nonce kde idx encr w)"
  by (simp add: wpa_send_eapol_def Let_def)

lemma history_enter [simp]:
  "history l A w \<Longrightarrow> history l A (enter_ptk s i w)" "history l A w \<Longrightarrow> history l A (enter_ptk_group g i w)"
  by (simp_all add: enter_ptk_def enter_ptk_group_def)

lemma history_leave_update [simp]: "history l A w \<Longrightarrow> history l A (leave_update i w)"
  by (simp add: leave_update_def Let_def)

lemma history_remove_ptk [simp]: "history l A w \<Longrightarrow> history l A (wpa_remove_ptk e i w)"
  by (simp add: wpa_remove_ptk_def Let_def)

lemma history_install_ptk [simp]: "history l A w \<Longrightarrow> history l A (snd (install_ptk e i w))"
  by (simp add: install_ptk_def set_pairwise_key_def Let_def case_prod_beta)

lemma history_rsc [simp]: "history l A w \<Longrightarrow> history l A (snd (get_rsc e w))"
  by (simp add: get_rsc_def case_prod_beta)

lemma history_eapol [simp]: "history l A w \<Longrightarrow> history l A (snd (get_eapol_positive e w))"
  by (simp add: get_eapol_positive_def case_prod_beta)

lemma history_states [simp]:
  assumes "history l A w"
  shows "history l A (WPA_PTK_INITIALIZE_Enter e i w)" "history l A (WPA_PTK_DISCONNECT_Enter i w)"
    "history l A (WPA_PTK_DISCONNECTED_Enter i w)" "history l A (WPA_PTK_AUTHENTICATION_Enter i w)"
    "history l A (WPA_PTK_AUTHENTICATION2_Enter e i w)" "history l A (WPA_PTK_INITPMK_Enter e i w)"
    "history l A (WPA_PTK_INITPSK_Enter e i w)"
  using assms
  by (simp_all add: WPA_PTK_INITIALIZE_Enter_def WPA_PTK_DISCONNECT_Enter_def WPA_PTK_DISCONNECTED_Enter_def
      WPA_PTK_AUTHENTICATION_Enter_def WPA_PTK_AUTHENTICATION2_Enter_def WPA_PTK_INITPMK_Enter_def
      WPA_PTK_INITPSK_Enter_def Let_def case_prod_beta split: option.split)

lemma history_handshake [simp]:
  assumes "history l A w"
  shows "history l A (WPA_PTK_PTKSTART_Enter e i w)" "history l A (WPA_PTK_PTKCALCNEGOTIATING_Enter e i w)"
    "history l A (WPA_PTK_PTKCALCNEGOTIATING2_Enter i w)" "history l A (WPA_PTK_PTKINITNEGOTIATING_Enter e i w)"
    "history l A (WPA_PTK_PTKINITDONE_Enter e i w)"
proof -
  show "history l A (WPA_PTK_PTKSTART_Enter e i w)"
    unfolding WPA_PTK_PTKSTART_Enter_def Let_def using assms by simp
  show "history l A (WPA_PTK_PTKCALCNEGOTIATING_Enter e i w)"
    unfolding WPA_PTK_PTKCALCNEGOTIATING_Enter_def Let_def option.case_eq_if case_prod_beta using assms by simp
  show "history l A (WPA_PTK_PTKCALCNEGOTIATING2_Enter i w)"
    unfolding WPA_PTK_PTKCALCNEGOTIATING2_Enter_def using assms by simp
  show "history l A (WPA_PTK_PTKINITNEGOTIATING_Enter e i w)"
    unfolding WPA_PTK_PTKINITNEGOTIATING_Enter_def Let_def case_prod_beta using assms by simp
  show "history l A (WPA_PTK_PTKINITDONE_Enter e i w)"
    unfolding WPA_PTK_PTKINITDONE_Enter_def Let_def case_prod_beta using assms by simp
qed

lemma history_PTK_Step: "history l A w \<Longrightarrow> history l A (WPA_PTK_Step e i w)"
  by (cases "wpa_ptk_state (w_sm w i)") (simp_all add: WPA_PTK_Step_def Let_def case_prod_beta)

lemma history_group_states [simp]:
  assumes "history l A w"
  shows "history l A (WPA_PTK_GROUP_IDLE_Enter i w)" "history l A (WPA_PTK_GROUP_REKEYNEGOTIATING_Enter e i w)"
    "history l A (WPA_PTK_GROUP_REKEYESTABLISHED_Enter i w)" "history l A (WPA_PTK_GROUP_KEYERROR_Enter i w)"
  unfolding WPA_PTK_GROUP_IDLE_Enter_def WPA_PTK_GROUP_REKEYNEGOTIATING_Enter_def
    WPA_PTK_GROUP_REKEYESTABLISHED_Enter_def WPA_PTK_GROUP_KEYERROR_Enter_def Let_def case_prod_beta
  using assms by simp_all

lemma history_GROUP_Step: "history l A w \<Longrightarrow> history l A (WPA_PTK_GROUP_Step e i w)"
  by (cases "wpa_ptk_group_state (w_sm w i)") (simp_all add: WPA_PTK_GROUP_Step_def Let_def)

interpretation history_loop: sm_invariant e "history l A" for e l A
proof
  fix w i
  assume "history l A w"
  then show "history l A (mark_for_update i w)" by (simp add: mark_for_update_def)
qed (simp_all add: history_PTK_Step history_GROUP_Step wpa_group_gtk_init_def wpa_group_setkeysdone_def
    setkeys_start_def wpa_free_sta_sm_def Let_def)

end
