(* ===== verification/WpaAuthRun.thy ===== *)
theory WpaAuthRun
  imports WpaAuthCtl WpaAuthHistory
begin

section \<open>Runs of the WPA authenticator\<close>

text \<open>
  Between two calls from outside no station is in its step loop and no reply is waiting in an exchange: the
  loop only ends once it has been used (\<open>settled\<close>). With the invariant \<open>safe\<close> this carries the keys that reach
  the driver over any sequence of calls (\<open>wpa_input\<close>).
\<close>

subsection \<open>The end of a step loop\<close>

definition quiet :: "wpa_state_machine \<Rightarrow> bool" where
  "quiet sm \<longleftrightarrow> \<not> (in_exchange sm \<and> pairwise_reply sm)"

definition loop_view :: "wpa_state_machine \<Rightarrow> wpa_ptk_state \<times> bool \<times> bool \<times> bool \<times> bool" where
  "loop_view sm = (wpa_ptk_state sm, EAPOLKeyReceived sm, EAPOLKeyRequest sm, EAPOLKeyPairwise sm, sm_changed sm)"

lemma loop_view_quiet: "loop_view a = loop_view b \<Longrightarrow> quiet a = quiet b"
  by (simp add: loop_view_def quiet_def in_exchange_def pairwise_reply_def)

lemma ctl_quiet: "ctl a = ctl b \<Longrightarrow> quiet a = quiet b"
  by (metis (no_types, lifting) ctl_fields(15,9,10,11,20) quiet_def in_exchange_def pairwise_reply_def)

definition same_flags :: "wpa_state_machine \<Rightarrow> wpa_state_machine \<Rightarrow> bool" where
  "same_flags a b \<longleftrightarrow> in_step_loop b = in_step_loop a \<and> pending_deinit b = pending_deinit a"

text \<open>What a step of the machines of \<open>i\<close> does, seen from the loop: it has moved on, or no reply is left.\<close>

definition moved :: "nat \<Rightarrow> wpa_world \<Rightarrow> wpa_world \<Rightarrow> bool" where
  "moved i w w' \<longleftrightarrow> (\<forall>j. j \<noteq> i \<longrightarrow> w_sm w' j = w_sm w j) \<and> same_flags (w_sm w i) (w_sm w' i) \<and>
     Init (w_sm w' i) = Init (w_sm w i) \<and>
     (quiet (w_sm w' i) \<or> sm_changed (w_sm w' i) \<and> \<not> Init (w_sm w i))"

lemma own_other: "own f i w w' \<Longrightarrow> j \<noteq> i \<Longrightarrow> w_sm w' j = w_sm w j"
  by (simp add: own_def)

lemma own_self: "own f i w w' \<Longrightarrow> ctl (w_sm w' i) = ctl (f (w_sm w i))"
  by (simp add: own_def)

lemmas own_fields =
  arg_cong [OF own_self, of _ _ _ _ in_step_loop, unfolded ctl_fields]
  arg_cong [OF own_self, of _ _ _ _ pending_deinit, unfolded ctl_fields]
  arg_cong [OF own_self, of _ _ _ _ Init, unfolded ctl_fields]
  arg_cong [OF own_self, of _ _ _ _ sm_changed, unfolded ctl_fields]
  arg_cong [OF own_self, of _ _ _ _ wpa_ptk_state, unfolded ctl_fields]

lemma own_moved:
  assumes "own f i w w'" "\<not> Init (w_sm w i)"
    and "in_step_loop (f (w_sm w i)) = in_step_loop (w_sm w i)" "pending_deinit (f (w_sm w i)) = pending_deinit (w_sm w i)"
    and "Init (f (w_sm w i)) = Init (w_sm w i)" "sm_changed (f (w_sm w i))"
  shows "moved i w w'"
  using assms(2-6) own_other [OF assms(1)] own_fields [OF assms(1)] by (simp add: moved_def same_flags_def)

lemma moved_INITIALIZE: "moved i w (WPA_PTK_INITIALIZE_Enter e i w)"
  using own_other [OF own_INITIALIZE] own_fields [OF own_INITIALIZE, of e i w]
  by (simp add: moved_def same_flags_def quiet_def in_exchange_def)

lemma moved_cong: "w_sm v = w_sm w \<Longrightarrow> moved i v w' = moved i w w'"
  by (simp add: moved_def)

lemma moved_DISCONNECT: "\<not> Init (w_sm w i) \<Longrightarrow> moved i w (WPA_PTK_DISCONNECT_Enter i w)"
  by (rule own_moved [OF own_DISCONNECT]) simp_all

lemma moved_DISCONNECTED: "\<not> Init (w_sm w i) \<Longrightarrow> moved i w (WPA_PTK_DISCONNECTED_Enter i w)"
  by (rule own_moved [OF own_DISCONNECTED]) simp_all

lemma moved_AUTHENTICATION: "\<not> Init (w_sm w i) \<Longrightarrow> moved i w (WPA_PTK_AUTHENTICATION_Enter i w)"
  by (rule own_moved [OF own_AUTHENTICATION]) simp_all

lemma moved_AUTHENTICATION2: "\<not> Init (w_sm w i) \<Longrightarrow> moved i w (WPA_PTK_AUTHENTICATION2_Enter e i w)"
  by (rule own_moved [OF own_AUTHENTICATION2]) simp_all

lemma moved_INITPMK: "\<not> Init (w_sm w i) \<Longrightarrow> moved i w (WPA_PTK_INITPMK_Enter e i w)"
  by (rule own_moved [OF own_INITPMK]) simp_all

lemma moved_INITPSK: "\<not> Init (w_sm w i) \<Longrightarrow> moved i w (WPA_PTK_INITPSK_Enter e i w)"
  by (rule own_moved [OF own_INITPSK]) simp_all

lemma moved_PTKSTART: "\<not> Init (w_sm w i) \<Longrightarrow> moved i w (WPA_PTK_PTKSTART_Enter e i w)"
  by (rule own_moved [OF own_PTKSTART]) simp_all

lemma moved_PTKCALCNEGOTIATING: "\<not> Init (w_sm w i) \<Longrightarrow> moved i w (WPA_PTK_PTKCALCNEGOTIATING_Enter e i w)"
  using own_PTKCALCNEGOTIATING [of i w e] by (auto intro: own_moved)

lemma moved_PTKCALCNEGOTIATING2: "\<not> Init (w_sm w i) \<Longrightarrow> moved i w (WPA_PTK_PTKCALCNEGOTIATING2_Enter i w)"
  by (rule own_moved [OF own_PTKCALCNEGOTIATING2]) simp_all

lemma moved_PTKINITNEGOTIATING: "\<not> Init (w_sm w i) \<Longrightarrow> moved i w (WPA_PTK_PTKINITNEGOTIATING_Enter e i w)"
  by (rule own_moved [OF own_PTKINITNEGOTIATING]) simp_all

lemma moved_PTKINITDONE: "\<not> Init (w_sm w i) \<Longrightarrow> moved i w (WPA_PTK_PTKINITDONE_Enter e i w)"
  using own_PTKINITDONE [of i w e] by (auto intro: own_moved)

lemmas moved_enter = moved_DISCONNECT moved_DISCONNECTED moved_AUTHENTICATION moved_AUTHENTICATION2 moved_INITPMK
  moved_INITPSK moved_PTKSTART moved_PTKCALCNEGOTIATING moved_PTKCALCNEGOTIATING2 moved_PTKINITNEGOTIATING
  moved_PTKINITDONE

lemma moved_refl: "quiet (w_sm w i) \<Longrightarrow> moved i w w"
  by (simp add: moved_def same_flags_def)

lemma moved_after: "w_sm v = w_sm w \<Longrightarrow> moved i v w' \<Longrightarrow> moved i w w'"
  by (simp add: moved_def)

lemma count_failure_sm: "w_sm (count_failure w) = w_sm w"
  by (simp add: count_failure_def)

text \<open>A transition of the pairwise machine, or nothing waits for it.\<close>

lemma moved_PTK_Step:
  assumes "reply_checked e aa l (w_sm w i)"
  shows "moved i w (WPA_PTK_Step e i w)"
proof -
  let ?g = "snd (get_eapol_positive e w)"
  note frame = moved_after [of "count_failure w" w] moved_after [of ?g w] moved_after [of "count_failure ?g" w]
  note enter = moved_INITIALIZE [of i w e] moved_enter [of w i] frame [OF _ moved_DISCONNECT] frame [OF _ moved_INITPMK]
    frame [OF _ moved_INITPSK] frame [OF _ moved_PTKSTART]
  have get: "w_sm ?g = w_sm w" by (simp add: get_eapol_positive_def ask_def)
  have "moved i w ?g" if "quiet (w_sm w i)" using that get by (simp add: moved_def same_flags_def)
  note idle = this moved_refl
  show ?thesis
    using assms enter idle get count_failure_sm
    by (cases "wpa_ptk_state (w_sm w i)")
      (simp_all add: WPA_PTK_Step_def Let_def case_prod_beta quiet_def in_exchange_def reply_checked_def)
qed

text \<open>The group machine of the station keeps replies quiet, and marks its transitions except the first one.\<close>

definition group_moved :: "nat \<Rightarrow> wpa_world \<Rightarrow> wpa_world \<Rightarrow> bool" where
  "group_moved i w w' \<longleftrightarrow> (\<forall>j. j \<noteq> i \<longrightarrow> w_sm w' j = w_sm w j) \<and> same_flags (w_sm w i) (w_sm w' i) \<and>
     (quiet (w_sm w i) \<longrightarrow> quiet (w_sm w' i)) \<and> \<not> (sm_changed (w_sm w i) \<and> \<not> Init (w_sm w i) \<and> \<not> sm_changed (w_sm w' i))"

lemma own_group_moved:
  assumes "own f i w w'" "same_flags (w_sm w i) (f (w_sm w i))" "quiet (w_sm w i) \<Longrightarrow> quiet (f (w_sm w i))"
    "\<not> Init (w_sm w i) \<Longrightarrow> sm_changed (f (w_sm w i))"
  shows "group_moved i w w'"
  using assms(2-4) own_other [OF assms(1)] own_fields [OF assms(1)] ctl_quiet [OF own_self [OF assms(1)]]
  by (auto simp: group_moved_def same_flags_def)

lemma quiet_less: "wpa_ptk_state b = wpa_ptk_state a \<Longrightarrow> \<not> (pairwise_reply b \<and> \<not> pairwise_reply a) \<Longrightarrow> quiet a \<Longrightarrow> quiet b"
  by (auto simp: quiet_def in_exchange_def)

lemma group_moved_enter:
  "group_moved i w (WPA_PTK_GROUP_IDLE_Enter i w)" "group_moved i w (WPA_PTK_GROUP_REKEYNEGOTIATING_Enter e i w)"
  "group_moved i w (WPA_PTK_GROUP_REKEYESTABLISHED_Enter i w)" "group_moved i w (WPA_PTK_GROUP_KEYERROR_Enter i w)"
  by (rule own_group_moved [OF own_GROUP_IDLE] own_group_moved [OF own_GROUP_REKEYNEGOTIATING]
      own_group_moved [OF own_GROUP_REKEYESTABLISHED] own_group_moved [OF own_GROUP_KEYERROR],
      (simp add: same_flags_def quiet_def in_exchange_def pairwise_reply_def)+)+

lemma group_moved_upd:
  assumes "group_moved i w v" "loop_view (f (w_sm v i)) = loop_view (w_sm v i)" "same_flags (w_sm v i) (f (w_sm v i))"
  shows "group_moved i w (upd i f v)"
  using assms(1,3) loop_view_quiet [OF assms(2)] assms(2) by (simp add: group_moved_def same_flags_def loop_view_def)

lemma group_moved_Step: "group_moved i w (WPA_PTK_GROUP_Step e i w)"
proof -
  have "group_moved i w (upd i (\<lambda>sm. sm\<lparr>PtkGroupInit := False\<rparr>) (WPA_PTK_GROUP_IDLE_Enter i w))"
    by (rule group_moved_upd [OF group_moved_enter(1)]) (simp_all add: loop_view_def same_flags_def)
  moreover have "group_moved i w w" by (simp add: group_moved_def same_flags_def)
  ultimately show ?thesis
    using group_moved_enter [of i w]
    by (cases "wpa_ptk_group_state (w_sm w i)") (simp_all add: WPA_PTK_GROUP_Step_def Let_def)
qed

text \<open>
  What a step leaves to the stations outside it: their loop flags, what their loops look at while they are
  in one, and quiet when they are not waiting for anything.
\<close>

definition calm_sm :: "wpa_state_machine \<Rightarrow> wpa_state_machine \<Rightarrow> bool" where
  "calm_sm a b \<longleftrightarrow> same_flags a b \<and> (in_step_loop a \<longrightarrow> loop_view b = loop_view a) \<and> (quiet a \<longrightarrow> quiet b)"

definition calm :: "wpa_world \<Rightarrow> wpa_world \<Rightarrow> bool" where
  "calm w w' \<longleftrightarrow> (\<forall>j. calm_sm (w_sm w j) (w_sm w' j))"

definition calm_but :: "nat \<Rightarrow> wpa_world \<Rightarrow> wpa_world \<Rightarrow> bool" where
  "calm_but i w w' \<longleftrightarrow> (\<forall>j. j \<noteq> i \<longrightarrow> calm_sm (w_sm w j) (w_sm w' j)) \<and> same_flags (w_sm w i) (w_sm w' i)"

lemma calm_sm_refl [simp]: "calm_sm a a"
  by (simp add: calm_sm_def same_flags_def)

lemma calm_sm_trans: "calm_sm a b \<Longrightarrow> calm_sm b c \<Longrightarrow> calm_sm a c"
  by (simp add: calm_sm_def same_flags_def)

lemma calm_refl [simp]: "calm w w"
  by (simp add: calm_def)

lemma calm_trans: "calm u v \<Longrightarrow> calm v w \<Longrightarrow> calm u w"
  using calm_sm_trans by (fastforce simp: calm_def)

lemma calm_imp_but: "calm w w' \<Longrightarrow> calm_but i w w'"
  by (simp add: calm_def calm_but_def calm_sm_def)

lemma calm_but_trans: "calm_but i u v \<Longrightarrow> calm_but i v w \<Longrightarrow> calm_but i u w"
  using calm_sm_trans by (fastforce simp: calm_but_def same_flags_def)

lemma calm_groups: "same_but_groups w w' \<Longrightarrow> calm w w'"
  by (simp add: same_but_groups_def calm_def)

lemma calm_upd: "calm_sm (w_sm w i) (f (w_sm w i)) \<Longrightarrow> calm w (upd i f w)"
  by (simp add: calm_def)

lemma moved_calm_but: "moved i w w' \<Longrightarrow> calm_but i w w'"
  by (simp add: moved_def calm_but_def)

lemma group_moved_calm_but: "group_moved i w w' \<Longrightarrow> calm_but i w w'"
  by (simp add: group_moved_def calm_but_def)

definition no_deinit :: "wpa_world \<Rightarrow> bool" where
  "no_deinit w \<longleftrightarrow> (\<forall>j. \<not> pending_deinit (w_sm w j))"

lemma no_deinit_calm: "calm_but i w w' \<Longrightarrow> no_deinit w' = no_deinit w"
  by (auto simp: calm_but_def calm_sm_def same_flags_def no_deinit_def)

text \<open>The contract of a nested step: the stations in a loop are left alone, and the one that ran is quiet.\<close>

definition settles :: "wpa_env \<Rightarrow> (nat \<Rightarrow> wpa_world \<Rightarrow> wpa_world option) \<Rightarrow> bool" where
  "settles e step \<longleftrightarrow> (\<forall>i w w'. safe e w \<longrightarrow> no_deinit w \<longrightarrow> step i w = Some w' \<longrightarrow>
     safe e w' \<and> calm_but i w w' \<and> (if in_step_loop (w_sm w i) then calm w w' else quiet (w_sm w' i)))"

lemma settlesD:
  assumes "settles e step" "safe e w" "no_deinit w" "step i w = Some w'"
  shows "safe e w'" "calm_but i w w'" "calm w w'" "\<not> in_step_loop (w_sm w i) \<Longrightarrow> quiet (w_sm w' i)"
proof -
  have s: "safe e w' \<and> calm_but i w w' \<and> (if in_step_loop (w_sm w i) then calm w w' else quiet (w_sm w' i))"
    using assms unfolding settles_def by blast
  then show "safe e w'" "calm_but i w w'" "\<not> in_step_loop (w_sm w i) \<Longrightarrow> quiet (w_sm w' i)" by simp_all
  have "calm_sm (w_sm w i) (w_sm w' i)" if "\<not> in_step_loop (w_sm w i)"
    using s that by (simp add: calm_sm_def calm_but_def)
  then show "calm w w'" using s by (cases "in_step_loop (w_sm w i)") (auto simp: calm_def calm_but_def)
qed

lemma mark_calm: "calm w (mark_for_update i w)"
  unfolding mark_for_update_def by (simp add: calm_def calm_sm_def same_flags_def loop_view_def quiet_def in_exchange_def pairwise_reply_def)

lemma update_stas_calm:
  assumes step: "settles e step"
  shows "safe e w \<Longrightarrow> no_deinit w \<Longrightarrow> for_each_sta (wpa_group_update_sta step) js w = Some w' \<Longrightarrow> safe e w' \<and> calm w w'"
proof (induction js arbitrary: w)
  case (Cons j js)
  from Cons.prems(3) obtain w1 where w1: "wpa_group_update_sta step j w = Some w1"
    "for_each_sta (wpa_group_update_sta step) js w1 = Some w'" by (auto simp: bind_eq_Some_conv)
  have "safe e w1 \<and> calm w w1"
  proof (cases "wpa_ptk_state (w_sm w j) = WPA_PTK_PTKINITDONE")
    case True
    then have s: "step j (mark_for_update j w) = Some w1"
      using w1(1) by (simp add: wpa_group_update_sta_def mark_for_update_def Let_def)
    have "safe e (mark_for_update j w)" "no_deinit (mark_for_update j w)"
      using safe_loop.mark [OF Cons.prems(1) True] no_deinit_calm [OF calm_imp_but [OF mark_calm]] Cons.prems(2) by simp_all
    from settlesD [OF step this s] show ?thesis using calm_trans [OF mark_calm] by blast
  next
    case False
    then have "w1 = upd j (\<lambda>sm. sm\<lparr>GUpdateStationKeys := False\<rparr>) w"
      using w1(1) by (simp add: wpa_group_update_sta_def)
    then show ?thesis
      using Cons.prems(1)
      by (simp add: calm_def calm_sm_def same_flags_def loop_view_def quiet_def in_exchange_def pairwise_reply_def)
  qed
  moreover have "no_deinit w1" using calculation no_deinit_calm [OF calm_imp_but] Cons.prems(2) by blast
  ultimately show ?case using Cons.IH [OF _ _ w1(2)] calm_trans by blast
qed simp

lemma setkeys_start_stations: "w_sm (setkeys_start e g w) = w_sm w" "w_stas (setkeys_start e g w) = w_stas w"
  by (simp_all add: setkeys_start_def)

lemma group_sm_step_calm:
  assumes step: "settles e step" and w: "safe e w" "no_deinit w" and r: "wpa_group_sm_step step e g w = Some w'"
  shows "safe e w' \<and> calm w w'"
proof -
  have "safe e w' \<and> calm w w'" if "wpa_group_setkeys step e g w = Some w'"
  proof -
    have "safe e w' \<and> calm (setkeys_start e g w) w'"
      using that update_stas_calm [OF step, of "setkeys_start e g w"] safe_setkeys_start [OF w(1)] w(2)
      by (simp add: wpa_group_setkeys_alt setkeys_start_stations no_deinit_def)
    then show ?thesis by (simp add: calm_def setkeys_start_stations)
  qed
  moreover have "calm w (wpa_group_gtk_init e g w)" "calm w (snd (wpa_group_setkeysdone e g w))"
    by (simp_all add: calm_def wpa_group_gtk_init_def wpa_group_setkeysdone_def)
  ultimately show ?thesis using r w(1) safe_gtk_init [OF w(1)] safe_setkeysdone [OF w(1)] by (auto simp: wpa_group_sm_step_def Let_def split: if_splits)
qed

lemma pass_calm:
  assumes step: "settles e step" and w: "safe e w" "no_deinit w" and loop: "in_step_loop (w_sm w i)"
    and r: "sm_pass step e i w = Some (again, w')"
  shows "safe e w'" "calm_but i w w'" "\<not> again \<Longrightarrow> quiet (w_sm w' i)"
proof -
  let ?w1 = "updg 0 (\<lambda>x. x\<lparr>g_changed := False\<rparr>) (upd i (\<lambda>sm. sm\<lparr>sm_changed := False\<rparr>) w)"
  let ?w2 = "WPA_PTK_Step e i ?w1" and ?w3 = "WPA_PTK_GROUP_Step e i (WPA_PTK_Step e i ?w1)"
  have s1: "safe e ?w1" using w(1) by simp
  have s3: "safe e ?w3" using s1 by (intro safe_GROUP_Step safe_PTK_Step)
  have c1: "calm_but i w ?w1" by (simp add: calm_but_def same_flags_def)
  have m2: "moved i ?w1 ?w2" using sta_safe_of [OF s1, of i] moved_PTK_Step unfolding sta_safe_def by blast
  have m3: "group_moved i ?w2 ?w3" by (rule group_moved_Step)
  have c3: "calm_but i w ?w3"
    using calm_but_trans [OF calm_but_trans [OF c1 moved_calm_but [OF m2]] group_moved_calm_but [OF m3]] .
  have c2: "calm_but i w ?w2" using calm_but_trans [OF c1 moved_calm_but [OF m2]] .
  have nd: "no_deinit ?w2" "no_deinit ?w3" using no_deinit_calm [OF c2] no_deinit_calm [OF c3] w(2) by simp_all
  obtain w4 where w4: "wpa_group_sm_step step e (sm_group (w_sm ?w3 i)) ?w3 = Some w4"
    and out: "w' = w4" "again = (sm_changed (w_sm w4 i) \<or> g_changed (w_group w4 0))"
  proof (rule that)
    have p: "\<not> pending_deinit (w_sm w i)" "\<not> pending_deinit (w_sm ?w2 i)" "\<not> pending_deinit (w_sm ?w3 i)"
      using nd w(2) by (simp_all add: no_deinit_def)
    have "map_option (\<lambda>w4. (sm_changed (w_sm w4 i) \<or> g_changed (w_group w4 0), w4))
        (wpa_group_sm_step step e (sm_group (w_sm ?w3 i)) ?w3) = Some (again, w')"
      using r unfolding sm_pass_def Let_def if_not_P [OF p(1)] if_not_P [OF p(2)] if_not_P [OF p(3)] .
    then show "wpa_group_sm_step step e (sm_group (w_sm ?w3 i)) ?w3 = Some w'" "w' = w'"
      "again = (sm_changed (w_sm w' i) \<or> g_changed (w_group w' 0))" by auto
  qed
  have c4: "calm ?w3 w4" and s4: "safe e w4" using group_sm_step_calm [OF step s3 nd(2) w4] by simp_all
  show "safe e w'" unfolding out(1) by (rule s4)
  show "calm_but i w w'" unfolding out(1) using calm_but_trans [OF c3 calm_imp_but [OF c4]] .
  have view: "loop_view (w_sm w4 i) = loop_view (w_sm ?w3 i)"
    using c4 loop c3 by (simp add: calm_def calm_sm_def calm_but_def same_flags_def)
  show "quiet (w_sm w' i)" if "\<not> again"
  proof -
    have "\<not> sm_changed (w_sm ?w3 i)" using that out view by (simp add: loop_view_def)
    then have "quiet (w_sm ?w2 i)" using m2 m3 by (auto simp: moved_def group_moved_def)
    then have "quiet (w_sm ?w3 i)" using m3 by (simp add: group_moved_def)
    then show ?thesis using loop_view_quiet [OF view] out(1) by simp
  qed
qed

lemma loop_flag_safe: "safe e w \<Longrightarrow> safe e (upd i (\<lambda>sm. sm\<lparr>in_step_loop := b\<rparr>) w)"
  by simp

lemma call_settles:
  assumes loop: "\<And>i w w'. safe e w \<Longrightarrow> no_deinit w \<Longrightarrow> in_step_loop (w_sm w i) \<Longrightarrow> loop i w = Some w' \<Longrightarrow>
      safe e w' \<and> calm_but i w w' \<and> quiet (w_sm w' i)"
  shows "settles e (call_sm_step loop)"
  unfolding settles_def
proof (intro allI impI)
  fix i w w'
  assume w: "safe e w" "no_deinit w" and r: "call_sm_step loop i w = Some w'"
  show "safe e w' \<and> calm_but i w w' \<and> (if in_step_loop (w_sm w i) then calm w w' else quiet (w_sm w' i))"
  proof (cases "in_step_loop (w_sm w i)")
    case True
    then show ?thesis using r w by (simp add: call_sm_step_def calm_imp_but)
  next
    case False
    let ?in = "upd i (\<lambda>sm. sm\<lparr>in_step_loop := True\<rparr>) w"
    obtain w1 where w1: "loop i ?in = Some w1"
      and w': "w' = (let w2 = upd i (\<lambda>sm. sm\<lparr>in_step_loop := False\<rparr>) w1
          in if pending_deinit (w_sm w2 i) then wpa_free_sta_sm i w2 else w2)"
      using r False by (auto simp: call_sm_step_def map_option_case split: option.splits)
    have l: "safe e w1" "calm_but i ?in w1" "quiet (w_sm w1 i)"
      using loop [OF _ _ _ w1] w by (simp_all add: no_deinit_def)
    have "no_deinit w1" using no_deinit_calm [OF l(2)] w(2) by (simp add: no_deinit_def)
    then have out: "w' = upd i (\<lambda>sm. sm\<lparr>in_step_loop := False\<rparr>) w1" using w' by (simp add: no_deinit_def)
    then show ?thesis
      using False l by (simp add: calm_but_def same_flags_def quiet_def in_exchange_def pairwise_reply_def)
  qed
qed

lemma sm_loop_settles:
  "safe e w \<Longrightarrow> no_deinit w \<Longrightarrow> in_step_loop (w_sm w i) \<Longrightarrow> sm_loop n e i w = Some w' \<Longrightarrow>
   safe e w' \<and> calm_but i w w' \<and> quiet (w_sm w' i)"
proof (induction n arbitrary: i w w')
  case (Suc n)
  have c: "settles e (call_sm_step (sm_loop n e))" by (rule call_settles) (rule Suc.IH)
  from Suc.prems(4) obtain again w1 where p: "sm_pass (call_sm_step (sm_loop n e)) e i w = Some (again, w1)"
    and r: "(if again then sm_loop n e i w1 else Some w1) = Some w'" by (auto split: option.splits)
  note w1 = pass_calm [OF c Suc.prems(1-3) p]
  have nd: "no_deinit w1" "in_step_loop (w_sm w1 i)"
    using no_deinit_calm [OF w1(2)] Suc.prems(2,3) w1(2) by (simp_all add: calm_but_def same_flags_def)
  show ?case
  proof (cases again)
    case True
    then have "sm_loop n e i w1 = Some w'" using r by simp
    from Suc.IH [OF w1(1) nd this] show ?thesis using calm_but_trans [OF w1(2)] by blast
  qed (use r w1 in simp)
qed simp

lemma wpa_sm_step_settles: "settles e (wpa_sm_step e)"
proof -
  have "settles e (call_sm_step (sm_loop n e))" for n by (rule call_settles) (rule sm_loop_settles)
  then show ?thesis unfolding settles_def wpa_sm_step_def by blast
qed

subsection \<open>Between two calls\<close>

definition rest_sta :: "wpa_env \<Rightarrow> u8 list \<Rightarrow> wpa_log list \<Rightarrow> wpa_state_machine \<Rightarrow> bool" where
  "rest_sta e aa l sm \<longleftrightarrow> \<not> in_step_loop sm \<and> \<not> pending_deinit sm \<and> quiet sm \<and> ptk_proved e aa l sm \<and> rx_recorded l sm"

definition at_rest :: "wpa_env \<Rightarrow> wpa_world \<Rightarrow> bool" where
  "at_rest e w \<longleftrightarrow> (\<forall>i. rest_sta e (a_addr (w_auth w)) (w_log w) (w_sm w i)) \<and> keys_justified e (a_addr (w_auth w)) (w_log w)"

lemma quiet_reply_checked: "quiet sm \<Longrightarrow> reply_checked e aa l sm"
  by (auto simp: quiet_def reply_checked_def in_exchange_def)

lemma at_rest_sta: "at_rest e w \<Longrightarrow> rest_sta e (a_addr (w_auth w)) (w_log w) (w_sm w i)"
  by (simp add: at_rest_def)

lemma at_rest_safe:
  assumes "at_rest e w"
  shows "safe e w" "no_deinit w" "\<not> in_step_loop (w_sm w i)" "quiet (w_sm w i)"
  using assms at_rest_sta [OF assms] quiet_reply_checked
  by (simp_all add: safe_def sta_safe_def at_rest_def rest_sta_def no_deinit_def)

lemma at_restI:
  assumes "safe e w" "\<And>j. \<not> in_step_loop (w_sm w j)" "no_deinit w" "\<And>j. quiet (w_sm w j)"
  shows "at_rest e w"
  using assms by (simp add: at_rest_def rest_sta_def safe_def sta_safe_def no_deinit_def)

text \<open>A step of a station settles a reply that has come for it.\<close>

lemma step_at_rest:
  assumes "safe e w" "\<And>j. \<not> in_step_loop (w_sm w j)" "no_deinit w" "\<And>j. j \<noteq> i \<Longrightarrow> quiet (w_sm w j)"
    and "wpa_sm_step e i w = Some w'"
  shows "at_rest e w'"
proof (rule at_restI)
  note s = settlesD [OF wpa_sm_step_settles assms(1,3,5)]
  show "safe e w'" by (rule s(1))
  show "\<not> in_step_loop (w_sm w' j)" for j using s(3) assms(2) by (simp add: calm_def calm_sm_def same_flags_def)
  show "no_deinit w'" using no_deinit_calm [OF s(2)] assms(3) by simp
  show "quiet (w_sm w' j)" for j
    using s(2,4) assms(2,4) by (cases "j = i") (simp_all add: calm_but_def calm_sm_def)
qed

lemma at_rest_step: "at_rest e w \<Longrightarrow> wpa_sm_step e i w = Some w' \<Longrightarrow> at_rest e w'"
  using step_at_rest at_rest_safe by blast

lemma at_rest_calm: "at_rest e w \<Longrightarrow> safe e w' \<Longrightarrow> calm w w' \<Longrightarrow> at_rest e w'"
  using at_rest_safe [of e w] no_deinit_calm [OF calm_imp_but, of w w']
  by (intro at_restI) (simp_all add: calm_def calm_sm_def same_flags_def)

lemma at_rest_group_step: "at_rest e w \<Longrightarrow> wpa_group_sm_step (wpa_sm_step e) e g w = Some w' \<Longrightarrow> at_rest e w'"
  using group_sm_step_calm [OF wpa_sm_step_settles] at_rest_safe at_rest_calm by metis

lemma at_rest_upd: "at_rest e w \<Longrightarrow> rest_sta e (a_addr (w_auth w)) (w_log w) (f (w_sm w i)) \<Longrightarrow> at_rest e (upd i f w)"
  by (simp add: at_rest_def)

definition rest_view :: "wpa_state_machine \<Rightarrow> wpa_state_machine" where
  "rest_view sm = zeroed_wpa_sm\<lparr>in_step_loop := in_step_loop sm, pending_deinit := pending_deinit sm,
     wpa_ptk_state := wpa_ptk_state sm, EAPOLKeyReceived := EAPOLKeyReceived sm, EAPOLKeyRequest := EAPOLKeyRequest sm,
     EAPOLKeyPairwise := EAPOLKeyPairwise sm, PTK := PTK sm, PTK_valid := PTK_valid sm, sm_addr := sm_addr sm,
     last_rx_eapol_key := last_rx_eapol_key sm, SNonce := SNonce sm\<rparr>"

lemma rest_sta_view: "rest_sta e aa l (rest_view sm) = rest_sta e aa l sm"
  by (simp add: rest_sta_def rest_view_def quiet_def in_exchange_def pairwise_reply_def ptk_proved_def rx_recorded_def)

lemma at_rest_upd_view [simp]:
  "at_rest e w \<Longrightarrow> rest_view (f (w_sm w i)) = rest_view (w_sm w i) \<Longrightarrow> at_rest e (upd i f w)"
  using rest_sta_view [of e "a_addr (w_auth w)" "w_log w" "f (w_sm w i)"]
    rest_sta_view [of e "a_addr (w_auth w)" "w_log w" "w_sm w i"] at_rest_sta [of e w i]
  by (intro at_rest_upd) simp_all

lemma at_rest_updg [simp]: "at_rest e (updg g f w) = at_rest e w"
  by (simp add: at_rest_def)

lemma at_rest_upda [simp]: "at_rest e w \<Longrightarrow> a_addr (f (w_auth w)) = a_addr (w_auth w) \<Longrightarrow> at_rest e (upda f w)"
  by (simp add: at_rest_def)

lemma at_rest_ask [simp]: "at_rest e (snd (ask f w)) = at_rest e w"
  by (simp add: at_rest_def)

lemma at_rest_fields [simp]:
  "at_rest e (w\<lparr>w_live := l\<rparr>) = at_rest e w" "at_rest e (w\<lparr>w_stas := js\<rparr>) = at_rest e w"
  "at_rest e (w\<lparr>w_groups := gs\<rparr>) = at_rest e w" "at_rest e (w\<lparr>michael_mic_failures := n\<rparr>) = at_rest e w"
  "at_rest e (w\<lparr>michael_mic_failure_time := n\<rparr>) = at_rest e w" "at_rest e (w\<lparr>tkip_countermeasures := b\<rparr>) = at_rest e w"
  by (simp_all add: at_rest_def)

lemma rest_sta_snoc: "rest_sta e aa l sm \<Longrightarrow> rest_sta e aa (l @ [x]) sm"
  unfolding rest_sta_def ptk_proved_def rx_recorded_def using proved_ptk_snoc by auto

lemma at_rest_log [simp]: "at_rest e w \<Longrightarrow> \<not> pairwise_key_log x \<Longrightarrow> at_rest e (log_out x w)"
  by (simp add: at_rest_def rest_sta_snoc keys_justified_snoc)

lemma at_rest_callbacks [simp]:
  assumes "at_rest e w"
  shows "at_rest e (wpa_auth_set_eapol i var val w)" "at_rest e (wpa_sta_disconnect i w)"
    "at_rest e (register_timeout t a b w)" "at_rest e (cancel_timeout t w)"
  using assms by (simp_all add: callback_defs)

lemma at_rest_same: "same_but_groups w w' \<Longrightarrow> w_log w' = w_log w \<Longrightarrow> at_rest e w' = at_rest e w"
  by (simp add: at_rest_def same_but_groups_def)

lemma at_rest_groups [simp]:
  "at_rest e (snd (wpa_gtk_update e g w)) = at_rest e w"
  "at_rest e (snd (wpa_group_init_gmk_and_counter e g w)) = at_rest e w"
  "at_rest e (snd (random_get_bytes e n w)) = at_rest e w"
  by (rule at_rest_same; simp)+

subsection \<open>Calls from outside\<close>

text \<open>
  A call names a station that exists (the caller has a pointer to it). A new station gets a number that is
  not in use.
\<close>

datatype wpa_input =
    StaInit nat nat "u8 list"
  | ValidateIe "rsn_pmksa_cache option list" "nat option" bool nat "u8 list option"
  | StaAssociated nat
  | StaEvent nat wpa_event
  | NoWpa nat
  | EapolKey nat "u8 list"
  | SendTimeout nat
  | CallStep nat
  | PtkTimeout nat
  | GtkTimeout
  | GmkTimeout
  | TxStatus nat bool
  | Notify nat
  | MicFailure "nat option"
  | PmksaAdd int "nat option" bool nat "u8 list" int "eapol_ident option"
  | SetVlan nat int
  | Reconfig wpa_auth_config
  | FreeSta nat

definition for_live :: "nat \<Rightarrow> (wpa_world \<Rightarrow> wpa_world option) \<Rightarrow> wpa_world \<Rightarrow> wpa_world option" where
  "for_live i f w = (if w_live w i then f w else Some w)"

fun handle :: "wpa_env \<Rightarrow> wpa_input \<Rightarrow> wpa_world \<Rightarrow> wpa_world option" where
  "handle e (StaInit i pos addr) w = Some (if w_live w i then w else wpa_auth_sta_init e i pos addr w)"
| "handle e (ValidateIe cs new mem i ie) w = for_live i (\<lambda>w. map_option snd (wpa_validate_wpa_ie e cs new mem True i ie w)) w"
| "handle e (StaAssociated i) w = for_live i (wpa_auth_sta_associated e i) w"
| "handle e (StaEvent i ev) w = for_live i (wpa_auth_sm_event e i ev) w"
| "handle e (NoWpa i) w = for_live i (\<lambda>w. Some (wpa_auth_sta_no_wpa i w)) w"
| "handle e (EapolKey i data) w = for_live i (wpa_receive e i data) w"
| "handle e (SendTimeout i) w = for_live i (wpa_send_eapol_timeout e i) w"
| "handle e (CallStep i) w = for_live i (wpa_sm_call_step e i) w"
| "handle e (PtkTimeout i) w = for_live i (wpa_rekey_ptk e i) w"
| "handle e GtkTimeout w = wpa_rekey_gtk e w"
| "handle e GmkTimeout w = Some (wpa_rekey_gmk e w)"
| "handle e (TxStatus i ack) w = for_live i (\<lambda>w. Some (wpa_auth_eapol_key_tx_status i ack w)) w"
| "handle e (Notify i) w = for_live i (\<lambda>w. Some (wpa_auth_sm_notify i w)) w"
| "handle e (MicFailure i) w = Some (michael_mic_failure e (Some i) w)"
| "handle e (PmksaAdd now new mem i key t eapol) w =
     for_live i (\<lambda>w. Some (snd (wpa_auth_pmksa_add e now new mem i key t eapol w))) w"
| "handle e (SetVlan i vlan) w = for_live i (\<lambda>w. map_option snd (wpa_auth_sta_set_vlan e i vlan w)) w"
| "handle e (Reconfig c) w = map_option snd (wpa_reconfig e c w)"
| "handle e (FreeSta i) w = for_live i (\<lambda>w. Some (ap_free_sta i w)) w"

fun run :: "wpa_env \<Rightarrow> wpa_input list \<Rightarrow> wpa_world \<Rightarrow> wpa_world option" where
  "run e [] w = Some w"
| "run e (x # xs) w = Option.bind (handle e x w) (run e xs)"

subsection \<open>Each call ends at rest\<close>

lemmas rest_view_simps = rest_view_def zeroed_wpa_sm_def

lemma at_rest_forget: "at_rest e w \<Longrightarrow> at_rest e (upd i (\<lambda>sm. sm\<lparr>PTK_valid := False, PTK := zero_ptk\<rparr>) w)"
  using at_rest_sta [of e w i]
  by (intro at_rest_upd) (simp_all add: rest_sta_def quiet_def in_exchange_def pairwise_reply_def ptk_proved_def rx_recorded_def)

lemma at_rest_remove_ptk: "at_rest e w \<Longrightarrow> at_rest e (wpa_remove_ptk e i w)"
  by (simp add: wpa_remove_ptk_def Let_def at_rest_forget wpa_auth_set_key_def case_prod_beta rest_view_simps)

lemma at_rest_leave_update: "at_rest e w \<Longrightarrow> at_rest e (leave_update i w)"
  by (simp add: leave_update_def Let_def rest_view_simps)

lemma at_rest_sta_init: "at_rest e w \<Longrightarrow> at_rest e (wpa_auth_sta_init e i pos addr w)"
  using at_rest_upd [of e "snd (ask (e_alloc e) w)" "\<lambda>_. zeroed_wpa_sm\<lparr>sm_addr := addr\<rparr>" i]
  by (simp add: wpa_auth_sta_init_def Let_def case_prod_beta rest_sta_def quiet_def in_exchange_def zeroed_wpa_sm_def
      ptk_proved_def rx_recorded_def)

lemma at_rest_find_pmksa: "at_rest e w \<Longrightarrow> find_pmksa e cs new mem i pmkids w = Some w' \<Longrightarrow> at_rest e w'"
  by (auto simp: find_pmksa_def Let_def case_prod_beta rest_view_simps split: option.splits prod.splits if_splits)

lemma at_rest_store_wpa_ie: "at_rest e w \<Longrightarrow> at_rest e (snd (store_wpa_ie e i ie w))"
  by (simp add: store_wpa_ie_def Let_def case_prod_beta rest_view_simps)

lemma at_rest_validate_branch:
  assumes w: "at_rest e w"
  shows "at_rest e (upda (note_selected rsn d) w)"
    and "at_rest e (upd i (\<lambda>sm. sm\<lparr>sm_key_mgmt := m\<rparr>) (upda (note_selected rsn d) w))"
    and "pred_option (at_rest e) (find_pmksa e cs new mem i ps (upd i (\<lambda>sm. sm\<lparr>sm_pairwise := c, sm_wpa := v\<rparr>)
      (upd i (\<lambda>sm. sm\<lparr>sm_key_mgmt := m\<rparr>) (upda (note_selected rsn d) w))))"
proof -
  show 1: "at_rest e (upda (note_selected rsn d) w)" using w by (simp add: note_selected_def Let_def)
  then show 2: "at_rest e (upd i (\<lambda>sm. sm\<lparr>sm_key_mgmt := m\<rparr>) (upda (note_selected rsn d) w))"
    by (simp add: rest_view_simps)
  then have "at_rest e (upd i (\<lambda>sm. sm\<lparr>sm_pairwise := c, sm_wpa := v\<rparr>)
      (upd i (\<lambda>sm. sm\<lparr>sm_key_mgmt := m\<rparr>) (upda (note_selected rsn d) w)))" (is "at_rest e ?v")
    by (simp add: rest_view_simps)
  then show "pred_option (at_rest e) (find_pmksa e cs new mem i ps ?v)"
    using at_rest_find_pmksa by (cases "find_pmksa e cs new mem i ps ?v") auto
qed

lemma pred_option_store:
  "pred_option (at_rest e) x \<Longrightarrow> pred_option (\<lambda>p. at_rest e (snd p)) (map_option (store_wpa_ie e i ie) x)"
  by (cases x) (simp_all add: at_rest_store_wpa_ie)

lemma pred_option_bindI: "(\<And>x. pred_option P (f x)) \<Longrightarrow> pred_option P (Option.bind m f)"
  by (cases m) simp_all

lemma at_rest_validate:
  assumes w: "at_rest e w"
  shows "pred_option (\<lambda>p. at_rest e (snd p)) (wpa_validate_wpa_ie e cs new mem present i wpa_ie w)"
proof (cases wpa_ie)
  case None
  then show ?thesis using w by (simp add: wpa_validate_wpa_ie_def)
next
  case (Some ie)
  show ?thesis
    unfolding wpa_validate_wpa_ie_def Let_def Some option.case
    by (simp add: w at_rest_validate_branch [OF w] pred_option_store case_prod_beta pred_option_bindI
        if_distrib [of "pred_option (\<lambda>p. at_rest e (snd p))"])
qed

lemma at_rest_flags [simp]:
  assumes "at_rest e w"
  shows "at_rest e (upd i (\<lambda>sm. sm\<lparr>sm_started := b, Init := c\<rparr>) w)"
    "at_rest e (upd i (\<lambda>sm. sm\<lparr>Init := b, AuthenticationRequest := c\<rparr>) w)"
    "at_rest e (upd i (\<lambda>sm. sm\<lparr>ReAuthenticationRequest := b\<rparr>) w)"
    "at_rest e (upd i (\<lambda>sm. sm\<lparr>DeauthenticationRequest := b\<rparr>) w)"
    "at_rest e (upd i (\<lambda>sm. sm\<lparr>PtkGroupInit := b\<rparr>) w)"
  using assms by (simp_all add: rest_view_simps)

lemma at_rest_start_machines:
  assumes w: "at_rest e w" and r: "start_machines e i w = Some w'"
  shows "at_rest e w'"
proof -
  let ?w = "upd i (\<lambda>sm. sm\<lparr>sm_started := True, Init := True\<rparr>) w"
  obtain w1 where w1: "wpa_sm_step e i ?w = Some w1"
    and w': "w' = (if \<not> w_live w1 i then w1 else upd i (\<lambda>sm. sm\<lparr>Init := False, AuthenticationRequest := True\<rparr>) w1)"
    using r unfolding start_machines_def map_option_eq_Some by blast
  have "at_rest e w1" by (rule at_rest_step [OF at_rest_flags(1) [OF w] w1])
  then show ?thesis unfolding w' by simp
qed

lemma at_rest_event_flags:
  assumes w: "at_rest e w" and r: "event_flags e i ev w = Some w'"
  shows "at_rest e w'"
proof -
  consider "w' = w" | "w' = upd i (\<lambda>sm. sm\<lparr>DeauthenticationRequest := True\<rparr>) w"
    | "start_machines e i w = Some w'"
    | v where "w' = upd i (\<lambda>sm. sm\<lparr>ReAuthenticationRequest := True\<rparr>) v"
        "v = upd i (\<lambda>sm. sm\<lparr>PtkGroupInit := True\<rparr>) (leave_update i w) \<or> v = w"
    using r by (cases ev) (fastforce simp: event_flags_def Let_def split: if_split_asm)+
  then show ?thesis
  proof cases
    case 4
    then show ?thesis using w at_rest_leave_update [OF w] by auto
  qed (use w at_rest_start_machines in simp_all)
qed

lemma at_rest_event:
  assumes w: "at_rest e w" and r: "wpa_auth_sm_event e i ev w = Some w'"
  shows "at_rest e w'"
proof -
  obtain w1 where w1: "event_flags e i ev w = Some w1"
    and r': "(if \<not> w_live w1 i then Some w1 else
       let w2 = upd i (\<lambda>sm. sm\<lparr>PTK_valid := False, PTK := zero_ptk\<rparr>) w1;
           w3 = (if ev \<noteq> WPA_REAUTH_EAPOL then wpa_remove_ptk e i w2 else w2)
       in wpa_sm_step e i w3) = Some w'"
    using r by (auto simp: wpa_auth_sm_event_def bind_eq_Some_conv)
  have "at_rest e w1" by (rule at_rest_event_flags [OF w w1])
  then have f: "at_rest e (upd i (\<lambda>sm. sm\<lparr>PTK_valid := False, PTK := zero_ptk\<rparr>) w1)" by (rule at_rest_forget)
  show ?thesis
    using r' \<open>at_rest e w1\<close> at_rest_step [OF f] at_rest_step [OF at_rest_remove_ptk [OF f]]
    by (simp add: Let_def split: if_split_asm)
qed

lemma at_rest_associated:
  assumes w: "at_rest e w" and r: "wpa_auth_sta_associated e i w = Some w'"
  shows "at_rest e w'"
proof -
  have "at_rest e (upd i (\<lambda>sm. sm\<lparr>key_replay := zero_replay, ReAuthenticationRequest := True\<rparr>) w)"
    using w by (simp add: rest_view_simps)
  note again = at_rest_step [OF this]
  have start: "at_rest e w'" if r': "Option.bind (start_machines e i w) (\<lambda>w1. if \<not> w_live w1 i then Some w1 else wpa_sm_step e i w1) = Some w'"
  proof -
    obtain w1 where w1: "start_machines e i w = Some w1" "(if \<not> w_live w1 i then Some w1 else wpa_sm_step e i w1) = Some w'"
      using r' by (auto simp: bind_eq_Some_conv)
    have "at_rest e w1" by (rule at_rest_start_machines [OF w w1(1)])
    then show ?thesis using w1(2) at_rest_step by (auto split: if_split_asm)
  qed
  show ?thesis using r w again start unfolding wpa_auth_sta_associated_def by (simp split: if_split_asm)
qed

text \<open>Rekeying: \<open>kept\<close> is \<open>at_rest\<close> with the history.\<close>

definition kept :: "wpa_env \<Rightarrow> wpa_log list \<Rightarrow> (nat \<Rightarrow> u8 list) \<Rightarrow> wpa_world \<Rightarrow> bool" where
  "kept e l A w \<longleftrightarrow> at_rest e w \<and> history l A w"

lemma kept_at_rest: "kept e l A w \<Longrightarrow> at_rest e w"
  by (simp add: kept_def)

lemma kept_simps [simp]:
  "kept e l A (updg g f w) = kept e l A w"
  "kept e l A w \<Longrightarrow> kept e l A (register_timeout t a b w)" "kept e l A w \<Longrightarrow> kept e l A (cancel_timeout t w)"
  by (simp_all add: kept_def)

lemma kept_group_step: "kept e l A w \<Longrightarrow> wpa_group_sm_step (wpa_sm_step e) e g w = Some w' \<Longrightarrow> kept e l A w'"
  using at_rest_group_step history_loop.group by (auto simp: kept_def)

lemma kept_rekey_group_loop: "kept e l A w \<Longrightarrow> rekey_group_loop n e g w = Some w' \<Longrightarrow> kept e l A w'"
proof (induction n arbitrary: w)
  case (Suc n)
  obtain w1 where w1: "wpa_group_sm_step (wpa_sm_step e) e g (updg g (\<lambda>x. x\<lparr>g_changed := False\<rparr>) w) = Some w1"
    and r: "(if g_changed (w_group w1 g) then rekey_group_loop n e g w1 else Some w1) = Some w'"
    using Suc.prems(2) by (auto simp: bind_eq_Some_conv)
  have "kept e l A w1" using kept_group_step [OF _ w1] Suc.prems(1) by simp
  then show ?case using r Suc.IH by (auto split: if_split_asm)
qed simp

lemma kept_rekey_groups: "kept e l A w \<Longrightarrow> rekey_groups e gs w = Some w' \<Longrightarrow> kept e l A w'"
proof (induction gs arbitrary: w)
  case (Cons g gs)
  let ?w = "updg g (\<lambda>x. x\<lparr>GTKReKey := True\<rparr>) w"
  obtain w1 where w1: "rekey_group_loop (Suc (groups_rank ?w)) e g ?w = Some w1" and r: "rekey_groups e gs w1 = Some w'"
    using Cons.prems(2) by (auto simp: bind_eq_Some_conv Let_def)
  have "kept e l A w1" using kept_rekey_group_loop [OF _ w1] Cons.prems(1) by simp
  then show ?case using Cons.IH r by blast
qed simp

lemma kept_rekey_gtk: "kept e l A w \<Longrightarrow> wpa_rekey_gtk e w = Some w' \<Longrightarrow> kept e l A w'"
  using kept_rekey_groups by (fastforce simp: wpa_rekey_gtk_def)

text \<open>Reports of MIC failures.\<close>

lemma at_rest_deauth_all:
  "at_rest e w \<Longrightarrow> at_rest e (fold (\<lambda>i w. log_out (DeauthSta (sm_addr (w_sm w i))) w) js w)"
  by (induction js arbitrary: w) simp_all

lemma history_deauth_all:
  "history l A w \<Longrightarrow> history l A (fold (\<lambda>i w. log_out (DeauthSta (sm_addr (w_sm w i))) w) js w)"
  by (induction js arbitrary: w) simp_all

lemma history_fields [simp]:
  "history l A (w\<lparr>michael_mic_failures := n\<rparr>) = history l A w"
  "history l A (w\<lparr>michael_mic_failure_time := n\<rparr>) = history l A w"
  "history l A (w\<lparr>tkip_countermeasures := b\<rparr>) = history l A w"
  by (simp_all add: history_def)

lemma kept_countermeasures: "kept e l A w \<Longrightarrow> kept e l A (ieee80211_tkip_countermeasures_start e w)"
  unfolding kept_def ieee80211_tkip_countermeasures_start_def Let_def wpa_gtk_rekey_def wpa_auth_countermeasures_start_def
  by (simp add: at_rest_deauth_all history_deauth_all)

lemma kept_mic_failure: "kept e l A w \<Longrightarrow> kept e l A (michael_mic_failure e s w)"
  using kept_countermeasures [of e l A]
  by (simp add: michael_mic_failure_def count_mic_failure_def Let_def case_prod_beta rest_view_simps kept_def
      split: option.split)

subsection \<open>Reception\<close>

lemma at_rest_request_new_ptk: "at_rest e w \<Longrightarrow> at_rest e (wpa_request_new_ptk i w)"
  unfolding wpa_request_new_ptk_def using at_rest_sta [of e w i]
  by (intro at_rest_upd) (simp_all add: rest_sta_def quiet_def in_exchange_def pairwise_reply_def ptk_proved_def rx_recorded_def)

lemma kept_request_new_ptk: "kept e l A w \<Longrightarrow> kept e l A (wpa_request_new_ptk i w)"
  by (simp add: kept_def at_rest_request_new_ptk) (simp add: wpa_request_new_ptk_def)

lemma kept_request:
  assumes w: "kept e l A w" and r: "rx_request e i data w = Some (go, w')"
  shows "kept e l A w'"
proof -
  let ?key = "eapol_key_of data"
  let ?w1 = "upd i (\<lambda>sm. sm\<lparr>req_replay_counter_used := True, req_replay_counter := ek_replay_counter ?key\<rparr>) w"
  let ?w2 = "michael_mic_failure e None ?w1"
  let ?w3 = "upda (\<lambda>a. a\<lparr>a_RemoteMICFailures := a_RemoteMICFailures a + 1\<rparr>)
      (upd i (\<lambda>sm. sm\<lparr>sm_RemoteMICFailures := sm_RemoteMICFailures sm + 1\<rparr>) ?w2)"
  have 1: "kept e l A ?w1" using w by (simp add: kept_def rest_view_simps)
  then have "kept e l A ?w2" by (rule kept_mic_failure)
  then have 3: "kept e l A ?w3" by (simp add: kept_def rest_view_simps)
  have 4: "kept e l A w'" if "wpa_rekey_gtk e (cancel_timeout RekeyGtk ?w1) = Some w'"
    using that kept_rekey_gtk [of e l A "cancel_timeout RekeyGtk ?w1"] 1 by simp
  show ?thesis
    using r w 1 4 kept_request_new_ptk [OF 3] kept_request_new_ptk [OF 1]
    unfolding rx_request_def Let_def by (auto simp: bind_eq_Some_conv split: if_split_asm)
qed

text \<open>
  What a frame that is delivered to the machines has been through: a frame that is not a request was verified
  if there is a key, and there is one in the later states of the exchange.
\<close>

definition rx_checked :: "wpa_env \<Rightarrow> u8 list \<Rightarrow> wpa_log list \<Rightarrow> wpa_state_machine \<Rightarrow> u8 list \<Rightarrow> bool" where
  "rx_checked e aa l sm data \<longleftrightarrow>
     (MICVerified sm \<longrightarrow> PTK_valid sm \<and> confirmed e aa l (sm_addr sm) (PTK sm) data) \<and>
     (wpa_ptk_state sm = WPA_PTK_PTKCALCNEGOTIATING2 \<or> wpa_ptk_state sm = WPA_PTK_PTKINITNEGOTIATING \<longrightarrow>
        key_flag (ek_key_info (eapol_key_of data)) WPA_KEY_INFO_KEY_TYPE \<longrightarrow> MICVerified sm)"

lemma at_rest_deliver:
  assumes w: "at_rest e w" and l: "Received (sm_addr (w_sm w i)) data \<in> set (w_log w)"
    and c: "key_flag (ek_key_info (eapol_key_of data)) WPA_KEY_INFO_REQUEST \<or>
      rx_checked e (a_addr (w_auth w)) (w_log w) (w_sm w i) data"
    and r: "rx_deliver e i data w = Some w'"
  shows "at_rest e w'"
proof -
  let ?w1 = "snd (ask (e_alloc e) w)" and ?info = "ek_key_info (eapol_key_of data)"
  let ?f = "\<lambda>sm. sm\<lparr>last_rx_eapol_key := Some data, EAPOLKeyReceived := True,
      EAPOLKeyPairwise := key_flag ?info WPA_KEY_INFO_KEY_TYPE, EAPOLKeyRequest := key_flag ?info WPA_KEY_INFO_REQUEST,
      SNonce := ek_key_nonce (eapol_key_of data)\<rparr>"
  have 1: "at_rest e ?w1" using w by simp
  have sta: "rest_sta e (a_addr (w_auth w)) (w_log w) (w_sm w i)" using w by (rule at_rest_sta)
  show ?thesis
  proof (cases "fst (ask (e_alloc e) w)")
    case False
    have "at_rest e (upd i (\<lambda>sm. sm\<lparr>last_rx_eapol_key := None\<rparr>) ?w1)"
      using sta by (intro at_rest_upd [OF 1])
        (simp add: rest_sta_def quiet_def in_exchange_def pairwise_reply_def ptk_proved_def rx_recorded_def)
    then show ?thesis using r False by (simp add: rx_deliver_def Let_def case_prod_beta)
  next
    case True
    have c': "reply_checked e (a_addr (w_auth w)) (w_log w) (?f (w_sm w i))"
      using c by (simp add: reply_checked_def rx_checked_def pairwise_reply_def in_exchange_def) blast
    have "sta_safe e (a_addr (w_auth w)) (w_log w) (?f (w_sm w i))"
      using sta l c' by (simp add: sta_safe_def rest_sta_def ptk_proved_def rx_recorded_def)
    then have s: "safe e (upd i ?f ?w1)" using at_rest_safe(1) [OF 1] by (intro safe_upd) simp_all
    have "wpa_sm_step e i (upd i ?f ?w1) = Some w'"
      using r True by (simp add: rx_deliver_def Let_def case_prod_beta)
    from step_at_rest [OF s _ _ _ this] show ?thesis
      using at_rest_safe(2,3,4) [OF w] by (simp add: no_deinit_def)
  qed
qed

lemma rx_switch_kept:
  assumes w: "kept e l A w" and r: "rx_switch i data w = Some (go, w')"
  shows "kept e l A w'" "go \<Longrightarrow> w_sm w' = w_sm w \<and> w_auth w' = w_auth w"
    "go \<Longrightarrow> \<not> key_flag (ek_key_info (eapol_key_of data)) WPA_KEY_INFO_REQUEST \<Longrightarrow>
     key_flag (ek_key_info (eapol_key_of data)) WPA_KEY_INFO_KEY_TYPE \<Longrightarrow>
     wpa_ptk_state (w_sm w i) = WPA_PTK_PTKCALCNEGOTIATING2 \<or> wpa_ptk_state (w_sm w i) = WPA_PTK_PTKINITNEGOTIATING \<Longrightarrow>
     PTK_valid (w_sm w i)"
proof -
  have l: "kept e l A (log_out x w)" if "\<not> pairwise_key_log x" for x using w that by (simp add: kept_def)
  have d: "kept e l A (wpa_sta_disconnect i v)" if "kept e l A v" for v
    using that by (simp add: kept_def)
  have g: "kept e l A (log_out x v)" if "kept e l A v" "\<not> pairwise_key_log x" for x v using that by (simp add: kept_def)
  have 2: "kept e l A w'" "go \<Longrightarrow> w_sm w' = w_sm w \<and> w_auth w' = w_auth w"
    "go \<Longrightarrow> wpa_ptk_state (w_sm w i) = WPA_PTK_PTKSTART \<or> wpa_ptk_state (w_sm w i) = WPA_PTK_PTKCALCNEGOTIATING"
    if "rx_pairwise_2 i data w = Some (go, w')"
    using that w unfolding rx_pairwise_2_def Let_def
    by (auto simp: bind_eq_Some_conv l d g split: if_split_asm)
  show "kept e l A w'" "go \<Longrightarrow> w_sm w' = w_sm w \<and> w_auth w' = w_auth w"
    using r w 2(1,2) unfolding rx_switch_def Let_def by (auto split: key_msg.splits)
  show "PTK_valid (w_sm w i)" if "go" "\<not> key_flag (ek_key_info (eapol_key_of data)) WPA_KEY_INFO_REQUEST"
    "key_flag (ek_key_info (eapol_key_of data)) WPA_KEY_INFO_KEY_TYPE"
    "wpa_ptk_state (w_sm w i) = WPA_PTK_PTKCALCNEGOTIATING2 \<or> wpa_ptk_state (w_sm w i) = WPA_PTK_PTKINITNEGOTIATING"
    using r that 2(3) unfolding rx_switch_def Let_def key_msg_of_def by (auto split: if_split_asm)
qed

lemma rx_mic_kept:
  assumes w: "kept e l A w" and r: "rx_mic e i data w = (go, w')"
  shows "kept e l A w'" "wpa_ptk_state (w_sm w' i) = wpa_ptk_state (w_sm w i)" "PTK_valid (w_sm w' i) = PTK_valid (w_sm w i)"
    "go \<Longrightarrow> if PTK_valid (w_sm w' i) then MICVerified (w_sm w' i) \<and> wpa_verify_key_mic (crypto e) (PTK (w_sm w' i)) data = 0
       else \<not> MICVerified (w_sm w' i)"
    "PTK (w_sm w' i) = PTK (w_sm w i)" "w_auth w' = w_auth w" "sm_addr (w_sm w' i) = sm_addr (w_sm w i)"
proof -
  let ?w1 = "upd i (\<lambda>sm. sm\<lparr>MICVerified := False\<rparr>) w"
  let ?w2 = "upd i (\<lambda>sm. sm\<lparr>pending_1_of_4_timeout := False\<rparr>)
      (cancel_timeout (SendEapolTimeout i) (upd i (\<lambda>sm. sm\<lparr>MICVerified := True\<rparr>) ?w1))"
  have c: "w_sm (cancel_timeout t v) = w_sm v" "w_auth (cancel_timeout t v) = w_auth v" for t v
    by (simp_all add: cancel_timeout_def)
  have 1: "kept e l A ?w1" using w by (simp add: kept_def rest_view_simps)
  have 2: "kept e l A ?w2" using 1 by (simp add: kept_def rest_view_simps)
  let ?no = "key_flag (ek_key_info (eapol_key_of data)) WPA_KEY_INFO_ACK \<or>
      \<not> key_flag (ek_key_info (eapol_key_of data)) WPA_KEY_INFO_MIC"
  have p: "PTK_valid (w_sm ?w1 i) = PTK_valid (w_sm w i)" "PTK (w_sm ?w1 i) = PTK (w_sm w i)" by simp_all
  have e: "(if ?no then (False, w) else if \<not> PTK_valid (w_sm w i) then (True, ?w1)
      else if wpa_verify_key_mic (crypto e) (PTK (w_sm w i)) data \<noteq> 0 then (False, ?w1) else (True, ?w2)) = (go, w')"
    using r unfolding rx_mic_def Let_def p .
  have f0: "w_auth ?w1 = w_auth w" "w_auth ?w2 = w_auth w" "PTK (w_sm ?w1 i) = PTK (w_sm w i)" "PTK (w_sm ?w2 i) = PTK (w_sm w i)"
    "sm_addr (w_sm ?w1 i) = sm_addr (w_sm w i)" "sm_addr (w_sm ?w2 i) = sm_addr (w_sm w i)" by (simp_all add: c)
  have f1: "wpa_ptk_state (w_sm ?w1 i) = wpa_ptk_state (w_sm w i)" "PTK_valid (w_sm ?w1 i) = PTK_valid (w_sm w i)"
    "\<not> MICVerified (w_sm ?w1 i)" by simp_all
  have f2: "wpa_ptk_state (w_sm ?w2 i) = wpa_ptk_state (w_sm w i)" "PTK_valid (w_sm ?w2 i) = PTK_valid (w_sm w i)"
    "PTK (w_sm ?w2 i) = PTK (w_sm w i)" "MICVerified (w_sm ?w2 i)" by (simp_all add: c)
  from e have "w' = w \<and> \<not> go \<or> w' = ?w1 \<and> \<not> (go \<and> PTK_valid (w_sm w i)) \<or>
      w' = ?w2 \<and> wpa_verify_key_mic (crypto e) (PTK (w_sm w i)) data = 0 \<and> PTK_valid (w_sm w i)"
    by (metis Pair_inject)
  then show "kept e l A w'" "wpa_ptk_state (w_sm w' i) = wpa_ptk_state (w_sm w i)"
    "PTK_valid (w_sm w' i) = PTK_valid (w_sm w i)"
    "go \<Longrightarrow> if PTK_valid (w_sm w' i) then MICVerified (w_sm w' i) \<and> wpa_verify_key_mic (crypto e) (PTK (w_sm w' i)) data = 0
       else \<not> MICVerified (w_sm w' i)"
    "PTK (w_sm w' i) = PTK (w_sm w i)" "w_auth w' = w_auth w" "sm_addr (w_sm w' i) = sm_addr (w_sm w i)"
    using w 1 2 f0 f1 f2 by (elim disjE conjE; simp only: simp_thms if_True if_False)+
qed

lemma kept_member:
  "kept e (w_log w) (\<lambda>i. sm_addr (w_sm w i)) w' \<Longrightarrow> Received (sm_addr (w_sm w i)) data \<in> set (w_log w) \<Longrightarrow>
   Received (sm_addr (w_sm w' i)) data \<in> set (w_log w')"
  by (auto simp: kept_def history_def)

lemma at_rest_receive:
  assumes w: "at_rest e w0" and r: "wpa_receive e i data w0 = Some w'"
  shows "at_rest e w'"
proof -
  let ?w = "log_out (Received (sm_addr (w_sm w0 i)) data) w0"
  let ?kept = "kept e (w_log ?w) (\<lambda>i. sm_addr (w_sm ?w i))"
  let ?info = "ek_key_info (eapol_key_of data)"
  have k: "?kept ?w" using w history_refl [of ?w] by (simp add: kept_def)
  have mem: "Received (sm_addr (w_sm ?w i)) data \<in> set (w_log ?w)" by simp
  show ?thesis
  proof (cases "cf_wpa (conf ?w) = 0 \<or> \<not> rx_acceptable (w_sm ?w i) data")
    case True
    then show ?thesis using r k kept_at_rest by (simp add: wpa_receive_def Let_def)
  next
    case False
    obtain go w1 where s: "rx_switch i data ?w = Some (go, w1)"
      and r1: "(if \<not> go then Some w1 else
        let (go, w2) = rx_mic e i data w1 in if go then rx_verified e i data w2 else Some w2) = Some w'"
      using r False unfolding wpa_receive_def Let_def by (auto simp: bind_eq_Some_conv)
    note k1 = rx_switch_kept [OF k s]
    obtain go2 w2 where m: "rx_mic e i data w1 = (go2, w2)" by (rule prod.exhaust)
    note k2 = rx_mic_kept [OF k1(1) m]
    show ?thesis
    proof (cases "go \<and> go2")
      case False
      then show ?thesis using r1 m k1(1) k2(1) kept_at_rest by (auto split: if_split_asm)
    next
      case True
      then have v: "rx_verified e i data w2 = Some w'" using r1 m by simp
      show ?thesis
      proof (cases "key_flag ?info WPA_KEY_INFO_REQUEST")
        case req: True
        then obtain go3 w3 where q: "rx_request e i data w2 = Some (go3, w3)"
          and d: "(if go3 then rx_deliver e i data w3 else Some w3) = Some w'"
          using v by (auto simp: rx_verified_def bind_eq_Some_conv)
        have k3: "?kept w3" by (rule kept_request [OF k2(1) q])
        show ?thesis
          using d at_rest_deliver [OF kept_at_rest [OF k3] kept_member [OF k3 mem]] req kept_at_rest [OF k3]
          by (auto split: if_split_asm)
      next
        case req: False
        let ?w3 = "upd i invalidate_replay w2"
        have d: "rx_deliver e i data ?w3 = Some w'" using v req by (simp add: rx_verified_def)
        have k3: "?kept ?w3" using k2(1) by (simp add: kept_def invalidate_replay_def rest_view_simps)
        have same: "w_auth w2 = w_auth w0" "PTK (w_sm w2 i) = PTK (w_sm w0 i)" "PTK_valid (w_sm w2 i) = PTK_valid (w_sm w0 i)"
            "sm_addr (w_sm w2 i) = sm_addr (w_sm w0 i)"
          using k1(2) k2(3,5-7) True by simp_all
        have "confirmed e (a_addr (w_auth w2)) (w_log w2) (sm_addr (w_sm w2 i)) (PTK (w_sm w2 i)) data"
          if "PTK_valid (w_sm w2 i)" "wpa_verify_key_mic (crypto e) (PTK (w_sm w2 i)) data = 0"
        proof -
          have "proved_ptk e (a_addr (w_auth w0)) (w_log w0) (sm_addr (w_sm w0 i)) (PTK (w_sm w0 i))"
            using at_rest_sta [OF w, of i] that(1) same(3) by (simp add: rest_sta_def ptk_proved_def)
          moreover obtain r where "w_log w2 = w_log w0 @ Received (sm_addr (w_sm w0 i)) data # r"
            using k2(1) by (auto simp: kept_def history_def)
          ultimately show ?thesis using that(2) same unfolding confirmed_def by (simp only:) blast
        qed
        then have "rx_checked e (a_addr (w_auth w2)) (w_log w2) (w_sm w2 i) data"
          using k2(2-4) k1(2,3) True req by (auto simp: rx_checked_def)
        then have "rx_checked e (a_addr (w_auth ?w3)) (w_log ?w3) (w_sm ?w3 i) data"
          by (simp add: rx_checked_def invalidate_replay_def)
        then show ?thesis
          using at_rest_deliver [OF kept_at_rest [OF k3] kept_member [OF k3 mem] _ d] by blast
      qed
    qed
  qed
qed

subsection \<open>Runs\<close>

lemma at_rest_group_init:
  assumes w: "at_rest e w"
  shows "pred_option (\<lambda>p. at_rest e (snd p)) (wpa_group_init e g vlan w)"
proof -
  have s: "pred_option (at_rest e) (wpa_group_sm_step (wpa_sm_step e) e g v)" if "at_rest e v" for v
    using at_rest_group_step [OF that] by (cases "wpa_group_sm_step (wpa_sm_step e) e g v") auto
  have t: "pred_option (\<lambda>p. at_rest e (snd p)) (map_option (Pair b) x)" if "pred_option (at_rest e) x" for b :: bool and x
    using that by (cases x) auto
  have b: "pred_option (\<lambda>p. at_rest e (snd p)) (Option.bind x f)"
    if "pred_option (at_rest e) x" "\<And>v. at_rest e v \<Longrightarrow> pred_option (\<lambda>p. at_rest e (snd p)) (f v)"
    for x :: "wpa_world option" and f :: "wpa_world \<Rightarrow> (bool \<times> wpa_world) option"
    using that by (cases x) auto
  show ?thesis
    unfolding wpa_group_init_def Let_def case_prod_beta
    using w by (simp add: s t b if_distrib [of "pred_option (\<lambda>p. at_rest e (snd p))"])
qed

lemma at_rest_set_vlan:
  assumes w: "at_rest e w" shows "pred_option (\<lambda>p. at_rest e (snd p)) (wpa_auth_sta_set_vlan e i vlan w)"
proof -
  have g: "at_rest e (upd i (\<lambda>sm. sm\<lparr>sm_group := g\<rparr>) v)" if "at_rest e v" for g v
    using that by (simp add: rest_view_simps)
  have "pred_option (\<lambda>p. at_rest e (snd p)) (wpa_auth_add_group e vlan w)"
    using at_rest_group_init [OF w, of "length (w_groups w)" vlan]
    by (auto simp: wpa_auth_add_group_def Let_def option.pred_map comp_def elim!: option.pred_mono_strong)
  then show ?thesis
    using w g by (auto simp: wpa_auth_sta_set_vlan_def option.pred_map comp_def split: option.split
      elim!: option.pred_mono_strong)
qed

lemma at_rest_gen_ie: "at_rest e w \<Longrightarrow> at_rest e (snd (wpa_auth_gen_wpa_ie e w))"
  by (simp add: wpa_auth_gen_wpa_ie_def Let_def case_prod_beta split: option.split)

lemma at_rest_reconfig:
  assumes w: "at_rest e w" shows "pred_option (\<lambda>p. at_rest e (snd p)) (wpa_reconfig e c w)"
proof -
  have s: "pred_option (at_rest e) (wpa_group_sm_step (wpa_sm_step e) e g v)" if "at_rest e v" for v g
    using at_rest_group_step [OF that] by (cases "wpa_group_sm_step (wpa_sm_step e) e g v") auto
  have t: "pred_option (\<lambda>p. at_rest e (snd p)) (map_option (Pair b) x)" if "pred_option (at_rest e) x" for b :: int and x
    using that by (cases x) auto
  have b: "pred_option (\<lambda>p. at_rest e (snd p)) (Option.bind x f)"
    if "pred_option (at_rest e) x" "\<And>v. at_rest e v \<Longrightarrow> pred_option (\<lambda>p. at_rest e (snd p)) (f v)"
    for x :: "wpa_world option" and f :: "wpa_world \<Rightarrow> (int \<times> wpa_world) option"
    using that by (cases x) auto
  have "at_rest e (snd (wpa_auth_gen_wpa_ie e (upda (\<lambda>a. a\<lparr>a_conf := c\<rparr>) w)))"
    using w by (intro at_rest_gen_ie) simp
  then show ?thesis
    unfolding wpa_reconfig_def Let_def case_prod_beta
    by (simp add: s t b if_distrib [of "pred_option (\<lambda>p. at_rest e (snd p))"])
qed

lemma at_rest_clear_pmksa: "at_rest e w \<Longrightarrow> at_rest e (wpa_auth_pmksa_free_cb a w)"
proof -
  have "at_rest e (sm_clear_pmksa i a w)" if "at_rest e w" for i w
    using that unfolding sm_clear_pmksa_def by (simp add: rest_view_simps)
  then have "at_rest e (fold (\<lambda>i. sm_clear_pmksa i a) js w)" if "at_rest e w" for js w
    using that by (induction js arbitrary: w) simp_all
  then show "at_rest e w \<Longrightarrow> ?thesis" by (simp add: wpa_auth_pmksa_free_cb_def)
qed

lemma at_rest_with_cache: "at_rest e w \<Longrightarrow> at_rest e (with_cache c w)"
proof -
  have "at_rest e (fold wpa_auth_pmksa_free_cb xs w)" if "at_rest e w" for xs w
    using that at_rest_clear_pmksa by (induction xs arbitrary: w) simp_all
  then show "at_rest e w \<Longrightarrow> ?thesis" by (simp add: with_cache_def)
qed

lemma at_rest_free: "at_rest e w \<Longrightarrow> at_rest e (ap_free_sta i w)"
proof -
  assume w: "at_rest e w"
  have l: "at_rest e (leave_update i v)" if "at_rest e v" for v using that by (rule at_rest_leave_update)
  have p: "rest_view (sm\<lparr>pending_1_of_4_timeout := b\<rparr>) = rest_view sm" for sm b by (simp add: rest_view_simps)
  have "\<not> in_step_loop (w_sm w i)" using at_rest_safe(3) [OF w] .
  then show ?thesis
    using w unfolding ap_free_sta_def wpa_auth_sta_deinit_def Let_def wpa_free_sta_sm_def
    by (simp add: l p callback_defs)
qed

lemma for_live_cases:
  assumes "at_rest e w" "for_live i f w = Some w'" "\<And>v. f w = Some v \<Longrightarrow> at_rest e v"
  shows "at_rest e w'"
  using assms by (auto simp: for_live_def split: if_splits)

lemma at_rest_handle_sta:
  assumes w: "at_rest e w"
  shows "pred_option (at_rest e) (Some (wpa_auth_sta_no_wpa i w))"
    "pred_option (at_rest e) (Some (wpa_auth_eapol_key_tx_status i ack w))"
    "pred_option (at_rest e) (Some (wpa_auth_sm_notify i w))"
    "pred_option (at_rest e) (Some (snd (wpa_auth_pmksa_add e now new mem i key t eapol w)))"
    "pred_option (at_rest e) (wpa_send_eapol_timeout e i w)"
    "pred_option (at_rest e) (wpa_rekey_ptk e i w)"
proof -
  have 5: "at_rest e (upd i (\<lambda>sm. sm\<lparr>pending_1_of_4_timeout := False, TimeoutEvt := True\<rparr>) w)"
    using w by (simp add: rest_view_simps)
  show "pred_option (at_rest e) (wpa_send_eapol_timeout e i w)"
    unfolding wpa_send_eapol_timeout_def using at_rest_step [OF 5] by (simp add: pred_option_def)
  show "pred_option (at_rest e) (wpa_rekey_ptk e i w)"
    unfolding wpa_rekey_ptk_def using at_rest_step [OF at_rest_request_new_ptk [OF w]] by (simp add: pred_option_def)
  show "pred_option (at_rest e) (Some (snd (wpa_auth_pmksa_add e now new mem i key t eapol w)))"
    using w at_rest_with_cache [OF w] by (simp add: wpa_auth_pmksa_add_def Let_def case_prod_beta)
qed (use w in \<open>simp_all add: wpa_auth_sta_no_wpa_def rest_view_simps wpa_auth_eapol_key_tx_status_def wpa_auth_sm_notify_def\<close>)

lemma pred_optionD: "pred_option P x \<Longrightarrow> x = Some y \<Longrightarrow> P y"
  by simp

lemma at_rest_handle:
  assumes w: "at_rest e w" and r: "handle e x w = Some w'"
  shows "at_rest e w'"
proof (cases x)
  case (StaInit i pos addr)
  then show ?thesis using r w at_rest_sta_init [OF w, of i pos addr] by (simp split: if_splits)
next
  case (ValidateIe cs new mem i ie)
  show ?thesis
    using r w at_rest_validate [OF w, of cs new mem True i ie]
    by (auto simp: ValidateIe for_live_def split: if_splits)
next
  case (StaAssociated i)
  show ?thesis by (rule for_live_cases [OF w r [unfolded StaAssociated handle.simps] at_rest_associated [OF w]])
next
  case (StaEvent i ev)
  show ?thesis by (rule for_live_cases [OF w r [unfolded StaEvent handle.simps] at_rest_event [OF w]])
next
  case (NoWpa i)
  show ?thesis
    by (rule for_live_cases [OF w r [unfolded NoWpa handle.simps] pred_optionD [OF at_rest_handle_sta(1) [OF w]]])
next
  case (EapolKey i data)
  show ?thesis by (rule for_live_cases [OF w r [unfolded EapolKey handle.simps] at_rest_receive [OF w]])
next
  case (SendTimeout i)
  show ?thesis
    by (rule for_live_cases [OF w r [unfolded SendTimeout handle.simps] pred_optionD [OF at_rest_handle_sta(5) [OF w]]])
next
  case (CallStep i)
  show ?thesis
    by (rule for_live_cases [OF w r [unfolded CallStep handle.simps] at_rest_step [OF w, folded wpa_sm_call_step_def]])
next
  case (PtkTimeout i)
  show ?thesis
    by (rule for_live_cases [OF w r [unfolded PtkTimeout handle.simps] pred_optionD [OF at_rest_handle_sta(6) [OF w]]])
next
  case GtkTimeout
  then show ?thesis using r kept_rekey_gtk [of e "[]" "\<lambda>i. sm_addr (w_sm w i)" w w'] w by (simp add: kept_def history_def)
next
  case GmkTimeout
  then show ?thesis using r w by (auto simp: wpa_rekey_gmk_def Let_def case_prod_beta)
next
  case (TxStatus i ack)
  show ?thesis
    by (rule for_live_cases [OF w r [unfolded TxStatus handle.simps] pred_optionD [OF at_rest_handle_sta(2) [OF w]]])
next
  case (Notify i)
  show ?thesis
    by (rule for_live_cases [OF w r [unfolded Notify handle.simps] pred_optionD [OF at_rest_handle_sta(3) [OF w]]])
next
  case (MicFailure i)
  have "kept e [] (\<lambda>i. sm_addr (w_sm w i)) w" using w by (simp add: kept_def history_def)
  then show ?thesis using r MicFailure kept_mic_failure kept_at_rest by force
next
  case (PmksaAdd now new mem i key t eapol)
  show ?thesis
    by (rule for_live_cases [OF w r [unfolded PmksaAdd handle.simps] pred_optionD [OF at_rest_handle_sta(4) [OF w]]])
next
  case (SetVlan i vlan)
  then show ?thesis using r w at_rest_set_vlan [OF w, of i vlan] by (auto simp: for_live_def split: if_splits)
next
  case (Reconfig c)
  then show ?thesis using r at_rest_reconfig [OF w, of c] by auto
next
  case (FreeSta i)
  then show ?thesis using r w at_rest_free [OF w, of i] by (simp add: for_live_def split: if_splits)
qed

lemma at_rest_run: "at_rest e w \<Longrightarrow> run e xs w = Some w' \<Longrightarrow> at_rest e w'"
proof (induction xs arbitrary: w)
  case (Cons x xs)
  then obtain w1 where "handle e x w = Some w1" "run e xs w1 = Some w'" by (auto simp: bind_eq_Some_conv)
  then show ?case using Cons at_rest_handle by blast
qed simp

lemma at_rest_start: "at_rest e (upda (\<lambda>a. a\<lparr>a_addr := addr, a_conf := c\<rparr>) (snd (ask f no_world)))"
  by (simp add: at_rest_def no_world_def rest_sta_def quiet_def in_exchange_def zeroed_wpa_sm_def ptk_proved_def
      rx_recorded_def keys_justified_def)

lemma pred_option_bind:
  "pred_option P m \<Longrightarrow> (\<And>x. P x \<Longrightarrow> pred_option Q (f x)) \<Longrightarrow> pred_option Q (Option.bind m f)"
  by (cases m) simp_all

lemma at_rest_init:
  assumes r: "wpa_init e addr c = Some (ok, w)"
  shows "at_rest e w"
proof -
  have 1: "at_rest e no_world"
    by (simp add: at_rest_def no_world_def rest_sta_def quiet_def in_exchange_def zeroed_wpa_sm_def ptk_proved_def
        rx_recorded_def keys_justified_def)
  note g = pred_option_bind [OF at_rest_group_init [OF at_rest_gen_ie [OF at_rest_start]]]
  have "pred_option (\<lambda>p. at_rest e (snd p)) (wpa_init e addr c)"
    unfolding wpa_init_def Let_def case_prod_beta
    using 1 at_rest_gen_ie [OF at_rest_start [of e c addr "e_alloc e"]]
    by (simp add: g if_distrib [of "pred_option (\<lambda>p. at_rest e (snd p))"] split: option.split)
  then show ?thesis using r by simp
qed

text \<open>
  C1: The four-way handshake protects the keys. In any run of the authenticator from \<^verbatim>\<open>wpa_init\<close> on, whatever frames,
  timeouts and calls come in and whatever the crypto functions, the random source and the driver answer: when a key
  for a single station is given to the driver, two frames of that station have come in before, one after the other: a
  frame \<open>f\<close> whose nonce the transient key \<open>P\<close> is derived with and whose MIC verifies under it (message 2/4), and
  after it a frame \<open>g\<close> whose MIC verifies under the same transient key (message 4/4); the key given to the driver is
  the temporal key of \<open>P\<close>.
\<close>

theorem unicast_keys_confirmed:
  assumes init: "wpa_init e addr c = Some (True, w)" and run: "run e xs w = Some w'"
    and key: "w_log w' = l @ SetKey v alg sta n k # r" "alg \<noteq> WPA_ALG_NONE" "sta \<noteq> broadcast_ether_addr"
  shows "\<exists>P f g l1 l2 l3. l = l1 @ Received sta f # l2 @ Received sta g # l3 \<and>
    derived_ptk e (a_addr (w_auth w')) sta f P \<and> wpa_verify_key_mic (crypto e) P g = 0 \<and>
    (k = tk1 P \<or> k = take 32 (tk1 P @ ptk_u P))"
proof -
  have "at_rest e w'" by (rule at_rest_run [OF at_rest_init [OF init] run])
  then have j: "keys_justified e (a_addr (w_auth w')) (w_log w')" by (simp add: at_rest_def)
  have "justified e (a_addr (w_auth w')) (take (length l) (w_log w')) (w_log w' ! length l)"
    using spec [OF j [unfolded keys_justified_def], of "length l"] key by (simp del: justified.simps)
  then have "justified e (a_addr (w_auth w')) l (SetKey v alg sta n k)"
    using key(1) by (simp add: nth_append del: justified.simps)
  then obtain P g m1 l3 where P: "l = m1 @ Received sta g # l3" "proved_ptk e (a_addr (w_auth w')) m1 sta P"
      "wpa_verify_key_mic (crypto e) P g = 0" "k = tk1 P \<or> k = take 32 (tk1 P @ ptk_u P)"
    unfolding justified.simps confirmed_def by blast
  obtain f where f: "Received sta f \<in> set m1" "derived_ptk e (a_addr (w_auth w')) sta f P"
    using P(2) unfolding proved_ptk_def by blast
  then obtain l1 l2 where "m1 = l1 @ Received sta f # l2" by (meson split_list)
  then show ?thesis using P f by fastforce
qed

end
