(* ===== verification/WpaAuthEnds.thy ===== *)
theory WpaAuthEnds
  imports WpaAuthRun
begin

section \<open>Every call to the WPA authenticator returns\<close>

text \<open>
  The step loop runs until neither a station machine nor the group has changed, and a group that starts a new
  key runs the loops of its stations in between. It ends: the groups can only move a bounded number of times
  (\<open>groups_rank\<close>), and between two moves of a group each transition of the two machines of a station uses up
  something (\<open>sta_rank\<close>): a request, a received frame, a timeout, or a step towards a waiting state.
\<close>

subsection \<open>What the station machines leave alone in the groups\<close>

definition grp_ctl :: "wpa_group \<Rightarrow> bool \<times> bool \<times> wpa_group_state \<times> bool" where
  "grp_ctl x = (GInit x, GTKReKey x, wpa_group_state x, g_changed x)"

definition groups_are :: "nat list \<Rightarrow> (nat \<Rightarrow> bool \<times> bool \<times> wpa_group_state \<times> bool) \<Rightarrow> wpa_world \<Rightarrow> bool" where
  "groups_are gs G w \<longleftrightarrow> w_groups w = gs \<and> (\<forall>g. grp_ctl (w_group w g) = G g)"

lemma groups_are_basic [simp]:
  "groups_are gs G (upd i f w) = groups_are gs G w" "groups_are gs G (upda h w) = groups_are gs G w"
  "groups_are gs G (log_out x w) = groups_are gs G w" "groups_are gs G (snd (ask q w)) = groups_are gs G w"
  "groups_are gs G (w\<lparr>w_live := v\<rparr>) = groups_are gs G w"
  by (simp_all add: groups_are_def ask_def)

lemma groups_are_updg [simp]:
  "grp_ctl (f (w_group w g)) = grp_ctl (w_group w g) \<Longrightarrow> groups_are gs G (updg g f w) = groups_are gs G w"
  by (auto simp: groups_are_def)

lemma groups_are_same: "same_but_groups w w' \<Longrightarrow> w_group w' = w_group w \<Longrightarrow> groups_are gs G w' = groups_are gs G w"
  by (simp add: groups_are_def same_but_groups_def)

lemma groups_are_outside [simp]:
  "groups_are gs G (snd (wpa_auth_set_key e v a addr n k w)) = groups_are gs G w"
  "groups_are gs G (snd (wpa_group_config_group_keys e g w)) = groups_are gs G w"
  "groups_are gs G (snd (random_get_bytes e len w)) = groups_are gs G w"
  "groups_are gs G (snd (ntp_timestamp e w)) = groups_are gs G w"
  "groups_are gs G (snd (wpa_gmk_to_gtk e key l addr nonce len w)) = groups_are gs G w"
  by (rule groups_are_same; simp)+

lemma groups_are_inc_counter [simp]: "groups_are gs G (inc_counter g w) = groups_are gs G w"
  by (simp add: inc_counter_def grp_ctl_def)

lemma groups_are_gtk_update [simp]: "groups_are gs G (snd (wpa_gtk_update e g w)) = groups_are gs G w"
  by (simp add: wpa_gtk_update_def put_gtk_def Let_def case_prod_beta grp_ctl_def)

lemma groups_are_init_gmk [simp]: "groups_are gs G (snd (wpa_group_init_gmk_and_counter e g w)) = groups_are gs G w"
  by (simp add: wpa_group_init_gmk_and_counter_def Let_def case_prod_beta grp_ctl_def)

lemma groups_are_first_station [simp]: "groups_are gs G (wpa_group_first_station e g w) = groups_are gs G w"
  by (simp add: wpa_group_first_station_def Let_def case_prod_beta grp_ctl_def)

lemma groups_are_callbacks [simp]:
  "groups_are gs G (wpa_auth_set_eapol i var val w) = groups_are gs G w"
  "groups_are gs G (wpa_sta_disconnect i w) = groups_are gs G w"
  "groups_are gs G (register_timeout t a b w) = groups_are gs G w" "groups_are gs G (cancel_timeout t w) = groups_are gs G w"
  "groups_are gs G (count_failure w) = groups_are gs G w"
  by (simp_all add: callback_defs)

lemma groups_are_key_data_field [simp]: "groups_are gs G (snd (key_data_field e i v encr kde pad w)) = groups_are gs G w"
  by (cases kde) (simp_all add: key_data_field_def Let_def case_prod_beta split: option.split)

lemma groups_are_send [simp]:
  "groups_are gs G (send_eapol_key e i info rsc nonce kde idx encr fv w) = groups_are gs G w"
  "groups_are gs G (wpa_send_eapol e i info rsc nonce kde idx encr w) = groups_are gs G w"
proof -
  show "groups_are gs G (send_eapol_key e i info rsc nonce kde idx encr fv w) = groups_are gs G w" for fv
    unfolding send_eapol_key_def Let_def case_prod_beta option.case_eq_if by simp
  then show "groups_are gs G (wpa_send_eapol e i info rsc nonce kde idx encr w) = groups_are gs G w"
    by (simp add: wpa_send_eapol_def Let_def)
qed

lemma groups_are_enter [simp]:
  "groups_are gs G (enter_ptk s i w) = groups_are gs G w" "groups_are gs G (enter_ptk_group t i w) = groups_are gs G w"
  by (simp_all add: enter_ptk_def enter_ptk_group_def)

lemma groups_are_leave_update [simp]: "groups_are gs G (leave_update i w) = groups_are gs G w"
  by (simp add: leave_update_def Let_def grp_ctl_def)

lemma groups_are_remove_ptk [simp]: "groups_are gs G (wpa_remove_ptk e i w) = groups_are gs G w"
  by (simp add: wpa_remove_ptk_def Let_def)

lemma groups_are_install_ptk [simp]: "groups_are gs G (snd (install_ptk e i w)) = groups_are gs G w"
  by (simp add: install_ptk_def set_pairwise_key_def Let_def case_prod_beta)

lemma groups_are_asked [simp]:
  "groups_are gs G (snd (get_rsc e w)) = groups_are gs G w" "groups_are gs G (snd (get_eapol_positive e w)) = groups_are gs G w"
  by (simp_all add: get_rsc_def get_eapol_positive_def case_prod_beta)

lemma groups_are_states [simp]:
  "groups_are gs G (WPA_PTK_INITIALIZE_Enter e i w) = groups_are gs G w"
  "groups_are gs G (WPA_PTK_DISCONNECT_Enter i w) = groups_are gs G w"
  "groups_are gs G (WPA_PTK_DISCONNECTED_Enter i w) = groups_are gs G w"
  "groups_are gs G (WPA_PTK_AUTHENTICATION_Enter i w) = groups_are gs G w"
  "groups_are gs G (WPA_PTK_AUTHENTICATION2_Enter e i w) = groups_are gs G w"
  "groups_are gs G (WPA_PTK_INITPMK_Enter e i w) = groups_are gs G w"
  "groups_are gs G (WPA_PTK_INITPSK_Enter e i w) = groups_are gs G w"
  by (simp_all add: WPA_PTK_INITIALIZE_Enter_def WPA_PTK_DISCONNECT_Enter_def WPA_PTK_DISCONNECTED_Enter_def
      WPA_PTK_AUTHENTICATION_Enter_def WPA_PTK_AUTHENTICATION2_Enter_def WPA_PTK_INITPMK_Enter_def
      WPA_PTK_INITPSK_Enter_def Let_def case_prod_beta grp_ctl_def split: option.split)

lemma groups_are_handshake [simp]:
  "groups_are gs G (WPA_PTK_PTKSTART_Enter e i w) = groups_are gs G w"
  "groups_are gs G (WPA_PTK_PTKCALCNEGOTIATING_Enter e i w) = groups_are gs G w"
  "groups_are gs G (WPA_PTK_PTKCALCNEGOTIATING2_Enter i w) = groups_are gs G w"
  "groups_are gs G (WPA_PTK_PTKINITNEGOTIATING_Enter e i w) = groups_are gs G w"
  "groups_are gs G (WPA_PTK_PTKINITDONE_Enter e i w) = groups_are gs G w"
  unfolding WPA_PTK_PTKSTART_Enter_def WPA_PTK_PTKCALCNEGOTIATING_Enter_def WPA_PTK_PTKCALCNEGOTIATING2_Enter_def
    WPA_PTK_PTKINITNEGOTIATING_Enter_def WPA_PTK_PTKINITDONE_Enter_def Let_def case_prod_beta option.case_eq_if
  by simp_all

lemma groups_are_PTK_Step [simp]: "groups_are gs G (WPA_PTK_Step e i w) = groups_are gs G w"
  by (cases "wpa_ptk_state (w_sm w i)") (simp_all add: WPA_PTK_Step_def Let_def case_prod_beta)

lemma groups_are_group_states [simp]:
  "groups_are gs G (WPA_PTK_GROUP_IDLE_Enter i w) = groups_are gs G w"
  "groups_are gs G (WPA_PTK_GROUP_REKEYNEGOTIATING_Enter e i w) = groups_are gs G w"
  "groups_are gs G (WPA_PTK_GROUP_REKEYESTABLISHED_Enter i w) = groups_are gs G w"
  "groups_are gs G (WPA_PTK_GROUP_KEYERROR_Enter i w) = groups_are gs G w"
  unfolding WPA_PTK_GROUP_IDLE_Enter_def WPA_PTK_GROUP_REKEYNEGOTIATING_Enter_def
    WPA_PTK_GROUP_REKEYESTABLISHED_Enter_def WPA_PTK_GROUP_KEYERROR_Enter_def Let_def case_prod_beta
  by simp_all

lemma groups_are_GROUP_Step [simp]: "groups_are gs G (WPA_PTK_GROUP_Step e i w) = groups_are gs G w"
  by (cases "wpa_ptk_group_state (w_sm w i)") (simp_all add: WPA_PTK_GROUP_Step_def Let_def)

subsection \<open>Ranks\<close>

fun ptk_rank :: "wpa_ptk_state \<Rightarrow> nat" where
  "ptk_rank WPA_PTK_INITIALIZE = 0"
| "ptk_rank WPA_PTK_DISCONNECTED = 1"
| "ptk_rank WPA_PTK_DISCONNECT = 2"
| "ptk_rank WPA_PTK_PTKINITDONE = 0"
| "ptk_rank WPA_PTK_PTKSTART = 3"
| "ptk_rank WPA_PTK_PTKINITNEGOTIATING = 3"
| "ptk_rank WPA_PTK_PTKCALCNEGOTIATING2 = 4"
| "ptk_rank WPA_PTK_PTKCALCNEGOTIATING = 5"
| "ptk_rank WPA_PTK_INITPMK = 4"
| "ptk_rank WPA_PTK_INITPSK = 4"
| "ptk_rank WPA_PTK_AUTHENTICATION2 = 5"
| "ptk_rank WPA_PTK_AUTHENTICATION = 6"

fun flag_rank :: "nat \<Rightarrow> bool \<Rightarrow> nat" where
  "flag_rank k True = k"
| "flag_rank k False = 0"

lemma flag_rank_le: "flag_rank k b \<le> k"
  by (cases b) simp_all

fun key_rank :: "wpa_ptk_group_state \<Rightarrow> bool \<Rightarrow> int \<Rightarrow> nat" where
  "key_rank WPA_PTK_GROUP_IDLE update ctr = flag_rank 11 update + flag_rank 10 (4 \<le> ctr)"
| "key_rank WPA_PTK_GROUP_REKEYNEGOTIATING update ctr = 9 + flag_rank 1 (ctr \<le> 4)"
| "key_rank WPA_PTK_GROUP_REKEYESTABLISHED update ctr = 1 + flag_rank 11 update"
| "key_rank WPA_PTK_GROUP_KEYERROR update ctr = 1 + flag_rank 11 update"

definition sta_rank :: "wpa_state_machine \<Rightarrow> nat" where
  "sta_rank sm =
     ptk_rank (wpa_ptk_state sm) + flag_rank 7 (Disconnect sm) + flag_rank 7 (DeauthenticationRequest sm) +
     flag_rank 7 (AuthenticationRequest sm) + flag_rank 7 (ReAuthenticationRequest sm) + flag_rank 7 (PTKRequest sm) +
     flag_rank 12 (EAPOLKeyReceived sm) + flag_rank 1 (TimeoutEvt sm) + flag_rank 11 (PInitAKeys sm) +
     flag_rank 12 (PtkGroupInit sm) +
     key_rank (wpa_ptk_group_state sm) (GUpdateStationKeys sm) (GTimeoutCtr sm)"

lemma ptk_rank_le: "ptk_rank s \<le> 6"
  by (cases s) simp_all

lemma key_rank_le: "key_rank s b n \<le> 21"
  using flag_rank_le [of 11 b] flag_rank_le [of 10 "4 \<le> n"] flag_rank_le [of 1 "n \<le> 4"] by (cases s) simp_all

lemma sta_rank_less: "sta_rank sm < 200"
  using ptk_rank_le [of "wpa_ptk_state sm"] key_rank_le [of "wpa_ptk_group_state sm" "GUpdateStationKeys sm" "GTimeoutCtr sm"] flag_rank_le [of 7 "Disconnect sm"]
    flag_rank_le [of 7 "DeauthenticationRequest sm"] flag_rank_le [of 7 "AuthenticationRequest sm"]
    flag_rank_le [of 7 "ReAuthenticationRequest sm"] flag_rank_le [of 7 "PTKRequest sm"]
    flag_rank_le [of 12 "EAPOLKeyReceived sm"] flag_rank_le [of 1 "TimeoutEvt sm"]
    flag_rank_le [of 11 "PInitAKeys sm"] flag_rank_le [of 12 "PtkGroupInit sm"]
  unfolding sta_rank_def by linarith

lemma sta_rank_ctl: "sta_rank (ctl sm) = sta_rank sm"
  by (simp add: sta_rank_def ctl_fields)


subsection \<open>A transition uses up something\<close>

definition advances :: "nat \<Rightarrow> wpa_world \<Rightarrow> wpa_world \<Rightarrow> bool" where
  "advances i w w' \<longleftrightarrow> (\<forall>j. sm_group (w_sm w' j) = sm_group (w_sm w j)) \<and> Init (w_sm w' i) = Init (w_sm w i) \<and>
     (if Init (w_sm w i) then sm_changed (w_sm w' i) \<longrightarrow> sm_changed (w_sm w i)
      else sta_rank (w_sm w' i) < sta_rank (w_sm w i) \<or>
           sta_rank (w_sm w' i) = sta_rank (w_sm w i) \<and> sm_changed (w_sm w' i) = sm_changed (w_sm w i))"

lemmas own_rank = arg_cong [OF own_self, of _ _ _ _ sta_rank, unfolded sta_rank_ctl]
lemmas own_group = arg_cong [OF own_self, of _ _ _ _ sm_group, unfolded ctl_fields]

lemma own_advances:
  assumes "own f i w w'" "sm_group (f (w_sm w i)) = sm_group (w_sm w i)" "Init (f (w_sm w i)) = Init (w_sm w i)"
    and "\<not> Init (w_sm w i)" "sta_rank (f (w_sm w i)) < sta_rank (w_sm w i)"
  shows "advances i w w'"
  using assms own_rank [OF assms(1)] own_group [OF assms(1)] own_other [OF assms(1)] own_fields(3) [OF assms(1)]
  unfolding advances_def by metis

lemma own_advances_init:
  assumes "own f i w w'" "sm_group (f (w_sm w i)) = sm_group (w_sm w i)" "Init (f (w_sm w i)) = Init (w_sm w i)"
    and "Init (w_sm w i)" "\<not> sm_changed (f (w_sm w i))"
  shows "advances i w w'"
  using assms own_group [OF assms(1)] own_other [OF assms(1)] own_fields(3,4) [OF assms(1)]
  unfolding advances_def by metis

lemma advances_refl: "advances i w w"
  by (simp add: advances_def)

lemma advances_sm: "w_sm v = w_sm w \<Longrightarrow> advances i v w' = advances i w w'"
  by (simp add: advances_def)

lemma advances_trans: "advances i u v \<Longrightarrow> advances i v w \<Longrightarrow> advances i u w"
  by (auto simp: advances_def split: if_split_asm)

text \<open>Each state of the pairwise machine, entered from where the machine enters it.\<close>

lemma enter_by_request:
  assumes "\<not> Init (w_sm w i)"
  shows "Disconnect (w_sm w i) \<Longrightarrow> advances i w (WPA_PTK_DISCONNECT_Enter i w)"
    "DeauthenticationRequest (w_sm w i) \<Longrightarrow> advances i w (WPA_PTK_DISCONNECTED_Enter i w)"
    "AuthenticationRequest (w_sm w i) \<Longrightarrow> advances i w (WPA_PTK_AUTHENTICATION_Enter i w)"
    "ReAuthenticationRequest (w_sm w i) \<Longrightarrow> advances i w (WPA_PTK_AUTHENTICATION2_Enter e i w)"
    "PTKRequest (w_sm w i) \<Longrightarrow> advances i w (WPA_PTK_PTKSTART_Enter e i w)"
  using assms
    own_advances [OF own_DISCONNECT, of w i] own_advances [OF own_DISCONNECTED, of w i] own_advances [OF own_AUTHENTICATION, of w i]
    own_advances [OF own_AUTHENTICATION2, of w i e] own_advances [OF own_PTKSTART, of w i e]
  by (simp_all add: sta_rank_def)

lemma enter_lower:
  assumes "\<not> Init (w_sm w i)"
  shows "2 < ptk_rank (wpa_ptk_state (w_sm w i)) \<Longrightarrow> advances i w (WPA_PTK_DISCONNECT_Enter i w)"
    "1 < ptk_rank (wpa_ptk_state (w_sm w i)) \<Longrightarrow> advances i w (WPA_PTK_DISCONNECTED_Enter i w)"
    "5 < ptk_rank (wpa_ptk_state (w_sm w i)) \<Longrightarrow> advances i w (WPA_PTK_AUTHENTICATION2_Enter e i w)"
    "3 < ptk_rank (wpa_ptk_state (w_sm w i)) \<Longrightarrow> advances i w (WPA_PTK_PTKSTART_Enter e i w)"
    "4 < ptk_rank (wpa_ptk_state (w_sm w i)) \<Longrightarrow> advances i w (WPA_PTK_INITPMK_Enter e i w)"
    "4 < ptk_rank (wpa_ptk_state (w_sm w i)) \<Longrightarrow> advances i w (WPA_PTK_INITPSK_Enter e i w)"
    "4 < ptk_rank (wpa_ptk_state (w_sm w i)) \<Longrightarrow> advances i w (WPA_PTK_PTKCALCNEGOTIATING2_Enter i w)"
    "3 < ptk_rank (wpa_ptk_state (w_sm w i)) \<Longrightarrow> advances i w (WPA_PTK_PTKINITNEGOTIATING_Enter e i w)"
  using assms
    own_advances [OF own_DISCONNECT, of w i] own_advances [OF own_DISCONNECTED, of w i] own_advances [OF own_AUTHENTICATION2, of w i e]
    own_advances [OF own_PTKSTART, of w i e] own_advances [OF own_INITPMK, of w i e] own_advances [OF own_INITPSK, of w i e]
    own_advances [OF own_PTKCALCNEGOTIATING2, of w i] own_advances [OF own_PTKINITNEGOTIATING, of w i e]
  by (simp_all add: sta_rank_def)

lemma enter_INITIALIZE:
  "\<not> Init (w_sm w i) \<Longrightarrow> wpa_ptk_state (w_sm w i) = WPA_PTK_DISCONNECTED \<Longrightarrow> advances i w (WPA_PTK_INITIALIZE_Enter e i w)"
  "Init (w_sm w i) \<Longrightarrow> advances i w (WPA_PTK_INITIALIZE_Enter e i w)"
proof -
  have k: "key_rank s False n \<le> key_rank s b n" "flag_rank k (x \<and> y) \<le> flag_rank k x" for s b n k x y
    by (cases s; simp) (cases x; cases y; simp)
  show "\<not> Init (w_sm w i) \<Longrightarrow> wpa_ptk_state (w_sm w i) = WPA_PTK_DISCONNECTED \<Longrightarrow> advances i w (WPA_PTK_INITIALIZE_Enter e i w)"
    using k(1) [of "wpa_ptk_group_state (w_sm w i)" "GTimeoutCtr (w_sm w i)" "GUpdateStationKeys (w_sm w i)"]
      k(2) [of 11 "PInitAKeys (w_sm w i)" "sm_wpa (w_sm w i) \<noteq> WPA_VERSION_WPA"]
    by (intro own_advances [OF own_INITIALIZE]) (simp_all add: sta_rank_def)
qed (rule own_advances_init [OF own_INITIALIZE]; simp)

lemma enter_by_timeout:
  assumes "\<not> Init (w_sm w i)" "TimeoutEvt (w_sm w i)"
  shows "wpa_ptk_state (w_sm w i) = WPA_PTK_PTKSTART \<Longrightarrow> advances i w (WPA_PTK_PTKSTART_Enter e i w)"
    "wpa_ptk_state (w_sm w i) = WPA_PTK_PTKINITNEGOTIATING \<Longrightarrow> advances i w (WPA_PTK_PTKINITNEGOTIATING_Enter e i w)"
  using assms own_advances [OF own_PTKSTART, of w i e] own_advances [OF own_PTKINITNEGOTIATING, of w i e]
  by (simp_all add: sta_rank_def)

lemma enter_by_reply:
  assumes "\<not> Init (w_sm w i)" "pairwise_reply (w_sm w i)"
  shows "wpa_ptk_state (w_sm w i) \<in> {WPA_PTK_PTKSTART, WPA_PTK_PTKCALCNEGOTIATING} \<Longrightarrow> advances i w (WPA_PTK_PTKCALCNEGOTIATING_Enter e i w)"
    "wpa_ptk_state (w_sm w i) = WPA_PTK_PTKINITNEGOTIATING \<Longrightarrow> advances i w (WPA_PTK_PTKINITDONE_Enter e i w)"
proof -
  have r: "EAPOLKeyReceived (w_sm w i)" using assms(2) by (simp add: pairwise_reply_def)
  obtain b where b: "own (\<lambda>sm. sm\<lparr>sm_changed := True, wpa_ptk_state := WPA_PTK_PTKCALCNEGOTIATING, EAPOLKeyReceived := False,
      MICVerified := MICVerified sm \<or> b\<rparr>) i w (WPA_PTK_PTKCALCNEGOTIATING_Enter e i w)"
    using own_PTKCALCNEGOTIATING by blast
  obtain c where c: "own (\<lambda>sm. sm\<lparr>sm_changed := True, wpa_ptk_state := WPA_PTK_PTKINITDONE, EAPOLKeyReceived := False,
      PInitAKeys := PInitAKeys sm \<or> c \<and> sm_wpa sm = WPA_VERSION_WPA\<rparr>) i w (WPA_PTK_PTKINITDONE_Enter e i w)"
    using own_PTKINITDONE by blast
  show "wpa_ptk_state (w_sm w i) \<in> {WPA_PTK_PTKSTART, WPA_PTK_PTKCALCNEGOTIATING} \<Longrightarrow> advances i w (WPA_PTK_PTKCALCNEGOTIATING_Enter e i w)"
    using assms(1) r by (intro own_advances [OF b]) (auto simp: sta_rank_def)
  show "wpa_ptk_state (w_sm w i) = WPA_PTK_PTKINITNEGOTIATING \<Longrightarrow> advances i w (WPA_PTK_PTKINITDONE_Enter e i w)"
    using assms(1) r flag_rank_le [of 11 "PInitAKeys (w_sm w i) \<or> c \<and> sm_wpa (w_sm w i) = WPA_VERSION_WPA"]
    by (intro own_advances [OF c]) (simp_all add: sta_rank_def)
qed

lemma advances_PTK_Step: "advances i w (WPA_PTK_Step e i w)"
proof (cases "Init (w_sm w i)")
  case True
  then show ?thesis by (simp add: WPA_PTK_Step_def Let_def enter_INITIALIZE)
next
  case False
  let ?g = "snd (get_eapol_positive e w)"
  have sm: "w_sm ?g = w_sm w" "w_sm (count_failure w) = w_sm w" "w_sm (count_failure ?g) = w_sm w"
    by (simp_all add: get_eapol_positive_def ask_def count_failure_sm)
  note other = advances_sm [OF sm(1)] advances_sm [OF sm(2)] advances_sm [OF sm(3)]
  have lower: "advances i w (WPA_PTK_DISCONNECT_Enter i v)" if "w_sm v = w_sm w" "2 < ptk_rank (wpa_ptk_state (w_sm w i))" for v
    using enter_lower(1) [of v i] False that advances_sm [OF that(1)] by simp
  have start: "advances i w (WPA_PTK_PTKSTART_Enter e i v)" "4 < ptk_rank (wpa_ptk_state (w_sm w i)) \<Longrightarrow> advances i w (WPA_PTK_INITPMK_Enter e i v)"
    "4 < ptk_rank (wpa_ptk_state (w_sm w i)) \<Longrightarrow> advances i w (WPA_PTK_INITPSK_Enter e i v)"
    if "w_sm v = w_sm w" "3 < ptk_rank (wpa_ptk_state (w_sm w i))" for v
    using enter_lower(4-6) [of v i] False that advances_sm [OF that(1)] by simp_all
  note facts = enter_by_request [OF False] enter_lower [OF False] enter_INITIALIZE(1) [OF False]
    enter_by_timeout [OF False] enter_by_reply [OF False] lower [OF sm(2)] lower [OF sm(3)] start [OF sm(1)] start [OF refl]
    advances_refl [of i w] other [THEN iffD1, OF advances_refl]
  show ?thesis
    using False facts
    by (cases "wpa_ptk_state (w_sm w i)") (simp_all add: WPA_PTK_Step_def Let_def case_prod_beta)
qed

text \<open>The group machine of a station.\<close>

lemma own_clear_group_init:
  assumes "own f i w v"
  shows "own (\<lambda>sm. (f sm)\<lparr>PtkGroupInit := False\<rparr>) i w (upd i (\<lambda>sm. sm\<lparr>PtkGroupInit := False\<rparr>) v)"
proof -
  have "ctl (sm\<lparr>PtkGroupInit := False\<rparr>) = (ctl sm)\<lparr>PtkGroupInit := False\<rparr>" for sm by (simp add: ctl_def)
  then show ?thesis using assms by (simp add: own_def)
qed

lemma group_enter_IDLE:
  "Init (w_sm w i) \<Longrightarrow> advances i w (upd i (\<lambda>sm. sm\<lparr>PtkGroupInit := False\<rparr>) (WPA_PTK_GROUP_IDLE_Enter i w))"
  "\<not> Init (w_sm w i) \<Longrightarrow> PtkGroupInit (w_sm w i) \<Longrightarrow>
     advances i w (upd i (\<lambda>sm. sm\<lparr>PtkGroupInit := False\<rparr>) (WPA_PTK_GROUP_IDLE_Enter i w))"
  "\<not> Init (w_sm w i) \<Longrightarrow> wpa_ptk_group_state (w_sm w i) \<in> {WPA_PTK_GROUP_KEYERROR, WPA_PTK_GROUP_REKEYESTABLISHED} \<Longrightarrow>
     advances i w (WPA_PTK_GROUP_IDLE_Enter i w)"
proof -
  note idle = own_GROUP_IDLE own_clear_group_init [OF own_GROUP_IDLE]
  show "Init (w_sm w i) \<Longrightarrow> advances i w (upd i (\<lambda>sm. sm\<lparr>PtkGroupInit := False\<rparr>) (WPA_PTK_GROUP_IDLE_Enter i w))"
    by (rule own_advances_init [OF idle(2)]) simp_all
  show "\<not> Init (w_sm w i) \<Longrightarrow> PtkGroupInit (w_sm w i) \<Longrightarrow>
     advances i w (upd i (\<lambda>sm. sm\<lparr>PtkGroupInit := False\<rparr>) (WPA_PTK_GROUP_IDLE_Enter i w))"
    using flag_rank_le [of 11 "GUpdateStationKeys (w_sm w i)"]
    by (intro own_advances [OF idle(2)]) (simp_all add: sta_rank_def)
  show "\<not> Init (w_sm w i) \<Longrightarrow> wpa_ptk_group_state (w_sm w i) \<in> {WPA_PTK_GROUP_KEYERROR, WPA_PTK_GROUP_REKEYESTABLISHED} \<Longrightarrow>
     advances i w (WPA_PTK_GROUP_IDLE_Enter i w)"
    by (rule own_advances [OF idle(1)]) (auto simp: sta_rank_def)
qed

lemma group_enter_REKEYNEGOTIATING:
  assumes "\<not> Init (w_sm w i)"
    and "wpa_ptk_group_state (w_sm w i) = WPA_PTK_GROUP_IDLE \<and>
           (GUpdateStationKeys (w_sm w i) \<or> sm_wpa (w_sm w i) = WPA_VERSION_WPA \<and> PInitAKeys (w_sm w i)) \<or>
         wpa_ptk_group_state (w_sm w i) = WPA_PTK_GROUP_REKEYNEGOTIATING \<and> GTimeoutCtr (w_sm w i) \<le> 4 \<and> TimeoutEvt (w_sm w i)"
  shows "advances i w (WPA_PTK_GROUP_REKEYNEGOTIATING_Enter e i w)"
proof (rule own_advances [OF own_GROUP_REKEYNEGOTIATING])
  let ?sm = "w_sm w i"
  have late: "flag_rank 1 (GTimeoutCtr ?sm + 1 \<le> 4) \<le> 1" "flag_rank 11 (PInitAKeys ?sm \<and> sm_wpa ?sm \<noteq> WPA_VERSION_WPA) \<le>
      (if sm_wpa ?sm = WPA_VERSION_WPA then 0 else flag_rank 11 (PInitAKeys ?sm))"
    by (simp_all add: flag_rank_le)
  show "sta_rank (if dot11RSNAConfigGroupUpdateCount < GTimeoutCtr ?sm + 1
      then ?sm\<lparr>sm_changed := True, wpa_ptk_group_state := WPA_PTK_GROUP_REKEYNEGOTIATING, GTimeoutCtr := GTimeoutCtr ?sm + 1\<rparr>
      else ?sm\<lparr>sm_changed := True, wpa_ptk_group_state := WPA_PTK_GROUP_REKEYNEGOTIATING, GTimeoutCtr := GTimeoutCtr ?sm + 1,
        PInitAKeys := PInitAKeys ?sm \<and> sm_wpa ?sm \<noteq> WPA_VERSION_WPA, TimeoutEvt := False\<rparr>) < sta_rank ?sm"
    using assms(2) late
    by (cases "4 \<le> GTimeoutCtr ?sm") (auto simp: sta_rank_def dot11RSNAConfigGroupUpdateCount_def split: if_split_asm)
qed (use assms(1) in simp_all)

lemma group_enter_others:
  assumes "\<not> Init (w_sm w i)" "wpa_ptk_group_state (w_sm w i) = WPA_PTK_GROUP_REKEYNEGOTIATING"
  shows "group_reply (w_sm w i) \<Longrightarrow> advances i w (WPA_PTK_GROUP_REKEYESTABLISHED_Enter i w)"
    "4 < GTimeoutCtr (w_sm w i) \<Longrightarrow> advances i w (WPA_PTK_GROUP_KEYERROR_Enter i w)"
proof -
  show "group_reply (w_sm w i) \<Longrightarrow> advances i w (WPA_PTK_GROUP_REKEYESTABLISHED_Enter i w)"
    using assms by (intro own_advances [OF own_GROUP_REKEYESTABLISHED]) (simp_all add: sta_rank_def group_reply_def)
  show "4 < GTimeoutCtr (w_sm w i) \<Longrightarrow> advances i w (WPA_PTK_GROUP_KEYERROR_Enter i w)"
    using assms by (intro own_advances [OF own_GROUP_KEYERROR]) (simp_all add: sta_rank_def)
qed

lemma advances_GROUP_Step: "advances i w (WPA_PTK_GROUP_Step e i w)"
proof (cases "Init (w_sm w i)")
  case True
  then show ?thesis by (simp add: WPA_PTK_GROUP_Step_def Let_def group_enter_IDLE(1))
next
  case False
  then show ?thesis
    using group_enter_IDLE(2,3) [OF False] group_enter_REKEYNEGOTIATING [OF False] group_enter_others [OF False] advances_refl [of i w]
    by (cases "wpa_ptk_group_state (w_sm w i)")
      (simp_all add: WPA_PTK_GROUP_Step_def Let_def dot11RSNAConfigGroupUpdateCount_def)
qed


subsection \<open>The groups move a bounded number of times\<close>

lemma groups_areD:
  assumes "\<And>gs G. groups_are gs G w' = groups_are gs G w"
  shows "w_groups w' = w_groups w" "grp_ctl (w_group w' h) = grp_ctl (w_group w h)"
  using assms [of "w_groups w" "\<lambda>h. grp_ctl (w_group w h)"] by (simp_all add: groups_are_def)

lemma group_rank_ctl:
  "group_rank x = (case grp_ctl x of (a, rekey, s, b) \<Rightarrow> (if rekey then 3 else 0) +
     (case s of WPA_GROUP_GTK_INIT \<Rightarrow> 2 | WPA_GROUP_SETKEYS \<Rightarrow> 1 | WPA_GROUP_SETKEYSDONE \<Rightarrow> 0))"
  by (simp add: group_rank_def grp_ctl_def)

lemma sum_list_less:
  fixes f h :: "nat \<Rightarrow> nat"
  assumes "\<And>x. x \<in> set xs \<Longrightarrow> f x \<le> h x"
  shows "sum_list (map f xs) \<le> sum_list (map h xs)"
    and "x \<in> set xs \<Longrightarrow> f x < h x \<Longrightarrow> sum_list (map f xs) < sum_list (map h xs)"
proof -
  show le: "sum_list (map f xs) \<le> sum_list (map h xs)" using assms by (intro sum_list_mono)
  show "sum_list (map f xs) < sum_list (map h xs)" if "x \<in> set xs" "f x < h x"
    using that assms
  proof (induction xs)
    case (Cons y ys)
    have "sum_list (map f ys) \<le> sum_list (map h ys)" using Cons.prems(3) by (intro sum_list_mono) simp
    then show ?case using Cons by (cases "x = y") (force intro: add_less_le_mono add_le_less_mono)+
  qed simp
qed

text \<open>
  No group is being initialised, every station is in a group of the list, the first group is there, and the groups
  have at most \<open>r\<close> moves left.
\<close>

definition within :: "nat \<Rightarrow> wpa_world \<Rightarrow> bool" where
  "within r w \<longleftrightarrow> (\<forall>g \<in> set (w_groups w). \<not> GInit (w_group w g)) \<and> (\<forall>j. sm_group (w_sm w j) \<in> set (w_groups w)) \<and>
     0 \<in> set (w_groups w) \<and> groups_rank w \<le> r"

lemma within_frame:
  assumes "\<And>h. (GInit (w_group w' h), GTKReKey (w_group w' h), wpa_group_state (w_group w' h)) =
      (GInit (w_group w h), GTKReKey (w_group w h), wpa_group_state (w_group w h))"
    "w_groups w' = w_groups w" "\<And>j. sm_group (w_sm w' j) = sm_group (w_sm w j)"
  shows "within r w' = within r w" "groups_rank w' = groups_rank w"
  using assms by (simp_all add: within_def groups_rank_def group_rank_def)

lemma within_are:
  assumes "\<And>gs G. groups_are gs G w' = groups_are gs G w" "\<And>j. sm_group (w_sm w' j) = sm_group (w_sm w j)"
  shows "within r w' = within r w" "groups_rank w' = groups_rank w"
  by (rule within_frame; use groups_areD [OF assms(1)] assms(2) in \<open>simp add: grp_ctl_def\<close>)+

lemma within_group:
  assumes "within r w" "w_groups w' = w_groups w" "w_sm w' = w_sm w" "\<And>h. h \<noteq> g \<Longrightarrow> grp_ctl (w_group w' h) = grp_ctl (w_group w h)"
    and "g \<in> set (w_groups w) \<Longrightarrow> \<not> GInit (w_group w' g) \<and> group_rank (w_group w' g) \<le> group_rank (w_group w g)"
  shows "within r w'"
    and "g \<in> set (w_groups w) \<Longrightarrow> group_rank (w_group w' g) < group_rank (w_group w g) \<Longrightarrow> groups_rank w' < groups_rank w"
proof -
  have r: "group_rank (w_group w' h) \<le> group_rank (w_group w h)" if "h \<in> set (w_groups w)" for h
    using that assms(4,5) by (cases "h = g") (simp_all add: group_rank_ctl [of "w_group w' h"] group_rank_ctl [of "w_group w h"])
  have i: "\<not> GInit (w_group w' h)" if "h \<in> set (w_groups w)" for h
    using that assms(1,5) assms(4) [of h] by (cases "h = g") (simp_all add: within_def grp_ctl_def)
  show "within r w'"
    using assms(1-3) i order_trans [OF sum_list_less(1) [OF r]] by (simp add: within_def groups_rank_def)
  show "g \<in> set (w_groups w) \<Longrightarrow> group_rank (w_group w' g) < group_rank (w_group w g) \<Longrightarrow> groups_rank w' < groups_rank w"
    using sum_list_less(2) [OF r] assms(2) by (simp add: groups_rank_def)
qed

lemma setkeysdone_ctl:
  "grp_ctl (w_group (snd (wpa_group_setkeysdone e g w)) h) =
     (if h = g then (GInit (w_group w g), GTKReKey (w_group w g), WPA_GROUP_SETKEYSDONE, True) else grp_ctl (w_group w h))"
  by (simp add: wpa_group_setkeysdone_def grp_ctl_def)

lemma setkeys_start_ctl:
  "grp_ctl (w_group (setkeys_start e g w) h) =
     (if h = g then (GInit (w_group w g), False, WPA_GROUP_SETKEYS, True) else grp_ctl (w_group w h))"
  "w_groups (setkeys_start e g w) = w_groups w"
  using groups_areD [OF groups_are_gtk_update, of e g
      "updg g (\<lambda>x. swap_gn (x\<lparr>g_changed := True, wpa_group_state := WPA_GROUP_SETKEYS, GTKReKey := False\<rparr>)) w"]
  by (simp_all add: setkeys_start_def grp_ctl_def swap_gn_def)

lemma gtk_init_ctl:
  "grp_ctl (w_group (wpa_group_gtk_init e g w) h) =
     (if h = g then (GInit (w_group w g), GTKReKey (w_group w g), WPA_GROUP_GTK_INIT, False) else grp_ctl (w_group w h))"
  using groups_areD(2) [OF groups_are_gtk_update, of e g
      "updg g (\<lambda>x. x\<lparr>g_changed := False, wpa_group_state := WPA_GROUP_GTK_INIT,
         GTK := replicate 2 (replicate 32 0), GN := 1, GM := 2\<rparr>) w" h]
  by (simp add: wpa_group_gtk_init_def grp_ctl_def)

lemma within_setkeysdone:
  "within r w \<Longrightarrow> within r (snd (wpa_group_setkeysdone e g w))"
  "within r w \<Longrightarrow> g \<in> set (w_groups w) \<Longrightarrow> wpa_group_state (w_group w g) \<noteq> WPA_GROUP_SETKEYSDONE \<Longrightarrow>
     groups_rank (snd (wpa_group_setkeysdone e g w)) < groups_rank w"
proof -
  let ?w = "snd (wpa_group_setkeysdone e g w)"
  assume w: "within r w"
  have c: "grp_ctl (w_group ?w h) = grp_ctl (w_group w h)" if "h \<noteq> g" for h using that by (simp add: setkeysdone_ctl)
  have "group_rank (w_group ?w g) = (if GTKReKey (w_group w g) then 3 else 0)"
    by (simp add: group_rank_ctl setkeysdone_ctl)
  then have le: "group_rank (w_group ?w g) \<le> group_rank (w_group w g)"
    and less: "wpa_group_state (w_group w g) \<noteq> WPA_GROUP_SETKEYSDONE \<Longrightarrow> group_rank (w_group ?w g) < group_rank (w_group w g)"
    by (simp_all add: group_rank_def [of "w_group w g"] split: wpa_group_state.split)
  have gi: "g \<in> set (w_groups w) \<Longrightarrow> \<not> GInit (w_group ?w g)"
    using w setkeysdone_ctl [of e g w g] by (simp add: within_def grp_ctl_def)
  note f = within_group [OF w, of ?w g, OF _ _ c]
  show "within r ?w" using f(1) le gi by simp
  show "g \<in> set (w_groups w) \<Longrightarrow> wpa_group_state (w_group w g) \<noteq> WPA_GROUP_SETKEYSDONE \<Longrightarrow> groups_rank ?w < groups_rank w"
    using f(2) le less gi by simp
qed

lemma within_setkeys_start:
  assumes w: "within r w" and k: "GTKReKey (w_group w g)"
  shows "within r (setkeys_start e g w)"
    and "g \<in> set (w_groups w) \<Longrightarrow> groups_rank (setkeys_start e g w) < groups_rank w"
proof -
  let ?w = "setkeys_start e g w"
  have c: "grp_ctl (w_group ?w h) = grp_ctl (w_group w h)" if "h \<noteq> g" for h using that by (simp add: setkeys_start_ctl)
  have "group_rank (w_group ?w g) = 1" by (simp add: group_rank_ctl setkeys_start_ctl)
  then have less: "group_rank (w_group ?w g) < group_rank (w_group w g)"
    using k by (simp add: group_rank_def [of "w_group w g"])
  have gi: "g \<in> set (w_groups w) \<Longrightarrow> \<not> GInit (w_group ?w g)"
    using w setkeys_start_ctl(1) [of e g w g] by (simp add: within_def grp_ctl_def)
  note f = within_group [OF w setkeys_start_ctl(2) setkeys_start_stations(1) c]
  show "within r ?w" using f(1) less gi by simp
  show "g \<in> set (w_groups w) \<Longrightarrow> groups_rank ?w < groups_rank w" using f(2) less gi by simp
qed

lemma within_gtk_init: "within r w \<Longrightarrow> GInit (w_group w g) \<Longrightarrow> within r (wpa_group_gtk_init e g w)"
  by (rule within_group(1) [where g = g and w = w]) (auto simp: gtk_init_ctl within_def)

interpretation ends_loop: sm_invariant e "within r" for e r
proof
  fix w i g
  assume w: "within r w"
  show "within r (WPA_PTK_Step e i w)"
    using w within_are(1) [of "WPA_PTK_Step e i w" w r] advances_PTK_Step [of i w e] by (simp add: advances_def)
  show "within r (WPA_PTK_GROUP_Step e i w)"
    using w within_are(1) [of "WPA_PTK_GROUP_Step e i w" w r] advances_GROUP_Step [of i w e] by (simp add: advances_def)
  show "within r (upd i (\<lambda>sm. sm\<lparr>sm_changed := False\<rparr>) w)" using w by (subst within_frame(1)) simp_all
  show "within r (updg g (\<lambda>x. x\<lparr>g_changed := False\<rparr>) w)" using w by (subst within_frame(1)) simp_all
  show "within r (upd i (\<lambda>sm. sm\<lparr>in_step_loop := b\<rparr>) w)" for b using w by (subst within_frame(1)) simp_all
  show "GInit (w_group w g) \<Longrightarrow> within r (wpa_group_gtk_init e g w)" by (rule within_gtk_init [OF w])
  show "within r (snd (wpa_group_setkeysdone e g w))" by (rule within_setkeysdone(1) [OF w])
  show "GTKReKey (w_group w g) \<Longrightarrow> within r (setkeys_start e g w)" by (rule within_setkeys_start(1) [OF w])
  show "within r (upd i (\<lambda>sm. sm\<lparr>GUpdateStationKeys := False\<rparr>) w)" using w by (subst within_frame(1)) simp_all
  show "within r (mark_for_update i w)" using w by (subst within_frame(1) [where w = w]) (simp_all add: mark_for_update_def)
  show "within r (wpa_free_sta_sm i w)"
    using w by (subst within_are(1) [where w = w]) (simp_all add: wpa_free_sta_sm_def Let_def)
qed


subsection \<open>The loop ends\<close>

lemma within_self: "within r w \<Longrightarrow> within (groups_rank w) w"
  by (simp add: within_def)

lemma update_stas_total:
  assumes total: "\<And>v j. within r v \<Longrightarrow> \<exists>v'. step j v = Some v'"
    and keep: "\<And>j v v'. within r v \<Longrightarrow> step j v = Some v' \<Longrightarrow> within r v'"
  shows "within r w \<Longrightarrow> \<exists>w'. for_each_sta (wpa_group_update_sta step) js w = Some w'"
proof (induction js arbitrary: w)
  case (Cons j js)
  have "\<exists>w1. wpa_group_update_sta step j w = Some w1 \<and> within r w1"
  proof (cases "wpa_ptk_state (w_sm w j) = WPA_PTK_PTKINITDONE")
    case True
    then have "within r (mark_for_update j w)" using ends_loop.mark Cons.prems by blast
    then show ?thesis
      using total [of "mark_for_update j w" j] keep [of "mark_for_update j w" j] True
      by (auto simp: wpa_group_update_sta_def mark_for_update_def Let_def)
  next
    case False
    then show ?thesis using ends_loop.unmark [OF Cons.prems False] by (simp add: wpa_group_update_sta_def)
  qed
  then show ?case using Cons.IH by auto
qed simp

text \<open>A call in between has a group less to move.\<close>

definition nested_ends :: "(nat \<Rightarrow> wpa_world \<Rightarrow> wpa_world option) \<Rightarrow> nat \<Rightarrow> bool" where
  "nested_ends step r \<longleftrightarrow> (\<forall>q v j. within q v \<longrightarrow>
     (\<forall>v'. step j v = Some v' \<longrightarrow> within q v') \<and> (q < r \<longrightarrow> (\<exists>v'. step j v = Some v')))"

lemma group_step_total:
  assumes step: "nested_ends step (groups_rank w)" and w: "within r w" and g: "g \<in> set (w_groups w)"
  shows "\<exists>w'. wpa_group_sm_step step e g w = Some w' \<and> (w' = w \<or> groups_rank w' < groups_rank w)"
proof -
  have "\<exists>w'. wpa_group_setkeys step e g w = Some w' \<and> groups_rank w' < groups_rank w" if k: "GTKReKey (w_group w g)"
  proof -
    let ?v = "setkeys_start e g w"
    have less: "groups_rank ?v < groups_rank w" by (rule within_setkeys_start(2) [OF w k g])
    have v: "within (groups_rank ?v) ?v" using within_setkeys_start(1) [OF w k] by (rule within_self)
    have keep: "within (groups_rank ?v) u'" if "within (groups_rank ?v) u" "step j u = Some u'" for j u u'
      using step that unfolding nested_ends_def by blast
    have total: "\<exists>u'. step j u = Some u'" if "within (groups_rank ?v) u" for j u
      using step that less unfolding nested_ends_def by blast
    have "\<exists>w'. for_each_sta (wpa_group_update_sta step) (w_stas w) ?v = Some w'"
      by (rule update_stas_total [where r = "groups_rank ?v"]) (use total keep v in blast)+
    then obtain w' where w': "for_each_sta (wpa_group_update_sta step) (w_stas w) ?v = Some w'" ..
    have "within (groups_rank ?v) w'" by (rule ends_loop.update_stas [OF keep v w'])
    then show ?thesis using w' less by (simp add: wpa_group_setkeys_alt within_def)
  qed
  moreover have "\<not> GInit (w_group w g)" using w g by (simp add: within_def)
  moreover have "groups_rank (snd (wpa_group_setkeysdone e g w)) < groups_rank w"
    if "wpa_group_state (w_group w g) \<noteq> WPA_GROUP_SETKEYSDONE" by (rule within_setkeysdone(2) [OF w g that])
  ultimately show ?thesis by (auto simp: wpa_group_sm_step_def Let_def)
qed

lemma pass_total:
  assumes step: "nested_ends step (groups_rank w)" and w: "within r w"
  shows "\<exists>b w'. sm_pass step e i w = Some (b, w') \<and> (b \<longrightarrow> groups_rank w' < groups_rank w \<or>
     groups_rank w' = groups_rank w \<and> sta_rank (w_sm w' i) < sta_rank (w_sm w i))"
proof -
  let ?w1 = "updg 0 (\<lambda>x. x\<lparr>g_changed := False\<rparr>) (upd i (\<lambda>sm. sm\<lparr>sm_changed := False\<rparr>) w)"
  let ?w2 = "WPA_PTK_Step e i ?w1" and ?w3 = "WPA_PTK_GROUP_Step e i (WPA_PTK_Step e i ?w1)"
  let ?g = "sm_group (w_sm ?w3 i)"
  have w1: "groups_rank ?w1 = groups_rank w" "within r ?w1" using within_frame [of ?w1 w] w by simp_all
  have a: "advances i ?w1 ?w3" by (rule advances_trans [OF advances_PTK_Step advances_GROUP_Step])
  have frame: "groups_are gs G ?w3 = groups_are gs G ?w1" for gs G by simp
  have w3: "within r ?w3" "groups_rank ?w3 = groups_rank w"
    using within_are(1) [OF frame, of r] within_are(2) [OF frame] a w1 by (simp_all add: advances_def)
  have g: "?g \<in> set (w_groups ?w3)" using w3(1) by (simp add: within_def)
  obtain w4 where w4: "wpa_group_sm_step step e ?g ?w3 = Some w4" "w4 = ?w3 \<or> groups_rank w4 < groups_rank w"
    using group_step_total [OF _ w3(1) g] step w3(2) by metis
  have "sta_rank (w_sm ?w3 i) < sta_rank (w_sm w i)" if "sm_changed (w_sm ?w3 i) \<or> g_changed (w_group ?w3 0)"
  proof -
    have "\<not> g_changed (w_group ?w3 0)" using groups_areD(2) [OF frame, of 0] by (simp add: grp_ctl_def)
    then have "sm_changed (w_sm ?w3 i)" using that by simp
    then show ?thesis using a by (auto simp: advances_def sta_rank_def split: if_split_asm)
  qed
  then have "sm_changed (w_sm w4 i) \<or> g_changed (w_group w4 0) \<Longrightarrow> groups_rank w4 < groups_rank w \<or>
      groups_rank w4 = groups_rank w \<and> sta_rank (w_sm w4 i) < sta_rank (w_sm w i)"
    using w4(2) w3(2) by auto
  then show ?thesis using w4(1) unfolding sm_pass_def Let_def by auto
qed

lemma loop_flag_within: "within r (upd i (\<lambda>sm. sm\<lparr>in_step_loop := b\<rparr>) w) = within r w"
  by (rule within_frame(1)) simp_all

lemma call_total:
  assumes "in_step_loop (w_sm w i) \<or> (\<exists>w'. loop i (upd i (\<lambda>sm. sm\<lparr>in_step_loop := True\<rparr>) w) = Some w')"
  shows "\<exists>w'. call_sm_step loop i w = Some w'"
  using assms by (auto simp: call_sm_step_def)

lemma sm_loop_total: "within r w \<Longrightarrow> 200 * groups_rank w + sta_rank (w_sm w i) < n \<Longrightarrow> \<exists>w'. sm_loop n e i w = Some w'"
proof (induction n arbitrary: i r w)
  case (Suc n)
  have step: "nested_ends (call_sm_step (sm_loop n e)) (groups_rank w)"
    unfolding nested_ends_def
  proof (intro allI impI conjI)
    fix q v j
    assume v: "within q v"
    show "within q v'" if "call_sm_step (sm_loop n e) j v = Some v'" for v'
      by (rule ends_loop.call [OF ends_loop.loop v that])
    show "\<exists>v'. call_sm_step (sm_loop n e) j v = Some v'" if "q < groups_rank w"
    proof (rule call_total, rule disjI2)
      let ?v = "upd j (\<lambda>sm. sm\<lparr>in_step_loop := True\<rparr>) v"
      have "groups_rank ?v < groups_rank w" using v that by (simp add: within_def groups_rank_def)
      then have "200 * groups_rank ?v + 200 \<le> 200 * groups_rank w" by simp
      then have "200 * groups_rank ?v + sta_rank (w_sm ?v j) < n"
        using Suc.prems(2) sta_rank_less [of "w_sm ?v j"] by linarith
      then show "\<exists>v'. sm_loop n e j ?v = Some v'" using Suc.IH v loop_flag_within by blast
    qed
  qed
  obtain b w1 where p: "sm_pass (call_sm_step (sm_loop n e)) e i w = Some (b, w1)"
    and less: "b \<Longrightarrow> groups_rank w1 < groups_rank w \<or> groups_rank w1 = groups_rank w \<and> sta_rank (w_sm w1 i) < sta_rank (w_sm w i)"
    using pass_total [OF step Suc.prems(1)] by blast
  have w1: "within r w1"
    by (rule ends_loop.pass [OF ends_loop.call [OF ends_loop.loop] Suc.prems(1) p])
  have "\<exists>w'. sm_loop n e i w1 = Some w'" if b
  proof -
    have "200 * groups_rank w1 + sta_rank (w_sm w1 i) < 200 * groups_rank w + sta_rank (w_sm w i)"
      using less [OF that] sta_rank_less [of "w_sm w1 i"] by (elim disjE; linarith?; simp)
    then have "200 * groups_rank w1 + sta_rank (w_sm w1 i) < n" using Suc.prems(2) by linarith
    then show ?thesis by (rule Suc.IH [OF w1])
  qed
  then show ?case using p by simp
qed simp

lemma wpa_sm_step_total:
  assumes w: "within r w"
  shows "\<exists>w'. wpa_sm_step e i w = Some w'"
proof -
  let ?w = "upd i (\<lambda>sm. sm\<lparr>in_step_loop := True\<rparr>) w"
  have "groups_rank ?w = groups_rank w" by (rule within_frame(2)) simp_all
  then have "200 * groups_rank ?w + sta_rank (w_sm ?w i) < step_fuel w"
    using sta_rank_less [of "w_sm ?w i"] by (simp add: step_fuel_def)
  then have "\<exists>w'. sm_loop (step_fuel w) e i ?w = Some w'" using sm_loop_total w loop_flag_within by blast
  then show ?thesis unfolding wpa_sm_step_def by (intro call_total disjI2)
qed


subsection \<open>Calls from outside\<close>

definition returns :: "('a \<Rightarrow> bool) \<Rightarrow> 'a option \<Rightarrow> bool" where
  "returns P m = (case m of None \<Rightarrow> False | Some x \<Rightarrow> P x)"

lemma returns_simps [simp]:
  "returns P None = False" "returns P (Some x) = P x" "returns P (map_option f m) = returns (\<lambda>x. P (f x)) m"
  by (simp_all add: returns_def split: option.split)

lemma returns_bind: "returns Q m \<Longrightarrow> (\<And>x. m = Some x \<Longrightarrow> Q x \<Longrightarrow> returns P (f x)) \<Longrightarrow> returns P (Option.bind m f)"
  by (cases m) simp_all

lemma returns_mono: "returns Q m \<Longrightarrow> (\<And>x. m = Some x \<Longrightarrow> Q x \<Longrightarrow> P x) \<Longrightarrow> returns P m"
  by (cases m) simp_all

definition ready :: "wpa_world \<Rightarrow> bool" where
  "ready w \<longleftrightarrow> within (groups_rank w) w"

lemma ready_within: "within r w \<Longrightarrow> ready w"
  by (simp add: ready_def within_self)

lemma ready_are: "(\<And>gs G. groups_are gs G w' = groups_are gs G w) \<Longrightarrow> (\<And>j. sm_group (w_sm w' j) = sm_group (w_sm w j)) \<Longrightarrow> ready w' = ready w"
  using within_are [of w' w] by (simp add: ready_def)

lemma ready_frame:
  assumes "\<And>h. GInit (w_group w' h) = GInit (w_group w h)" "w_groups w' = w_groups w" "\<And>j. sm_group (w_sm w' j) = sm_group (w_sm w j)"
  shows "ready w' = ready w"
  using assms by (simp add: ready_def within_def)

lemma ready_simps [simp]:
  "sm_group (f (w_sm w i)) = sm_group (w_sm w i) \<Longrightarrow> ready (upd i f w) = ready w" "ready (upda h w) = ready w"
  "GInit (k (w_group w g)) = GInit (w_group w g) \<Longrightarrow> ready (updg g k w) = ready w"
  "ready (log_out x w) = ready w" "ready (snd (ask q w)) = ready w" "ready (wpa_auth_set_eapol i var val w) = ready w"
  "ready (wpa_sta_disconnect i w) = ready w" "ready (register_timeout t a b w) = ready w" "ready (cancel_timeout t w) = ready w"
  "ready (w\<lparr>w_live := v\<rparr>) = ready w" "ready (w\<lparr>w_stas := js\<rparr>) = ready w" "ready (w\<lparr>michael_mic_failures := n\<rparr>) = ready w"
  "ready (w\<lparr>michael_mic_failure_time := n\<rparr>) = ready w" "ready (w\<lparr>tkip_countermeasures := c\<rparr>) = ready w"
  by (rule ready_frame; simp add: callback_defs)+

lemma ready_ops [simp]:
  "ready (wpa_remove_ptk e i w) = ready w" "ready (leave_update i w) = ready w" "ready (snd (wpa_gtk_update e g w)) = ready w"
  "ready (snd (random_get_bytes e n w)) = ready w"
  by (rule ready_are; simp)+

lemma step_returns: "ready w \<Longrightarrow> returns ready (wpa_sm_step e i w)"
  unfolding ready_def using wpa_sm_step_total [of "groups_rank w" w e i] ends_loop.step [of "groups_rank w" w e i]
  by (auto simp: returns_def ready_def [symmetric] intro: ready_within)

lemma nested_wpa_sm_step: "nested_ends (wpa_sm_step e) r"
  unfolding nested_ends_def using wpa_sm_step_total ends_loop.step by blast

text \<open>The list of groups stays as it is.\<close>

interpretation groups_loop: sm_invariant e "\<lambda>w :: wpa_world. w_groups w = gs" for e gs
proof
  fix w :: wpa_world and i g
  assume w: "w_groups w = gs"
  show "w_groups (WPA_PTK_Step e i w) = gs" using groups_areD(1) [OF groups_are_PTK_Step] w by metis
  show "w_groups (WPA_PTK_GROUP_Step e i w) = gs" using groups_areD(1) [OF groups_are_GROUP_Step] w by metis
  show "w_groups (wpa_free_sta_sm i w) = gs" using w by (simp add: wpa_free_sta_sm_def Let_def)
  show "w_groups (setkeys_start e g w) = gs" using w by (simp add: setkeys_start_ctl)
  show "w_groups (mark_for_update i w) = gs" using w by (simp add: mark_for_update_def)
qed simp_all

lemma rekey_group_loop_returns:
  "within r w \<Longrightarrow> g \<in> set (w_groups w) \<Longrightarrow> groups_rank w < n \<Longrightarrow>
   returns (\<lambda>w'. within r w' \<and> w_groups w' = w_groups w) (rekey_group_loop n e g w)"
proof (induction n arbitrary: w)
  case (Suc n)
  let ?w = "updg g (\<lambda>x. x\<lparr>g_changed := False\<rparr>) w"
  have 1: "within r ?w" "groups_rank ?w = groups_rank w" using within_frame [of ?w w] Suc.prems(1) by simp_all
  have "\<exists>w1. wpa_group_sm_step (wpa_sm_step e) e g ?w = Some w1 \<and> (w1 = ?w \<or> groups_rank w1 < groups_rank w)"
    using group_step_total [OF nested_wpa_sm_step [of e] 1(1), of g e] Suc.prems(2) unfolding 1(2) by simp
  then obtain w1 where w1: "wpa_group_sm_step (wpa_sm_step e) e g ?w = Some w1" "w1 = ?w \<or> groups_rank w1 < groups_rank w"
    by blast
  have k: "within r w1" "w_groups w1 = w_groups w"
    using ends_loop.group [OF 1(1) w1(1)] groups_loop.group [OF _ w1(1), of "w_groups w"] by simp_all
  have "returns (\<lambda>w'. within r w' \<and> w_groups w' = w_groups w) (rekey_group_loop n e g w1)" if "g_changed (w_group w1 g)"
    using Suc.IH [OF k(1)] that w1(2) k(2) Suc.prems(2,3) by auto
  then show ?case using w1(1) k by simp
qed simp

lemma rekey_groups_returns: "ready w \<Longrightarrow> set hs \<subseteq> set (w_groups w) \<Longrightarrow> returns ready (rekey_groups e hs w)"
proof (induction hs arbitrary: w)
  case (Cons g hs)
  let ?w = "updg g (\<lambda>x. x\<lparr>GTKReKey := True\<rparr>) w"
  have "ready ?w" using Cons.prems(1) by simp
  then have "within (groups_rank ?w) ?w" by (simp only: ready_def)
  then have 1: "returns (\<lambda>w'. within (groups_rank ?w) w' \<and> w_groups w' = w_groups ?w) (rekey_group_loop (Suc (groups_rank ?w)) e g ?w)"
    using Cons.prems(2) by (intro rekey_group_loop_returns) simp_all
  show ?case
    unfolding rekey_groups.simps Let_def
  proof (rule returns_bind [OF 1])
    fix x
    assume "within (groups_rank ?w) x \<and> w_groups x = w_groups ?w"
    then show "returns ready (rekey_groups e hs x)" using Cons.IH [of x] Cons.prems(2) ready_within by auto
  qed
qed simp

lemma rekey_gtk_returns: "ready w \<Longrightarrow> returns ready (wpa_rekey_gtk e w)"
  using rekey_groups_returns [of w "w_groups w" e] by (auto simp: wpa_rekey_gtk_def elim: returns_mono)

text \<open>Setting up a group.\<close>

lemma group_step_init: "GInit (w_group w g) \<Longrightarrow> wpa_group_sm_step step e g w = Some (wpa_group_gtk_init e g w)"
  by (simp add: wpa_group_sm_step_def)

lemma group_step_first:
  "\<not> GInit (w_group w g) \<Longrightarrow> wpa_group_state (w_group w g) = WPA_GROUP_GTK_INIT \<Longrightarrow>
   wpa_group_sm_step step e g w = Some (if GTKAuthenticator (w_group w g) then snd (wpa_group_setkeysdone e g w) else w)"
  by (simp add: wpa_group_sm_step_def)

definition group_set_up :: "wpa_env \<Rightarrow> nat \<Rightarrow> wpa_world \<Rightarrow> wpa_world" where
  "group_set_up e g w =
     (let w1 = updg g (\<lambda>x. x\<lparr>GInit := False\<rparr>) (wpa_group_gtk_init e g (updg g (\<lambda>x. x\<lparr>GInit := True\<rparr>) w))
      in if GTKAuthenticator (w_group w1 g) then snd (wpa_group_setkeysdone e g w1) else w1)"

lemma group_set_up_steps:
  "Option.bind (wpa_group_sm_step step e g (updg g (\<lambda>x. x\<lparr>GInit := True\<rparr>) w)) (\<lambda>w5.
     map_option f (wpa_group_sm_step step e g (updg g (\<lambda>x. x\<lparr>GInit := False\<rparr>) w5))) = Some (f (group_set_up e g w))"
proof -
  let ?w5 = "wpa_group_gtk_init e g (updg g (\<lambda>x. x\<lparr>GInit := True\<rparr>) w)"
  have s: "wpa_group_state (w_group ?w5 g) = WPA_GROUP_GTK_INIT"
    using gtk_init_ctl [of e g "updg g (\<lambda>x. x\<lparr>GInit := True\<rparr>) w" g] by (simp add: grp_ctl_def)
  show ?thesis
    using s by (simp add: group_step_init group_step_first group_set_up_def Let_def)
qed

lemma group_set_up_frame:
  "w_groups (group_set_up e g w) = w_groups w" "w_sm (group_set_up e g w) = w_sm w"
  "GInit (w_group (group_set_up e g w) h) = (h \<noteq> g \<and> GInit (w_group w h))"
proof -
  let ?v = "wpa_group_gtk_init e g (updg g (\<lambda>x. x\<lparr>GInit := True\<rparr>) w)"
  let ?u = "updg g (\<lambda>x. x\<lparr>GInit := False\<rparr>) ?v"
  show "w_groups (group_set_up e g w) = w_groups w" "w_sm (group_set_up e g w) = w_sm w"
    by (simp_all add: group_set_up_def Let_def)
  have v: "GInit (w_group ?v h) = (h = g \<or> GInit (w_group w h))" for h
    using gtk_init_ctl [of e g "updg g (\<lambda>x. x\<lparr>GInit := True\<rparr>) w" h] by (auto simp: grp_ctl_def split: if_split_asm)
  have "GInit (w_group (snd (wpa_group_setkeysdone e g ?u)) h) = GInit (w_group ?u h)"
    using setkeysdone_ctl [of e g ?u h] by (auto simp: grp_ctl_def split: if_split_asm)
  then show "GInit (w_group (group_set_up e g w) h) = (h \<noteq> g \<and> GInit (w_group w h))"
    using v by (simp add: group_set_up_def Let_def)
qed

lemma ready_set_up: "ready w \<Longrightarrow> ready (group_set_up e g w)"
  by (simp add: ready_def within_def group_set_up_frame)

lemma ready_init_gmk [simp]: "ready (snd (wpa_group_init_gmk_and_counter e g w)) = ready w"
  by (rule ready_are; simp)


text \<open>Association.\<close>

lemma parse_returns:
  "returns (\<lambda>p. True) (wpa_parse_wpa_ie_rsn ie (length ie))" "returns (\<lambda>p. True) (wpa_parse_wpa_ie_wpa ie (length ie))"
  using parse_rsn_safe [of "length ie" ie] parse_wpa_safe [of "length ie" ie]
  by (auto simp: result_safe_def returns_def split: option.splits)

lemma find_pmksa_returns: "ready w \<Longrightarrow> returns ready (find_pmksa e [] new mem i ps w)"
proof -
  assume w: "ready w"
  have "okc_loop_pmkids e c [] aa sta qs = Some None" for c aa sta qs by (induction qs) simp_all
  then show ?thesis using w by (simp add: find_pmksa_def Let_def case_prod_beta split: option.split prod.split)
qed

lemma store_wpa_ie_ready [simp]: "ready (snd (store_wpa_ie e i ie w)) = ready w"
  by (simp add: store_wpa_ie_def Let_def case_prod_beta)

lemma validate_returns: "ready w \<Longrightarrow> returns (\<lambda>p. ready (snd p)) (wpa_validate_wpa_ie e [] new mem present i wpa_ie w)"
  unfolding wpa_validate_wpa_ie_def Let_def
  by (auto simp: case_prod_beta intro!: returns_bind [where Q = "\<lambda>p. True"] parse_returns returns_mono [OF find_pmksa_returns]
      split: option.split)

lemma start_machines_returns: "ready w \<Longrightarrow> returns ready (start_machines e i w)"
  unfolding start_machines_def by (auto intro: returns_mono [OF step_returns])

lemma event_flags_returns: "ready w \<Longrightarrow> returns ready (event_flags e i ev w)"
  by (cases ev) (simp_all add: event_flags_def start_machines_returns Let_def)

lemma event_returns: "ready w \<Longrightarrow> returns ready (wpa_auth_sm_event e i ev w)"
  unfolding wpa_auth_sm_event_def Let_def by (rule returns_bind [OF event_flags_returns]) (simp_all add: step_returns)

lemma associated_returns: "ready w \<Longrightarrow> returns ready (wpa_auth_sta_associated e i w)"
  unfolding wpa_auth_sta_associated_def
  by (simp add: step_returns returns_bind [OF start_machines_returns])

text \<open>Reception.\<close>

lemma kde_returns: "len \<le> length buf \<Longrightarrow> returns (\<lambda>p. True) (wpa_parse_kde_ies buf len)"
  using parse_kde_safe by fastforce

lemma mic_failure_ready [simp]: "ready (michael_mic_failure e s w) = ready w"
proof -
  have d: "ready (fold (\<lambda>i w. log_out (DeauthSta (sm_addr (w_sm w i))) w) js v) = ready v" for js v
    by (induction js arbitrary: v) simp_all
  show ?thesis
    by (simp add: michael_mic_failure_def count_mic_failure_def ieee80211_tkip_countermeasures_start_def wpa_gtk_rekey_def
        wpa_auth_countermeasures_start_def swap_gn_def d Let_def case_prod_beta split: option.split)
qed

lemma request_new_ptk_ready [simp]: "ready (wpa_request_new_ptk i w) = ready w"
  by (simp add: wpa_request_new_ptk_def)

lemma acceptable_length: "rx_acceptable sm data \<Longrightarrow> unat (ek_key_data_length (eapol_key_of data)) \<le> length (key_data_of data)"
  by (simp add: rx_acceptable_def key_data_of_def Let_def)

lemma rx_switch_returns:
  "ready w \<Longrightarrow> rx_acceptable sm data \<Longrightarrow> returns (\<lambda>p. ready (snd p)) (rx_switch i data w)"
  unfolding rx_switch_def rx_pairwise_2_def Let_def
  by (auto simp: case_prod_beta intro!: returns_bind [where Q = "\<lambda>p. True"] kde_returns acceptable_length split: key_msg.split)

lemma rx_request_returns:
  "ready w \<Longrightarrow> rx_acceptable sm data \<Longrightarrow> returns (\<lambda>p. ready (snd p)) (rx_request e i data w)"
  unfolding rx_request_def Let_def
  by (auto simp: case_prod_beta intro!: returns_bind [where Q = "\<lambda>p. True"] kde_returns acceptable_length
      returns_mono [OF rekey_gtk_returns])

lemma rx_deliver_returns: "ready w \<Longrightarrow> returns ready (rx_deliver e i data w)"
  by (simp add: rx_deliver_def Let_def case_prod_beta step_returns)

lemma rx_mic_ready [simp]: "ready (snd (rx_mic e i data w)) = ready w"
  by (simp add: rx_mic_def Let_def)

lemma receive_returns: "ready w \<Longrightarrow> returns ready (wpa_receive e i data w)"
proof -
  assume w: "ready w"
  let ?w = "log_out (Received (sm_addr (w_sm w i)) data) w"
  show ?thesis
  proof (cases "cf_wpa (conf ?w) = 0 \<or> \<not> rx_acceptable (w_sm ?w i) data")
    case True
    then show ?thesis using w by (simp add: wpa_receive_def Let_def)
  next
    case False
    then have a: "rx_acceptable (w_sm ?w i) data" by simp
    have v: "returns ready (rx_verified e i data v)" if "ready v" for v
      using that rx_request_returns [OF that a] rx_deliver_returns
      by (auto simp: rx_verified_def invalidate_replay_def case_prod_beta intro!: returns_bind)
    have "returns ready (Option.bind (rx_switch i data ?w) (\<lambda>(go, w1). if \<not> go then Some w1
        else let (go, w2) = rx_mic e i data w1 in if go then rx_verified e i data w2 else Some w2))"
      by (rule returns_bind [OF rx_switch_returns [OF _ a]]) (use w v in \<open>simp_all add: case_prod_beta Let_def\<close>)
    then show ?thesis using False by (simp add: wpa_receive_def Let_def)
  qed
qed


text \<open>Stations and groups.\<close>

lemma sta_init_ready: "ready w \<Longrightarrow> ready (wpa_auth_sta_init e i pos addr w)"
  by (auto simp: wpa_auth_sta_init_def Let_def case_prod_beta ready_def within_def zeroed_wpa_sm_def)

lemma free_sta_ready [simp]: "ready (ap_free_sta i w) = ready w"
  by (simp add: ap_free_sta_def wpa_auth_sta_deinit_def wpa_free_sta_sm_def Let_def)

lemma with_cache_ready [simp]: "ready (with_cache c w) = ready w"
proof -
  have "ready (fold (\<lambda>i. sm_clear_pmksa i a) js v) = ready v" for a js v
    by (induction js arbitrary: v) (simp_all add: sm_clear_pmksa_def)
  then have "ready (fold wpa_auth_pmksa_free_cb as v) = ready v" for as v
    by (induction as arbitrary: v) (simp_all add: wpa_auth_pmksa_free_cb_def)
  then show ?thesis by (simp add: with_cache_def)
qed

lemma set_key_len_init [simp]: "GInit (wpa_group_set_key_len cipher x) = GInit x"
  by (simp add: wpa_group_set_key_len_def)

lemma group_init_frame:
  "\<exists>ok w'. wpa_group_init e g vlan w = Some (ok, w') \<and> w_groups w' = w_groups w \<and> w_sm w' = w_sm w \<and>
     (\<forall>h. GInit (w_group w' h) \<longrightarrow> GInit (w_group w h)) \<and> (ok \<longrightarrow> \<not> GInit (w_group w' g))"
proof -
  let ?w1 = "snd (ask (e_alloc e) w)"
  let ?w2 = "updg g (\<lambda>_. wpa_group_set_key_len (cf_wpa_group (conf ?w1)) (zeroed_group\<lparr>GTKAuthenticator := True, g_vlan_id := vlan\<rparr>)) ?w1"
  let ?w3 = "snd (ask (e_pool_ready e) ?w2)"
  let ?w4 = "snd (wpa_group_init_gmk_and_counter e g ?w3)"
  have 4: "GInit (w_group ?w4 h) = (h \<noteq> g \<and> GInit (w_group w h))" for h
    using groups_areD(2) [OF groups_are_init_gmk, of e g ?w3 h] by (simp add: grp_ctl_def zeroed_group_def)
  have "wpa_group_init e g vlan w =
      (if \<not> fst (ask (e_alloc e) w) then Some (False, ?w1)
       else if fst (wpa_group_init_gmk_and_counter e g ?w3) < 0 then Some (False, ?w4)
       else Some (True, group_set_up e g ?w4))"
    unfolding wpa_group_init_def Let_def case_prod_beta group_set_up_steps ..
  then show ?thesis using 4 by (simp add: group_set_up_frame ex_bool_eq)
qed

lemma set_vlan_returns: "ready w \<Longrightarrow> returns (\<lambda>p. ready (snd p)) (wpa_auth_sta_set_vlan e i vlan w)"
proof -
  assume w: "ready w"
  have found: "ready (upd i (\<lambda>sm. sm\<lparr>sm_group := g\<rparr>) v)" if "ready v" "g \<in> set (w_groups v)" for g v
    using that by (simp add: ready_def within_def)
  let ?n = "length (w_groups w)"
  obtain ok w1 where w1: "wpa_group_init e ?n vlan w = Some (ok, w1)" "w_groups w1 = w_groups w" "w_sm w1 = w_sm w"
    "\<forall>h. GInit (w_group w1 h) \<longrightarrow> GInit (w_group w h)" "ok \<longrightarrow> \<not> GInit (w_group w1 ?n)"
    using group_init_frame by blast
  have r: "ready w1" using w w1(2-4) by (auto simp: ready_def within_def)
  have gs: "w_groups w = hd (w_groups w) # tl (w_groups w)" using w by (cases "w_groups w") (simp_all add: ready_def within_def)
  have "set (hd (w_groups w) # ?n # tl (w_groups w)) = insert ?n (set (w_groups w))" by (subst (4) gs) auto
  then have n: "ready (w1\<lparr>w_groups := hd (w_groups w1) # ?n # tl (w_groups w1)\<rparr>)" if ok
    using r w1(2,5) that by (auto simp: ready_def within_def)
  show ?thesis
    using w r n found w1(1) by (auto simp: wpa_auth_sta_set_vlan_def wpa_auth_add_group_def Let_def find_Some_iff split: option.split)
qed

lemma gen_ie_ready [simp]: "ready (snd (wpa_auth_gen_wpa_ie e w)) = ready w"
  by (simp add: wpa_auth_gen_wpa_ie_def Let_def case_prod_beta split: option.split)

lemma reconfig_returns: "ready w \<Longrightarrow> returns (\<lambda>p. ready (snd p)) (wpa_reconfig e c w)"
proof -
  assume w: "ready w"
  let ?g = "wpa_auth_gen_wpa_ie e (upda (\<lambda>a. a\<lparr>a_conf := c\<rparr>) w)"
  let ?w1 = "updg 0 (wpa_group_set_key_len (cf_wpa_group c)) (snd ?g)"
  have "updg 0 (\<lambda>x. (wpa_group_set_key_len (cf_wpa_group c) x)\<lparr>GInit := True\<rparr>) v =
      updg 0 (\<lambda>x. x\<lparr>GInit := True\<rparr>) (updg 0 (wpa_group_set_key_len (cf_wpa_group c)) v)" for v
    by (simp add: updg_def)
  then have "wpa_reconfig e c w = (if fst ?g \<noteq> 0 then Some (- 1, snd ?g) else Some (0, group_set_up e 0 ?w1))"
    by (simp add: wpa_reconfig_def Let_def case_prod_beta group_set_up_steps)
  moreover have "ready (group_set_up e 0 ?w1)" using w by (intro ready_set_up) simp
  ultimately show ?thesis using w by simp
qed

subsection \<open>Runs\<close>

text \<open>
  The only call that can fail to return is the association of a station while opportunistic key caching looks
  through the caches of other BSSs: the walk of \<^verbatim>\<open>pmksa_cache_get_okc\<close> stops at an entry of another station
  (\<open>get_okc_returns_iff\<close>).
\<close>

fun walks_okc :: "wpa_input \<Rightarrow> bool" where
  "walks_okc (ValidateIe cs new mem i ie) = (cs \<noteq> [])"
| "walks_okc _ = False"

lemma for_live_returns: "ready w \<Longrightarrow> returns ready (f w) \<Longrightarrow> returns ready (for_live i f w)"
  by (simp add: for_live_def)

lemma handle_returns: "ready w \<Longrightarrow> \<not> walks_okc x \<Longrightarrow> returns ready (handle e x w)"
proof (cases x)
  case (StaEvent i ev)
  then show "ready w \<Longrightarrow> ?thesis" using event_returns by (auto intro: for_live_returns)
qed (auto simp: sta_init_ready wpa_auth_sta_no_wpa_def wpa_auth_eapol_key_tx_status_def wpa_auth_sm_notify_def
    wpa_rekey_gmk_def wpa_auth_pmksa_add_def wpa_send_eapol_timeout_def wpa_sm_call_step_def wpa_rekey_ptk_def Let_def
    case_prod_beta intro!: for_live_returns validate_returns [simplified] associated_returns receive_returns step_returns
    rekey_gtk_returns set_vlan_returns [simplified] reconfig_returns [simplified])

lemma run_returns: "ready w \<Longrightarrow> list_all (\<lambda>x. \<not> walks_okc x) xs \<Longrightarrow> returns ready (run e xs w)"
  by (induction xs arbitrary: w) (auto intro: returns_bind [OF handle_returns])

lemma init_returns: "returns (\<lambda>(ok, w). ok \<longrightarrow> ready w) (wpa_init e addr c)"
proof -
  let ?w2 = "upda (\<lambda>a. a\<lparr>a_addr := addr, a_conf := c\<rparr>) (snd (ask (e_alloc e) no_world))"
  let ?w3 = "snd (wpa_auth_gen_wpa_ie e ?w2)"
  have 3: "w_sm ?w3 = (\<lambda>_. zeroed_wpa_sm)" "w_group ?w3 = (\<lambda>_. zeroed_group)"
    by (simp_all add: wpa_auth_gen_wpa_ie_def Let_def case_prod_beta no_world_def split: option.split)
  obtain ok w4 where 4: "wpa_group_init e 0 0 ?w3 = Some (ok, w4)" "w_sm w4 = w_sm ?w3"
    "\<forall>h. GInit (w_group w4 h) \<longrightarrow> GInit (w_group ?w3 h)"
    using group_init_frame by blast
  have "ready (w4\<lparr>w_groups := [0]\<rparr>)"
    using 3 4(2,3) by (simp add: ready_def within_def zeroed_wpa_sm_def zeroed_group_def)
  then show ?thesis
    by (simp add: wpa_init_def Let_def case_prod_beta 4(1) split: option.split)
qed


end
