(* ===== verification/WpaAuthDemo.thy ===== *)
theory WpaAuthDemo
  imports WpaAuthEnds
begin

section \<open>A four-way handshake, evaluated\<close>

text \<open>
  One access point, one station, a concrete environment: the model is run from \<^verbatim>\<open>wpa_init\<close> through the association
  and the messages 2/4 and 4/4 of the station. The crypto functions of \<open>demo_crypto\<close> are placeholders (the keyed
  hash returns its key): the run shows which way the code goes, and that the hypotheses of
  \<open>unicast_keys_confirmed\<close> can hold.
\<close>

definition demo_crypto :: wpa_crypto where
  "demo_crypto = \<lparr>hmac_md5 = (\<lambda>k d. (k, True)), hmac_sha1 = (\<lambda>k d. (k @ [0, 0, 0, 0], True)),
     sha1_prf = (\<lambda>k l d n. (take n (k @ k @ k), True)), aes_wrap = (\<lambda>k d. Some (k @ d)), rc4_skip = (\<lambda>k n d. d)\<rparr>"

definition demo_psk :: "u8 list" where "demo_psk = replicate 32 7"

definition demo_env :: wpa_env where
  "demo_env = \<lparr>crypto = demo_crypto, psk_list = [\<lparr>psk_group = True, psk_key = demo_psk, psk_addr = []\<rparr>],
     e_random = (\<lambda>k n. (replicate n 1, True)), e_pool_ready = (\<lambda>k. True), e_time = (\<lambda>k. (0, 0)),
     e_group_pointer = (\<lambda>k. [0]), e_set_key = (\<lambda>k. 0), e_get_seqnum = (\<lambda>k. Some (replicate 8 0)), e_get_eapol = (\<lambda>k. 0),
     e_get_msk = (\<lambda>k. None), e_alloc = (\<lambda>k. True)\<rparr>"

definition demo_conf :: wpa_auth_config where
  "demo_conf = \<lparr>cf_wpa = 2, cf_wpa_key_mgmt = 2, cf_wpa_pairwise = 16, cf_wpa_group = 16, cf_wpa_group_rekey = 0,
       cf_wpa_strict_rekey = False, cf_wpa_gmk_rekey = 0, cf_wpa_ptk_rekey = 0, cf_rsn_pairwise = 16,
       cf_rsn_preauth = False, cf_eapol_version = 2, cf_peerkey = False, cf_wmm_enabled = False, cf_wmm_uapsd = False,
       cf_okc = False, cf_tx_status = False\<rparr>"

definition demo_ie :: "u8 list" where
  "demo_ie = [48, 20, 1, 0, 0, 15, 172, 4, 1, 0, 0, 15, 172, 4, 1, 0, 0, 15, 172, 2, 0, 0]"

definition sta_frame :: "u16 \<Rightarrow> nat \<Rightarrow> u8 list \<Rightarrow> u8 list" where
  "sta_frame info ctr d =
     eapol_key_frame 2 (zero_eapol_key\<lparr>ek_type := 2, ek_key_info := info, ek_replay_counter := replicate 7 0 @ [of_nat ctr],
       ek_key_mic := replicate 16 7, ek_key_data_length := of_nat (length d)\<rparr>) d"

definition demo_f2 :: "u8 list" where "demo_f2 = sta_frame 0x10a 1 demo_ie"
definition demo_f4 :: "u8 list" where "demo_f4 = sta_frame 0x30a 2 []"
definition demo_ptk :: wpa_ptk where "demo_ptk = \<lparr>kck = replicate 16 7, kek = replicate 16 7, tk1 = replicate 16 7, ptk_u = []\<rparr>"

definition demo_run :: "wpa_input list" where
  "demo_run = [StaInit 5 0 [2, 0, 0, 0, 0, 1], ValidateIe [] None True 5 (Some demo_ie), StaAssociated 5,
     EapolKey 5 demo_f2, EapolKey 5 demo_f4]"

text \<open>
  Evaluation goes by rewriting: a condition or a scrutinee is evaluated before the branches, and the leaf functions
  are evaluated on their arguments beforehand.
\<close>

named_theorems demo_eval

lemma demo_weak:
  "m = m' \<Longrightarrow> Option.bind m f = Option.bind m' f"
  "n = n' \<Longrightarrow> map_option g n = map_option g n'"
  "p = p' \<Longrightarrow> case_prod h p = case_prod h p'"
  "q = q' \<Longrightarrow> Let q k = Let q' k"
  by simp_all

lemma demo_env [demo_eval]: "crypto demo_env = demo_crypto" "psk_list demo_env = [\<lparr>psk_group = True, psk_key = demo_psk, psk_addr = []\<rparr>]"
  "e_random demo_env k n = (replicate n 1, True)" "e_pool_ready demo_env k = True" "e_time demo_env k = (0, 0)"
  "e_group_pointer demo_env k = [0]" "e_set_key demo_env k = 0" "e_get_seqnum demo_env k = Some (replicate 8 0)"
  "e_get_eapol demo_env k = 0" "e_get_msk demo_env k = None" "e_alloc demo_env k = True"
  by (simp_all add: demo_env_def)
lemma demo_cr [demo_eval]: "hmac_md5 demo_crypto k d = (k, True)" "hmac_sha1 demo_crypto k d = (k @ [0,0,0,0], True)"
  "sha1_prf demo_crypto k l d n = (take n (k @ k @ k), True)" "aes_wrap demo_crypto k d = Some (k @ d)" "rc4_skip demo_crypto k n d = d"
  by (simp_all add: demo_crypto_def)
lemma demo_conf [demo_eval]: "cf_wpa demo_conf = 2" "cf_wpa_key_mgmt demo_conf = 2" "cf_wpa_pairwise demo_conf = 16" "cf_wpa_group demo_conf = 16"
  "cf_wpa_group_rekey demo_conf = 0" "cf_wpa_gmk_rekey demo_conf = 0" "cf_wpa_ptk_rekey demo_conf = 0" "cf_rsn_pairwise demo_conf = 16"
  "cf_eapol_version demo_conf = 2" "cf_okc demo_conf = False" "cf_tx_status demo_conf = False"
  by (simp_all add: demo_conf_def)

lemma demo_ie [demo_eval]: "gen_ie demo_conf = Some demo_ie" by code_simp


lemma demo_ie2 [demo_eval]: "demo_ie \<noteq> []" "demo_ie ! 0 = 48" by (simp_all add: demo_ie_def)
lemma demo_parse [demo_eval]: "wpa_parse_wpa_ie_rsn demo_ie 22 = Some (0, rsn_ie_defaults\<lparr>ied_group_cipher := 16, ied_pairwise_cipher := 16, ied_key_mgmt := 2\<rparr>)"
  by code_simp
lemma demo_def [demo_eval]: "ied_num_pmkid rsn_ie_defaults = 0" by (simp add: rsn_ie_defaults_def)
lemma demo_cmp [demo_eval]: "wpa_compare_rsn_ie (Some demo_ie) (Some demo_ie) = 0" by code_simp
lemma demo_ptk [demo_eval]: "ptk_of_bytes (wpa_pmk_to_ptk demo_crypto demo_psk l a b c d 48) = demo_ptk"
  by (simp add: demo_cr wpa_pmk_to_ptk_def Let_def ptk_of_bytes_def demo_ptk_def demo_psk_def)
lemma demo_f2 [demo_eval]: "length demo_f2 = 121" "eapol_key_of demo_f2 = zero_eapol_key\<lparr>ek_type := 2, ek_key_info := 0x10a, ek_replay_counter := [0, 0, 0, 0, 0, 0, 0, 1],
       ek_key_mic := replicate 16 7, ek_key_data_length := 22\<rparr>" "wpa_verify_key_mic demo_crypto demo_ptk demo_f2 = 0"
     "wpa_parse_kde_ies (key_data_of demo_f2) 22 = Some (0, no_kde\<lparr>kd_rsn_ie := Some (0, 22)\<rparr>)"
     "take 22 (key_data_of demo_f2) = demo_ie"
  by code_simp+
lemma demo_f4 [demo_eval]: "length demo_f4 = 99" "eapol_key_of demo_f4 = zero_eapol_key\<lparr>ek_type := 2, ek_key_info := 0x30a, ek_replay_counter := [0, 0, 0, 0, 0, 0, 0, 2],
       ek_key_mic := replicate 16 7, ek_key_data_length := 0\<rparr>" "wpa_verify_key_mic demo_crypto demo_ptk demo_f4 = 0"
  by code_simp+

lemma sm_loop_num: "sm_loop (numeral k) e i w =
     (case sm_pass (call_sm_step (sm_loop (pred_numeral k) e)) e i w of
        None \<Rightarrow> None
      | Some (again, w') \<Rightarrow> if again then sm_loop (pred_numeral k) e i w' else Some w')"
  by (simp add: numeral_eq_Suc)

lemma try_num: "try_psks e derive frame addr prev =
     (case hostapd_get_psk (psk_list e) addr prev of
        None \<Rightarrow> None
      | Some k \<Rightarrow>
          if wpa_verify_key_mic (crypto e) (derive (psk_at e k)) frame = 0 then Some (psk_at e k, derive (psk_at e k))
          else try_psks e derive frame addr (Some k))" by (rule try_psks.simps)

lemma demo_inc [demo_eval]: "inc_byte_array (replicate 8 0) 8 = [0,0,0,0,0,0,0,1]" "inc_byte_array [0,0,0,0,0,0,0,1] 8 = [0,0,0,0,0,0,0,2]"
  by code_simp+

lemma demo_rep [demo_eval]: "replay_match 4 (([0, 0, 0, 0, 0, 0, 0, 1], True) # replicate 3 (replicate 8 0, False)) [0, 0, 0, 0, 0, 0, 0, 1]"
  by code_simp

lemma demo_len [demo_eval]: "length demo_ie = 22" "length (wpa_add_kde RSN_KEY_DATA_GROUPKEY [1, 0] (replicate 16 1)) = 24"
  by code_simp+

lemma demo_kek [demo_eval]: "kek demo_ptk = replicate 16 7" "kck demo_ptk = replicate 16 7" "tk1 demo_ptk = replicate 16 7" by (simp_all add: demo_ptk_def)
lemma demo_own [demo_eval]: "own_ie_for c WPA_VERSION_WPA2 ie = ie" by (simp add: own_ie_for_def)


lemma demo_rep2 [demo_eval]: "replay_match 4 (([0, 0, 0, 0, 0, 0, 0, 2], True) # ([0, 0, 0, 0, 0, 0, 0, 1], False) # replicate 2 (replicate 8 0, False)) [0, 0, 0, 0, 0, 0, 0, 2]"
  by code_simp

lemmas neg_unf = WPA_PTK_PTKINITNEGOTIATING_Enter_def [unfolded Let_def case_prod_beta]
lemmas demo_unfold =
  key_flag_def ask_def log_out_def upd_def updg_def upda_def dot11RSNAConfigGroupUpdateCount_def
  dot11RSNAConfigPairwiseUpdateCount_def wpa_auth_set_eapol_def wpa_auth_set_key_def wpa_sta_disconnect_def
  register_timeout_def cancel_timeout_def hostapd_get_psk_def random_get_bytes_def ntp_timestamp_def
  wpa_alg_enum_def wpa_group_set_key_len_def inc_counter_def wpa_group_init_gmk_and_counter_def wpa_gmk_to_gtk_def
  put_gtk_def wpa_gtk_update_def broadcast_ether_addr_def current_gtk_def wpa_group_config_group_keys_def
  wpa_group_first_station_def shift_replay_def key_length_of_def descriptor_version_def sent_key_info_def
  sent_key_def send_eapol_key_def enter_ptk_def enter_ptk_group_def wpa_remove_ptk_def leave_update_def
  WPA_PTK_INITIALIZE_Enter_def WPA_PTK_DISCONNECT_Enter_def WPA_PTK_DISCONNECTED_Enter_def
  WPA_PTK_AUTHENTICATION_Enter_def WPA_PTK_AUTHENTICATION2_Enter_def WPA_PTK_INITPMK_Enter_def psk_at_def
  WPA_PTK_INITPSK_Enter_def WPA_PTK_PTKSTART_Enter_def wpa_derive_ptk_def select_pmk_def
  WPA_PTK_PTKCALCNEGOTIATING_Enter_def WPA_PTK_PTKCALCNEGOTIATING2_Enter_def get_rsc_def gtk_kde_def
  set_pairwise_key_def install_ptk_def WPA_PTK_PTKINITDONE_Enter_def count_failure_def get_eapol_positive_def
  pairwise_reply_def WPA_PTK_Step_def WPA_PTK_GROUP_IDLE_Enter_def WPA_PTK_GROUP_REKEYNEGOTIATING_Enter_def
  WPA_PTK_GROUP_REKEYESTABLISHED_Enter_def WPA_PTK_GROUP_KEYERROR_Enter_def group_reply_def WPA_PTK_GROUP_Step_def
  wpa_group_gtk_init_def wpa_group_update_sta_def swap_gn_def wpa_group_setkeys_def wpa_group_setkeysdone_def
  wpa_group_sm_step_def wpa_free_sta_sm_def call_sm_step_def sm_pass_def group_rank_def groups_rank_def
  step_fuel_def proto_bit_def wpa_auth_gen_wpa_ie_def selected_akm_def selected_cipher_def note_selected_def
  pmkid_at_def pmkid_deriv_def find_pmksa_def store_wpa_ie_def negotiated_akm_def negotiated_cipher_def
  wpa_validate_wpa_ie_def wpa_request_new_ptk_def wpa_rekey_gmk_def wpa_rekey_gtk_def wpa_rekey_ptk_def
  wpa_gtk_rekey_def wpa_auth_countermeasures_start_def ieee80211_tkip_countermeasures_stop_def
  ieee80211_tkip_countermeasures_start_def count_mic_failure_def michael_mic_failure_def key_msg_of_def
  wpa_replay_counter_valid_def rx_acceptable_def rx_pairwise_2_def rx_switch_def rx_mic_def rx_request_def
  rx_deliver_def invalidate_replay_def rx_verified_def wpa_receive_def wpa_send_eapol_timeout_def
  wpa_sm_call_step_def wpa_auth_sm_notify_def wpa_auth_eapol_key_tx_status_def start_machines_def event_flags_def
  wpa_auth_sm_event_def zero_replay_def wpa_auth_sta_associated_def wpa_auth_sta_no_wpa_def sm_clear_pmksa_def
  wpa_auth_pmksa_free_cb_def with_cache_def wpa_auth_pmksa_add_def wpa_auth_pmksa_add_preauth_def zeroed_group_def
  wpa_group_init_def zeroed_auth_def zeroed_wpa_sm_def no_world_def wpa_init_def wpa_reconfig_def
  wpa_auth_sta_init_def wpa_auth_sta_deinit_def ap_free_sta_def wpa_auth_add_group_def wpa_auth_sta_set_vlan_def
  for_live_def Let_def pmksa_cache_auth_init_def wpa_key_mgmt_wpa_psk_def wpa_key_mgmt_wpa_ieee8021x_def
  wpa_send_eapol_def key_data_field_def wpa_sm_step_def neg_unf sm_loop_num try_num demo_run_def

definition demo_world :: "wpa_world option" where
  "demo_world = Option.bind (map_option snd (wpa_init demo_env [2, 0, 0, 0, 0, 0] demo_conf)) (run demo_env demo_run)"

lemma demo_init: "map_option fst (wpa_init demo_env [2, 0, 0, 0, 0, 0] demo_conf) = Some True"
  by (simp add: demo_unfold demo_eval cong: demo_weak if_weak_cong option.case_cong_weak)

definition keys_and_frames :: "wpa_world \<Rightarrow> wpa_log list" where
  "keys_and_frames w = filter (\<lambda>x. case x of SetKey _ _ _ _ _ \<Rightarrow> True | Received _ _ \<Rightarrow> True | _ \<Rightarrow> False) (w_log w)"

text \<open>The group key is configured, the old pairwise key removed, and the new one installed after both frames.\<close>

lemma demo_keys:
  "map_option keys_and_frames demo_world =
     Some [SetKey 0 WPA_ALG_CCMP broadcast_ether_addr 1 (replicate 16 1), SetKey 0 WPA_ALG_NONE [2, 0, 0, 0, 0, 1] 0 [],
       SetKey 0 WPA_ALG_CCMP broadcast_ether_addr 1 (replicate 16 1), Received [2, 0, 0, 0, 0, 1] demo_f2,
       Received [2, 0, 0, 0, 0, 1] demo_f4, SetKey 0 WPA_ALG_CCMP [2, 0, 0, 0, 0, 1] 0 (replicate 16 7)]"
  by (simp add: demo_world_def keys_and_frames_def demo_unfold demo_eval cong: demo_weak if_weak_cong option.case_cong_weak)

lemma filter_mem_split: "filter P xs = ys \<Longrightarrow> x \<in> set ys \<Longrightarrow> \<exists>l r. xs = l @ x # r"
  by (metis filter_is_subset split_list subsetD)

lemma demo_reached:
  "\<exists>w w' l r. wpa_init demo_env [2, 0, 0, 0, 0, 0] demo_conf = Some (True, w) \<and> run demo_env demo_run w = Some w' \<and>
     w_log w' = l @ SetKey 0 WPA_ALG_CCMP [2, 0, 0, 0, 0, 1] 0 (replicate 16 7) # r"
proof -
  obtain w where w: "wpa_init demo_env [2, 0, 0, 0, 0, 0] demo_conf = Some (True, w)"
    using demo_init by (cases "wpa_init demo_env [2, 0, 0, 0, 0, 0] demo_conf") auto
  obtain w' where d: "demo_world = Some w'" and k: "SetKey 0 WPA_ALG_CCMP [2, 0, 0, 0, 0, 1] 0 (replicate 16 7) \<in> set (keys_and_frames w')"
    using demo_keys by (cases demo_world) auto
  have r: "run demo_env demo_run w = Some w'" using d w by (simp add: demo_world_def)
  show ?thesis using w r filter_mem_split [OF refl k [unfolded keys_and_frames_def]] by blast
qed

theorem unicast_keys_confirmed_witness:
  "\<exists>w w' l r P f g l1 l2 l3. wpa_init demo_env [2, 0, 0, 0, 0, 0] demo_conf = Some (True, w) \<and>
     run demo_env demo_run w = Some w' \<and>
     w_log w' = l @ SetKey 0 WPA_ALG_CCMP [2, 0, 0, 0, 0, 1] 0 (replicate 16 7) # r \<and>
     l = l1 @ Received [2, 0, 0, 0, 0, 1] f # l2 @ Received [2, 0, 0, 0, 0, 1] g # l3 \<and>
     derived_ptk demo_env (a_addr (w_auth w')) [2, 0, 0, 0, 0, 1] f P \<and> wpa_verify_key_mic demo_crypto P g = 0"
proof -
  obtain w w' l r where d: "wpa_init demo_env [2, 0, 0, 0, 0, 0] demo_conf = Some (True, w)"
    "run demo_env demo_run w = Some w'" "w_log w' = l @ SetKey 0 WPA_ALG_CCMP [2, 0, 0, 0, 0, 1] 0 (replicate 16 7) # r"
    using demo_reached by blast
  have "\<exists>P f g l1 l2 l3. l = l1 @ Received [2, 0, 0, 0, 0, 1] f # l2 @ Received [2, 0, 0, 0, 0, 1] g # l3 \<and>
      derived_ptk demo_env (a_addr (w_auth w')) [2, 0, 0, 0, 0, 1] f P \<and>
      wpa_verify_key_mic (crypto demo_env) P g = 0 \<and>
      (replicate 16 7 = tk1 P \<or> replicate 16 7 = take 32 (tk1 P @ ptk_u P))"
    by (rule unicast_keys_confirmed [OF d]) code_simp+
  then show ?thesis using d unfolding demo_env(1) by blast
qed


end
