(* ===== verification/ZServer.thy ===== *)
theory ZServer
  imports Prelude
begin

section \<open>The pan-and-tilt server (\<^verbatim>\<open>z_service/src/z_server.c\<close>)\<close>

text \<open>
  The server forwards NUL-terminated text commands from one TCP client at a time to the
  micro-controller on the I2C bus and sends the reply back. Its state is the 16-byte array
  \<open>cmd\<close>, the offset \<open>j\<close> at which the next received chunk is stored (it lives in \<^verbatim>\<open>main\<close> and so
  survives a connection), and the I2C input still to be read, one entry per \<^verbatim>\<open>read\<close> call:
  \<open>Some b\<close> when the call returned 1 with byte \<open>b\<close>, \<open>None\<close> when it did not. Everything the
  server does to the outside is appended to \<open>zlog\<close>. A \<open>zfault\<close> is a step at which the C program
  leaves its defined behaviour, or (\<open>Starved\<close>) still waits for the bus.
\<close>

datatype zevent = I2CWrite "u8 list" | ClientWrite "u8 list" | RunSystem string

datatype zfault = Overrun | BadWriteLength | Starved

record zstate =
  cmd :: "u8 list"
  jpos :: nat
  i2c_in :: "u8 option list"
  zlog :: "zevent list"

text \<open>A result of \<^verbatim>\<open>recv\<close>: the bytes received (none when the peer closed) or the error -1.\<close>

datatype recv_ev = Recv "u8 list" | RecvErr

definition c_strlen :: "u8 list \<Rightarrow> nat" where
  "c_strlen a = length (takeWhile (\<lambda>b. b \<noteq> 0) a)"

definition emit_event :: "zevent \<Rightarrow> zstate \<Rightarrow> zstate" where
  "emit_event e st = st\<lparr>zlog := zlog st @ [e]\<rparr>"

subsection \<open>The reply loop\<close>

text \<open>
  \<^verbatim>\<open>for (i = 0; ; i++) { rr = read(file, &tmp, 1); if (rr != 1) continue; cmd[i] = tmp; ... }\<close>:
  the \<^verbatim>\<open>continue\<close> also increments \<open>i\<close>, and nothing bounds it.
\<close>

fun i2c_read_reply :: "nat \<Rightarrow> u8 list \<Rightarrow> u8 option list \<Rightarrow> zfault + (u8 list \<times> u8 option list)" where
  "i2c_read_reply i c [] = Inl Starved"
| "i2c_read_reply i c (None # inp) = i2c_read_reply (Suc i) c inp"
| "i2c_read_reply i c (Some t # inp) =
     (if i < length c
      then (let c' = c[i := t] in if t = 0 then Inr (c', inp) else i2c_read_reply (Suc i) c' inp)
      else Inl Overrun)"

definition read_reply :: "zstate \<Rightarrow> zfault + zstate" where
  "read_reply st =
     (case i2c_read_reply 0 (cmd st) (i2c_in st) of
        Inl f \<Rightarrow> Inl f
      | Inr (c, inp) \<Rightarrow> Inr (st\<lparr>cmd := c, i2c_in := inp\<rparr>))"

text \<open>One canned command: store it with its NUL, write it to the bus, read the reply.\<close>

definition send_canned :: "string \<Rightarrow> zstate \<Rightarrow> zfault + zstate" where
  "send_canned s st =
     (let c = ascii s @ [0] @ drop (length s + 1) (cmd st);
          st' = emit_event (I2CWrite (take (c_strlen c) c)) (st\<lparr>cmd := c\<rparr>)
      in read_reply st')"

fun send_all :: "string list \<Rightarrow> zstate \<Rightarrow> zfault + zstate" where
  "send_all [] st = Inr st"
| "send_all (s # ss) st = (case send_canned s st of Inl f \<Rightarrow> Inl f | Inr st' \<Rightarrow> send_all ss st')"

definition boot_sequence :: "zstate \<Rightarrow> zfault + zstate" where
  "boot_sequence st = send_all [''SSE0'', ''SLP255'', ''SLE1''] st"

definition beforeExit :: "u8 list \<Rightarrow> zstate \<Rightarrow> zfault + zstate" where
  "beforeExit local_cmd st = send_all [''SSE0'', ''SLP255'', ''SLE0''] (st\<lparr>cmd := local_cmd\<rparr>)"

definition on_accept :: "zstate \<Rightarrow> zfault + zstate" where
  "on_accept st = send_all [''SLP0'', ''SLE1'', ''SSE1''] (emit_event (RunSystem ''mjpg_streamer'') st)"

definition on_disconnect :: "zstate \<Rightarrow> zfault + zstate" where
  "on_disconnect st =
     send_all [''SSE0'', ''SLP255'', ''SLE1''] (emit_event (RunSystem ''killall mjpg_streamer'') st)"

subsection \<open>Collecting a command from the socket\<close>

text \<open>The loop over one received chunk; the result is \<open>cmd\<close>, \<open>i\<close>, \<open>j\<close> and \<open>process_cmd\<close>.\<close>

fun recv_loop :: "nat \<Rightarrow> u8 list \<Rightarrow> nat \<Rightarrow> u8 list \<Rightarrow> u8 list \<times> nat \<times> nat \<times> bool" where
  "recv_loop i [] j c = (c, i, j, False)"
| "recv_loop i (b # bs) j c =
     (if i + j > 15 then (c, i, 0, False)
      else (let c' = c[i + j := b]
            in if b = 0 then (c', i, 0, True) else recv_loop (Suc i) bs j c'))"

definition recv_chunk :: "u8 list \<Rightarrow> zstate \<Rightarrow> zstate \<times> bool" where
  "recv_chunk m st =
     (case recv_loop 0 m (jpos st) (cmd st) of
        (c, i, j, p) \<Rightarrow> (st\<lparr>cmd := c, jpos := (if i = length m then i else j)\<rparr>, p))"

subsection \<open>Forwarding a command\<close>

text \<open>
  After the reply has been read, a \<^verbatim>\<open>G\<close> command sends \<open>len - 2\<close> bytes from \<open>cmd + 3\<close>, with the NUL
  overwritten by a newline; \<open>len - 2\<close> is an \<^verbatim>\<open>int\<close> passed as a \<^verbatim>\<open>size_t\<close>, so for \<open>len < 2\<close> the
  count is not that of any object of the program. Every other command sends two bytes.
\<close>

definition answer_client :: "bool \<Rightarrow> zstate \<Rightarrow> zfault + zstate" where
  "answer_client flag st =
     (if flag then
        (let len = c_strlen (cmd st); c = (cmd st)[len := 10]
         in if len < 2 then Inl BadWriteLength
            else Inr (emit_event (ClientWrite (take (len - 2) (drop 3 c))) (st\<lparr>cmd := c\<rparr>)))
      else
        (let c = (cmd st)[1 := 10] in Inr (emit_event (ClientWrite (take 2 c)) (st\<lparr>cmd := c\<rparr>))))"

definition process_command :: "zstate \<Rightarrow> zfault + zstate" where
  "process_command st =
     (if c_strlen (cmd st) < 3 then Inr st
      else (let flag = (cmd st ! 0 = of_char (CHR ''G'') \<or> cmd st ! 0 = of_char (CHR ''g''));
                st1 = emit_event (I2CWrite (take (c_strlen (cmd st)) (cmd st))) st
            in case read_reply st1 of Inl f \<Rightarrow> Inl f | Inr st2 \<Rightarrow> answer_client flag st2))"

text \<open>The client loop over the results of \<^verbatim>\<open>recv\<close>; an empty event list is a server that waits.\<close>

fun client_loop :: "recv_ev list \<Rightarrow> zstate \<Rightarrow> zfault + zstate" where
  "client_loop [] st = Inr st"
| "client_loop (RecvErr # es) st = client_loop es st"
| "client_loop (Recv m # es) st =
     (if m = [] then on_disconnect st
      else (case recv_chunk m st of
              (st', p) \<Rightarrow>
                if p then (case process_command st' of Inl f \<Rightarrow> Inl f | Inr st'' \<Rightarrow> client_loop es st'')
                else client_loop es st'))"

text \<open>The next client is accepted only after this one has closed its connection.\<close>

fun accept_loop :: "recv_ev list list \<Rightarrow> zstate \<Rightarrow> zfault + zstate" where
  "accept_loop [] st = Inr st"
| "accept_loop (es # ess) st =
     (case on_accept st of Inl f \<Rightarrow> Inl f
      | Inr st' \<Rightarrow>
          (case client_loop es st' of Inl f \<Rightarrow> Inl f
           | Inr st'' \<Rightarrow> if Recv [] \<in> set es then accept_loop ess st'' else Inr st''))"

definition z_main :: "u8 list \<Rightarrow> u8 option list \<Rightarrow> recv_ev list list \<Rightarrow> zfault + zstate" where
  "z_main uninit inp clients =
     (case boot_sequence \<lparr>cmd = uninit, jpos = 0, i2c_in = inp, zlog = []\<rparr> of
        Inl f \<Rightarrow> Inl f | Inr st \<Rightarrow> accept_loop clients st)"

subsection \<open>Facts on the loops\<close>

lemma c_strlen_append: "0 \<notin> set r \<Longrightarrow> c_strlen (r @ 0 # d) = length r"
  unfolding c_strlen_def by (subst takeWhile_append2) auto

lemma c_strlen_less: "0 \<in> set c \<Longrightarrow> c_strlen c < length c"
  unfolding c_strlen_def
  by (induction c) auto

lemma take_c_strlen: "take (c_strlen c) c = takeWhile (\<lambda>b. b \<noteq> 0) c"
  unfolding c_strlen_def by (metis takeWhile_eq_take)

lemma zero_notin_command: "0 \<notin> set (take (c_strlen c) c)"
  by (metis (mono_tags, lifting) set_takeWhileD take_c_strlen)

lemma length_command: "length (take (c_strlen c) c) = c_strlen c"
  by (simp add: c_strlen_def length_takeWhile_le min_absorb2)

lemma list_update_split: "i < length c \<Longrightarrow> c[i := t] = take i c @ t # drop (Suc i) c"
  by (rule upd_conv_take_nth_drop)

lemma i2c_read_reply_prompt:
  "0 \<notin> set r \<Longrightarrow> i + length r < length c \<Longrightarrow>
   i2c_read_reply i c (map Some r @ Some 0 # rest) =
     Inr (take i c @ r @ 0 # drop (Suc (i + length r)) c, rest)"
proof (induction r arbitrary: i c)
  case Nil
  then show ?case by (simp add: Let_def list_update_split)
next
  case (Cons t r)
  have "i < length c" "t \<noteq> 0" using Cons.prems by auto
  then have "i2c_read_reply i c (map Some (t # r) @ Some 0 # rest) =
      i2c_read_reply (Suc i) (c[i := t]) (map Some r @ Some 0 # rest)"
    by (simp add: Let_def)
  also have "\<dots> = Inr (take (Suc i) (c[i := t]) @ r @ 0 # drop (Suc (Suc i + length r)) (c[i := t]), rest)"
    by (rule Cons.IH) (use Cons.prems in auto)
  also have "take (Suc i) (c[i := t]) = take i c @ [t]"
    using \<open>i < length c\<close> by (simp add: take_Suc_conv_app_nth)
  finally show ?case by (simp add: drop_update_cancel)
qed

lemma i2c_read_reply_length: "i2c_read_reply i c inp = Inr (c', inp') \<Longrightarrow> length c' = length c"
  by (induction i c inp rule: i2c_read_reply.induct) (auto simp: Let_def split: if_splits)

lemma i2c_read_reply_overrun:
  "i2c_read_reply i c inp = Inl Overrun \<longleftrightarrow>
   (\<exists>k < length inp. length c \<le> i + k \<and> inp ! k \<noteq> None \<and> Some 0 \<notin> set (take k inp))"
proof (induction i c inp rule: i2c_read_reply.induct)
  case (1 i c)
  then show ?case by simp
next
  case (2 i c inp)
  show ?case
    unfolding i2c_read_reply.simps "2.IH" by (auto simp: less_Suc_eq_0_disj)
next
  case (3 i c t inp)
  show ?case
  proof (cases "i < length c \<and> t \<noteq> 0")
    case True
    then have "i2c_read_reply i c (Some t # inp) = i2c_read_reply (Suc i) (c[i := t]) inp"
      by (simp add: Let_def)
    then show ?thesis using "3.IH" [OF _ refl] True by (auto simp: less_Suc_eq_0_disj)
  next
    case False
    then show ?thesis
      by (cases "i < length c") (auto simp: Let_def take_Cons' intro!: exI [of _ 0] split: if_splits)
  qed
qed

lemma recv_loop_length: "recv_loop i m j c = (c', i', j', p) \<Longrightarrow> length c' = length c"
  by (induction i m j c rule: recv_loop.induct) (auto simp: Let_def split: if_splits)

lemma recv_loop_position: "recv_loop i m j c = (c', i', j', p) \<Longrightarrow> i' \<le> i + length m \<and> (j' = 0 \<or> j' = j)"
  by (induction i m j c rule: recv_loop.induct) (auto simp: Let_def split: if_splits)

lemma recv_loop_index: "recv_loop i m j c = (c', i', j', p) \<Longrightarrow> i' \<le> max i (16 - j)"
proof (induction i m j c rule: recv_loop.induct)
  case (1 i j c)
  then show ?case by simp
next
  case (2 i b bs j c)
  then show ?case by (cases "16 \<le> i + j"; cases "b = 0") (auto simp: Let_def max_def split: if_splits)
qed

lemma recv_loop_terminated:
  "recv_loop i m j c = (c', i', j', True) \<Longrightarrow> length c = 16 \<Longrightarrow> 0 \<in> set c'"
proof (induction i m j c rule: recv_loop.induct)
  case (1 i j c)
  then show ?case by simp
next
  case (2 i b bs j c)
  then show ?case by (cases "b = 0") (auto simp: Let_def set_update_memI split: if_splits)
qed

lemma recv_loop_stores:
  "0 \<notin> set m \<Longrightarrow> i + j + length m \<le> 16 \<Longrightarrow> length c = 16 \<Longrightarrow>
   recv_loop i m j c = (take (i + j) c @ m @ drop (i + j + length m) c, i + length m, j, False)"
proof (induction m arbitrary: i c)
  case Nil
  then show ?case by simp
next
  case (Cons b bs)
  then have "recv_loop i (b # bs) j c = recv_loop (Suc i) bs j (c[i + j := b])"
    by (simp add: Let_def)
  also have "\<dots> = (take (Suc i + j) (c[i + j := b]) @ bs @ drop (Suc i + j + length bs) (c[i + j := b]),
      Suc i + length bs, j, False)"
    by (rule Cons.IH) (use Cons.prems in auto)
  finally show ?case
    using Cons.prems by (simp add: take_Suc_conv_app_nth drop_update_cancel)
qed

lemma recv_loop_stores_end:
  "0 \<notin> set m \<Longrightarrow> i + j + length m < 16 \<Longrightarrow> length c = 16 \<Longrightarrow>
   recv_loop i (m @ [0]) j c =
     (take (i + j) c @ m @ 0 # drop (Suc (i + j + length m)) c, i + length m, 0, True)"
proof (induction m arbitrary: i c)
  case Nil
  then show ?case by (simp add: Let_def list_update_split)
next
  case (Cons b bs)
  then have "recv_loop i ((b # bs) @ [0]) j c = recv_loop (Suc i) (bs @ [0]) j (c[i + j := b])"
    by (simp add: Let_def)
  also have "\<dots> = (take (Suc i + j) (c[i + j := b]) @ bs @
      0 # drop (Suc (Suc i + j + length bs)) (c[i + j := b]), Suc i + length bs, 0, True)"
    by (rule Cons.IH) (use Cons.prems in auto)
  finally show ?case
    using Cons.prems by (simp add: take_Suc_conv_app_nth drop_update_cancel)
qed

subsection \<open>The invariant of the server\<close>

text \<open>Every command put on the bus has 3 to 15 characters and no NUL among them.\<close>

fun event_ok :: "zevent \<Rightarrow> bool" where
  "event_ok (I2CWrite w) = (3 \<le> length w \<and> length w \<le> 15 \<and> 0 \<notin> set w)"
| "event_ok (ClientWrite w) = (length w \<le> 13)"
| "event_ok (RunSystem s) = True"

definition zinv :: "zstate \<Rightarrow> bool" where
  "zinv st \<longleftrightarrow> length (cmd st) = 16 \<and> jpos st \<le> 16 \<and> (\<forall>e \<in> set (zlog st). event_ok e)"

definition res_inv :: "zfault + zstate \<Rightarrow> bool" where
  "res_inv r \<longleftrightarrow> (\<forall>st. r = Inr st \<longrightarrow> zinv st)"

lemma res_inv_simps [simp]: "res_inv (Inl f)" "res_inv (Inr st) = zinv st"
  by (simp_all add: res_inv_def)

lemma res_inv_bind:
  "res_inv r \<Longrightarrow> (\<And>st. r = Inr st \<Longrightarrow> zinv st \<Longrightarrow> res_inv (k st)) \<Longrightarrow>
   res_inv (case r of Inl f \<Rightarrow> Inl f | Inr st \<Rightarrow> k st)"
  by (cases r) auto

lemma zinv_emit: "zinv st \<Longrightarrow> event_ok e \<Longrightarrow> zinv (emit_event e st)"
  by (auto simp: zinv_def emit_event_def)

lemma read_reply_inv: "zinv st \<Longrightarrow> res_inv (read_reply st)"
  by (auto simp: read_reply_def zinv_def dest: i2c_read_reply_length split: sum.splits)

lemma send_canned_inv:
  assumes "zinv st" "3 \<le> length s" "length s \<le> 15" "0 \<notin> set (ascii s)"
  shows "res_inv (send_canned s st)"
proof -
  let ?c = "ascii s @ [0] @ drop (length s + 1) (cmd st)"
  have "c_strlen ?c = length s"
    using c_strlen_append [OF assms(4), of "drop (length s + 1) (cmd st)"] by (simp add: ascii_def)
  then have "event_ok (I2CWrite (take (c_strlen ?c) ?c))"
    using assms(2-4) by (simp add: ascii_def)
  moreover have "zinv (st\<lparr>cmd := ?c\<rparr>)" using assms(1,3) by (simp add: zinv_def ascii_def)
  ultimately show ?thesis
    unfolding send_canned_def Let_def by (intro read_reply_inv zinv_emit)
qed

lemma send_all_inv:
  "zinv st \<Longrightarrow> \<forall>s \<in> set ss. 3 \<le> length s \<and> length s \<le> 15 \<and> 0 \<notin> set (ascii s) \<Longrightarrow>
   res_inv (send_all ss st)"
  by (induction ss arbitrary: st) (auto intro!: res_inv_bind send_canned_inv)

lemma canned_sequences_inv:
  assumes "zinv st"
  shows "res_inv (boot_sequence st)" "res_inv (on_accept st)" "res_inv (on_disconnect st)"
proof -
  have *: "zinv (emit_event (RunSystem s) st)" for s using assms by (intro zinv_emit) auto
  show "res_inv (boot_sequence st)" unfolding boot_sequence_def
    by (rule send_all_inv [OF assms]) (simp add: ascii_def)
  show "res_inv (on_accept st)" unfolding on_accept_def
    by (rule send_all_inv [OF *]) (simp add: ascii_def)
  show "res_inv (on_disconnect st)" unfolding on_disconnect_def
    by (rule send_all_inv [OF *]) (simp add: ascii_def)
qed

lemma answer_client_inv: "zinv st \<Longrightarrow> res_inv (answer_client flag st)"
  by (auto simp: answer_client_def Let_def zinv_def emit_event_def)

lemma recv_chunk_inv:
  assumes "zinv st" "recv_chunk m st = (st', p)"
  shows "zinv st' \<and> (p \<longrightarrow> 0 \<in> set (cmd st'))"
proof -
  obtain c i j where r: "recv_loop 0 m (jpos st) (cmd st) = (c, i, j, p)"
    and st': "st' = st\<lparr>cmd := c, jpos := (if i = length m then i else j)\<rparr>"
    using assms(2) by (auto simp: recv_chunk_def split: prod.splits)
  have "i \<le> 16"
    using recv_loop_index [OF r] assms(1) by (simp add: zinv_def)
  moreover have "j \<le> 16" using recv_loop_position [OF r] assms(1) by (auto simp: zinv_def)
  moreover have "p \<Longrightarrow> 0 \<in> set c"
    using recv_loop_terminated [of 0 m] r assms(1) by (auto simp: zinv_def)
  ultimately show ?thesis using assms(1) r st' by (auto simp: zinv_def dest: recv_loop_length)
qed

lemma process_command_inv:
  assumes "zinv st" "0 \<in> set (cmd st)"
  shows "res_inv (process_command st)"
proof -
  have l: "c_strlen (cmd st) < 16" using c_strlen_less assms by (fastforce simp: zinv_def)
  have w: "\<not> c_strlen (cmd st) < 3 \<Longrightarrow> event_ok (I2CWrite (take (c_strlen (cmd st)) (cmd st)))"
    unfolding event_ok.simps length_command using l zero_notin_command by auto
  show ?thesis
    unfolding process_command_def Let_def
    by (auto intro!: res_inv_bind read_reply_inv zinv_emit assms w answer_client_inv)
qed

lemma client_loop_inv: "zinv st \<Longrightarrow> res_inv (client_loop es st)"
proof (induction es st rule: client_loop.induct)
  case (1 st)
  then show ?case by simp
next
  case (2 es st)
  then show ?case by simp
next
  case (3 m es st)
  show ?case
  proof (cases "m = []")
    case True
    then show ?thesis using "3.prems" by (simp add: canned_sequences_inv)
  next
    case False
    obtain st' p where r: "recv_chunk m st = (st', p)" by fastforce
    note i = recv_chunk_inv [OF "3.prems" r]
    show ?thesis
      using False r i "3.IH" [OF False r [symmetric]] process_command_inv
      by (auto intro!: res_inv_bind)
  qed
qed

lemma accept_loop_inv: "zinv st \<Longrightarrow> res_inv (accept_loop ess st)"
  by (induction ess arbitrary: st) (auto intro!: res_inv_bind canned_sequences_inv client_loop_inv)

subsection \<open>What a command and its reply become\<close>

definition is_get :: "u8 list \<Rightarrow> bool" where
  "is_get x \<longleftrightarrow> x ! 0 = of_char (CHR ''G'') \<or> x ! 0 = of_char (CHR ''g'')"

text \<open>The bytes the client is sent for a reply \<open>r\<close>.\<close>

definition client_answer :: "u8 list \<Rightarrow> u8 list \<Rightarrow> u8 list" where
  "client_answer x r =
     (if is_get x then (if length r = 2 then [] else drop 3 r @ [10])
      else [if r = [] then 0 else r ! 0, 10])"

lemma read_reply_prompt:
  assumes "i2c_in st = map Some r @ Some 0 # rest" "0 \<notin> set r" "length r < length (cmd st)"
  shows "read_reply st = Inr (st\<lparr>cmd := r @ 0 # drop (Suc (length r)) (cmd st), i2c_in := rest\<rparr>)"
  using i2c_read_reply_prompt [of r 0 "cmd st" rest] assms by (simp add: read_reply_def)

lemma answer_client_reply:
  assumes "cmd st = r @ 0 # d" "0 \<notin> set r" "length (cmd st) = 16" "is_get x \<Longrightarrow> 2 \<le> length r"
  shows "\<exists>c. length c = 16 \<and> answer_client (is_get x) st =
     Inr (emit_event (ClientWrite (client_answer x r)) (st\<lparr>cmd := c\<rparr>))"
proof (cases "is_get x")
  case True
  have "take (length r - 2) (drop 3 (r @ 10 # d)) = (if length r = 2 then [] else drop 3 r @ [10])"
    using assms(4) [OF True] by (auto simp: take_append not_le numeral_eq_Suc Suc_diff_Suc split: nat_diff_split)
  then have "answer_client (is_get x) st =
      Inr (emit_event (ClientWrite (client_answer x r)) (st\<lparr>cmd := r @ 10 # d\<rparr>))"
    using True assms by (simp add: answer_client_def c_strlen_append client_answer_def Let_def not_less)
  then show ?thesis using assms(1,3) by (intro exI [of _ "r @ 10 # d"]) simp
next
  case False
  have "1 < length (cmd st)" using assms(3) by simp
  then have "take 2 ((cmd st)[1 := 10]) = [cmd st ! 0, 10]"
    by (cases "cmd st"; cases "tl (cmd st)") (auto simp: numeral_2_eq_2)
  then have "answer_client (is_get x) st =
      Inr (emit_event (ClientWrite (client_answer x r)) (st\<lparr>cmd := (cmd st)[1 := 10]\<rparr>))"
    using False assms by (cases r) (auto simp: answer_client_def client_answer_def Let_def)
  then show ?thesis using assms(3) by (intro exI [of _ "(cmd st)[1 := 10]"]) simp
qed

lemma process_command_reply:
  assumes "cmd st = x @ 0 # d" "0 \<notin> set x" "3 \<le> length x" "length (cmd st) = 16"
    and "i2c_in st = map Some r @ Some 0 # rest" "0 \<notin> set r" "length r < 16"
    and "is_get x \<Longrightarrow> 2 \<le> length r"
  shows "\<exists>c. length c = 16 \<and> process_command st =
     Inr (st\<lparr>cmd := c, i2c_in := rest,
            zlog := zlog st @ [I2CWrite x, ClientWrite (client_answer x r)]\<rparr>)"
proof -
  let ?st1 = "emit_event (I2CWrite x) st"
  define d' where "d' = drop (Suc (length r)) (cmd st)"
  let ?st2 = "?st1\<lparr>cmd := r @ 0 # d', i2c_in := rest\<rparr>"
  have get: "is_get x = (cmd st ! 0 = of_char (CHR ''G'') \<or> cmd st ! 0 = of_char (CHR ''g''))"
    using assms(1,3) by (cases x) (auto simp: is_get_def)
  have "read_reply ?st1 = Inr ?st2"
    using read_reply_prompt [of ?st1 r rest] assms by (simp add: emit_event_def d'_def)
  moreover have "c_strlen (cmd st) = length x" using assms(1,2) c_strlen_append by simp
  moreover have "take (length x) (cmd st) = x" using assms(1) by simp
  moreover obtain c where "length c = 16" "answer_client (is_get x) ?st2 =
      Inr (emit_event (ClientWrite (client_answer x r)) (?st2\<lparr>cmd := c\<rparr>))"
    using answer_client_reply [of ?st2 r d' x] assms(4,6-8) by (auto simp: d'_def)
  ultimately show ?thesis
    using assms(3) by (auto simp: process_command_def Let_def get emit_event_def)
qed

text \<open>The canned sequences do not touch the offset.\<close>

lemma read_reply_jpos [frame_simps]: "read_reply st = Inr st' \<Longrightarrow> jpos st' = jpos st"
  by (auto simp: read_reply_def split: sum.splits)

lemma send_all_jpos [frame_simps]: "send_all ss st = Inr st' \<Longrightarrow> jpos st' = jpos st"
  by (induction ss arbitrary: st)
    (fastforce simp: send_canned_def emit_event_def Let_def dest: read_reply_jpos split: sum.splits)+

subsection \<open>Properties\<close>



text \<open>
  C23: the loop that reads a reply from the bus stores outside the 16-byte array exactly when some
  successful read at loop index 16 or later is reached with no NUL read before it; failed reads
  count, because the \<^verbatim>\<open>continue\<close> of the loop increments the index too.
\<close>

theorem read_reply_overrun_iff:
  "read_reply st = Inl Overrun \<longleftrightarrow>
   (\<exists>k < length (i2c_in st). length (cmd st) \<le> k \<and> i2c_in st ! k \<noteq> None \<and>
      Some 0 \<notin> set (take k (i2c_in st)))"
  using i2c_read_reply_overrun [of 0 "cmd st" "i2c_in st"]
  by (auto simp: read_reply_def split: sum.splits)

text \<open>
  A command of 3 to 15 characters that arrives in one chunk with its NUL, when no earlier
  chunk is pending, is put on the bus as it is, and the client gets the part of the reply the
  protocol gives it: the bytes from the fourth on and a newline for a \<^verbatim>\<open>G\<close> command, the first
  byte and a newline otherwise. The server then waits for the next chunk with offset 0.
\<close>

theorem command_round_trip:
  assumes "length (cmd st) = 16" "jpos st = 0"
    and "0 \<notin> set x" "3 \<le> length x" "length x \<le> 15"
    and "i2c_in st = map Some r @ Some 0 # rest" "0 \<notin> set r" "length r \<le> 15"
    and "is_get x \<Longrightarrow> 2 \<le> length r"
  shows "\<exists>st'. client_loop [Recv (x @ [0])] st = Inr st' \<and>
    zlog st' = zlog st @ [I2CWrite x, ClientWrite (client_answer x r)] \<and>
    jpos st' = 0 \<and> i2c_in st' = rest \<and> length (cmd st') = 16"
proof -
  let ?st1 = "st\<lparr>cmd := x @ 0 # drop (Suc (length x)) (cmd st), jpos := 0\<rparr>"
  have "recv_chunk (x @ [0]) st = (?st1, True)"
    using recv_loop_stores_end [of x 0 0 "cmd st"] assms(1-5) by (simp add: recv_chunk_def)
  moreover obtain c where "length c = 16" "process_command ?st1 =
      Inr (?st1\<lparr>cmd := c, i2c_in := rest,
        zlog := zlog ?st1 @ [I2CWrite x, ClientWrite (client_answer x r)]\<rparr>)"
    using process_command_reply [of ?st1 x "drop (Suc (length x)) (cmd st)" r rest] assms by auto
  ultimately show ?thesis by simp
qed

theorem command_round_trip_witness:
  "\<exists>st'. client_loop [Recv (ascii ''GLP'' @ [0])]
       \<lparr>cmd = replicate 16 0, jpos = 0, i2c_in = map Some (ascii ''GLP25'') @ [Some 0], zlog = []\<rparr> = Inr st' \<and>
     zlog st' = [I2CWrite (ascii ''GLP''), ClientWrite (ascii ''25'' @ [10])]"
proof -
  let ?st = "\<lparr>cmd = replicate 16 0, jpos = 0, i2c_in = map Some (ascii ''GLP25'') @ [Some 0], zlog = []\<rparr>"
  have "\<exists>st'. client_loop [Recv (ascii ''GLP'' @ [0])] ?st = Inr st' \<and>
      zlog st' = zlog ?st @ [I2CWrite (ascii ''GLP''), ClientWrite (client_answer (ascii ''GLP'') (ascii ''GLP25''))] \<and>
      jpos st' = 0 \<and> i2c_in st' = [] \<and> length (cmd st') = 16"
    by (rule command_round_trip) (simp_all add: ascii_def)
  moreover have "client_answer (ascii ''GLP'') (ascii ''GLP25'') = ascii ''25'' @ [10]"
    by (simp add: client_answer_def is_get_def ascii_def)
  ultimately show ?thesis by auto
qed

text \<open>
  A command that arrives in three chunks \<open>a\<close>, \<open>b\<close>, \<open>c\<close> (none before the last holding a NUL)
  is not reassembled: after the second chunk the offset is the length of \<open>b\<close> instead of the length
  of \<open>a @ b\<close>, so the last chunk is stored over the text already received. The array then holds the
  first \<open>length b\<close> bytes of \<open>a @ b\<close> followed by \<open>c\<close>. Two chunks (\<open>a\<close> empty) are reassembled.
\<close>

theorem three_chunks_misplaced:
  assumes "length (cmd st) = 16" "jpos st = 0"
    and "0 \<notin> set a" "0 \<notin> set b" "0 \<notin> set c" "length a + length b + length c < 16"
  shows "\<exists>st1 st2 st3. recv_chunk a st = (st1, False) \<and> recv_chunk b st1 = (st2, False) \<and>
    recv_chunk (c @ [0]) st2 = (st3, True) \<and> jpos st2 = length b \<and>
    take (c_strlen (cmd st3)) (cmd st3) = take (length b) (a @ b) @ c"
proof -
  let ?c1 = "a @ drop (length a) (cmd st)"
  let ?st1 = "st\<lparr>cmd := ?c1, jpos := length a\<rparr>"
  let ?c2 = "a @ b @ drop (length a + length b) (cmd st)"
  let ?st2 = "st\<lparr>cmd := ?c2, jpos := length b\<rparr>"
  let ?c3 = "take (length b) (a @ b) @ c @ 0 # drop (Suc (length b + length c)) ?c2"
  have 1: "recv_chunk a st = (?st1, False)"
    using recv_loop_stores [of a 0 0 "cmd st"] assms by (simp add: recv_chunk_def)
  have 2: "recv_chunk b ?st1 = (?st2, False)"
    using recv_loop_stores [of b 0 "length a" ?c1] assms by (simp add: recv_chunk_def add.commute)
  have l: "length ?c2 = 16" using assms(1,6) by simp
  have t: "take (length b) ?c2 = take (length b) (a @ b)" by simp
  have 3: "recv_chunk (c @ [0]) ?st2 = (?st2\<lparr>cmd := ?c3, jpos := 0\<rparr>, True)"
    using recv_loop_stores_end [of c 0 "length b" ?c2] assms l t by (simp add: recv_chunk_def)
  have "c_strlen ?c3 = length (take (length b) (a @ b) @ c)"
    using c_strlen_append [of "take (length b) (a @ b) @ c" "drop (Suc (length b + length c)) ?c2"] assms(3-5)
    by (auto dest: in_set_takeD)
  then show ?thesis using 1 2 3 by (intro exI conjI) (assumption | simp)+
qed

theorem three_chunks_misplaced_witness:
  "\<exists>st1 st2 st3. recv_chunk (ascii ''SL'') \<lparr>cmd = replicate 16 0, jpos = 0, i2c_in = [], zlog = []\<rparr> = (st1, False) \<and>
     recv_chunk (ascii ''P2'') st1 = (st2, False) \<and> recv_chunk (ascii ''55'' @ [0]) st2 = (st3, True) \<and>
     take (c_strlen (cmd st3)) (cmd st3) = ascii ''SL55''"
  using three_chunks_misplaced [of "\<lparr>cmd = replicate 16 0, jpos = 0, i2c_in = [], zlog = []\<rparr>"
      "ascii ''SL''" "ascii ''P2''" "ascii ''55''"]
  by (force simp: ascii_def)

text \<open>
  A client that disconnects in the middle of a command leaves its offset behind: \<open>j\<close> is not
  reset, so after the next connection has been accepted the offset still is the number of bytes
  the old client had sent, and a complete command of the new client is stored behind as many
  left-over bytes of the array.
\<close>

theorem partial_command_survives_disconnect:
  assumes "length (cmd st) = 16" "jpos st = 0" "m \<noteq> []" "0 \<notin> set m" "length m + length x < 16" "0 \<notin> set x"
    and "client_loop [Recv m, Recv []] st = Inr st1" "on_accept st1 = Inr st2" "length (cmd st2) = 16"
  shows "jpos st2 = length m \<and> recv_chunk (x @ [0]) st2 =
    (st2\<lparr>cmd := take (length m) (cmd st2) @ x @ 0 # drop (Suc (length m + length x)) (cmd st2), jpos := 0\<rparr>, True)"
proof -
  let ?st0 = "st\<lparr>cmd := m @ drop (length m) (cmd st), jpos := length m\<rparr>"
  have "recv_chunk m st = (?st0, False)"
    using recv_loop_stores [of m 0 0 "cmd st"] assms(1,2,4,5) by (simp add: recv_chunk_def)
  then have "on_disconnect ?st0 = Inr st1" using assms(3,7) by simp
  then have "jpos st1 = length m" unfolding on_disconnect_def by (auto dest!: send_all_jpos simp: emit_event_def simp del: send_all.simps)
  then have "jpos st2 = length m"
    using assms(8) unfolding on_accept_def by (auto dest!: send_all_jpos simp: emit_event_def simp del: send_all.simps)
  then show ?thesis
    using recv_loop_stores_end [of x 0 "length m" "cmd st2"] assms(5,6,9) by (simp add: recv_chunk_def)
qed

theorem partial_command_survives_disconnect_witness:
  "\<exists>st1 st2. client_loop [Recv (ascii ''SL''), Recv []]
       \<lparr>cmd = replicate 16 0, jpos = 0, i2c_in = replicate 6 (Some 0), zlog = []\<rparr> = Inr st1 \<and>
     on_accept st1 = Inr st2 \<and> jpos st2 = 2"
proof -
  let ?st = "\<lparr>cmd = replicate 16 0, jpos = 0, i2c_in = replicate 6 (Some 0), zlog = []\<rparr>"
  let ?r1 = "client_loop [Recv (ascii ''SL''), Recv []] ?st"
  have "\<not> isl ?r1" by code_simp
  then obtain st1 where 1: "?r1 = Inr st1" by (cases ?r1) auto
  have "case ?r1 of Inl _ \<Rightarrow> False | Inr s \<Rightarrow> \<not> isl (on_accept s)" by code_simp
  then obtain st2 where 2: "on_accept st1 = Inr st2" using 1 by (cases "on_accept st1") auto
  have "case ?r1 of Inl _ \<Rightarrow> False | Inr s \<Rightarrow>
      (case on_accept s of Inl _ \<Rightarrow> False | Inr s' \<Rightarrow> length (cmd s') = 16)" by code_simp
  then have "length (cmd st2) = 16" using 1 2 by simp
  then have "jpos st2 = length (ascii ''SL'')"
    using partial_command_survives_disconnect [OF _ _ _ _ _ _ 1 2, of "[]"] by (simp add: ascii_def)
  then show ?thesis using 1 2 by (auto simp: ascii_def)
qed

end
