(* ===== verification/Wpabuf.thy ===== *)
theory Wpabuf
  imports Prelude
begin

section \<open>Dynamic data buffers (\<^verbatim>\<open>utils/wpabuf.c\<close>, \<^verbatim>\<open>utils/wpabuf.h\<close>)\<close>

text \<open>
  A buffer is the header of \<^verbatim>\<open>struct wpabuf\<close> (\<open>bsize\<close>, \<open>bused\<close>, whether the data is external) and
  the memory its data pointer refers to. A \<^verbatim>\<open>NULL\<close> buffer is \<open>None\<close>. Sizes are 32-bit
  \<^verbatim>\<open>size_t\<close> values: sums wrap. Allocation may fail: the flag \<open>ok\<close> of an operation says
  whether its allocation succeeds. \<open>Aborted\<close> is the \<^verbatim>\<open>abort()\<close> of \<^verbatim>\<open>wpabuf_overflow\<close>;
  \<open>HeapOverflow\<close> is a copy past the end of the allocated memory. The build is without
  \<^verbatim>\<open>WPA_TRACE\<close>.
\<close>

record wpabuf =
  bsize :: nat
  bused :: nat
  bext :: bool
  bdata :: "u8 list"

datatype 'a wres = WOk 'a | Aborted | HeapOverflow

fun wbind :: "'a wres \<Rightarrow> ('a \<Rightarrow> 'b wres) \<Rightarrow> 'b wres" where
  "wbind (WOk a) k = k a"
| "wbind Aborted k = Aborted"
| "wbind HeapOverflow k = HeapOverflow"

text \<open>\<^verbatim>\<open>sizeof(struct wpabuf)\<close> on the 32-bit target.\<close>

definition wpabuf_header :: nat where
  "wpabuf_header = 12"

definition wpabuf_size :: "wpabuf \<Rightarrow> nat" where
  "wpabuf_size b = bsize b"

definition wpabuf_len :: "wpabuf \<Rightarrow> nat" where
  "wpabuf_len b = bused b"

definition wpabuf_tailroom :: "wpabuf \<Rightarrow> nat" where
  "wpabuf_tailroom b = bsize b - bused b"

definition wpabuf_alloc :: "bool \<Rightarrow> nat \<Rightarrow> wpabuf option" where
  "wpabuf_alloc ok len =
     (if ok then Some \<lparr>bsize = len, bused = 0, bext = False,
                       bdata = replicate (szadd wpabuf_header len - wpabuf_header) 0\<rparr>
      else None)"

definition wpabuf_alloc_ext_data :: "bool \<Rightarrow> u8 list \<Rightarrow> wpabuf option" where
  "wpabuf_alloc_ext_data ok d =
     (if ok then Some \<lparr>bsize = length d, bused = length d, bext = True, bdata = d\<rparr> else None)"

text \<open>\<^verbatim>\<open>wpabuf_resize\<close>: the return code and the buffer the caller holds afterwards.\<close>

definition wpabuf_resize :: "bool \<Rightarrow> wpabuf option \<Rightarrow> nat \<Rightarrow> int \<times> wpabuf option" where
  "wpabuf_resize ok buf add_len =
     (case buf of
        None \<Rightarrow> (case wpabuf_alloc ok add_len of None \<Rightarrow> (-1, None) | Some b \<Rightarrow> (0, Some b))
      | Some b \<Rightarrow>
          if szadd (bused b) add_len > bsize b then
            (if ok then
               (0, Some (b\<lparr>bdata := take (bused b) (bdata b) @ replicate add_len 0,
                           bsize := szadd (bused b) add_len\<rparr>))
             else (-1, Some b))
          else (0, Some b))"

text \<open>\<^verbatim>\<open>wpabuf_put\<close>: the offset of the reserved room and the buffer.\<close>

definition wpabuf_put :: "wpabuf \<Rightarrow> nat \<Rightarrow> (nat \<times> wpabuf) wres" where
  "wpabuf_put b len =
     (let used' = szadd (bused b) len
      in if used' > bsize b then Aborted else WOk (bused b, b\<lparr>bused := used'\<rparr>))"

definition copy_into :: "wpabuf \<Rightarrow> nat \<Rightarrow> u8 list \<Rightarrow> wpabuf wres" where
  "copy_into b off d =
     (if off + length d \<le> length (bdata b)
      then WOk (b\<lparr>bdata := take off (bdata b) @ d @ drop (off + length d) (bdata b)\<rparr>)
      else HeapOverflow)"

definition wpabuf_put_data :: "wpabuf \<Rightarrow> u8 list \<Rightarrow> wpabuf wres" where
  "wpabuf_put_data b d = wbind (wpabuf_put b (length d)) (\<lambda>(off, b'). copy_into b' off d)"

definition wpabuf_head :: "wpabuf \<Rightarrow> u8 list" where
  "wpabuf_head b = take (bused b) (bdata b)"

definition wpabuf_put_u8 :: "wpabuf \<Rightarrow> u8 \<Rightarrow> wpabuf wres" where
  "wpabuf_put_u8 b v = wbind (wpabuf_put b 1) (\<lambda>(off, b'). copy_into b' off [v])"

definition wpabuf_put_le16 :: "wpabuf \<Rightarrow> u16 \<Rightarrow> wpabuf wres" where
  "wpabuf_put_le16 b v = wbind (wpabuf_put b 2) (\<lambda>(off, b'). copy_into b' off (WPA_PUT_LE16 v))"

definition wpabuf_put_le32 :: "wpabuf \<Rightarrow> u32 \<Rightarrow> wpabuf wres" where
  "wpabuf_put_le32 b v = wbind (wpabuf_put b 4) (\<lambda>(off, b'). copy_into b' off (WPA_PUT_LE32 v))"

definition wpabuf_put_be16 :: "wpabuf \<Rightarrow> u16 \<Rightarrow> wpabuf wres" where
  "wpabuf_put_be16 b v = wbind (wpabuf_put b 2) (\<lambda>(off, b'). copy_into b' off (WPA_PUT_BE16 v))"

definition wpabuf_put_be24 :: "wpabuf \<Rightarrow> u32 \<Rightarrow> wpabuf wres" where
  "wpabuf_put_be24 b v = wbind (wpabuf_put b 3) (\<lambda>(off, b'). copy_into b' off (WPA_PUT_BE24 v))"

definition wpabuf_put_be32 :: "wpabuf \<Rightarrow> u32 \<Rightarrow> wpabuf wres" where
  "wpabuf_put_be32 b v = wbind (wpabuf_put b 4) (\<lambda>(off, b'). copy_into b' off (WPA_PUT_BE32 v))"

definition wpabuf_put_buf :: "wpabuf \<Rightarrow> wpabuf \<Rightarrow> wpabuf wres" where
  "wpabuf_put_buf dst src = wpabuf_put_data dst (wpabuf_head src)"

definition wpabuf_alloc_copy :: "bool \<Rightarrow> u8 list \<Rightarrow> wpabuf option wres" where
  "wpabuf_alloc_copy ok d =
     (case wpabuf_alloc ok (length d) of None \<Rightarrow> WOk None
      | Some b \<Rightarrow> wbind (wpabuf_put_data b d) (\<lambda>b'. WOk (Some b')))"

definition wpabuf_dup :: "bool \<Rightarrow> wpabuf \<Rightarrow> wpabuf option wres" where
  "wpabuf_dup ok src =
     (case wpabuf_alloc ok (wpabuf_len src) of None \<Rightarrow> WOk None
      | Some b \<Rightarrow> wbind (wpabuf_put_data b (wpabuf_head src)) (\<lambda>b'. WOk (Some b')))"

definition wpabuf_concat :: "bool \<Rightarrow> wpabuf option \<Rightarrow> wpabuf option \<Rightarrow> wpabuf option wres" where
  "wpabuf_concat ok a b =
     (case b of
        None \<Rightarrow> WOk a
      | Some bb \<Rightarrow>
          (let len = szadd (case a of None \<Rightarrow> 0 | Some ab \<Rightarrow> wpabuf_len ab) (wpabuf_len bb)
           in case wpabuf_alloc ok len of
                None \<Rightarrow> WOk None
              | Some n \<Rightarrow>
                  wbind (case a of None \<Rightarrow> WOk n | Some ab \<Rightarrow> wpabuf_put_buf n ab)
                    (\<lambda>n'. wbind (wpabuf_put_buf n' bb) (\<lambda>n''. WOk (Some n'')))))"

definition wpabuf_zeropad :: "bool \<Rightarrow> wpabuf option \<Rightarrow> nat \<Rightarrow> wpabuf option wres" where
  "wpabuf_zeropad ok buf len =
     (case buf of
        None \<Rightarrow> WOk None
      | Some b \<Rightarrow>
          (let blen = wpabuf_len b
           in if blen \<ge> len then WOk (Some b)
              else (case wpabuf_alloc ok len of
                      None \<Rightarrow> WOk None
                    | Some r \<Rightarrow>
                        wbind (wpabuf_put r (len - blen)) (\<lambda>(off, r').
                        wbind (copy_into r' off (replicate (len - blen) 0)) (\<lambda>r''.
                        wbind (wpabuf_put_buf r'' b) (\<lambda>r3. WOk (Some r3)))))))"

text \<open>
  \<^verbatim>\<open>wpabuf_printf\<close>, given the text \<open>t\<close> that the format produces: \<^verbatim>\<open>vsnprintf\<close> stores at most
  \<^verbatim>\<open>size - used\<close> bytes, the terminating NUL included, and returns the length of the whole text.
\<close>

definition wpabuf_printf :: "wpabuf \<Rightarrow> u8 list \<Rightarrow> wpabuf wres" where
  "wpabuf_printf b t =
     (let room = bsize b - bused b; stored = take room (take (room - 1) t @ [0]);
          b' = b\<lparr>bdata := take (bused b) (bdata b) @ stored @ drop (bused b + length stored) (bdata b)\<rparr>
      in if length t \<ge> room then Aborted else WOk (b'\<lparr>bused := bused b + length t\<rparr>))"

subsection \<open>Contract: a sink of bytes\<close>

text \<open>
  What the code that builds messages relies on: appending within the room never fails and appends
  exactly the bytes; appending more than the room stops the program instead of writing outside.
\<close>

locale byte_sink =
  fixes put :: "'s \<Rightarrow> u8 list \<Rightarrow> 's wres"
    and contents :: "'s \<Rightarrow> u8 list"
    and room :: "'s \<Rightarrow> nat"
    and good :: "'s \<Rightarrow> bool"
  assumes put_fits: "good s \<Longrightarrow> length d \<le> room s \<Longrightarrow>
      \<exists>s'. put s d = WOk s' \<and> good s' \<and> contents s' = contents s @ d \<and> room s' = room s - length d"
    and put_too_long: "good s \<Longrightarrow> room s < length d \<Longrightarrow> length d < 2147483648 \<Longrightarrow> put s d = Aborted"
begin

fun put_all :: "'s \<Rightarrow> u8 list list \<Rightarrow> 's wres" where
  "put_all s [] = WOk s"
| "put_all s (d # ds) = wbind (put s d) (\<lambda>s'. put_all s' ds)"

lemma put_all_fits:
  "good s \<Longrightarrow> length (concat ds) \<le> room s \<Longrightarrow>
   \<exists>s'. put_all s ds = WOk s' \<and> good s' \<and> contents s' = contents s @ concat ds \<and>
        room s' = room s - length (concat ds)"
proof (induction ds arbitrary: s)
  case Nil
  then show ?case by simp
next
  case (Cons d ds)
  then obtain s1 where 1: "put s d = WOk s1" "good s1" "contents s1 = contents s @ d"
    "room s1 = room s - length d"
    using put_fits [of s d] by auto
  then obtain s2 where "put_all s1 ds = WOk s2" "good s2" "contents s2 = contents s1 @ concat ds"
    "room s2 = room s1 - length (concat ds)"
    using Cons.IH [of s1] Cons.prems by fastforce
  with 1 show ?case by auto
qed

lemma put_all_never_overflows:
  "good s \<Longrightarrow> \<forall>d \<in> set ds. length d < 2147483648 \<Longrightarrow> put_all s ds \<noteq> HeapOverflow"
proof (induction ds arbitrary: s)
  case Nil
  then show ?case by simp
next
  case (Cons d ds)
  show ?case
  proof (cases "length d \<le> room s")
    case True
    then obtain s' where "put s d = WOk s'" "good s'" using Cons.prems put_fits by blast
    then show ?thesis using Cons by simp
  next
    case False
    then show ?thesis using Cons.prems put_too_long [of s d] by simp
  qed
qed

end

subsection \<open>The buffer invariant and the functional behaviour\<close>

definition wpabuf_ok :: "wpabuf \<Rightarrow> bool" where
  "wpabuf_ok b \<longleftrightarrow> length (bdata b) = bsize b \<and> bused b \<le> bsize b \<and> bsize b < 2147483648"

lemma wpabuf_alloc_ok:
  "len < 2147483648 \<Longrightarrow>
   wpabuf_alloc True len = Some \<lparr>bsize = len, bused = 0, bext = False, bdata = replicate len 0\<rparr>"
  by (simp add: wpabuf_alloc_def wpabuf_header_def szadd_id)

lemma wpabuf_put_fits:
  "wpabuf_ok b \<Longrightarrow> len \<le> wpabuf_tailroom b \<Longrightarrow> wpabuf_put b len = WOk (bused b, b\<lparr>bused := bused b + len\<rparr>)"
  by (auto simp: wpabuf_put_def wpabuf_ok_def wpabuf_tailroom_def szadd_id Let_def)

lemma wpabuf_put_data_fits:
  assumes "wpabuf_ok b" "length d \<le> wpabuf_tailroom b"
  shows "wpabuf_put_data b d =
    WOk (b\<lparr>bused := bused b + length d,
           bdata := take (bused b) (bdata b) @ d @ drop (bused b + length d) (bdata b)\<rparr>)"
  using assms wpabuf_put_fits [OF assms]
  by (auto simp: wpabuf_put_data_def copy_into_def wpabuf_ok_def wpabuf_tailroom_def)

lemma wpabuf_put_data_aborts:
  "wpabuf_ok b \<Longrightarrow> wpabuf_tailroom b < length d \<Longrightarrow> length d < 2147483648 \<Longrightarrow> wpabuf_put_data b d = Aborted"
  by (auto simp: wpabuf_put_data_def wpabuf_put_def wpabuf_ok_def wpabuf_tailroom_def szadd_id Let_def)

interpretation wpabuf_sink: byte_sink wpabuf_put_data wpabuf_head wpabuf_tailroom wpabuf_ok
proof
  fix b and d :: "u8 list"
  assume "wpabuf_ok b" "length d \<le> wpabuf_tailroom b"
  then show "\<exists>b'. wpabuf_put_data b d = WOk b' \<and> wpabuf_ok b' \<and> wpabuf_head b' = wpabuf_head b @ d \<and>
      wpabuf_tailroom b' = wpabuf_tailroom b - length d"
    by (auto simp: wpabuf_put_data_fits wpabuf_ok_def wpabuf_head_def wpabuf_tailroom_def)
next
  fix b and d :: "u8 list"
  show "wpabuf_ok b \<Longrightarrow> wpabuf_tailroom b < length d \<Longrightarrow> length d < 2147483648 \<Longrightarrow> wpabuf_put_data b d = Aborted"
    by (rule wpabuf_put_data_aborts)
qed

text \<open>The fixed-width writers are writes of the encoded value.\<close>

lemma wpabuf_put_as_data:
  "wpabuf_put_u8 b v8 = wpabuf_put_data b [v8]"
  "wpabuf_put_le16 b v16 = wpabuf_put_data b (WPA_PUT_LE16 v16)"
  "wpabuf_put_le32 b v32 = wpabuf_put_data b (WPA_PUT_LE32 v32)"
  "wpabuf_put_be16 b v16 = wpabuf_put_data b (WPA_PUT_BE16 v16)"
  "wpabuf_put_be24 b v32 = wpabuf_put_data b (WPA_PUT_BE24 v32)"
  "wpabuf_put_be32 b v32 = wpabuf_put_data b (WPA_PUT_BE32 v32)"
  by (simp_all add: wpabuf_put_u8_def wpabuf_put_le16_def wpabuf_put_le32_def wpabuf_put_be16_def
      wpabuf_put_be24_def wpabuf_put_be32_def wpabuf_put_data_def)

lemma wpabuf_head_length: "wpabuf_ok b \<Longrightarrow> length (wpabuf_head b) = bused b"
  by (simp add: wpabuf_ok_def wpabuf_head_def)

lemma wpabuf_alloc_fresh:
  "len < 2147483648 \<Longrightarrow> \<exists>b. wpabuf_alloc True len = Some b \<and> wpabuf_ok b \<and> wpabuf_head b = [] \<and>
     wpabuf_tailroom b = len"
  by (simp add: wpabuf_alloc_ok wpabuf_ok_def wpabuf_head_def wpabuf_tailroom_def)

lemma wpabuf_put_buf_fits:
  "wpabuf_ok d \<Longrightarrow> wpabuf_ok s \<Longrightarrow> bused s \<le> wpabuf_tailroom d \<Longrightarrow>
   \<exists>d'. wpabuf_put_buf d s = WOk d' \<and> wpabuf_ok d' \<and> wpabuf_head d' = wpabuf_head d @ wpabuf_head s \<and>
     wpabuf_tailroom d' = wpabuf_tailroom d - bused s"
  using wpabuf_sink.put_fits [of d "wpabuf_head s"] by (simp add: wpabuf_put_buf_def wpabuf_head_length)

text \<open>
  Content of an optional buffer: \<^verbatim>\<open>NULL\<close> stands for an empty one.
\<close>

fun opt_content :: "wpabuf option \<Rightarrow> u8 list" where
  "opt_content None = []"
| "opt_content (Some b) = wpabuf_head b"

lemma wpabuf_resize_grow:
  assumes "wpabuf_ok b" "bused b + n < 2147483648"
  shows "\<exists>b'. wpabuf_resize True (Some b) n = (0, Some b') \<and> wpabuf_ok b' \<and>
    wpabuf_head b' = wpabuf_head b \<and> n \<le> wpabuf_tailroom b'"
  using assms by (auto simp: wpabuf_resize_def wpabuf_ok_def wpabuf_head_def wpabuf_tailroom_def szadd_id)

lemma wpabuf_put_zeros:
  assumes "wpabuf_ok b" "n \<le> wpabuf_tailroom b" "wpabuf_put b n = WOk (off, b')"
  shows "copy_into b' off (replicate n 0) = wpabuf_put_data b (replicate n 0)"
  using assms by (simp add: wpabuf_put_data_def)

subsection \<open>Properties\<close>

text \<open>
  C20: the buffer refines an append-only byte string. Appending data that fits the tail room
  appends exactly these bytes, takes them from the room and keeps the buffer well formed; data
  that does not fit aborts the program before anything is written, so no append of less than
  2 GB ever writes outside the allocated memory.
\<close>

theorem wpabuf_put_data_refines:
  assumes "wpabuf_ok b" "length d < 2147483648"
  shows "wpabuf_put_data b d \<noteq> HeapOverflow \<and>
    (wpabuf_put_data b d = Aborted \<longleftrightarrow> wpabuf_tailroom b < length d) \<and>
    (\<forall>b'. wpabuf_put_data b d = WOk b' \<longrightarrow> wpabuf_ok b' \<and> wpabuf_head b' = wpabuf_head b @ d \<and>
       wpabuf_tailroom b' = wpabuf_tailroom b - length d)"
proof (cases "length d \<le> wpabuf_tailroom b")
  case True
  then show ?thesis using wpabuf_sink.put_fits [OF assms(1) True] by auto
next
  case False
  then show ?thesis using wpabuf_put_data_aborts [OF assms(1) _ assms(2)] by simp
qed

theorem wpabuf_put_data_refines_witness:
  "\<exists>b'. wpabuf_put_data \<lparr>bsize = 3, bused = 1, bext = False, bdata = [7, 0, 0]\<rparr> [8, 9] = WOk b' \<and>
     wpabuf_head b' = [7, 8, 9]"
proof -
  let ?b = "\<lparr>bsize = 3, bused = 1, bext = False, bdata = [7, 0, 0]\<rparr>"
  have "wpabuf_ok ?b" by (simp add: wpabuf_ok_def)
  note t = wpabuf_put_data_refines [OF this, of "[8, 9]"]
  then show ?thesis
    by (cases "wpabuf_put_data ?b [8, 9]") (auto simp: wpabuf_tailroom_def wpabuf_head_def)
qed

text \<open>
  \<^verbatim>\<open>wpabuf_concat\<close> of two buffers (either may be \<^verbatim>\<open>NULL\<close>) that together stay below 2 GB
  returns, when memory is available, a buffer that holds the bytes of the first followed by
  those of the second; it never aborts and never writes outside the new buffer.
\<close>

theorem wpabuf_concat_content:
  assumes "\<And>x. a = Some x \<Longrightarrow> wpabuf_ok x" "\<And>x. b = Some x \<Longrightarrow> wpabuf_ok x"
    and "length (opt_content a) + length (opt_content b) < 2147483648"
  shows "\<exists>r. wpabuf_concat True a b = WOk r \<and> opt_content r = opt_content a @ opt_content b"
proof (cases b)
  case None
  then show ?thesis by (simp add: wpabuf_concat_def)
next
  case (Some bb)
  define la where "la = length (opt_content a)"
  have bb: "wpabuf_ok bb" "bused bb = length (wpabuf_head bb)"
    using assms(2) [OF Some] wpabuf_head_length by auto
  have la: "(case a of None \<Rightarrow> 0 | Some ab \<Rightarrow> wpabuf_len ab) = la"
    using assms(1) by (cases a) (auto simp: wpabuf_head_length wpabuf_len_def la_def)
  have sum: "la + bused bb < 2147483648" using assms(3) bb Some by (simp add: la_def)
  then obtain n where n: "wpabuf_alloc True (la + bused bb) = Some n" "wpabuf_ok n"
    "wpabuf_head n = []" "wpabuf_tailroom n = la + bused bb"
    using wpabuf_alloc_fresh by blast
  have "\<exists>n1. (case a of None \<Rightarrow> WOk n | Some ab \<Rightarrow> wpabuf_put_buf n ab) = WOk n1 \<and> wpabuf_ok n1 \<and>
      wpabuf_head n1 = opt_content a \<and> wpabuf_tailroom n1 = bused bb"
  proof (cases a)
    case (Some ab)
    then have "wpabuf_ok ab" "bused ab = la" using assms(1) la by (auto simp: wpabuf_len_def)
    then show ?thesis using wpabuf_put_buf_fits [of n ab] n Some by auto
  qed (use n la in auto)
  then obtain n1 where n1: "(case a of None \<Rightarrow> WOk n | Some ab \<Rightarrow> wpabuf_put_buf n ab) = WOk n1"
    "wpabuf_ok n1" "wpabuf_head n1 = opt_content a" "wpabuf_tailroom n1 = bused bb" by blast
  obtain n2 where "wpabuf_put_buf n1 bb = WOk n2" "wpabuf_head n2 = opt_content a @ wpabuf_head bb"
    using wpabuf_put_buf_fits [OF n1(2) bb(1)] n1 by auto
  then show ?thesis
    using n(1) n1(1) sum Some la by (simp add: wpabuf_concat_def wpabuf_len_def szadd_id)
qed

theorem wpabuf_concat_content_witness:
  "\<exists>r. wpabuf_concat True None (Some \<lparr>bsize = 2, bused = 2, bext = True, bdata = [1, 2]\<rparr>) = WOk r \<and>
     opt_content r = [1, 2]"
  using wpabuf_concat_content [of None "Some \<lparr>bsize = 2, bused = 2, bext = True, bdata = [1, 2]\<rparr>"]
  by (auto simp: wpabuf_ok_def wpabuf_head_def)

end
