(* ===== verification/Eloop.thy ===== *)
theory Eloop
  imports Prelude "HOL-Library.Multiset"
begin

section \<open>The event loop (\<^verbatim>\<open>utils/eloop.c\<close>)\<close>

text \<open>
  The static structure \<^verbatim>\<open>eloop\<close> is the record \<open>eloop_data\<close>. Pointers to handlers and contexts are
  numbers. A socket table is the list of its entries (\<^verbatim>\<open>count\<close> is its length, an unallocated
  table is empty) and its \<^verbatim>\<open>changed\<close> flag; the doubly linked list of timeouts is the list of
  its elements from the head. Allocation and \<^verbatim>\<open>os_get_time\<close> may fail: their results are arguments.
  Time values are integers; where the code stores a sum in the 32-bit \<^verbatim>\<open>os_time_t\<close> and tests the
  result for overflow, the wrap-around is written out.

  A handler is code outside this file that may call back into it: it is given as the list of
  \<open>eloop_op\<close>s it performs, which may depend on the state it is called in. One turn of \<^verbatim>\<open>eloop_run\<close>
  takes what the outside supplies (times, the result of \<^verbatim>\<open>select\<close>, signals that arrive while it
  waits) from an \<open>iter_env\<close>. The \<^verbatim>\<open>WPA_TRACE\<close> bookkeeping is not part of the build.
\<close>

datatype os_time = OsTime (t_sec: int) (t_usec: int)

definition os_time_before :: "os_time \<Rightarrow> os_time \<Rightarrow> bool" where
  "os_time_before a b \<longleftrightarrow> t_sec a < t_sec b \<or> (t_sec a = t_sec b \<and> t_usec a < t_usec b)"

definition os_time_sub :: "os_time \<Rightarrow> os_time \<Rightarrow> os_time" where
  "os_time_sub a b =
     (let s = t_sec a - t_sec b; u = t_usec a - t_usec b
      in if u < 0 then OsTime (s - 1) (u + 1000000) else OsTime s u)"

text \<open>The order of the code is a linear order, so the library's facts on sorted lists apply.\<close>

instantiation os_time :: linorder
begin

definition less_os_time :: "os_time \<Rightarrow> os_time \<Rightarrow> bool" where
  "less_os_time a b = os_time_before a b"

definition less_eq_os_time :: "os_time \<Rightarrow> os_time \<Rightarrow> bool" where
  "less_eq_os_time a b = (\<not> os_time_before b a)"

instance
  by standard (auto simp: less_os_time_def less_eq_os_time_def os_time_before_def intro: os_time.expand)

end

lemma os_time_before_less [simp]: "os_time_before a b \<longleftrightarrow> a < b"
  by (simp add: less_os_time_def)

record eloop_sock =
  s_sock :: int
  s_data :: nat
  s_user :: nat
  s_handler :: nat

record eloop_timeout =
  to_time :: os_time
  to_data :: nat
  to_user :: nat
  to_handler :: nat

record eloop_signal =
  sg_sig :: int
  sg_user :: nat
  sg_handler :: nat
  sg_signaled :: nat

record sock_table =
  st_table :: "eloop_sock list"
  st_changed :: bool

record eloop_data =
  max_sock :: int
  readers :: sock_table
  writers :: sock_table
  exceptions :: sock_table
  timeouts :: "eloop_timeout list"
  signals :: "eloop_signal list"
  signaled :: nat
  pending_terminate :: bool
  terminate :: bool
  alarm_set :: bool

datatype event_type = EVENT_TYPE_READ | EVENT_TYPE_WRITE | EVENT_TYPE_EXCEPTION

definition ELOOP_ALL_CTX :: nat where
  "ELOOP_ALL_CTX = 4294967295"

definition eloop_init :: eloop_data where
  "eloop_init = \<lparr>max_sock = 0, readers = \<lparr>st_table = [], st_changed = False\<rparr>,
     writers = \<lparr>st_table = [], st_changed = False\<rparr>, exceptions = \<lparr>st_table = [], st_changed = False\<rparr>,
     timeouts = [], signals = [], signaled = 0, pending_terminate = False, terminate = False,
     alarm_set = False\<rparr>"

subsection \<open>Socket tables\<close>

fun eloop_get_sock_table :: "event_type \<Rightarrow> eloop_data \<Rightarrow> sock_table" where
  "eloop_get_sock_table EVENT_TYPE_READ st = readers st"
| "eloop_get_sock_table EVENT_TYPE_WRITE st = writers st"
| "eloop_get_sock_table EVENT_TYPE_EXCEPTION st = exceptions st"

fun put_sock_table :: "event_type \<Rightarrow> sock_table \<Rightarrow> eloop_data \<Rightarrow> eloop_data" where
  "put_sock_table EVENT_TYPE_READ t st = st\<lparr>readers := t\<rparr>"
| "put_sock_table EVENT_TYPE_WRITE t st = st\<lparr>writers := t\<rparr>"
| "put_sock_table EVENT_TYPE_EXCEPTION t st = st\<lparr>exceptions := t\<rparr>"

definition eloop_sock_table_add_sock ::
  "bool \<Rightarrow> event_type \<Rightarrow> int \<Rightarrow> nat \<Rightarrow> nat \<Rightarrow> nat \<Rightarrow> eloop_data \<Rightarrow> int \<times> eloop_data" where
  "eloop_sock_table_add_sock ok ty sock handler ed ud st =
     (if \<not> ok then (-1, st)
      else (let t = eloop_get_sock_table ty st;
                e = \<lparr>s_sock = sock, s_data = ed, s_user = ud, s_handler = handler\<rparr>;
                st1 = put_sock_table ty (t\<lparr>st_table := st_table t @ [e], st_changed := True\<rparr>) st
            in (0, if sock > max_sock st then st1\<lparr>max_sock := sock\<rparr> else st1)))"

fun remove_first_sock :: "int \<Rightarrow> eloop_sock list \<Rightarrow> eloop_sock list" where
  "remove_first_sock sock [] = []"
| "remove_first_sock sock (e # es) =
     (if s_sock e = sock then es else e # remove_first_sock sock es)"

definition eloop_sock_table_remove_sock :: "event_type \<Rightarrow> int \<Rightarrow> eloop_data \<Rightarrow> eloop_data" where
  "eloop_sock_table_remove_sock ty sock st =
     (let t = eloop_get_sock_table ty st
      in if \<not> list_ex (\<lambda>e. s_sock e = sock) (st_table t) then st
         else put_sock_table ty
                (t\<lparr>st_table := remove_first_sock sock (st_table t), st_changed := True\<rparr>) st)"

definition eloop_register_sock ::
  "bool \<Rightarrow> int \<Rightarrow> event_type \<Rightarrow> nat \<Rightarrow> nat \<Rightarrow> nat \<Rightarrow> eloop_data \<Rightarrow> int \<times> eloop_data" where
  "eloop_register_sock ok sock ty handler ed ud st = eloop_sock_table_add_sock ok ty sock handler ed ud st"

definition eloop_unregister_sock :: "int \<Rightarrow> event_type \<Rightarrow> eloop_data \<Rightarrow> eloop_data" where
  "eloop_unregister_sock sock ty st = eloop_sock_table_remove_sock ty sock st"

definition eloop_register_read_sock :: "bool \<Rightarrow> int \<Rightarrow> nat \<Rightarrow> nat \<Rightarrow> nat \<Rightarrow> eloop_data \<Rightarrow> int \<times> eloop_data" where
  "eloop_register_read_sock ok sock handler ed ud st =
     eloop_register_sock ok sock EVENT_TYPE_READ handler ed ud st"

definition eloop_unregister_read_sock :: "int \<Rightarrow> eloop_data \<Rightarrow> eloop_data" where
  "eloop_unregister_read_sock sock st = eloop_unregister_sock sock EVENT_TYPE_READ st"

definition eloop_sock_table_set_fds :: "sock_table \<Rightarrow> int list" where
  "eloop_sock_table_set_fds t = map s_sock (st_table t)"

subsection \<open>Timeouts\<close>

text \<open>\<^verbatim>\<open>while (usec >= 1000000) { sec++; usec -= 1000000; }\<close>\<close>

function norm_usec :: "int \<Rightarrow> int \<Rightarrow> int \<times> int" where
  "norm_usec sec usec = (if usec \<ge> 1000000 then norm_usec (sec + 1) (usec - 1000000) else (sec, usec))"
  by pat_completeness auto
termination
  by (relation "measure (\<lambda>(sec, usec). nat usec)") auto

declare norm_usec.simps [simp del]

fun insert_timeout :: "eloop_timeout \<Rightarrow> eloop_timeout list \<Rightarrow> eloop_timeout list" where
  "insert_timeout t [] = [t]"
| "insert_timeout t (x # xs) =
     (if os_time_before (to_time t) (to_time x) then t # x # xs else x # insert_timeout t xs)"

definition eloop_register_timeout ::
  "bool \<Rightarrow> os_time option \<Rightarrow> int \<Rightarrow> int \<Rightarrow> nat \<Rightarrow> nat \<Rightarrow> nat \<Rightarrow> eloop_data \<Rightarrow> int \<times> eloop_data" where
  "eloop_register_timeout ok now secs usecs handler ed ud st =
     (case (ok, now) of
        (True, Some tm) \<Rightarrow>
          (let sec' = s32 (t_sec tm + secs)
           in if sec' < t_sec tm then (0, st)
              else (case norm_usec sec' (s32 (t_usec tm + usecs)) of
                (s, u) \<Rightarrow>
                  (0, st\<lparr>timeouts := insert_timeout
                     \<lparr>to_time = OsTime s u, to_data = ed, to_user = ud, to_handler = handler\<rparr>
                     (timeouts st)\<rparr>)))
      | _ \<Rightarrow> (-1, st))"

definition timeout_matches :: "nat \<Rightarrow> nat \<Rightarrow> nat \<Rightarrow> eloop_timeout \<Rightarrow> bool" where
  "timeout_matches handler ed ud t \<longleftrightarrow>
     to_handler t = handler \<and> (to_data t = ed \<or> ed = ELOOP_ALL_CTX) \<and>
     (to_user t = ud \<or> ud = ELOOP_ALL_CTX)"

fun cancel_loop :: "nat \<Rightarrow> nat \<Rightarrow> nat \<Rightarrow> eloop_timeout list \<Rightarrow> int \<times> eloop_timeout list" where
  "cancel_loop handler ed ud [] = (0, [])"
| "cancel_loop handler ed ud (t # ts) =
     (case cancel_loop handler ed ud ts of
        (n, ts') \<Rightarrow> if timeout_matches handler ed ud t then (n + 1, ts') else (n, t # ts'))"

definition eloop_cancel_timeout :: "nat \<Rightarrow> nat \<Rightarrow> nat \<Rightarrow> eloop_data \<Rightarrow> int \<times> eloop_data" where
  "eloop_cancel_timeout handler ed ud st =
     (case cancel_loop handler ed ud (timeouts st) of (n, ts) \<Rightarrow> (n, st\<lparr>timeouts := ts\<rparr>))"

definition eloop_is_timeout_registered :: "nat \<Rightarrow> nat \<Rightarrow> nat \<Rightarrow> eloop_data \<Rightarrow> bool" where
  "eloop_is_timeout_registered handler ed ud st =
     list_ex (\<lambda>t. to_handler t = handler \<and> to_data t = ed \<and> to_user t = ud) (timeouts st)"

subsection \<open>Signals\<close>

definition SIGINT :: int where "SIGINT = 2"
definition SIGTERM :: int where "SIGTERM = 15"
definition SIGHUP :: int where "SIGHUP = 1"

fun count_signal :: "int \<Rightarrow> eloop_signal list \<Rightarrow> eloop_signal list" where
  "count_signal sig [] = []"
| "count_signal sig (g # gs) =
     (if sg_sig g = sig then g\<lparr>sg_signaled := Suc (sg_signaled g)\<rparr> # gs else g # count_signal sig gs)"

definition eloop_handle_signal :: "int \<Rightarrow> eloop_data \<Rightarrow> eloop_data" where
  "eloop_handle_signal sig st =
     (let st1 = (if (sig = SIGINT \<or> sig = SIGTERM) \<and> \<not> pending_terminate st
                 then st\<lparr>pending_terminate := True, alarm_set := True\<rparr> else st)
      in st1\<lparr>signaled := Suc (signaled st1), signals := count_signal sig (signals st1)\<rparr>)"

definition eloop_register_signal :: "bool \<Rightarrow> int \<Rightarrow> nat \<Rightarrow> nat \<Rightarrow> eloop_data \<Rightarrow> int \<times> eloop_data" where
  "eloop_register_signal ok sig handler ud st =
     (if \<not> ok then (-1, st)
      else (0, st\<lparr>signals := signals st @
             [\<lparr>sg_sig = sig, sg_user = ud, sg_handler = handler, sg_signaled = 0\<rparr>]\<rparr>))"

definition eloop_register_signal_terminate ::
  "bool \<Rightarrow> bool \<Rightarrow> nat \<Rightarrow> nat \<Rightarrow> eloop_data \<Rightarrow> int \<times> eloop_data" where
  "eloop_register_signal_terminate ok1 ok2 handler ud st =
     (case eloop_register_signal ok1 SIGINT handler ud st of
        (ret, st1) \<Rightarrow> if ret = 0 then eloop_register_signal ok2 SIGTERM handler ud st1 else (ret, st1))"

definition eloop_register_signal_reconfig :: "bool \<Rightarrow> nat \<Rightarrow> nat \<Rightarrow> eloop_data \<Rightarrow> int \<times> eloop_data" where
  "eloop_register_signal_reconfig ok handler ud st = eloop_register_signal ok SIGHUP handler ud st"

definition eloop_terminate :: "eloop_data \<Rightarrow> eloop_data" where
  "eloop_terminate st = st\<lparr>terminate := True\<rparr>"

definition eloop_terminated :: "eloop_data \<Rightarrow> bool" where
  "eloop_terminated st = terminate st"

subsection \<open>What a handler can do\<close>

datatype eloop_op =
    RegTimeout bool "os_time option" int int nat nat nat
  | CancelTimeout nat nat nat
  | RegSock bool int event_type nat nat nat
  | UnregSock int event_type
  | RegSignal bool int nat nat
  | RaiseSignal int
  | Terminate

fun apply_op :: "eloop_op \<Rightarrow> eloop_data \<Rightarrow> eloop_data" where
  "apply_op (RegTimeout ok now secs usecs h ed ud) st = snd (eloop_register_timeout ok now secs usecs h ed ud st)"
| "apply_op (CancelTimeout h ed ud) st = snd (eloop_cancel_timeout h ed ud st)"
| "apply_op (RegSock ok sock ty h ed ud) st = snd (eloop_register_sock ok sock ty h ed ud st)"
| "apply_op (UnregSock sock ty) st = eloop_unregister_sock sock ty st"
| "apply_op (RegSignal ok sig h ud) st = snd (eloop_register_signal ok sig h ud st)"
| "apply_op (RaiseSignal sig) st = eloop_handle_signal sig st"
| "apply_op Terminate st = eloop_terminate st"

text \<open>A call of a registered handler, with its arguments.\<close>

datatype call = SockCall event_type int nat nat nat | TimeoutCall os_time nat nat nat | SignalCall int nat nat

type_synonym handlers = "call \<Rightarrow> eloop_data \<Rightarrow> eloop_op list"

definition run_handler :: "handlers \<Rightarrow> call \<Rightarrow> eloop_data \<Rightarrow> eloop_data" where
  "run_handler H c st = fold apply_op (H c st) st"

subsection \<open>One turn of the loop\<close>

text \<open>
  The state of a run is the event loop and the calls made so far, the latest last. A loop over a
  table reads the table again in each turn, because a handler may have changed it; its first
  argument bounds the number of turns.
\<close>

type_synonym run_state = "eloop_data \<times> call list"

fun dispatch_loop :: "nat \<Rightarrow> handlers \<Rightarrow> event_type \<Rightarrow> int list \<Rightarrow> nat \<Rightarrow> run_state \<Rightarrow> run_state" where
  "dispatch_loop 0 H ty fds i r = r"
| "dispatch_loop (Suc n) H ty fds i (st, cs) =
     (let tab = st_table (eloop_get_sock_table ty st)
      in if i < length tab then
           (if s_sock (tab ! i) \<in> set fds then
              (let c = SockCall ty (s_sock (tab ! i)) (s_data (tab ! i)) (s_user (tab ! i)) (s_handler (tab ! i));
                   st' = run_handler H c st
               in if st_changed (eloop_get_sock_table ty st') then (st', cs @ [c])
                  else dispatch_loop n H ty fds (Suc i) (st', cs @ [c]))
            else dispatch_loop n H ty fds (Suc i) (st, cs))
         else (st, cs))"

definition eloop_sock_table_dispatch :: "handlers \<Rightarrow> event_type \<Rightarrow> int list \<Rightarrow> run_state \<Rightarrow> run_state" where
  "eloop_sock_table_dispatch H ty fds r =
     (case r of (st, cs) \<Rightarrow>
        (let t = eloop_get_sock_table ty st
         in dispatch_loop (length (st_table t)) H ty fds 0
              (put_sock_table ty (t\<lparr>st_changed := False\<rparr>) st, cs)))"

fun pending_loop :: "nat \<Rightarrow> handlers \<Rightarrow> nat \<Rightarrow> run_state \<Rightarrow> run_state" where
  "pending_loop 0 H i r = r"
| "pending_loop (Suc n) H i (st, cs) =
     (if i < length (signals st) then
        (let g = signals st ! i
         in if sg_signaled g \<noteq> 0 then
              (let st1 = st\<lparr>signals := (signals st)[i := g\<lparr>sg_signaled := 0\<rparr>]\<rparr>;
                   c = SignalCall (sg_sig g) (sg_user g) (sg_handler g)
               in pending_loop n H (Suc i) (run_handler H c st1, cs @ [c]))
            else pending_loop n H (Suc i) (st, cs))
      else (st, cs))"

definition eloop_process_pending_signals :: "handlers \<Rightarrow> run_state \<Rightarrow> run_state" where
  "eloop_process_pending_signals H r =
     (case r of (st, cs) \<Rightarrow>
        if signaled st = 0 then (st, cs)
        else (let st1 = st\<lparr>signaled := 0\<rparr>;
                  st2 = (if pending_terminate st1
                         then st1\<lparr>alarm_set := False, pending_terminate := False\<rparr> else st1)
              in pending_loop (length (signals st2)) H 0 (st2, cs)))"

text \<open>The first timeout, if it is due, is taken off the list before its handler runs.\<close>

definition run_due_timeout :: "handlers \<Rightarrow> os_time \<Rightarrow> run_state \<Rightarrow> run_state" where
  "run_due_timeout H now r =
     (case r of (st, cs) \<Rightarrow>
        (case timeouts st of
           [] \<Rightarrow> (st, cs)
         | t # ts \<Rightarrow>
             if \<not> os_time_before now (to_time t)
             then (let c = TimeoutCall (to_time t) (to_data t) (to_user t) (to_handler t)
                   in (run_handler H c (st\<lparr>timeouts := ts\<rparr>), cs @ [c]))
             else (st, cs)))"

record iter_env =
  e_now1 :: os_time
  e_res :: int
  e_eintr :: bool
  e_signals :: "int list"
  e_now2 :: os_time
  e_rfds :: "int list"
  e_wfds :: "int list"
  e_efds :: "int list"

definition select_timeout :: "os_time \<Rightarrow> eloop_data \<Rightarrow> os_time option" where
  "select_timeout now st =
     (case timeouts st of
        [] \<Rightarrow> None
      | t # ts \<Rightarrow> Some (if os_time_before now (to_time t) then os_time_sub (to_time t) now
                        else OsTime 0 0))"

definition eloop_continue :: "eloop_data \<Rightarrow> bool" where
  "eloop_continue st \<longleftrightarrow> \<not> terminate st \<and>
     (timeouts st \<noteq> [] \<or> st_table (readers st) \<noteq> [] \<or> st_table (writers st) \<noteq> [] \<or>
      st_table (exceptions st) \<noteq> [])"

text \<open>The result of a turn: go on, or (\<open>Inl\<close>) leave the loop because \<^verbatim>\<open>select\<close> failed.\<close>

definition eloop_turn :: "handlers \<Rightarrow> iter_env \<Rightarrow> run_state \<Rightarrow> run_state + run_state" where
  "eloop_turn H e r =
     (case r of (st, cs) \<Rightarrow>
        (let st0 = fold eloop_handle_signal (e_signals e) st
         in if e_res e < 0 \<and> \<not> e_eintr e then Inl (st0, cs)
            else (let r1 = eloop_process_pending_signals H (st0, cs);
                      r2 = run_due_timeout H (e_now2 e) r1
                  in if e_res e \<le> 0 then Inr r2
                     else Inr (eloop_sock_table_dispatch H EVENT_TYPE_EXCEPTION (e_efds e)
                           (eloop_sock_table_dispatch H EVENT_TYPE_WRITE (e_wfds e)
                             (eloop_sock_table_dispatch H EVENT_TYPE_READ (e_rfds e) r2))))))"

fun eloop_run :: "handlers \<Rightarrow> iter_env list \<Rightarrow> run_state \<Rightarrow> run_state" where
  "eloop_run H [] r = r"
| "eloop_run H (e # es) r =
     (if eloop_continue (fst r)
      then (case eloop_turn H e r of Inl r' \<Rightarrow> r' | Inr r' \<Rightarrow> eloop_run H es r')
      else r)"

text \<open>
  \<^verbatim>\<open>eloop_destroy\<close> frees everything; what it reports is the time left of every pending timeout and
  every socket that is still registered.
\<close>

definition remaining_time :: "os_time \<Rightarrow> os_time \<Rightarrow> int \<times> int" where
  "remaining_time now t =
     (let sec = t_sec t - t_sec now; usec = t_usec t - t_usec now
      in if t_usec t < t_usec now then (sec - 1, usec + 1000000) else (sec, usec))"

definition eloop_destroy :: "os_time \<Rightarrow> eloop_data \<Rightarrow> ((int \<times> int) \<times> eloop_timeout) list \<times> eloop_sock list" where
  "eloop_destroy now st =
     (map (\<lambda>t. (remaining_time now (to_time t), t)) (timeouts st),
      st_table (readers st) @ st_table (writers st) @ st_table (exceptions st))"

subsection \<open>The timeout list stays sorted\<close>

definition eloop_inv :: "eloop_data \<Rightarrow> bool" where
  "eloop_inv st \<longleftrightarrow> sorted (map to_time (timeouts st))"

lemma set_insert_timeout [simp]: "set (insert_timeout t xs) = insert t (set xs)"
  by (induction xs) auto

lemma mset_insert_timeout [simp]: "mset (insert_timeout t xs) = add_mset t (mset xs)"
  by (induction xs) auto

lemma sorted_insert_timeout:
  "sorted (map to_time xs) \<Longrightarrow> sorted (map to_time (insert_timeout t xs))"
  by (induction xs) auto

lemma insert_timeout_position:
  "sorted (map to_time xs) \<Longrightarrow>
   insert_timeout t xs = filter (\<lambda>x. to_time x \<le> to_time t) xs @ t # filter (\<lambda>x. to_time t < to_time x) xs"
proof (induction xs)
  case Nil
  then show ?case by simp
next
  case (Cons x xs)
  show ?case
  proof (cases "to_time t < to_time x")
    case True
    then have "\<forall>y \<in> set (x # xs). to_time t < to_time y" using Cons.prems by auto
    then show ?thesis using True by (auto simp: filter_empty_conv not_le[symmetric] filter_id_conv)
  next
    case False
    then show ?thesis using Cons by auto
  qed
qed

lemma cancel_loop_eq:
  "cancel_loop h ed ud ts =
   (int (length (filter (timeout_matches h ed ud) ts)), filter (\<lambda>t. \<not> timeout_matches h ed ud t) ts)"
  by (induction ts) auto

lemma eloop_cancel_timeout_eq:
  "eloop_cancel_timeout h ed ud st =
   (int (length (filter (timeout_matches h ed ud) (timeouts st))),
    st\<lparr>timeouts := filter (\<lambda>t. \<not> timeout_matches h ed ud t) (timeouts st)\<rparr>)"
  by (simp add: eloop_cancel_timeout_def cancel_loop_eq)

lemma sorted_filter_times: "sorted (map to_time xs) \<Longrightarrow> sorted (map to_time (filter P xs))"
  by (rule sorted_filter)

lemma put_sock_table_timeouts [frame_simps]: "timeouts (put_sock_table ty t st) = timeouts st"
  by (cases ty) auto

lemma eloop_handle_signal_timeouts [frame_simps]: "timeouts (eloop_handle_signal sig st) = timeouts st"
  by (simp add: eloop_handle_signal_def Let_def)

lemma sock_op_timeouts [frame_simps]:
  "timeouts (snd (eloop_register_sock ok sock ty h ed ud st)) = timeouts st"
  "timeouts (eloop_unregister_sock sock ty st) = timeouts st"
  by (simp_all add: eloop_register_sock_def eloop_sock_table_add_sock_def eloop_unregister_sock_def
      eloop_sock_table_remove_sock_def Let_def frame_simps)

lemma register_timeout_inv: "eloop_inv st \<Longrightarrow> eloop_inv (snd (eloop_register_timeout ok now secs usecs h ed ud st))"
  by (auto simp: eloop_register_timeout_def eloop_inv_def Let_def sorted_insert_timeout
      split: bool.splits option.splits prod.splits)

lemma apply_op_inv: "eloop_inv st \<Longrightarrow> eloop_inv (apply_op op st)"
  by (cases op) (auto simp: register_timeout_inv [unfolded eloop_inv_def] eloop_cancel_timeout_eq
      sorted_filter_times eloop_register_signal_def eloop_terminate_def eloop_inv_def frame_simps)

interpretation eloop_api: machine apply_op eloop_inv
  by unfold_locales (rule apply_op_inv)

lemma run_handler_inv: "eloop_inv st \<Longrightarrow> eloop_inv (run_handler H c st)"
  unfolding run_handler_def by (rule eloop_api.run_inv)

subsection \<open>A handler that changes a table sets its flag\<close>

lemma get_put_sock_table [simp]:
  "eloop_get_sock_table ty (put_sock_table ty' t st) = (if ty = ty' then t else eloop_get_sock_table ty st)"
  by (cases ty; cases ty') auto

lemma get_sock_table_frame [frame_simps]:
  "eloop_get_sock_table ty (st\<lparr>timeouts := ts\<rparr>) = eloop_get_sock_table ty st"
  "eloop_get_sock_table ty (st\<lparr>signals := gs\<rparr>) = eloop_get_sock_table ty st"
  "eloop_get_sock_table ty (st\<lparr>signaled := n\<rparr>) = eloop_get_sock_table ty st"
  "eloop_get_sock_table ty (st\<lparr>max_sock := m\<rparr>) = eloop_get_sock_table ty st"
  "eloop_get_sock_table ty (st\<lparr>terminate := b\<rparr>) = eloop_get_sock_table ty st"
  "eloop_get_sock_table ty (st\<lparr>pending_terminate := b\<rparr>) = eloop_get_sock_table ty st"
  "eloop_get_sock_table ty (st\<lparr>alarm_set := b\<rparr>) = eloop_get_sock_table ty st"
  by (cases ty; simp)+

lemma apply_op_table:
  "st_changed (eloop_get_sock_table ty (apply_op op st)) \<or>
   eloop_get_sock_table ty (apply_op op st) = eloop_get_sock_table ty st"
  by (cases op) (auto simp: eloop_register_timeout_def eloop_cancel_timeout_eq eloop_register_sock_def
      eloop_sock_table_add_sock_def eloop_unregister_sock_def eloop_sock_table_remove_sock_def
      eloop_register_signal_def eloop_handle_signal_def eloop_terminate_def Let_def frame_simps
      split: bool.splits option.splits prod.splits)

lemma apply_op_changed_stays:
  "st_changed (eloop_get_sock_table ty st) \<Longrightarrow> st_changed (eloop_get_sock_table ty (apply_op op st))"
  using apply_op_table [of ty op st] by auto

interpretation table_changed: machine apply_op "\<lambda>st. st_changed (eloop_get_sock_table ty st)" for ty
  by unfold_locales (rule apply_op_changed_stays)

lemma run_ops_table:
  "st_changed (eloop_get_sock_table ty (fold apply_op ops st)) \<or>
   eloop_get_sock_table ty (fold apply_op ops st) = eloop_get_sock_table ty st"
proof (induction ops arbitrary: st)
  case Nil
  then show ?case by simp
next
  case (Cons op ops)
  show ?case
    using Cons [of "apply_op op st"] apply_op_table [of ty op st] table_changed.run_inv [of ty "apply_op op st" ops]
    by auto
qed

lemma run_handler_table:
  "\<not> st_changed (eloop_get_sock_table ty (run_handler H c st)) \<Longrightarrow>
   eloop_get_sock_table ty (run_handler H c st) = eloop_get_sock_table ty st"
  using run_ops_table [of ty "H c st" st] by (auto simp: run_handler_def)

subsection \<open>What a pass over a table calls\<close>

definition sock_call :: "event_type \<Rightarrow> eloop_sock \<Rightarrow> call" where
  "sock_call ty e = SockCall ty (s_sock e) (s_data e) (s_user e) (s_handler e)"

definition ready_calls :: "event_type \<Rightarrow> int list \<Rightarrow> eloop_sock list \<Rightarrow> call list" where
  "ready_calls ty fds tab = map (sock_call ty) (filter (\<lambda>e. s_sock e \<in> set fds) tab)"

lemma dispatch_loop_prefix:
  assumes "length (st_table (eloop_get_sock_table ty st)) \<le> i + n"
    and "\<not> st_changed (eloop_get_sock_table ty st)"
    and "dispatch_loop n H ty fds i (st, cs) = (st', cs')"
  shows "\<exists>k. cs' = cs @ take k (ready_calls ty fds (drop i (st_table (eloop_get_sock_table ty st)))) \<and>
    (length (ready_calls ty fds (drop i (st_table (eloop_get_sock_table ty st)))) \<le> k \<or>
     st_changed (eloop_get_sock_table ty st'))"
  using assms
proof (induction n arbitrary: i st cs)
  case 0
  then show ?case by (intro exI [of _ 0]) (simp add: ready_calls_def)
next
  case (Suc n)
  let ?tab = "st_table (eloop_get_sock_table ty st)"
  show ?case
  proof (cases "i < length ?tab")
    case False
    then show ?thesis using Suc.prems by (intro exI [of _ 0]) (simp add: Let_def ready_calls_def)
  next
    case True
    let ?e = "?tab ! i" and ?rest = "ready_calls ty fds (drop (Suc i) ?tab)"
    have d: "drop i ?tab = ?e # drop (Suc i) ?tab" using True by (simp add: Cons_nth_drop_Suc)
    show ?thesis
    proof (cases "s_sock ?e \<in> set fds")
      case False
      then have "ready_calls ty fds (drop i ?tab) = ?rest" by (simp add: d ready_calls_def)
      moreover have "dispatch_loop n H ty fds (Suc i) (st, cs) = (st', cs')"
        using Suc.prems(3) True False by (simp add: Let_def)
      ultimately show ?thesis using Suc.IH [of st "Suc i" cs] Suc.prems(1,2) by simp
    next
      case ready: True
      let ?c = "sock_call ty ?e"
      let ?st1 = "run_handler H ?c st"
      have r: "ready_calls ty fds (drop i ?tab) = ?c # ?rest" using ready by (simp add: d ready_calls_def)
      show ?thesis
      proof (cases "st_changed (eloop_get_sock_table ty ?st1)")
        case True
        then have "st' = ?st1" "cs' = cs @ [?c]"
          using Suc.prems(3) \<open>i < length ?tab\<close> ready by (auto simp: Let_def sock_call_def)
        then show ?thesis using r True by (intro exI [of _ 1]) simp
      next
        case False
        then have t: "eloop_get_sock_table ty ?st1 = eloop_get_sock_table ty st" by (rule run_handler_table)
        have "dispatch_loop n H ty fds (Suc i) (?st1, cs @ [?c]) = (st', cs')"
          using Suc.prems(3) \<open>i < length ?tab\<close> ready False by (simp add: Let_def sock_call_def)
        from Suc.IH [OF _ _ this] obtain k where
          "cs' = (cs @ [?c]) @ take k ?rest" "length ?rest \<le> k \<or> st_changed (eloop_get_sock_table ty st')"
          using Suc.prems(1,2) by (auto simp: t)
        then show ?thesis using r by (intro exI [of _ "Suc k"]) auto
      qed
    qed
  qed
qed

subsection \<open>Whole turns\<close>

lemma dispatch_loop_inv: "eloop_inv (fst r) \<Longrightarrow> eloop_inv (fst (dispatch_loop n H ty fds i r))"
  by (induction n H ty fds i r rule: dispatch_loop.induct) (auto simp: Let_def run_handler_inv)

lemma dispatch_inv: "eloop_inv (fst r) \<Longrightarrow> eloop_inv (fst (eloop_sock_table_dispatch H ty fds r))"
  by (auto simp: eloop_sock_table_dispatch_def Let_def eloop_inv_def put_sock_table_timeouts
      intro!: dispatch_loop_inv [unfolded eloop_inv_def] split: prod.splits)

lemma eloop_inv_frame:
  "eloop_inv (st\<lparr>signals := gs\<rparr>) = eloop_inv st" "eloop_inv (st\<lparr>signaled := n\<rparr>) = eloop_inv st"
  by (simp_all add: eloop_inv_def)

lemma pending_loop_inv: "eloop_inv (fst r) \<Longrightarrow> eloop_inv (fst (pending_loop n H i r))"
proof (induction n H i r rule: pending_loop.induct)
  case (2 n H i st cs)
  then show ?case by (auto simp: Let_def eloop_inv_frame run_handler_inv)
qed simp

lemma process_pending_inv: "eloop_inv (fst r) \<Longrightarrow> eloop_inv (fst (eloop_process_pending_signals H r))"
  by (auto simp: eloop_process_pending_signals_def Let_def eloop_inv_def
      intro!: pending_loop_inv [unfolded eloop_inv_def] split: prod.splits)

lemma run_due_timeout_inv: "eloop_inv (fst r) \<Longrightarrow> eloop_inv (fst (run_due_timeout H now r))"
  by (auto simp: run_due_timeout_def Let_def eloop_inv_def
      intro!: run_handler_inv [unfolded eloop_inv_def] split: prod.splits list.splits)

lemma raise_signals_inv: "eloop_inv st \<Longrightarrow> eloop_inv (fold eloop_handle_signal sigs st)"
  by (induction sigs arbitrary: st) (auto simp: eloop_inv_def frame_simps)

lemma eloop_turn_inv:
  assumes "eloop_inv (fst r)"
  shows "eloop_inv (fst (case eloop_turn H e r of Inl r' \<Rightarrow> r' | Inr r' \<Rightarrow> r'))"
  using raise_signals_inv [OF assms, of "e_signals e"]
  by (cases r) (auto simp: eloop_turn_def Let_def intro!: dispatch_inv run_due_timeout_inv process_pending_inv)

lemma eloop_run_inv: "eloop_inv (fst r) \<Longrightarrow> eloop_inv (fst (eloop_run H es r))"
proof (induction es arbitrary: r)
  case Nil
  then show ?case by simp
next
  case (Cons e es)
  then show ?case using eloop_turn_inv [OF Cons.prems, of H e] by (auto split: sum.splits)
qed

text \<open>The calls a stage adds, by kind.\<close>

fun is_timeout_call :: "call \<Rightarrow> bool" where
  "is_timeout_call (TimeoutCall t d u h) = True"
| "is_timeout_call c = False"

lemma pending_loop_calls:
  "pending_loop n H i (st, cs) = (st', cs') \<Longrightarrow> \<exists>new. cs' = cs @ new \<and> (\<forall>c \<in> set new. \<exists>g u h. c = SignalCall g u h)"
proof (induction n arbitrary: i st cs)
  case 0
  then show ?case by simp
next
  case (Suc n)
  show ?case
  proof (cases "i < length (signals st) \<and> sg_signaled (signals st ! i) \<noteq> 0")
    case True
    let ?g = "signals st ! i"
    let ?c = "SignalCall (sg_sig ?g) (sg_user ?g) (sg_handler ?g)"
    from True Suc.prems have "pending_loop n H (Suc i)
        (run_handler H ?c (st\<lparr>signals := (signals st)[i := ?g\<lparr>sg_signaled := 0\<rparr>]\<rparr>), cs @ [?c]) = (st', cs')"
      by (simp add: Let_def)
    from Suc.IH [OF this] show ?thesis by (metis append.assoc Un_iff set_append list.set(1,2) empty_iff insert_iff)
  next
    case False
    then show ?thesis using Suc.prems Suc.IH by (auto simp: Let_def split: if_splits)
  qed
qed

lemma process_pending_calls:
  "eloop_process_pending_signals H (st, cs) = (st', cs') \<Longrightarrow>
   \<exists>new. cs' = cs @ new \<and> (\<forall>c \<in> set new. \<exists>g u h. c = SignalCall g u h)"
  by (auto simp: eloop_process_pending_signals_def Let_def dest: pending_loop_calls split: if_splits)

lemma run_due_timeout_calls:
  assumes "eloop_inv st" "run_due_timeout H now (st, cs) = (st', cs')"
  shows "(cs' = cs \<and> st' = st \<and> (\<forall>t \<in> set (timeouts st). now < to_time t)) \<or>
    (\<exists>t ts. timeouts st = t # ts \<and> to_time t \<le> now \<and> (\<forall>x \<in> set ts. to_time t \<le> to_time x) \<and>
       cs' = cs @ [TimeoutCall (to_time t) (to_data t) (to_user t) (to_handler t)] \<and>
       st' = run_handler H (TimeoutCall (to_time t) (to_data t) (to_user t) (to_handler t)) (st\<lparr>timeouts := ts\<rparr>))"
proof (cases "timeouts st")
  case Nil
  then show ?thesis using assms(2) by (simp add: run_due_timeout_def)
next
  case (Cons t ts)
  have sorted: "\<forall>x \<in> set ts. to_time t \<le> to_time x" using assms(1) Cons by (simp add: eloop_inv_def)
  then show ?thesis
    using assms(2) Cons by (auto simp: run_due_timeout_def Let_def split: if_splits)
qed

lemma dispatch_prefix:
  assumes "eloop_sock_table_dispatch H ty fds (st, cs) = (st', cs')"
  shows "\<exists>k. cs' = cs @ take k (ready_calls ty fds (st_table (eloop_get_sock_table ty st))) \<and>
    (length (ready_calls ty fds (st_table (eloop_get_sock_table ty st))) \<le> k \<or>
     st_changed (eloop_get_sock_table ty st'))"
  using dispatch_loop_prefix [of ty "put_sock_table ty ((eloop_get_sock_table ty st)\<lparr>st_changed := False\<rparr>) st" 0
      "length (st_table (eloop_get_sock_table ty st))" H fds cs st' cs'] assms
  by (simp add: eloop_sock_table_dispatch_def Let_def)

lemma dispatch_calls:
  assumes "eloop_sock_table_dispatch H ty fds (st, cs) = (st', cs')"
  shows "\<exists>new. cs' = cs @ new \<and> (\<forall>c \<in> set new. \<exists>s d u h. c = SockCall ty s d u h \<and> s \<in> set fds)"
proof -
  obtain k where "cs' = cs @ take k (ready_calls ty fds (st_table (eloop_get_sock_table ty st)))"
    using dispatch_prefix [OF assms] by blast
  then show ?thesis by (auto simp: ready_calls_def sock_call_def dest!: in_set_takeD)
qed

subsection \<open>Contract: a timer service\<close>

text \<open>
  What the owners of timers rely on. A timer is known by its handler and its two contexts;
  \<open>exact\<close> excludes the wildcard context. Arming adds one pending timer, disarming removes every
  pending timer of that name and no other.
\<close>

type_synonym timer = "nat \<times> nat \<times> nat"

definition exact :: "timer \<Rightarrow> bool" where
  "exact i \<longleftrightarrow> fst (snd i) \<noteq> ELOOP_ALL_CTX \<and> snd (snd i) \<noteq> ELOOP_ALL_CTX"

text \<open>A start time and a delay whose sum does not leave the 32-bit time type.\<close>

definition representable :: "os_time \<Rightarrow> int \<Rightarrow> bool" where
  "representable now secs \<longleftrightarrow> 0 \<le> secs \<and> - 2147483648 \<le> t_sec now \<and> t_sec now + secs < 2147483648 \<and>
     0 \<le> t_usec now \<and> t_usec now < 1000000"

locale timer_service =
  fixes arm :: "os_time \<Rightarrow> int \<Rightarrow> timer \<Rightarrow> 's \<Rightarrow> 's"
    and disarm :: "timer \<Rightarrow> 's \<Rightarrow> 's"
    and pending :: "'s \<Rightarrow> (os_time \<times> timer) list"
  assumes pending_disarm: "exact i \<Longrightarrow> pending (disarm i s) = filter (\<lambda>p. snd p \<noteq> i) (pending s)"
    and pending_arm: "representable now secs \<Longrightarrow>
      mset (pending (arm now secs i s)) = add_mset (OsTime (t_sec now + secs) (t_usec now), i) (mset (pending s))"
begin

lemma rearm_pending:
  assumes "exact i" "representable now secs"
  shows "filter (\<lambda>p. snd p = i) (pending (arm now secs i (disarm i s))) = [(OsTime (t_sec now + secs) (t_usec now), i)]"
    and "j \<noteq> i \<Longrightarrow> mset (filter (\<lambda>p. snd p = j) (pending (arm now secs i (disarm i s)))) =
      mset (filter (\<lambda>p. snd p = j) (pending s))"
proof -
  let ?d = "(OsTime (t_sec now + secs) (t_usec now), i)"
  let ?s = "arm now secs i (disarm i s)"
  have m: "mset (pending ?s) = add_mset ?d (mset (filter (\<lambda>p. snd p \<noteq> i) (pending s)))"
    using assms by (simp add: pending_arm pending_disarm)
  have "mset (filter (\<lambda>p. snd p = i) (pending ?s)) = {#?d#}"
    unfolding mset_filter m by (simp add: filter_mset_eq_mempty_iff)
  then show "filter (\<lambda>p. snd p = i) (pending ?s) = [?d]" unfolding mset_single_iff .
  show "j \<noteq> i \<Longrightarrow> mset (filter (\<lambda>p. snd p = j) (pending ?s)) = mset (filter (\<lambda>p. snd p = j) (pending s))"
    unfolding mset_filter m by (auto simp: filter_filter_mset intro!: filter_mset_cong)
qed

lemma disarm_none: "exact i \<Longrightarrow> filter (\<lambda>p. snd p = i) (pending (disarm i s)) = []"
  by (simp add: pending_disarm filter_empty_conv)

end

definition eloop_arm :: "os_time \<Rightarrow> int \<Rightarrow> timer \<Rightarrow> eloop_data \<Rightarrow> eloop_data" where
  "eloop_arm now secs i st = (case i of (h, d, u) \<Rightarrow> snd (eloop_register_timeout True (Some now) secs 0 h d u st))"

definition eloop_disarm :: "timer \<Rightarrow> eloop_data \<Rightarrow> eloop_data" where
  "eloop_disarm i st = (case i of (h, d, u) \<Rightarrow> snd (eloop_cancel_timeout h d u st))"

definition eloop_pending :: "eloop_data \<Rightarrow> (os_time \<times> timer) list" where
  "eloop_pending st = map (\<lambda>t. (to_time t, to_handler t, to_data t, to_user t)) (timeouts st)"

lemma register_representable:
  assumes "representable now secs"
  shows "eloop_register_timeout True (Some now) secs 0 h d u st =
    (0, st\<lparr>timeouts := insert_timeout \<lparr>to_time = OsTime (t_sec now + secs) (t_usec now), to_data = d,
       to_user = u, to_handler = h\<rparr> (timeouts st)\<rparr>)"
  using assms
  by (auto simp: eloop_register_timeout_def representable_def s32_id norm_usec.simps [of _ "t_usec now"] Let_def)

interpretation eloop_timers: timer_service eloop_arm eloop_disarm eloop_pending
proof
  fix i s
  assume e: "exact i"
  obtain h d u where i: "i = (h, d, u)" by (cases i)
  show "eloop_pending (eloop_disarm i s) = filter (\<lambda>p. snd p \<noteq> i) (eloop_pending s)"
    using e by (auto simp: i eloop_disarm_def eloop_cancel_timeout_eq eloop_pending_def filter_map
        timeout_matches_def exact_def comp_def intro!: arg_cong [where f = "map _"] filter_cong)
next
  fix now secs i s
  assume "representable now secs"
  then show "mset (eloop_pending (eloop_arm now secs i s)) =
      add_mset (OsTime (t_sec now + secs) (t_usec now), i) (mset (eloop_pending s))"
    by (cases i) (simp add: eloop_arm_def eloop_pending_def register_representable)
qed

lemma int_mod_shift: "0 \<le> b \<Longrightarrow> b < 4294967296 \<Longrightarrow> (b + 4294967296) mod 4294967296 = (b :: int)"
  by simp

lemma norm_usec_eq: "0 \<le> u \<Longrightarrow> norm_usec s u = (s + u div 1000000, u mod 1000000)"
proof (induction s u rule: norm_usec.induct)
  case (1 s u)
  show ?case
  proof (cases "1000000 \<le> u")
    case True
    then have "norm_usec s u = norm_usec (s + 1) (u - 1000000)" by (simp add: norm_usec.simps [of s u])
    also have "\<dots> = (s + 1 + (u - 1000000) div 1000000, (u - 1000000) mod 1000000)"
      using True by (intro "1.IH") auto
    also have "\<dots> = (s + u div 1000000, u mod 1000000)" using True by simp
    finally show ?thesis .
  next
    case False
    then show ?thesis using "1.prems" by (simp add: norm_usec.simps [of s u])
  qed
qed

subsection \<open>Properties\<close>

text \<open>
  C15: whatever the handlers do and whatever \<^verbatim>\<open>select\<close> and the clock report, after any number of
  turns of \<^verbatim>\<open>eloop_run\<close> from the initial state the list of pending timeouts is sorted by time.
\<close>

theorem eloop_run_keeps_sorted:
  "sorted (map to_time (timeouts (fst (eloop_run H es (fold apply_op ops eloop_init, [])))))"
proof -
  have "eloop_inv eloop_init" by (simp add: eloop_inv_def eloop_init_def)
  then have "eloop_inv (fold apply_op ops eloop_init)" by (rule eloop_api.run_inv)
  then show ?thesis using eloop_run_inv [of "(fold apply_op ops eloop_init, [])" H es] by (simp add: eloop_inv_def)
qed

text \<open>
  Registering a timeout puts it behind every pending timeout that is due no later and before
  every one that is due later, so timeouts for the same time run in the order of registration;
  its time is the normalised sum of the current time and the delay. A delay whose sum overflows
  the 32-bit seconds is dropped while the call still returns 0.
\<close>

theorem eloop_register_timeout_position:
  assumes "eloop_inv st" "0 \<le> t_usec now" "0 \<le> usecs" "t_usec now + usecs < 2147483648"
    and "- 2147483648 \<le> t_sec now" "t_sec now < 2147483648" "0 \<le> secs" "secs < 4294967296"
  shows "eloop_register_timeout True (Some now) secs usecs h d u st =
    (0, if t_sec now + secs < 2147483648
        then (let u' = t_usec now + usecs;
                  t = OsTime (t_sec now + secs + u' div 1000000) (u' mod 1000000)
              in st\<lparr>timeouts := filter (\<lambda>x. to_time x \<le> t) (timeouts st) @
                   \<lparr>to_time = t, to_data = d, to_user = u, to_handler = h\<rparr> #
                   filter (\<lambda>x. t < to_time x) (timeouts st)\<rparr>)
        else st)"
proof (cases "t_sec now + secs < 2147483648")
  case True
  then have "s32 (t_sec now + secs) = t_sec now + secs" using assms by (intro s32_id) auto
  moreover have "s32 (t_usec now + usecs) = t_usec now + usecs" using assms by (intro s32_id) auto
  ultimately show ?thesis
    using True assms insert_timeout_position [of "timeouts st"]
    by (simp add: eloop_register_timeout_def norm_usec_eq eloop_inv_def Let_def)
next
  case False
  have "s32 (t_sec now + secs) = t_sec now + secs - 4294967296"
  proof -
    have "(t_sec now + secs + 2147483648) mod 4294967296 = t_sec now + secs - 2147483648"
      using False assms int_mod_shift [of "t_sec now + secs - 2147483648"] by (simp add: ac_simps)
    then show ?thesis by (simp add: s32_def)
  qed
  then show ?thesis using False assms by (simp add: eloop_register_timeout_def)
qed

theorem eloop_register_timeout_position_witness:
  "eloop_register_timeout True (Some (OsTime 10 999999)) 5 1 7 8 9 eloop_init =
     (0, eloop_init\<lparr>timeouts := [\<lparr>to_time = OsTime 16 0, to_data = 8, to_user = 9, to_handler = 7\<rparr>]\<rparr>)"
  using eloop_register_timeout_position [of eloop_init "OsTime 10 999999" 1 5 7 8 9]
  by (simp add: eloop_inv_def eloop_init_def Let_def)

text \<open>
  \<^verbatim>\<open>eloop_cancel_timeout\<close> removes exactly the timeouts whose handler and contexts match (a
  context equal to \<^verbatim>\<open>ELOOP_ALL_CTX\<close> matches any), keeps the order of the others, returns how many
  it removed, and afterwards no timeout of that exact name is registered.
\<close>

theorem eloop_cancel_timeout_exact:
  "case eloop_cancel_timeout h d u st of
     (n, st') \<Rightarrow> timeouts st' = filter (\<lambda>t. \<not> timeout_matches h d u t) (timeouts st) \<and>
       int (length (timeouts st)) = n + int (length (timeouts st')) \<and>
       st'\<lparr>timeouts := timeouts st\<rparr> = st \<and> \<not> eloop_is_timeout_registered h d u st'"
proof -
  have "length (filter P xs) + length (filter (\<lambda>x. \<not> P x) xs) = length xs" for P and xs :: "eloop_timeout list"
    by (rule sum_length_filter_compl)
  from this [of "timeout_matches h d u" "timeouts st"]
  have "int (length (timeouts st)) = int (length (filter (timeout_matches h d u) (timeouts st))) +
      int (length (filter (\<lambda>t. \<not> timeout_matches h d u t) (timeouts st)))" by linarith
  then show ?thesis
    by (auto simp: eloop_cancel_timeout_eq eloop_is_timeout_registered_def list_ex_iff timeout_matches_def)
qed



text \<open>
  One pass over a socket table calls the handlers of the ready entries in table order, with
  the arguments they were registered with, and stops early only when a handler has changed this
  table; so a handler that unregisters a socket is never followed by a call from the stale table.
\<close>

theorem dispatch_in_table_order:
  "case eloop_sock_table_dispatch H ty fds (st, cs) of
     (st', cs') \<Rightarrow> \<exists>k. cs' = cs @ take k (ready_calls ty fds (st_table (eloop_get_sock_table ty st))) \<and>
       (st_changed (eloop_get_sock_table ty st') \<or>
        cs' = cs @ ready_calls ty fds (st_table (eloop_get_sock_table ty st)))"
proof -
  obtain st' cs' where d: "eloop_sock_table_dispatch H ty fds (st, cs) = (st', cs')" by fastforce
  obtain k where "cs' = cs @ take k (ready_calls ty fds (st_table (eloop_get_sock_table ty st)))"
    "length (ready_calls ty fds (st_table (eloop_get_sock_table ty st))) \<le> k \<or> st_changed (eloop_get_sock_table ty st')"
    using dispatch_prefix [OF d] by blast
  then show ?thesis using d by auto
qed

end
