(* ===== verification/EapolAuth.thy ===== *)
theory EapolAuth
  imports Prelude
begin

unbundle bit_operations_syntax

section \<open>The IEEE 802.1X authenticator state machines (\<^verbatim>\<open>src/eapol_auth/eapol_auth_sm.c\<close>)\<close>

text \<open>
  Per station, hostapd runs six coupled state machines over one shared record: the authenticator
  PAE (which opens and closes the port), the backend machine that relays EAP, the reauthentication
  timer, the key transmit and key receive machines and the controlled-directions machine.
  The record is \<open>eapol_state_machine\<close>, with the statistics counters grouped in \<open>pae_counters\<close> and
  \<open>dot1x_stats\<close>, and the interface shared with the EAP server in \<open>eap_eapol_interface\<close>.
  Every \<^verbatim>\<open>SM_STATE\<close> body is a definition, every \<^verbatim>\<open>SM_STEP\<close> body is a definition, and
  \<open>eapol_sm_step_run\<close> is the loop with its bound of 100 passes. What the callbacks of
  \<^verbatim>\<open>struct eapol_auth_cb\<close> are asked to do is appended to the field \<open>log\<close>; the two things the
  machines ask of their surroundings are arguments: \<open>alive\<close> (the \<^verbatim>\<open>sta_entry_alive\<close> callback, a
  function of what has been output so far, because the owner frees the station in reaction to an
  output) and \<open>eap_step\<close> (\<^verbatim>\<open>eap_server_sm_step\<close> on the EAP server's own state, an arbitrary
  type). Debug output is left out.

  An enum that \<^verbatim>\<open>os_zalloc\<close> sets to 0 before any assignment, where 0 is none of the constants,
  has an extra constructor: \<open>PortStatusUnset\<close>, \<open>PortModeUnset\<close>.
\<close>

subsection \<open>Data\<close>

datatype PortTypes = PortModeUnset | ForceUnauthorized | ForceAuthorized | Auto
datatype PortState = PortStatusUnset | Unauthorized | Authorized
datatype ControlledDirection = Both | In

datatype auth_pae = AUTH_PAE_INITIALIZE | AUTH_PAE_DISCONNECTED | AUTH_PAE_CONNECTING
  | AUTH_PAE_AUTHENTICATING | AUTH_PAE_AUTHENTICATED | AUTH_PAE_ABORTING | AUTH_PAE_HELD
  | AUTH_PAE_FORCE_AUTH | AUTH_PAE_FORCE_UNAUTH | AUTH_PAE_RESTART

datatype be_auth = BE_AUTH_REQUEST | BE_AUTH_RESPONSE | BE_AUTH_SUCCESS | BE_AUTH_FAIL
  | BE_AUTH_TIMEOUT | BE_AUTH_IDLE | BE_AUTH_INITIALIZE | BE_AUTH_IGNORE

datatype reauth_timer = REAUTH_TIMER_INITIALIZE | REAUTH_TIMER_REAUTHENTICATE
datatype auth_key_tx = AUTH_KEY_TX_NO_KEY_TRANSMIT | AUTH_KEY_TX_KEY_TRANSMIT
datatype key_rx = KEY_RX_NO_KEY_RECEIVE | KEY_RX_KEY_RECEIVE
datatype ctrl_dir = CTRL_DIR_FORCE_BOTH | CTRL_DIR_IN_OR_BOTH

text \<open>What the machines ask of their owner.\<close>

datatype eapol_out =
    SetPortAuthorized bool
  | EapolSend "u8 list"
  | Finished bool bool
  | AbortAuth
  | TxKey
  | EventSmChange
  | EventReauthenticate
  | AaaSend "u8 list"
  | StepScheduled
  | TickScheduled
  | StepCancelled
  | TickCancelled

record eap_eapol_interface =
  eapResp :: bool
  eapRespData :: "u8 list option"
  portEnabled :: bool
  retransWhile :: int
  eapRestart :: bool
  eapReq :: bool
  eapNoReq :: bool
  eapSuccess :: bool
  eapFail :: bool
  eapTimeout :: bool
  eapReqData :: "u8 list option"
  eapKeyAvailable :: bool
  aaaEapReq :: bool
  aaaEapNoReq :: bool
  aaaSuccess :: bool
  aaaFail :: bool
  aaaEapResp :: bool
  aaaEapRespData :: "u8 list option"
  aaaTimeout :: bool

record pae_counters =
  authEntersConnecting :: u32
  authEapLogoffsWhileConnecting :: u32
  authEntersAuthenticating :: u32
  authAuthSuccessesWhileAuthenticating :: u32
  authAuthTimeoutsWhileAuthenticating :: u32
  authAuthFailWhileAuthenticating :: u32
  authAuthEapStartsWhileAuthenticating :: u32
  authAuthEapLogoffWhileAuthenticating :: u32
  authAuthReauthsWhileAuthenticated :: u32
  authAuthEapStartsWhileAuthenticated :: u32
  authAuthEapLogoffWhileAuthenticated :: u32
  backendResponses :: u32
  backendAccessChallenges :: u32
  backendOtherRequestsToSupplicant :: u32
  backendAuthSuccesses :: u32
  backendAuthFails :: u32

record dot1x_stats =
  dot1xAuthEapolFramesRx :: u32
  dot1xAuthEapolFramesTx :: u32
  dot1xAuthEapolStartFramesRx :: u32
  dot1xAuthEapolLogoffFramesRx :: u32
  dot1xAuthEapolRespFramesRx :: u32
  dot1xAuthEapolReqIdFramesTx :: u32
  dot1xAuthEapolReqFramesTx :: u32
  dot1xAuthInvalidEapolFramesRx :: u32
  dot1xAuthEapLengthErrorFramesRx :: u32
  dot1xAuthLastEapolFrameVersion :: u32

record 'e eapol_state_machine =
  aWhile :: int
  quietWhile :: int
  reAuthWhen :: int
  authAbort :: bool
  authFail :: bool
  authPortStatus :: PortState
  authStart :: bool
  authTimeout :: bool
  authSuccess :: bool
  eapolEap :: bool
  initialize :: bool
  keyDone :: bool
  keyRun :: bool
  keyTxEnabled :: bool
  portControl :: PortTypes
  portValid :: bool
  reAuthenticate :: bool
  auth_pae_state :: auth_pae
  eapolLogoff :: bool
  eapolStart :: bool
  portMode :: PortTypes
  reAuthCount :: u32
  quietPeriod :: u32
  reAuthMax :: u32
  be_auth_state :: be_auth
  serverTimeout :: u32
  reauth_timer_state :: reauth_timer
  reAuthPeriod :: u32
  reAuthEnabled :: bool
  auth_key_tx_state :: auth_key_tx
  key_rx_state :: key_rx
  rxKey :: bool
  ctrl_dir_state :: ctrl_dir
  adminControlledDirections :: ControlledDirection
  operControlledDirections :: ControlledDirection
  operEdge :: bool
  flags :: u32
  last_eap_id :: u8
  eap_type_supp :: u8
  initializing :: bool
  changed :: bool
  eap_if :: eap_eapol_interface
  eap :: "'e option"
  cnt :: pae_counters
  stats :: dot1x_stats
  log :: "eapol_out list"

definition EAPOL_SM_PREAUTH :: u32 where "EAPOL_SM_PREAUTH = 1"
definition EAPOL_SM_WAIT_START :: u32 where "EAPOL_SM_WAIT_START = 2"
definition EAPOL_SM_USES_WPA :: u32 where "EAPOL_SM_USES_WPA = 4"
definition EAPOL_SM_FROM_PMKSA_CACHE :: u32 where "EAPOL_SM_FROM_PMKSA_CACHE = 8"

definition has_flag :: "u32 \<Rightarrow> 'e eapol_state_machine \<Rightarrow> bool" where
  "has_flag f sm = (flags sm AND f \<noteq> 0)"

text \<open>A call of a callback.\<close>

definition emit :: "eapol_out \<Rightarrow> 'e eapol_state_machine \<Rightarrow> 'e eapol_state_machine" where
  "emit ev sm = sm\<lparr>log := log sm @ [ev]\<rparr>"

text \<open>A 32-bit \<^verbatim>\<open>unsigned int\<close> assigned to an \<^verbatim>\<open>int\<close>.\<close>

definition to_int :: "u32 \<Rightarrow> int" where
  "to_int w = s32 (uint w)"

abbreviation upd_if :: "(eap_eapol_interface \<Rightarrow> eap_eapol_interface) \<Rightarrow>
    'e eapol_state_machine \<Rightarrow> 'e eapol_state_machine" where
  "upd_if f sm \<equiv> sm\<lparr>eap_if := f (eap_if sm)\<rparr>"

abbreviation upd_cnt :: "(pae_counters \<Rightarrow> pae_counters) \<Rightarrow>
    'e eapol_state_machine \<Rightarrow> 'e eapol_state_machine" where
  "upd_cnt f sm \<equiv> sm\<lparr>cnt := f (cnt sm)\<rparr>"

abbreviation upd_stats :: "(dot1x_stats \<Rightarrow> dot1x_stats) \<Rightarrow>
    'e eapol_state_machine \<Rightarrow> 'e eapol_state_machine" where
  "upd_stats f sm \<equiv> sm\<lparr>stats := f (stats sm)\<rparr>"

subsection \<open>Procedures\<close>

text \<open>\<^verbatim>\<open>eap_get_id\<close> and \<^verbatim>\<open>eap_get_type\<close> of \<^verbatim>\<open>src/eap_common/eap_common.c\<close>.\<close>

definition eap_get_id :: "u8 list \<Rightarrow> u8" where
  "eap_get_id msg = (if length msg < 4 then 0 else msg ! 1)"

definition eap_get_type :: "u8 list \<Rightarrow> u8" where
  "eap_get_type msg = (if length msg < 5 then 0 else msg ! 4)"

definition eapol_auth_tx_canned_eap :: "bool \<Rightarrow> 'e eapol_state_machine \<Rightarrow> 'e eapol_state_machine" where
  "eapol_auth_tx_canned_eap success sm =
     (let sm1 = sm\<lparr>last_eap_id := last_eap_id sm + 1\<rparr>;
          pkt = [if success then 3 else 4, last_eap_id sm1] @ WPA_PUT_BE16 4
      in upd_stats (\<lambda>s. s\<lparr>dot1xAuthEapolFramesTx := dot1xAuthEapolFramesTx s + 1\<rparr>)
           (emit (EapolSend pkt) sm1))"

definition eapol_auth_tx_req :: "'e eapol_state_machine \<Rightarrow> 'e eapol_state_machine" where
  "eapol_auth_tx_req sm =
     (case eapReqData (eap_if sm) of
        None \<Rightarrow> sm
      | Some d \<Rightarrow>
          if length d < 4 then sm
          else if has_flag EAPOL_SM_WAIT_START sm then sm
          else
            let sm1 = emit (EapolSend d) (sm\<lparr>last_eap_id := eap_get_id d\<rparr>);
                sm2 = upd_stats (\<lambda>s. s\<lparr>dot1xAuthEapolFramesTx := dot1xAuthEapolFramesTx s + 1\<rparr>) sm1
            in if eap_get_type d = 1
               then upd_stats (\<lambda>s. s\<lparr>dot1xAuthEapolReqIdFramesTx := dot1xAuthEapolReqIdFramesTx s + 1\<rparr>) sm2
               else upd_stats (\<lambda>s. s\<lparr>dot1xAuthEapolReqFramesTx := dot1xAuthEapolReqFramesTx s + 1\<rparr>) sm2)"

text \<open>\<^verbatim>\<open>SM_ENTRY_MA\<close>, one instance per machine.\<close>

definition entry_AUTH_PAE :: "auth_pae \<Rightarrow> bool \<Rightarrow> 'e eapol_state_machine \<Rightarrow> 'e eapol_state_machine" where
  "entry_AUTH_PAE st global sm =
     (if \<not> global \<or> auth_pae_state sm \<noteq> st then sm\<lparr>changed := True\<rparr> else sm)\<lparr>auth_pae_state := st\<rparr>"

definition entry_BE_AUTH :: "be_auth \<Rightarrow> bool \<Rightarrow> 'e eapol_state_machine \<Rightarrow> 'e eapol_state_machine" where
  "entry_BE_AUTH st global sm =
     (if \<not> global \<or> be_auth_state sm \<noteq> st then sm\<lparr>changed := True\<rparr> else sm)\<lparr>be_auth_state := st\<rparr>"

definition entry_REAUTH_TIMER :: "reauth_timer \<Rightarrow> bool \<Rightarrow> 'e eapol_state_machine \<Rightarrow> 'e eapol_state_machine" where
  "entry_REAUTH_TIMER st global sm =
     (if \<not> global \<or> reauth_timer_state sm \<noteq> st then sm\<lparr>changed := True\<rparr> else sm)\<lparr>reauth_timer_state := st\<rparr>"

definition entry_AUTH_KEY_TX :: "auth_key_tx \<Rightarrow> bool \<Rightarrow> 'e eapol_state_machine \<Rightarrow> 'e eapol_state_machine" where
  "entry_AUTH_KEY_TX st global sm =
     (if \<not> global \<or> auth_key_tx_state sm \<noteq> st then sm\<lparr>changed := True\<rparr> else sm)\<lparr>auth_key_tx_state := st\<rparr>"

definition entry_KEY_RX :: "key_rx \<Rightarrow> bool \<Rightarrow> 'e eapol_state_machine \<Rightarrow> 'e eapol_state_machine" where
  "entry_KEY_RX st global sm =
     (if \<not> global \<or> key_rx_state sm \<noteq> st then sm\<lparr>changed := True\<rparr> else sm)\<lparr>key_rx_state := st\<rparr>"

definition entry_CTRL_DIR :: "ctrl_dir \<Rightarrow> bool \<Rightarrow> 'e eapol_state_machine \<Rightarrow> 'e eapol_state_machine" where
  "entry_CTRL_DIR st global sm =
     (if \<not> global \<or> ctrl_dir_state sm \<noteq> st then sm\<lparr>changed := True\<rparr> else sm)\<lparr>ctrl_dir_state := st\<rparr>"

subsection \<open>Authenticator PAE\<close>

definition AUTH_PAE_INITIALIZE_Enter :: "bool \<Rightarrow> 'e eapol_state_machine \<Rightarrow> 'e eapol_state_machine" where
  "AUTH_PAE_INITIALIZE_Enter g sm = (entry_AUTH_PAE AUTH_PAE_INITIALIZE g sm)\<lparr>portMode := Auto\<rparr>"

definition AUTH_PAE_DISCONNECTED_Enter :: "bool \<Rightarrow> 'e eapol_state_machine \<Rightarrow> 'e eapol_state_machine" where
  "AUTH_PAE_DISCONNECTED_Enter g sm =
     (let from_initialize = (auth_pae_state sm = AUTH_PAE_INITIALIZE);
          sm1 = (if eapolLogoff sm then
                   if auth_pae_state sm = AUTH_PAE_CONNECTING
                   then upd_cnt (\<lambda>c. c\<lparr>authEapLogoffsWhileConnecting := authEapLogoffsWhileConnecting c + 1\<rparr>) sm
                   else if auth_pae_state sm = AUTH_PAE_AUTHENTICATED
                   then upd_cnt (\<lambda>c. c\<lparr>authAuthEapLogoffWhileAuthenticated := authAuthEapLogoffWhileAuthenticated c + 1\<rparr>) sm
                   else sm
                 else sm);
          sm2 = entry_AUTH_PAE AUTH_PAE_DISCONNECTED g sm1;
          sm3 = (emit (SetPortAuthorized False) (sm2\<lparr>authPortStatus := Unauthorized\<rparr>))
                  \<lparr>reAuthCount := 0, eapolLogoff := False\<rparr>
      in if from_initialize then sm3
         else emit (Finished False (has_flag EAPOL_SM_PREAUTH sm3)) sm3)"

definition AUTH_PAE_RESTART_Enter :: "bool \<Rightarrow> 'e eapol_state_machine \<Rightarrow> 'e eapol_state_machine" where
  "AUTH_PAE_RESTART_Enter g sm =
     (let sm1 = (if auth_pae_state sm = AUTH_PAE_AUTHENTICATED then
                   upd_cnt (\<lambda>c. c\<lparr>
                     authAuthReauthsWhileAuthenticated := authAuthReauthsWhileAuthenticated c + of_bool (reAuthenticate sm),
                     authAuthEapStartsWhileAuthenticated := authAuthEapStartsWhileAuthenticated c + of_bool (eapolStart sm),
                     authAuthEapLogoffWhileAuthenticated := authAuthEapLogoffWhileAuthenticated c + of_bool (eapolLogoff sm)\<rparr>) sm
                 else sm)
      in upd_if (\<lambda>i. i\<lparr>eapRestart := True\<rparr>) (entry_AUTH_PAE AUTH_PAE_RESTART g sm1))"

definition AUTH_PAE_CONNECTING_Enter :: "bool \<Rightarrow> 'e eapol_state_machine \<Rightarrow> 'e eapol_state_machine" where
  "AUTH_PAE_CONNECTING_Enter g sm =
     (let sm1 = (if auth_pae_state sm \<noteq> AUTH_PAE_CONNECTING
                 then upd_cnt (\<lambda>c. c\<lparr>authEntersConnecting := authEntersConnecting c + 1\<rparr>) sm else sm);
          sm2 = entry_AUTH_PAE AUTH_PAE_CONNECTING g sm1
      in sm2\<lparr>reAuthenticate := False, reAuthCount := reAuthCount sm2 + 1\<rparr>)"

definition AUTH_PAE_HELD_Enter :: "bool \<Rightarrow> 'e eapol_state_machine \<Rightarrow> 'e eapol_state_machine" where
  "AUTH_PAE_HELD_Enter g sm =
     (let sm1 = (if auth_pae_state sm = AUTH_PAE_AUTHENTICATING \<and> authFail sm
                 then upd_cnt (\<lambda>c. c\<lparr>authAuthFailWhileAuthenticating := authAuthFailWhileAuthenticating c + 1\<rparr>) sm else sm);
          sm2 = entry_AUTH_PAE AUTH_PAE_HELD g sm1;
          sm3 = emit (SetPortAuthorized False) (sm2\<lparr>authPortStatus := Unauthorized\<rparr>);
          sm4 = sm3\<lparr>quietWhile := to_int (quietPeriod sm3), eapolLogoff := False\<rparr>
      in emit (Finished False (has_flag EAPOL_SM_PREAUTH sm4)) sm4)"

definition AUTH_PAE_AUTHENTICATED_Enter :: "bool \<Rightarrow> 'e eapol_state_machine \<Rightarrow> 'e eapol_state_machine" where
  "AUTH_PAE_AUTHENTICATED_Enter g sm =
     (let sm1 = (if auth_pae_state sm = AUTH_PAE_AUTHENTICATING \<and> authSuccess sm
                 then upd_cnt (\<lambda>c. c\<lparr>authAuthSuccessesWhileAuthenticating := authAuthSuccessesWhileAuthenticating c + 1\<rparr>) sm else sm);
          sm2 = entry_AUTH_PAE AUTH_PAE_AUTHENTICATED g sm1;
          sm3 = (emit (SetPortAuthorized True) (sm2\<lparr>authPortStatus := Authorized\<rparr>))\<lparr>reAuthCount := 0\<rparr>
      in emit (Finished True (has_flag EAPOL_SM_PREAUTH sm3)) sm3)"

definition AUTH_PAE_AUTHENTICATING_Enter :: "bool \<Rightarrow> 'e eapol_state_machine \<Rightarrow> 'e eapol_state_machine" where
  "AUTH_PAE_AUTHENTICATING_Enter g sm =
     (entry_AUTH_PAE AUTH_PAE_AUTHENTICATING g sm)
       \<lparr>eapolStart := False, authSuccess := False, authFail := False, authTimeout := False,
        authStart := True, keyRun := False, keyDone := False\<rparr>"

definition AUTH_PAE_ABORTING_Enter :: "bool \<Rightarrow> 'e eapol_state_machine \<Rightarrow> 'e eapol_state_machine" where
  "AUTH_PAE_ABORTING_Enter g sm =
     (let sm1 = (if auth_pae_state sm = AUTH_PAE_AUTHENTICATING then
                   upd_cnt (\<lambda>c. c\<lparr>
                     authAuthTimeoutsWhileAuthenticating := authAuthTimeoutsWhileAuthenticating c + of_bool (authTimeout sm),
                     authAuthEapStartsWhileAuthenticating := authAuthEapStartsWhileAuthenticating c + of_bool (eapolStart sm),
                     authAuthEapLogoffWhileAuthenticating := authAuthEapLogoffWhileAuthenticating c + of_bool (eapolLogoff sm)\<rparr>) sm
                 else sm)
      in (entry_AUTH_PAE AUTH_PAE_ABORTING g sm1)\<lparr>authAbort := True, keyRun := False, keyDone := False\<rparr>)"

definition AUTH_PAE_FORCE_AUTH_Enter :: "bool \<Rightarrow> 'e eapol_state_machine \<Rightarrow> 'e eapol_state_machine" where
  "AUTH_PAE_FORCE_AUTH_Enter g sm =
     (let sm1 = emit (SetPortAuthorized True) ((entry_AUTH_PAE AUTH_PAE_FORCE_AUTH g sm)\<lparr>authPortStatus := Authorized\<rparr>)
      in eapol_auth_tx_canned_eap True (sm1\<lparr>portMode := ForceAuthorized, eapolStart := False\<rparr>))"

definition AUTH_PAE_FORCE_UNAUTH_Enter :: "bool \<Rightarrow> 'e eapol_state_machine \<Rightarrow> 'e eapol_state_machine" where
  "AUTH_PAE_FORCE_UNAUTH_Enter g sm =
     (let sm1 = emit (SetPortAuthorized False) ((entry_AUTH_PAE AUTH_PAE_FORCE_UNAUTH g sm)\<lparr>authPortStatus := Unauthorized\<rparr>)
      in eapol_auth_tx_canned_eap False (sm1\<lparr>portMode := ForceUnauthorized, eapolStart := False\<rparr>))"

definition AUTH_PAE_Step :: "'e eapol_state_machine \<Rightarrow> 'e eapol_state_machine" where
  "AUTH_PAE_Step sm =
     (if (portControl sm = Auto \<and> portMode sm \<noteq> portControl sm) \<or> initialize sm \<or> \<not> portEnabled (eap_if sm)
      then AUTH_PAE_INITIALIZE_Enter True sm
      else if portControl sm = ForceAuthorized \<and> portMode sm \<noteq> portControl sm \<and>
           \<not> (initialize sm \<or> \<not> portEnabled (eap_if sm))
      then AUTH_PAE_FORCE_AUTH_Enter True sm
      else if portControl sm = ForceUnauthorized \<and> portMode sm \<noteq> portControl sm \<and>
           \<not> (initialize sm \<or> \<not> portEnabled (eap_if sm))
      then AUTH_PAE_FORCE_UNAUTH_Enter True sm
      else case auth_pae_state sm of
        AUTH_PAE_INITIALIZE \<Rightarrow> AUTH_PAE_DISCONNECTED_Enter False sm
      | AUTH_PAE_DISCONNECTED \<Rightarrow> AUTH_PAE_RESTART_Enter False sm
      | AUTH_PAE_RESTART \<Rightarrow>
          if \<not> eapRestart (eap_if sm) then AUTH_PAE_CONNECTING_Enter False sm else sm
      | AUTH_PAE_HELD \<Rightarrow> if quietWhile sm = 0 then AUTH_PAE_RESTART_Enter False sm else sm
      | AUTH_PAE_CONNECTING \<Rightarrow>
          if eapolLogoff sm \<or> reAuthCount sm > reAuthMax sm then AUTH_PAE_DISCONNECTED_Enter False sm
          else if (eapReq (eap_if sm) \<and> reAuthCount sm \<le> reAuthMax sm) \<or> eapSuccess (eap_if sm) \<or> eapFail (eap_if sm)
          then AUTH_PAE_AUTHENTICATING_Enter False sm else sm
      | AUTH_PAE_AUTHENTICATED \<Rightarrow>
          if eapolStart sm \<or> reAuthenticate sm then AUTH_PAE_RESTART_Enter False sm
          else if eapolLogoff sm \<or> \<not> portValid sm then AUTH_PAE_DISCONNECTED_Enter False sm else sm
      | AUTH_PAE_AUTHENTICATING \<Rightarrow>
          if authSuccess sm \<and> portValid sm then AUTH_PAE_AUTHENTICATED_Enter False sm
          else if authFail sm \<or> (keyDone sm \<and> \<not> portValid sm) then AUTH_PAE_HELD_Enter False sm
          else if eapolStart sm \<or> eapolLogoff sm \<or> authTimeout sm then AUTH_PAE_ABORTING_Enter False sm else sm
      | AUTH_PAE_ABORTING \<Rightarrow>
          if eapolLogoff sm \<and> \<not> authAbort sm then AUTH_PAE_DISCONNECTED_Enter False sm
          else if \<not> eapolLogoff sm \<and> \<not> authAbort sm then AUTH_PAE_RESTART_Enter False sm else sm
      | AUTH_PAE_FORCE_AUTH \<Rightarrow> if eapolStart sm then AUTH_PAE_FORCE_AUTH_Enter False sm else sm
      | AUTH_PAE_FORCE_UNAUTH \<Rightarrow> if eapolStart sm then AUTH_PAE_FORCE_UNAUTH_Enter False sm else sm)"

subsection \<open>Backend authentication\<close>

definition BE_AUTH_INITIALIZE_Enter :: "bool \<Rightarrow> 'e eapol_state_machine \<Rightarrow> 'e eapol_state_machine" where
  "BE_AUTH_INITIALIZE_Enter g sm =
     (upd_if (\<lambda>i. i\<lparr>eapNoReq := False\<rparr>) (emit AbortAuth (entry_BE_AUTH BE_AUTH_INITIALIZE g sm)))\<lparr>authAbort := False\<rparr>"

definition BE_AUTH_REQUEST_Enter :: "bool \<Rightarrow> 'e eapol_state_machine \<Rightarrow> 'e eapol_state_machine" where
  "BE_AUTH_REQUEST_Enter g sm =
     (upd_cnt (\<lambda>c. c\<lparr>backendOtherRequestsToSupplicant := backendOtherRequestsToSupplicant c + 1\<rparr>)
       (upd_if (\<lambda>i. i\<lparr>eapReq := False\<rparr>)
         (eapol_auth_tx_req (entry_BE_AUTH BE_AUTH_REQUEST g sm))))\<lparr>eapolEap := False\<rparr>"

definition BE_AUTH_RESPONSE_Enter :: "bool \<Rightarrow> 'e eapol_state_machine \<Rightarrow> 'e eapol_state_machine" where
  "BE_AUTH_RESPONSE_Enter g sm =
     (let sm1 = upd_if (\<lambda>i. i\<lparr>eapNoReq := False\<rparr>)
            ((entry_BE_AUTH BE_AUTH_RESPONSE g sm)\<lparr>authTimeout := False, eapolEap := False\<rparr>);
          sm2 = upd_if (\<lambda>i. i\<lparr>eapResp := True\<rparr>) (sm1\<lparr>aWhile := to_int (serverTimeout sm1)\<rparr>)
      in upd_cnt (\<lambda>c. c\<lparr>backendResponses := backendResponses c + 1\<rparr>) sm2)"

definition BE_AUTH_SUCCESS_Enter :: "bool \<Rightarrow> 'e eapol_state_machine \<Rightarrow> 'e eapol_state_machine" where
  "BE_AUTH_SUCCESS_Enter g sm =
     (eapol_auth_tx_req (entry_BE_AUTH BE_AUTH_SUCCESS g sm))\<lparr>authSuccess := True, keyRun := True\<rparr>"

definition BE_AUTH_FAIL_Enter :: "bool \<Rightarrow> 'e eapol_state_machine \<Rightarrow> 'e eapol_state_machine" where
  "BE_AUTH_FAIL_Enter g sm = (eapol_auth_tx_req (entry_BE_AUTH BE_AUTH_FAIL g sm))\<lparr>authFail := True\<rparr>"

definition BE_AUTH_TIMEOUT_Enter :: "bool \<Rightarrow> 'e eapol_state_machine \<Rightarrow> 'e eapol_state_machine" where
  "BE_AUTH_TIMEOUT_Enter g sm = (entry_BE_AUTH BE_AUTH_TIMEOUT g sm)\<lparr>authTimeout := True\<rparr>"

definition BE_AUTH_IDLE_Enter :: "bool \<Rightarrow> 'e eapol_state_machine \<Rightarrow> 'e eapol_state_machine" where
  "BE_AUTH_IDLE_Enter g sm = (entry_BE_AUTH BE_AUTH_IDLE g sm)\<lparr>authStart := False\<rparr>"

definition BE_AUTH_IGNORE_Enter :: "bool \<Rightarrow> 'e eapol_state_machine \<Rightarrow> 'e eapol_state_machine" where
  "BE_AUTH_IGNORE_Enter g sm = upd_if (\<lambda>i. i\<lparr>eapNoReq := False\<rparr>) (entry_BE_AUTH BE_AUTH_IGNORE g sm)"

text \<open>
  In state \<open>BE_AUTH_RESPONSE\<close> the test of \<open>eapNoReq\<close> has no \<^verbatim>\<open>else\<close>, so the machine may enter
  IGNORE and then, in the same step, another state.
\<close>

definition BE_AUTH_Step :: "'e eapol_state_machine \<Rightarrow> 'e eapol_state_machine" where
  "BE_AUTH_Step sm =
     (if portControl sm \<noteq> Auto \<or> initialize sm \<or> authAbort sm then BE_AUTH_INITIALIZE_Enter True sm
      else case be_auth_state sm of
        BE_AUTH_INITIALIZE \<Rightarrow> BE_AUTH_IDLE_Enter False sm
      | BE_AUTH_REQUEST \<Rightarrow>
          if eapolEap sm then BE_AUTH_RESPONSE_Enter False sm
          else if eapReq (eap_if sm) then BE_AUTH_REQUEST_Enter False sm
          else if eapTimeout (eap_if sm) then BE_AUTH_TIMEOUT_Enter False sm else sm
      | BE_AUTH_RESPONSE \<Rightarrow>
          (let sm1 = (if eapNoReq (eap_if sm) then BE_AUTH_IGNORE_Enter False sm else sm)
           in if eapReq (eap_if sm1)
              then BE_AUTH_REQUEST_Enter False
                     (upd_cnt (\<lambda>c. c\<lparr>backendAccessChallenges := backendAccessChallenges c + 1\<rparr>) sm1)
              else if aWhile sm1 = 0 then BE_AUTH_TIMEOUT_Enter False sm1
              else if eapFail (eap_if sm1)
              then BE_AUTH_FAIL_Enter False (upd_cnt (\<lambda>c. c\<lparr>backendAuthFails := backendAuthFails c + 1\<rparr>) sm1)
              else if eapSuccess (eap_if sm1)
              then BE_AUTH_SUCCESS_Enter False (upd_cnt (\<lambda>c. c\<lparr>backendAuthSuccesses := backendAuthSuccesses c + 1\<rparr>) sm1)
              else sm1)
      | BE_AUTH_SUCCESS \<Rightarrow> BE_AUTH_IDLE_Enter False sm
      | BE_AUTH_FAIL \<Rightarrow> BE_AUTH_IDLE_Enter False sm
      | BE_AUTH_TIMEOUT \<Rightarrow> BE_AUTH_IDLE_Enter False sm
      | BE_AUTH_IDLE \<Rightarrow>
          if eapFail (eap_if sm) \<and> authStart sm then BE_AUTH_FAIL_Enter False sm
          else if eapReq (eap_if sm) \<and> authStart sm then BE_AUTH_REQUEST_Enter False sm
          else if eapSuccess (eap_if sm) \<and> authStart sm then BE_AUTH_SUCCESS_Enter False sm else sm
      | BE_AUTH_IGNORE \<Rightarrow>
          if eapolEap sm then BE_AUTH_RESPONSE_Enter False sm
          else if eapReq (eap_if sm) then BE_AUTH_REQUEST_Enter False sm
          else if eapTimeout (eap_if sm) then BE_AUTH_TIMEOUT_Enter False sm else sm)"

subsection \<open>The other machines\<close>

definition REAUTH_TIMER_INITIALIZE_Enter :: "bool \<Rightarrow> 'e eapol_state_machine \<Rightarrow> 'e eapol_state_machine" where
  "REAUTH_TIMER_INITIALIZE_Enter g sm =
     (entry_REAUTH_TIMER REAUTH_TIMER_INITIALIZE g sm)\<lparr>reAuthWhen := to_int (reAuthPeriod sm)\<rparr>"

definition REAUTH_TIMER_REAUTHENTICATE_Enter :: "bool \<Rightarrow> 'e eapol_state_machine \<Rightarrow> 'e eapol_state_machine" where
  "REAUTH_TIMER_REAUTHENTICATE_Enter g sm =
     emit EventReauthenticate ((entry_REAUTH_TIMER REAUTH_TIMER_REAUTHENTICATE g sm)\<lparr>reAuthenticate := True\<rparr>)"

definition REAUTH_TIMER_Step :: "'e eapol_state_machine \<Rightarrow> 'e eapol_state_machine" where
  "REAUTH_TIMER_Step sm =
     (if portControl sm \<noteq> Auto \<or> initialize sm \<or> authPortStatus sm = Unauthorized \<or> \<not> reAuthEnabled sm
      then REAUTH_TIMER_INITIALIZE_Enter True sm
      else case reauth_timer_state sm of
        REAUTH_TIMER_INITIALIZE \<Rightarrow> if reAuthWhen sm = 0 then REAUTH_TIMER_REAUTHENTICATE_Enter False sm else sm
      | REAUTH_TIMER_REAUTHENTICATE \<Rightarrow> REAUTH_TIMER_INITIALIZE_Enter False sm)"

definition AUTH_KEY_TX_NO_KEY_TRANSMIT_Enter :: "bool \<Rightarrow> 'e eapol_state_machine \<Rightarrow> 'e eapol_state_machine" where
  "AUTH_KEY_TX_NO_KEY_TRANSMIT_Enter g sm = entry_AUTH_KEY_TX AUTH_KEY_TX_NO_KEY_TRANSMIT g sm"

definition AUTH_KEY_TX_KEY_TRANSMIT_Enter :: "bool \<Rightarrow> 'e eapol_state_machine \<Rightarrow> 'e eapol_state_machine" where
  "AUTH_KEY_TX_KEY_TRANSMIT_Enter g sm =
     (upd_if (\<lambda>i. i\<lparr>eapKeyAvailable := False\<rparr>)
        (emit TxKey (entry_AUTH_KEY_TX AUTH_KEY_TX_KEY_TRANSMIT g sm)))\<lparr>keyDone := True\<rparr>"

definition AUTH_KEY_TX_Step :: "'e eapol_state_machine \<Rightarrow> 'e eapol_state_machine" where
  "AUTH_KEY_TX_Step sm =
     (if initialize sm \<or> portControl sm \<noteq> Auto then AUTH_KEY_TX_NO_KEY_TRANSMIT_Enter True sm
      else case auth_key_tx_state sm of
        AUTH_KEY_TX_NO_KEY_TRANSMIT \<Rightarrow>
          if keyTxEnabled sm \<and> eapKeyAvailable (eap_if sm) \<and> keyRun sm \<and> \<not> has_flag EAPOL_SM_USES_WPA sm
          then AUTH_KEY_TX_KEY_TRANSMIT_Enter False sm else sm
      | AUTH_KEY_TX_KEY_TRANSMIT \<Rightarrow>
          if \<not> keyTxEnabled sm \<or> \<not> keyRun sm then AUTH_KEY_TX_NO_KEY_TRANSMIT_Enter False sm
          else if eapKeyAvailable (eap_if sm) then AUTH_KEY_TX_KEY_TRANSMIT_Enter False sm else sm)"

definition KEY_RX_NO_KEY_RECEIVE_Enter :: "bool \<Rightarrow> 'e eapol_state_machine \<Rightarrow> 'e eapol_state_machine" where
  "KEY_RX_NO_KEY_RECEIVE_Enter g sm = entry_KEY_RX KEY_RX_NO_KEY_RECEIVE g sm"

definition KEY_RX_KEY_RECEIVE_Enter :: "bool \<Rightarrow> 'e eapol_state_machine \<Rightarrow> 'e eapol_state_machine" where
  "KEY_RX_KEY_RECEIVE_Enter g sm = (entry_KEY_RX KEY_RX_KEY_RECEIVE g sm)\<lparr>rxKey := False\<rparr>"

definition KEY_RX_Step :: "'e eapol_state_machine \<Rightarrow> 'e eapol_state_machine" where
  "KEY_RX_Step sm =
     (if initialize sm \<or> \<not> portEnabled (eap_if sm) then KEY_RX_NO_KEY_RECEIVE_Enter True sm
      else case key_rx_state sm of
        KEY_RX_NO_KEY_RECEIVE \<Rightarrow> if rxKey sm then KEY_RX_KEY_RECEIVE_Enter False sm else sm
      | KEY_RX_KEY_RECEIVE \<Rightarrow> if rxKey sm then KEY_RX_KEY_RECEIVE_Enter False sm else sm)"

definition CTRL_DIR_FORCE_BOTH_Enter :: "bool \<Rightarrow> 'e eapol_state_machine \<Rightarrow> 'e eapol_state_machine" where
  "CTRL_DIR_FORCE_BOTH_Enter g sm = (entry_CTRL_DIR CTRL_DIR_FORCE_BOTH g sm)\<lparr>operControlledDirections := Both\<rparr>"

definition CTRL_DIR_IN_OR_BOTH_Enter :: "bool \<Rightarrow> 'e eapol_state_machine \<Rightarrow> 'e eapol_state_machine" where
  "CTRL_DIR_IN_OR_BOTH_Enter g sm =
     (entry_CTRL_DIR CTRL_DIR_IN_OR_BOTH g sm)\<lparr>operControlledDirections := adminControlledDirections sm\<rparr>"

definition CTRL_DIR_Step :: "'e eapol_state_machine \<Rightarrow> 'e eapol_state_machine" where
  "CTRL_DIR_Step sm =
     (if initialize sm then CTRL_DIR_IN_OR_BOTH_Enter True sm
      else case ctrl_dir_state sm of
        CTRL_DIR_FORCE_BOTH \<Rightarrow>
          if portEnabled (eap_if sm) \<and> operEdge sm then CTRL_DIR_IN_OR_BOTH_Enter False sm else sm
      | CTRL_DIR_IN_OR_BOTH \<Rightarrow>
          (let sm1 = (if operControlledDirections sm \<noteq> adminControlledDirections sm
                      then CTRL_DIR_IN_OR_BOTH_Enter False sm else sm)
           in if \<not> portEnabled (eap_if sm1) \<or> \<not> operEdge sm1 then CTRL_DIR_FORCE_BOTH_Enter False sm1 else sm1))"

subsection \<open>Running the machines\<close>

text \<open>
  \<open>machine_pass\<close> is the body of the \<^verbatim>\<open>restart\<close> loop up to the comparison of the states;
  \<open>states_of\<close> is what the \<^verbatim>\<open>prev_*\<close> variables save. \<open>step_loop n\<close> is the loop with
  \<^verbatim>\<open>max_steps = n\<close>; the decrement and the test \<^verbatim>\<open>--max_steps > 0\<close> are the two \<open>if 0 < n\<close>.
\<close>

type_synonym alive_cb = "eapol_out list \<Rightarrow> bool"
type_synonym 'e eap_server = "'e \<Rightarrow> eap_eapol_interface \<Rightarrow> bool \<times> 'e \<times> eap_eapol_interface"

definition guarded :: "alive_cb \<Rightarrow> ('e eapol_state_machine \<Rightarrow> 'e eapol_state_machine) \<Rightarrow>
    'e eapol_state_machine \<Rightarrow> 'e eapol_state_machine" where
  "guarded alive step sm = (if initializing sm \<or> alive (log sm) then step sm else sm)"

definition machine_pass :: "alive_cb \<Rightarrow> 'e eapol_state_machine \<Rightarrow> 'e eapol_state_machine" where
  "machine_pass alive sm =
     guarded alive CTRL_DIR_Step (guarded alive KEY_RX_Step (guarded alive AUTH_KEY_TX_Step
       (guarded alive REAUTH_TIMER_Step (guarded alive BE_AUTH_Step (AUTH_PAE_Step sm)))))"

definition states_of :: "'e eapol_state_machine \<Rightarrow>
    auth_pae \<times> be_auth \<times> reauth_timer \<times> auth_key_tx \<times> key_rx \<times> ctrl_dir" where
  "states_of sm = (auth_pae_state sm, be_auth_state sm, reauth_timer_state sm,
     auth_key_tx_state sm, key_rx_state sm, ctrl_dir_state sm)"

definition eapol_auth_step :: "'e eapol_state_machine \<Rightarrow> 'e eapol_state_machine" where
  "eapol_auth_step sm = emit StepScheduled sm"

definition report_change :: "alive_cb \<Rightarrow> 'e eapol_state_machine \<Rightarrow> 'e eapol_state_machine" where
  "report_change alive sm = (if alive (log sm) then emit EventSmChange sm else sm)"

definition relay_aaa :: "alive_cb \<Rightarrow> 'e eapol_state_machine \<Rightarrow> 'e eapol_state_machine" where
  "relay_aaa alive sm =
     (if aaaEapResp (eap_if sm) then
        let sm1 = upd_if (\<lambda>i. i\<lparr>aaaEapResp := False\<rparr>) sm
        in case aaaEapRespData (eap_if sm1) of
             None \<Rightarrow> sm1
           | Some d \<Rightarrow> report_change alive (emit (AaaSend d) sm1)
      else report_change alive sm)"

fun step_loop :: "alive_cb \<Rightarrow> 'e eap_server \<Rightarrow> nat \<Rightarrow> 'e eapol_state_machine \<Rightarrow> 'e eapol_state_machine" where
  "step_loop alive eap_step 0 sm = eapol_auth_step sm"
| "step_loop alive eap_step (Suc n) sm =
     (let sm1 = machine_pass alive sm
      in if states_of sm1 \<noteq> states_of sm
         then (if 0 < n then step_loop alive eap_step n sm1 else eapol_auth_step sm1)
         else if alive (log sm1) then
           (case eap sm1 of
              None \<Rightarrow> report_change alive sm1
            | Some e \<Rightarrow>
                (case eap_step e (eap_if sm1) of (again, e', i') \<Rightarrow>
                   let sm2 = sm1\<lparr>eap := Some e', eap_if := i'\<rparr>
                   in if again then (if 0 < n then step_loop alive eap_step n sm2 else eapol_auth_step sm2)
                      else relay_aaa alive sm2))
         else report_change alive sm1)"

definition eapol_sm_step_run :: "alive_cb \<Rightarrow> 'e eap_server \<Rightarrow> 'e eapol_state_machine \<Rightarrow> 'e eapol_state_machine" where
  "eapol_sm_step_run alive eap_step sm = step_loop alive eap_step 100 sm"

definition count_down :: "int \<Rightarrow> int" where
  "count_down t = (if t > 0 then t - 1 else t)"

definition eapol_port_timers_tick :: "alive_cb \<Rightarrow> 'e eap_server \<Rightarrow> 'e eapol_state_machine \<Rightarrow> 'e eapol_state_machine" where
  "eapol_port_timers_tick alive eap_step sm =
     (let sm1 = sm\<lparr>aWhile := count_down (aWhile sm)\<rparr>;
          sm2 = sm1\<lparr>quietWhile := count_down (quietWhile sm1)\<rparr>;
          sm3 = sm2\<lparr>reAuthWhen := count_down (reAuthWhen sm2)\<rparr>;
          sm4 = upd_if (\<lambda>i. i\<lparr>retransWhile := count_down (retransWhile i)\<rparr>) sm3
      in emit TickScheduled (eapol_sm_step_run alive eap_step sm4))"

definition eapol_auth_initialize :: "alive_cb \<Rightarrow> 'e eap_server \<Rightarrow> 'e eapol_state_machine \<Rightarrow> 'e eapol_state_machine" where
  "eapol_auth_initialize alive eap_step sm =
     (let sm1 = sm\<lparr>initializing := True, initialize := True\<rparr>;
          sm2 = (eapol_sm_step_run alive eap_step sm1)\<lparr>initialize := False\<rparr>;
          sm3 = (eapol_sm_step_run alive eap_step sm2)\<lparr>initializing := False\<rparr>
      in emit TickScheduled (emit TickCancelled sm3))"

text \<open>
  The configuration fields that \<^verbatim>\<open>eapol_auth_alloc\<close> reads. \<open>eap_init\<close> is the result of
  \<^verbatim>\<open>eap_server_sm_init\<close> with the interface it hands out, \<open>mem\<close> says whether \<^verbatim>\<open>os_zalloc\<close> succeeds.
\<close>

record eapol_auth_config =
  eap_reauth_period :: int
  conf_wpa :: bool
  default_wep_key :: bool
  individual_wep_key_len :: int

definition zeroed_if :: eap_eapol_interface where
  "zeroed_if = \<lparr>eapResp = False, eapRespData = None, portEnabled = False, retransWhile = 0,
     eapRestart = False, eapReq = False, eapNoReq = False, eapSuccess = False, eapFail = False,
     eapTimeout = False, eapReqData = None, eapKeyAvailable = False, aaaEapReq = False,
     aaaEapNoReq = False, aaaSuccess = False, aaaFail = False, aaaEapResp = False,
     aaaEapRespData = None, aaaTimeout = False\<rparr>"

definition zeroed_sm :: "'e eapol_state_machine" where
  "zeroed_sm = \<lparr>aWhile = 0, quietWhile = 0, reAuthWhen = 0, authAbort = False, authFail = False,
     authPortStatus = PortStatusUnset, authStart = False, authTimeout = False, authSuccess = False,
     eapolEap = False, initialize = False, keyDone = False, keyRun = False, keyTxEnabled = False,
     portControl = PortModeUnset, portValid = False, reAuthenticate = False,
     auth_pae_state = AUTH_PAE_INITIALIZE, eapolLogoff = False, eapolStart = False,
     portMode = PortModeUnset, reAuthCount = 0, quietPeriod = 0, reAuthMax = 0,
     be_auth_state = BE_AUTH_REQUEST, serverTimeout = 0,
     reauth_timer_state = REAUTH_TIMER_INITIALIZE, reAuthPeriod = 0, reAuthEnabled = False,
     auth_key_tx_state = AUTH_KEY_TX_NO_KEY_TRANSMIT, key_rx_state = KEY_RX_NO_KEY_RECEIVE,
     rxKey = False, ctrl_dir_state = CTRL_DIR_FORCE_BOTH, adminControlledDirections = Both,
     operControlledDirections = Both, operEdge = False, flags = 0, last_eap_id = 0,
     eap_type_supp = 0, initializing = False, changed = False, eap_if = zeroed_if, eap = None,
     cnt = \<lparr>authEntersConnecting = 0, authEapLogoffsWhileConnecting = 0, authEntersAuthenticating = 0,
       authAuthSuccessesWhileAuthenticating = 0, authAuthTimeoutsWhileAuthenticating = 0,
       authAuthFailWhileAuthenticating = 0, authAuthEapStartsWhileAuthenticating = 0,
       authAuthEapLogoffWhileAuthenticating = 0, authAuthReauthsWhileAuthenticated = 0,
       authAuthEapStartsWhileAuthenticated = 0, authAuthEapLogoffWhileAuthenticated = 0,
       backendResponses = 0, backendAccessChallenges = 0, backendOtherRequestsToSupplicant = 0,
       backendAuthSuccesses = 0, backendAuthFails = 0\<rparr>,
     stats = \<lparr>dot1xAuthEapolFramesRx = 0, dot1xAuthEapolFramesTx = 0, dot1xAuthEapolStartFramesRx = 0,
       dot1xAuthEapolLogoffFramesRx = 0, dot1xAuthEapolRespFramesRx = 0, dot1xAuthEapolReqIdFramesTx = 0,
       dot1xAuthEapolReqFramesTx = 0, dot1xAuthInvalidEapolFramesRx = 0,
       dot1xAuthEapLengthErrorFramesRx = 0, dot1xAuthLastEapolFrameVersion = 0\<rparr>,
     log = []\<rparr>"

definition eapol_auth_alloc :: "alive_cb \<Rightarrow> 'e eap_server \<Rightarrow> eapol_auth_config option \<Rightarrow> bool \<Rightarrow> u32 \<Rightarrow>
    ('e \<times> eap_eapol_interface) option \<Rightarrow> 'e eapol_state_machine option" where
  "eapol_auth_alloc alive eap_step conf mem fl eap_init =
     (case conf of None \<Rightarrow> None | Some c \<Rightarrow>
      if \<not> mem then None
      else
        let sm1 = zeroed_sm\<lparr>flags := fl,
              auth_pae_state := AUTH_PAE_INITIALIZE, quietPeriod := 60, reAuthMax := 2,
              be_auth_state := BE_AUTH_INITIALIZE, serverTimeout := 30,
              reauth_timer_state := REAUTH_TIMER_INITIALIZE,
              reAuthPeriod := word_of_int (eap_reauth_period c), reAuthEnabled := eap_reauth_period c > 0,
              auth_key_tx_state := AUTH_KEY_TX_NO_KEY_TRANSMIT, key_rx_state := KEY_RX_NO_KEY_RECEIVE,
              ctrl_dir_state := CTRL_DIR_IN_OR_BOTH, portControl := Auto,
              keyTxEnabled := (\<not> conf_wpa c \<and> (default_wep_key c \<or> individual_wep_key_len c > 0)),
              portValid := \<not> conf_wpa c\<rparr>
        in case eap_init of
             None \<Rightarrow> None
           | Some (e, i) \<Rightarrow> Some (eapol_auth_initialize alive eap_step (sm1\<lparr>eap := Some e, eap_if := i\<rparr>)))"

text \<open>What \<^verbatim>\<open>eapol_auth_free\<close> does before the memory goes away.\<close>

definition eapol_auth_free :: "'e eapol_state_machine option \<Rightarrow> eapol_out list" where
  "eapol_auth_free sm = (case sm of None \<Rightarrow> [] | Some s \<Rightarrow> [TickCancelled, StepCancelled])"

text \<open>\<open>pending\<close> is \<^verbatim>\<open>eap_sm_pending_cb\<close>, \<open>same\<close> the comparison of the context with \<^verbatim>\<open>sm->eap\<close>.\<close>

definition eapol_auth_eap_pending_cb :: "('e option \<Rightarrow> 'e option) \<Rightarrow> bool \<Rightarrow> 'e eapol_state_machine option \<Rightarrow>
    int \<times> 'e eapol_state_machine option" where
  "eapol_auth_eap_pending_cb pending same sm =
     (case sm of None \<Rightarrow> (- 1, None)
      | Some s \<Rightarrow> if \<not> same then (- 1, sm)
                  else (0, Some (eapol_auth_step (s\<lparr>eap := pending (eap s)\<rparr>))))"

subsection \<open>What the machines leave alone\<close>

text \<open>The fields the claims below are about, as one projection.\<close>

definition port_after :: "PortState \<Rightarrow> eapol_out \<Rightarrow> PortState" where
  "port_after p ev = (case ev of SetPortAuthorized b \<Rightarrow> if b then Authorized else Unauthorized | _ \<Rightarrow> p)"

definition last_port :: "eapol_out list \<Rightarrow> PortState" where
  "last_port l = foldl port_after PortStatusUnset l"

lemma last_port_append [simp]: "last_port (l @ l') = foldl port_after (last_port l) l'"
  by (simp add: last_port_def)

lemma port_after_simps [simp]:
  "port_after p (SetPortAuthorized True) = Authorized" "port_after p (SetPortAuthorized False) = Unauthorized"
  "port_after p (EapolSend d) = p" "port_after p (Finished a b) = p" "port_after p AbortAuth = p"
  "port_after p TxKey = p" "port_after p EventSmChange = p" "port_after p EventReauthenticate = p"
  "port_after p (AaaSend d) = p" "port_after p StepScheduled = p" "port_after p TickScheduled = p"
  "port_after p StepCancelled = p" "port_after p TickCancelled = p"
  by (simp_all add: port_after_def)

text \<open>How often the port has been opened.\<close>

definition openings :: "eapol_out list \<Rightarrow> nat" where
  "openings l = length (filter (\<lambda>ev. ev = SetPortAuthorized True) l)"

definition pae_view :: "'e eapol_state_machine \<Rightarrow>
    auth_pae \<times> PortState \<times> PortState \<times> PortTypes \<times> PortTypes \<times> bool \<times> bool \<times> int \<times> nat" where
  "pae_view sm = (auth_pae_state sm, authPortStatus sm, last_port (log sm), portControl sm, portMode sm,
     portEnabled (eap_if sm), initialize sm, quietWhile sm, openings (log sm))"

lemma pae_viewD:
  assumes "pae_view a = pae_view b"
  shows "auth_pae_state a = auth_pae_state b" "authPortStatus a = authPortStatus b"
    "last_port (log a) = last_port (log b)" "portControl a = portControl b" "portMode a = portMode b"
    "portEnabled (eap_if a) = portEnabled (eap_if b)" "initialize a = initialize b"
    "quietWhile a = quietWhile b" "openings (log a) = openings (log b)"
  using assms by (simp_all add: pae_view_def)

lemma view_upd [frame_simps]:
  "pae_view (sm\<lparr>aWhile := v1\<rparr>) = pae_view sm"
  "pae_view (sm\<lparr>reAuthWhen := v2\<rparr>) = pae_view sm"
  "pae_view (sm\<lparr>authAbort := v3\<rparr>) = pae_view sm"
  "pae_view (sm\<lparr>authFail := v4\<rparr>) = pae_view sm"
  "pae_view (sm\<lparr>authStart := v5\<rparr>) = pae_view sm"
  "pae_view (sm\<lparr>authTimeout := v6\<rparr>) = pae_view sm"
  "pae_view (sm\<lparr>authSuccess := v7\<rparr>) = pae_view sm"
  "pae_view (sm\<lparr>eapolEap := v8\<rparr>) = pae_view sm"
  "pae_view (sm\<lparr>keyDone := v9\<rparr>) = pae_view sm"
  "pae_view (sm\<lparr>keyRun := v10\<rparr>) = pae_view sm"
  "pae_view (sm\<lparr>reAuthenticate := v11\<rparr>) = pae_view sm"
  "pae_view (sm\<lparr>eapolLogoff := v12\<rparr>) = pae_view sm"
  "pae_view (sm\<lparr>eapolStart := v13\<rparr>) = pae_view sm"
  "pae_view (sm\<lparr>reAuthCount := v14\<rparr>) = pae_view sm"
  "pae_view (sm\<lparr>be_auth_state := v15\<rparr>) = pae_view sm"
  "pae_view (sm\<lparr>reauth_timer_state := v16\<rparr>) = pae_view sm"
  "pae_view (sm\<lparr>auth_key_tx_state := v17\<rparr>) = pae_view sm"
  "pae_view (sm\<lparr>key_rx_state := v18\<rparr>) = pae_view sm"
  "pae_view (sm\<lparr>rxKey := v19\<rparr>) = pae_view sm"
  "pae_view (sm\<lparr>ctrl_dir_state := v20\<rparr>) = pae_view sm"
  "pae_view (sm\<lparr>operControlledDirections := v21\<rparr>) = pae_view sm"
  "pae_view (sm\<lparr>last_eap_id := v22\<rparr>) = pae_view sm"
  "pae_view (sm\<lparr>changed := v23\<rparr>) = pae_view sm"
  "pae_view (sm\<lparr>eap := v24\<rparr>) = pae_view sm"
  "pae_view (sm\<lparr>cnt := v25\<rparr>) = pae_view sm"
  "pae_view (sm\<lparr>stats := v26\<rparr>) = pae_view sm"
  "pae_view (sm\<lparr>eap_type_supp := v27\<rparr>) = pae_view sm"
  "pae_view (sm\<lparr>reAuthPeriod := v28\<rparr>) = pae_view sm"
  "pae_view (sm\<lparr>flags := v29\<rparr>) = pae_view sm"
  by (simp_all add: pae_view_def)

lemma view_upd_if [frame_simps]:
  "portEnabled i = portEnabled (eap_if sm) \<Longrightarrow> pae_view (sm\<lparr>eap_if := i\<rparr>) = pae_view sm"
  by (simp add: pae_view_def)

lemma view_emit [frame_simps]:
  "(\<And>b. ev \<noteq> SetPortAuthorized b) \<Longrightarrow> pae_view (emit ev sm) = pae_view sm"
  by (cases ev) (auto simp: pae_view_def emit_def openings_def)

lemma view_entry [frame_simps]:
  "pae_view (entry_BE_AUTH b g sm) = pae_view sm"
  "pae_view (entry_REAUTH_TIMER r g sm) = pae_view sm"
  "pae_view (entry_AUTH_KEY_TX k g sm) = pae_view sm"
  "pae_view (entry_KEY_RX x g sm) = pae_view sm"
  "pae_view (entry_CTRL_DIR d g sm) = pae_view sm"
  by (simp_all add: entry_BE_AUTH_def entry_REAUTH_TIMER_def entry_AUTH_KEY_TX_def entry_KEY_RX_def
      entry_CTRL_DIR_def frame_simps)

lemma emit_keeps [frame_simps]: "eap_if (emit ev sm) = eap_if sm" "stats (emit ev sm) = stats sm"
  "cnt (emit ev sm) = cnt sm" "authSuccess (emit ev sm) = authSuccess sm"
  "be_auth_state (emit ev sm) = be_auth_state sm" "initializing (emit ev sm) = initializing sm"
  by (simp_all add: emit_def)

lemma tx_req_view [frame_simps]: "pae_view (eapol_auth_tx_req sm) = pae_view sm"
  by (simp add: eapol_auth_tx_req_def frame_simps Let_def split: option.split)

lemma tx_req_keeps [frame_simps]:
  "authSuccess (eapol_auth_tx_req sm) = authSuccess sm"
  "eap_if (eapol_auth_tx_req sm) = eap_if sm"
  "be_auth_state (eapol_auth_tx_req sm) = be_auth_state sm"
  by (simp_all add: eapol_auth_tx_req_def frame_simps Let_def split: option.split)

lemma be_enter_view [frame_simps]:
  "pae_view (BE_AUTH_INITIALIZE_Enter g sm) = pae_view sm"
  "pae_view (BE_AUTH_REQUEST_Enter g sm) = pae_view sm"
  "pae_view (BE_AUTH_RESPONSE_Enter g sm) = pae_view sm"
  "pae_view (BE_AUTH_SUCCESS_Enter g sm) = pae_view sm"
  "pae_view (BE_AUTH_FAIL_Enter g sm) = pae_view sm"
  "pae_view (BE_AUTH_TIMEOUT_Enter g sm) = pae_view sm"
  "pae_view (BE_AUTH_IDLE_Enter g sm) = pae_view sm"
  "pae_view (BE_AUTH_IGNORE_Enter g sm) = pae_view sm"
  unfolding BE_AUTH_INITIALIZE_Enter_def BE_AUTH_REQUEST_Enter_def
    BE_AUTH_RESPONSE_Enter_def BE_AUTH_SUCCESS_Enter_def BE_AUTH_FAIL_Enter_def
    BE_AUTH_TIMEOUT_Enter_def BE_AUTH_IDLE_Enter_def BE_AUTH_IGNORE_Enter_def Let_def
  by (simp_all add: frame_simps)

lemma be_step_view [frame_simps]: "pae_view (BE_AUTH_Step sm) = pae_view sm"
  by (simp add: BE_AUTH_Step_def Let_def frame_simps split: be_auth.split)

lemma small_step_view [frame_simps]:
  "pae_view (REAUTH_TIMER_Step sm) = pae_view sm"
  "pae_view (AUTH_KEY_TX_Step sm) = pae_view sm"
  "pae_view (KEY_RX_Step sm) = pae_view sm"
  "pae_view (CTRL_DIR_Step sm) = pae_view sm"
  by (simp_all add: REAUTH_TIMER_Step_def REAUTH_TIMER_INITIALIZE_Enter_def
      REAUTH_TIMER_REAUTHENTICATE_Enter_def
      AUTH_KEY_TX_Step_def AUTH_KEY_TX_NO_KEY_TRANSMIT_Enter_def AUTH_KEY_TX_KEY_TRANSMIT_Enter_def
      KEY_RX_Step_def KEY_RX_NO_KEY_RECEIVE_Enter_def KEY_RX_KEY_RECEIVE_Enter_def
      CTRL_DIR_Step_def CTRL_DIR_FORCE_BOTH_Enter_def CTRL_DIR_IN_OR_BOTH_Enter_def
      frame_simps Let_def
      split: reauth_timer.split auth_key_tx.split key_rx.split ctrl_dir.split)

lemma guarded_view [frame_simps]:
  "(\<And>s. pae_view (f s) = pae_view s) \<Longrightarrow> pae_view (guarded alive f sm) = pae_view sm"
  by (simp add: guarded_def)

text \<open>So in one pass only the PAE machine moves the port.\<close>

lemma pass_view: "pae_view (machine_pass alive sm) = pae_view (AUTH_PAE_Step sm)"
  by (simp add: machine_pass_def frame_simps)


lemma pae_enter_view:
  "pae_view (AUTH_PAE_INITIALIZE_Enter g sm) = (AUTH_PAE_INITIALIZE, authPortStatus sm, last_port (log sm),
     portControl sm, Auto, portEnabled (eap_if sm), initialize sm, quietWhile sm, openings (log sm))"
  "pae_view (AUTH_PAE_DISCONNECTED_Enter g sm) = (AUTH_PAE_DISCONNECTED, Unauthorized, Unauthorized,
     portControl sm, portMode sm, portEnabled (eap_if sm), initialize sm, quietWhile sm, openings (log sm))"
  "pae_view (AUTH_PAE_RESTART_Enter g sm) = (AUTH_PAE_RESTART, authPortStatus sm, last_port (log sm),
     portControl sm, portMode sm, portEnabled (eap_if sm), initialize sm, quietWhile sm, openings (log sm))"
  "pae_view (AUTH_PAE_CONNECTING_Enter g sm) = (AUTH_PAE_CONNECTING, authPortStatus sm, last_port (log sm),
     portControl sm, portMode sm, portEnabled (eap_if sm), initialize sm, quietWhile sm, openings (log sm))"
  "pae_view (AUTH_PAE_HELD_Enter g sm) = (AUTH_PAE_HELD, Unauthorized, Unauthorized,
     portControl sm, portMode sm, portEnabled (eap_if sm), initialize sm, to_int (quietPeriod sm), openings (log sm))"
  "pae_view (AUTH_PAE_AUTHENTICATED_Enter g sm) = (AUTH_PAE_AUTHENTICATED, Authorized, Authorized,
     portControl sm, portMode sm, portEnabled (eap_if sm), initialize sm, quietWhile sm, Suc (openings (log sm)))"
  "pae_view (AUTH_PAE_AUTHENTICATING_Enter g sm) = (AUTH_PAE_AUTHENTICATING, authPortStatus sm, last_port (log sm),
     portControl sm, portMode sm, portEnabled (eap_if sm), initialize sm, quietWhile sm, openings (log sm))"
  "pae_view (AUTH_PAE_ABORTING_Enter g sm) = (AUTH_PAE_ABORTING, authPortStatus sm, last_port (log sm),
     portControl sm, portMode sm, portEnabled (eap_if sm), initialize sm, quietWhile sm, openings (log sm))"
  "pae_view (AUTH_PAE_FORCE_AUTH_Enter g sm) = (AUTH_PAE_FORCE_AUTH, Authorized, Authorized,
     portControl sm, ForceAuthorized, portEnabled (eap_if sm), initialize sm, quietWhile sm, Suc (openings (log sm)))"
  "pae_view (AUTH_PAE_FORCE_UNAUTH_Enter g sm) = (AUTH_PAE_FORCE_UNAUTH, Unauthorized, Unauthorized,
     portControl sm, ForceUnauthorized, portEnabled (eap_if sm), initialize sm, quietWhile sm, openings (log sm))"
  by (simp_all add: AUTH_PAE_INITIALIZE_Enter_def AUTH_PAE_DISCONNECTED_Enter_def
      AUTH_PAE_RESTART_Enter_def AUTH_PAE_CONNECTING_Enter_def AUTH_PAE_HELD_Enter_def
      AUTH_PAE_AUTHENTICATED_Enter_def AUTH_PAE_AUTHENTICATING_Enter_def AUTH_PAE_ABORTING_Enter_def
      AUTH_PAE_FORCE_AUTH_Enter_def AUTH_PAE_FORCE_UNAUTH_Enter_def entry_AUTH_PAE_def
      eapol_auth_tx_canned_eap_def emit_def Let_def pae_view_def openings_def)

text \<open>
  The port invariant: the status the machine believes in is the one it last told the driver, and it
  agrees with the state of the PAE machine.
\<close>

definition port_ok :: "auth_pae \<Rightarrow> PortState \<Rightarrow> PortState \<Rightarrow> bool" where
  "port_ok s p q = (p = q \<and>
     (s \<in> {AUTH_PAE_DISCONNECTED, AUTH_PAE_HELD, AUTH_PAE_FORCE_UNAUTH} \<longrightarrow> p = Unauthorized) \<and>
     (s = AUTH_PAE_FORCE_AUTH \<longrightarrow> p = Authorized))"

definition port_inv :: "'e eapol_state_machine \<Rightarrow> bool" where
  "port_inv sm = port_ok (auth_pae_state sm) (authPortStatus sm) (last_port (log sm))"

lemma port_inv_view: "pae_view a = pae_view b \<Longrightarrow> port_inv a = port_inv b"
  by (simp add: port_inv_def pae_view_def)

lemma port_inv_tuple: "pae_view a = (s, p, q, r) \<Longrightarrow> port_inv a = port_ok s p q"
  by (simp add: port_inv_def pae_view_def)

lemma port_inv_enter:
  "port_inv sm \<Longrightarrow> port_inv (AUTH_PAE_INITIALIZE_Enter g sm)"
  "port_inv (AUTH_PAE_DISCONNECTED_Enter g sm)"
  "port_inv sm \<Longrightarrow> port_inv (AUTH_PAE_RESTART_Enter g sm)"
  "port_inv sm \<Longrightarrow> port_inv (AUTH_PAE_CONNECTING_Enter g sm)"
  "port_inv (AUTH_PAE_HELD_Enter g sm)"
  "port_inv (AUTH_PAE_AUTHENTICATED_Enter g sm)"
  "port_inv sm \<Longrightarrow> port_inv (AUTH_PAE_AUTHENTICATING_Enter g sm)"
  "port_inv sm \<Longrightarrow> port_inv (AUTH_PAE_ABORTING_Enter g sm)"
  "port_inv (AUTH_PAE_FORCE_AUTH_Enter g sm)"
  "port_inv (AUTH_PAE_FORCE_UNAUTH_Enter g sm)"
  unfolding pae_enter_view [THEN port_inv_tuple] by (simp_all add: port_inv_def port_ok_def)

lemma port_inv_pae_step: "port_inv sm \<Longrightarrow> port_inv (AUTH_PAE_Step sm)"
  unfolding AUTH_PAE_Step_def
  by (cases "auth_pae_state sm") (simp_all only: auth_pae.case if_split port_inv_enter simp_thms)

lemma port_inv_pass: "port_inv sm \<Longrightarrow> port_inv (machine_pass alive sm)"
  using port_inv_pae_step port_inv_view [OF pass_view] by blast

lemma port_inv_scheduled [simp]: "port_inv (eapol_auth_step sm) = port_inv sm"
  by (rule port_inv_view) (simp add: eapol_auth_step_def frame_simps)

lemma relay_view [frame_simps]: "pae_view (relay_aaa alive sm) = pae_view sm"
  "pae_view (report_change alive sm) = pae_view sm"
  by (simp_all add: relay_aaa_def report_change_def Let_def frame_simps split: option.split)

lemma port_inv_relay [simp]: "port_inv (relay_aaa alive sm) = port_inv sm"
  "port_inv (report_change alive sm) = port_inv sm"
  by (rule port_inv_view, simp add: frame_simps)+

lemma port_inv_eap [simp]: "port_inv (sm\<lparr>eap := e, eap_if := i\<rparr>) = port_inv sm"
  by (simp add: port_inv_def)

text \<open>
  The induction principle of the loop: what a pass, the EAP server and the closing outputs keep,
  the whole run keeps.
\<close>

lemma step_loop_keeps:
  assumes pass: "\<And>s. I s \<Longrightarrow> I (machine_pass alive s)"
    and server: "\<And>s e b e' i. I s \<Longrightarrow> eap s = Some e \<Longrightarrow> eap_step e (eap_if s) = (b, e', i) \<Longrightarrow>
       I (s\<lparr>eap := Some e', eap_if := i\<rparr>)"
    and relay: "\<And>s. I s \<Longrightarrow> I (relay_aaa alive s)"
    and report: "\<And>s. I s \<Longrightarrow> I (report_change alive s)"
    and sched: "\<And>s. I s \<Longrightarrow> I (eapol_auth_step s)"
  shows "I sm \<Longrightarrow> I (step_loop alive eap_step n sm)"
proof (induction n arbitrary: sm)
  case 0
  then show ?case by (simp add: sched)
next
  case (Suc n)
  have p: "I (machine_pass alive sm)" using Suc.prems by (rule pass)
  show ?case
    using p Suc.IH server [OF p]
    by (auto simp: Let_def relay report sched split: option.split prod.split)
qed

lemma port_inv_run: "port_inv sm \<Longrightarrow> port_inv (eapol_sm_step_run alive eap_step sm)"
  unfolding eapol_sm_step_run_def
  by (rule step_loop_keeps [where I = port_inv]) (simp_all add: port_inv_pass)

text \<open>
  Without the EAP server's verdict no pass opens the port: \<open>closed_inv\<close> says that the verdict is
  absent and the port has never been opened.
\<close>

definition no_verdict :: "'e eapol_state_machine \<Rightarrow> bool" where
  "no_verdict sm = (\<not> authSuccess sm \<and> \<not> eapSuccess (eap_if sm))"

definition closed_inv :: "'e eapol_state_machine \<Rightarrow> bool" where
  "closed_inv sm = (no_verdict sm \<and> portControl sm = Auto \<and> auth_pae_state sm \<noteq> AUTH_PAE_FORCE_AUTH \<and>
     openings (log sm) = 0)"

lemma no_verdict_upd [frame_simps]:
  "no_verdict (sm\<lparr>cnt := c\<rparr>) = no_verdict sm"
  "no_verdict (emit ev sm) = no_verdict sm"
  "no_verdict (eapol_auth_tx_req sm) = no_verdict sm"
  "no_verdict (eapol_auth_tx_canned_eap b sm) = no_verdict sm"
  "eapSuccess i = eapSuccess (eap_if sm) \<Longrightarrow> no_verdict (sm\<lparr>eap_if := i\<rparr>) = no_verdict sm"
  by (simp_all add: no_verdict_def frame_simps eapol_auth_tx_canned_eap_def Let_def emit_def)

lemma no_verdict_pae_enter:
  "no_verdict sm \<Longrightarrow> no_verdict (AUTH_PAE_INITIALIZE_Enter g sm)"
  "no_verdict sm \<Longrightarrow> no_verdict (AUTH_PAE_DISCONNECTED_Enter g sm)"
  "no_verdict sm \<Longrightarrow> no_verdict (AUTH_PAE_RESTART_Enter g sm)"
  "no_verdict sm \<Longrightarrow> no_verdict (AUTH_PAE_CONNECTING_Enter g sm)"
  "no_verdict sm \<Longrightarrow> no_verdict (AUTH_PAE_HELD_Enter g sm)"
  "no_verdict sm \<Longrightarrow> no_verdict (AUTH_PAE_AUTHENTICATED_Enter g sm)"
  "no_verdict sm \<Longrightarrow> no_verdict (AUTH_PAE_AUTHENTICATING_Enter g sm)"
  "no_verdict sm \<Longrightarrow> no_verdict (AUTH_PAE_ABORTING_Enter g sm)"
  "no_verdict sm \<Longrightarrow> no_verdict (AUTH_PAE_FORCE_AUTH_Enter g sm)"
  "no_verdict sm \<Longrightarrow> no_verdict (AUTH_PAE_FORCE_UNAUTH_Enter g sm)"
  by (simp_all add: AUTH_PAE_INITIALIZE_Enter_def AUTH_PAE_DISCONNECTED_Enter_def
      AUTH_PAE_RESTART_Enter_def AUTH_PAE_CONNECTING_Enter_def AUTH_PAE_HELD_Enter_def
      AUTH_PAE_AUTHENTICATED_Enter_def AUTH_PAE_AUTHENTICATING_Enter_def AUTH_PAE_ABORTING_Enter_def
      AUTH_PAE_FORCE_AUTH_Enter_def AUTH_PAE_FORCE_UNAUTH_Enter_def entry_AUTH_PAE_def
      eapol_auth_tx_canned_eap_def emit_def Let_def no_verdict_def)

lemma no_verdict_be_enter:
  "no_verdict sm \<Longrightarrow> no_verdict (BE_AUTH_INITIALIZE_Enter g sm)"
  "no_verdict sm \<Longrightarrow> no_verdict (BE_AUTH_REQUEST_Enter g sm)"
  "no_verdict sm \<Longrightarrow> no_verdict (BE_AUTH_RESPONSE_Enter g sm)"
  "no_verdict sm \<Longrightarrow> no_verdict (BE_AUTH_FAIL_Enter g sm)"
  "no_verdict sm \<Longrightarrow> no_verdict (BE_AUTH_TIMEOUT_Enter g sm)"
  "no_verdict sm \<Longrightarrow> no_verdict (BE_AUTH_IDLE_Enter g sm)"
  "no_verdict sm \<Longrightarrow> no_verdict (BE_AUTH_IGNORE_Enter g sm)"
  by (simp_all add: BE_AUTH_INITIALIZE_Enter_def BE_AUTH_REQUEST_Enter_def
    BE_AUTH_RESPONSE_Enter_def BE_AUTH_FAIL_Enter_def
    BE_AUTH_TIMEOUT_Enter_def BE_AUTH_IDLE_Enter_def BE_AUTH_IGNORE_Enter_def Let_def
    entry_BE_AUTH_def frame_simps no_verdict_def)

lemma no_verdict_no_success: "no_verdict sm \<Longrightarrow> \<not> eapSuccess (eap_if sm)" "no_verdict sm \<Longrightarrow> \<not> authSuccess sm"
  by (simp_all add: no_verdict_def)

lemma no_verdict_pae_step: "no_verdict sm \<Longrightarrow> no_verdict (AUTH_PAE_Step sm)"
  unfolding AUTH_PAE_Step_def
  by (cases "auth_pae_state sm") (simp_all only: auth_pae.case if_split no_verdict_pae_enter simp_thms)

lemma no_verdict_be_step: "no_verdict sm \<Longrightarrow> no_verdict (BE_AUTH_Step sm)"
proof (cases "be_auth_state sm = BE_AUTH_RESPONSE")
  case False
  assume "no_verdict sm"
  with False show ?thesis
    unfolding BE_AUTH_Step_def
    by (cases "be_auth_state sm")
      (simp_all only: be_auth.case if_split no_verdict_be_enter no_verdict_no_success simp_thms)
next
  case True
  assume i: "no_verdict sm"
  define sm1 where "sm1 = (if eapNoReq (eap_if sm) then BE_AUTH_IGNORE_Enter False sm else sm)"
  have "no_verdict sm1" using i by (simp add: sm1_def no_verdict_be_enter)
  then have "no_verdict (upd_cnt f sm1)" "\<not> eapSuccess (eap_if sm1)" for f
    by (simp_all only: frame_simps no_verdict_no_success simp_thms)
  then show ?thesis
    unfolding BE_AUTH_Step_def True be_auth.case sm1_def [symmetric] Let_def
    by (simp only: if_split no_verdict_be_enter simp_thms i \<open>no_verdict sm1\<close>)
qed

lemma no_verdict_small_step:
  "no_verdict (REAUTH_TIMER_Step sm) = no_verdict sm"
  "no_verdict (AUTH_KEY_TX_Step sm) = no_verdict sm"
  "no_verdict (KEY_RX_Step sm) = no_verdict sm"
  "no_verdict (CTRL_DIR_Step sm) = no_verdict sm"
  by (simp_all add: REAUTH_TIMER_Step_def REAUTH_TIMER_INITIALIZE_Enter_def
      REAUTH_TIMER_REAUTHENTICATE_Enter_def entry_REAUTH_TIMER_def
      AUTH_KEY_TX_Step_def AUTH_KEY_TX_NO_KEY_TRANSMIT_Enter_def AUTH_KEY_TX_KEY_TRANSMIT_Enter_def
      entry_AUTH_KEY_TX_def
      KEY_RX_Step_def KEY_RX_NO_KEY_RECEIVE_Enter_def KEY_RX_KEY_RECEIVE_Enter_def entry_KEY_RX_def
      CTRL_DIR_Step_def CTRL_DIR_FORCE_BOTH_Enter_def CTRL_DIR_IN_OR_BOTH_Enter_def entry_CTRL_DIR_def
      no_verdict_def emit_def Let_def
      split: reauth_timer.split auth_key_tx.split key_rx.split ctrl_dir.split)

lemma no_verdict_pass: "no_verdict sm \<Longrightarrow> no_verdict (machine_pass alive sm)"
  by (simp add: machine_pass_def guarded_def no_verdict_small_step no_verdict_be_step no_verdict_pae_step)

lemma closed_tuple: "pae_view a = (s, p, q, c, m, e, i, t, o1) \<Longrightarrow> no_verdict a \<Longrightarrow>
    closed_inv a = (c = Auto \<and> s \<noteq> AUTH_PAE_FORCE_AUTH \<and> o1 = 0)"
  by (simp add: closed_inv_def pae_view_def)

lemma closed_pae_enter:
  assumes "closed_inv sm"
  shows "closed_inv (AUTH_PAE_INITIALIZE_Enter g sm)" "closed_inv (AUTH_PAE_DISCONNECTED_Enter g sm)"
    "closed_inv (AUTH_PAE_RESTART_Enter g sm)" "closed_inv (AUTH_PAE_CONNECTING_Enter g sm)"
    "closed_inv (AUTH_PAE_HELD_Enter g sm)" "closed_inv (AUTH_PAE_AUTHENTICATING_Enter g sm)"
    "closed_inv (AUTH_PAE_ABORTING_Enter g sm)" "closed_inv (AUTH_PAE_FORCE_UNAUTH_Enter g sm)"
proof -
  have n: "no_verdict sm" using assms by (simp add: closed_inv_def)
  show "closed_inv (AUTH_PAE_INITIALIZE_Enter g sm)" "closed_inv (AUTH_PAE_DISCONNECTED_Enter g sm)"
    "closed_inv (AUTH_PAE_RESTART_Enter g sm)" "closed_inv (AUTH_PAE_CONNECTING_Enter g sm)"
    "closed_inv (AUTH_PAE_HELD_Enter g sm)" "closed_inv (AUTH_PAE_AUTHENTICATING_Enter g sm)"
    "closed_inv (AUTH_PAE_ABORTING_Enter g sm)" "closed_inv (AUTH_PAE_FORCE_UNAUTH_Enter g sm)"
    using assms by (simp_all add: pae_enter_view(1-5,7,8,10) [THEN closed_tuple] no_verdict_pae_enter n
        closed_inv_def [of sm])
qed

lemma closed_pae_step: "closed_inv sm \<Longrightarrow> closed_inv (AUTH_PAE_Step sm)"
proof -
  assume i: "closed_inv sm"
  then have f: "portControl sm \<noteq> ForceAuthorized" "auth_pae_state sm \<noteq> AUTH_PAE_FORCE_AUTH" "\<not> authSuccess sm"
    by (auto simp: closed_inv_def no_verdict_def)
  show ?thesis
    using f unfolding AUTH_PAE_Step_def
    by (cases "auth_pae_state sm") (simp_all only: auth_pae.case if_split closed_pae_enter [OF i] i simp_thms)
qed

lemma closed_view:
  assumes "pae_view a = pae_view b" and "no_verdict a" and "closed_inv b"
  shows "closed_inv a"
  using assms(2,3) pae_viewD [OF assms(1)] by (simp add: closed_inv_def)

lemma closed_pass: "closed_inv sm \<Longrightarrow> closed_inv (machine_pass alive sm)"
  by (rule closed_view [OF pass_view no_verdict_pass closed_pae_step]) (simp_all add: closed_inv_def)

lemma no_verdict_outputs [frame_simps]:
  "no_verdict (relay_aaa alive sm) = no_verdict sm"
  "no_verdict (report_change alive sm) = no_verdict sm"
  "no_verdict (eapol_auth_step sm) = no_verdict sm"
  by (simp_all add: frame_simps eapol_auth_step_def relay_aaa_def report_change_def Let_def split: option.split)

lemma scheduled_view [frame_simps]: "pae_view (eapol_auth_step sm) = pae_view sm"
  by (simp add: eapol_auth_step_def frame_simps)

lemma closed_outputs:
  assumes "closed_inv sm"
  shows "closed_inv (relay_aaa alive sm)" "closed_inv (report_change alive sm)" "closed_inv (eapol_auth_step sm)"
  using assms by (auto intro!: closed_view [of _ sm] simp: frame_simps) (simp_all add: closed_inv_def)

text \<open>\<open>no_success srv\<close>: the EAP server never reports success.\<close>

definition no_success :: "'e eap_server \<Rightarrow> bool" where
  "no_success srv = (\<forall>e i. \<not> eapSuccess i \<longrightarrow> \<not> eapSuccess (snd (snd (srv e i))))"

lemma closed_run:
  assumes "no_success eap_step" and "closed_inv sm"
  shows "closed_inv (eapol_sm_step_run alive eap_step sm)"
  unfolding eapol_sm_step_run_def
proof (rule step_loop_keeps [where I = closed_inv])
  fix s :: "'a eapol_state_machine" and e b e' i
  assume c: "closed_inv s" and "eap_step e (eap_if s) = (b, e', i)"
  then have "\<not> eapSuccess i"
    using assms(1) by (auto simp: no_success_def closed_inv_def no_verdict_def) (metis snd_conv)
  then show "closed_inv (s\<lparr>eap := Some e', eap_if := i\<rparr>)"
    using c by (simp add: closed_inv_def no_verdict_def)
qed (simp_all add: closed_pass closed_outputs assms(2))

lemma last_port_opened: "last_port l = Authorized \<Longrightarrow> openings l \<noteq> 0"
proof (induction l rule: rev_induct)
  case (snoc x xs)
  then show ?case by (cases x) (auto simp: openings_def port_after_def split: if_splits bool.splits)
qed (simp add: last_port_def)

lemma closed_port: "closed_inv sm \<Longrightarrow> port_inv sm \<Longrightarrow> authPortStatus sm \<noteq> Authorized"
  using last_port_opened [of "log sm"] by (auto simp: closed_inv_def port_inv_def port_ok_def)

subsection \<open>The verdict opens the port\<close>

lemma openings_tuple: "pae_view a = (s, p, q, c, m, e, i, t, o1) \<Longrightarrow> n \<le> openings (log a) \<longleftrightarrow> n \<le> o1"
  by (simp add: pae_view_def)

lemma openings_pae_step: "n \<le> openings (log sm) \<Longrightarrow> n \<le> openings (log (AUTH_PAE_Step sm))"
  unfolding AUTH_PAE_Step_def
  by (cases "auth_pae_state sm")
    (simp_all only: auth_pae.case pae_enter_view [THEN openings_tuple] le_SucI simp_thms split: if_split)

lemma openings_run: "k \<le> openings (log sm) \<Longrightarrow> k \<le> openings (log (step_loop alive eap_step n sm))"
proof (rule step_loop_keeps [where I = "\<lambda>s. k \<le> openings (log s)"])
  fix s :: "'a eapol_state_machine"
  assume o: "k \<le> openings (log s)"
  show "k \<le> openings (log (machine_pass alive s))" using openings_pae_step [OF o] pae_viewD(9) [OF pass_view] by metis
  show "k \<le> openings (log (relay_aaa alive s))" "k \<le> openings (log (report_change alive s))"
    "k \<le> openings (log (eapol_auth_step s))"
    using o pae_viewD(9) [OF relay_view(1)] pae_viewD(9) [OF relay_view(2)] pae_viewD(9) [OF scheduled_view] by metis+
qed simp_all

lemma step_loop_change:
  "n = Suc m \<Longrightarrow> 0 < m \<Longrightarrow> states_of (machine_pass alive sm) \<noteq> states_of sm \<Longrightarrow>
   step_loop alive eap_step n sm = step_loop alive eap_step m (machine_pass alive sm)"
  by (simp add: Let_def)

text \<open>The state in which the PAE machine waits for the backend machine, which waits for the server.\<close>

definition awaits_verdict :: "'e eapol_state_machine \<Rightarrow> bool" where
  "awaits_verdict sm = (auth_pae_state sm = AUTH_PAE_AUTHENTICATING \<and> be_auth_state sm = BE_AUTH_IDLE \<and>
     authStart sm \<and> portControl sm = Auto \<and> portMode sm = Auto \<and> \<not> initialize sm \<and>
     portEnabled (eap_if sm) \<and> \<not> authAbort sm \<and> \<not> authSuccess sm \<and> \<not> authFail sm \<and> \<not> authTimeout sm \<and>
     \<not> eapolStart sm \<and> \<not> eapolLogoff sm)"

lemma success_enter_keeps:
  "authSuccess (BE_AUTH_SUCCESS_Enter g sm)"
  "be_auth_state (BE_AUTH_SUCCESS_Enter g sm) = BE_AUTH_SUCCESS"
  "portValid (BE_AUTH_SUCCESS_Enter g sm) = portValid sm"
  by (simp_all add: BE_AUTH_SUCCESS_Enter_def eapol_auth_tx_req_def entry_BE_AUTH_def emit_def Let_def
      split: option.split)

lemma small_step_keeps:
  "authSuccess (REAUTH_TIMER_Step sm) = authSuccess sm" "authSuccess (AUTH_KEY_TX_Step sm) = authSuccess sm"
  "authSuccess (KEY_RX_Step sm) = authSuccess sm" "authSuccess (CTRL_DIR_Step sm) = authSuccess sm"
  "be_auth_state (REAUTH_TIMER_Step sm) = be_auth_state sm" "be_auth_state (AUTH_KEY_TX_Step sm) = be_auth_state sm"
  "be_auth_state (KEY_RX_Step sm) = be_auth_state sm" "be_auth_state (CTRL_DIR_Step sm) = be_auth_state sm"
  "portValid (REAUTH_TIMER_Step sm) = portValid sm" "portValid (AUTH_KEY_TX_Step sm) = portValid sm"
  "portValid (KEY_RX_Step sm) = portValid sm" "portValid (CTRL_DIR_Step sm) = portValid sm"
  by (simp_all add: REAUTH_TIMER_Step_def REAUTH_TIMER_INITIALIZE_Enter_def
      REAUTH_TIMER_REAUTHENTICATE_Enter_def entry_REAUTH_TIMER_def
      AUTH_KEY_TX_Step_def AUTH_KEY_TX_NO_KEY_TRANSMIT_Enter_def AUTH_KEY_TX_KEY_TRANSMIT_Enter_def
      entry_AUTH_KEY_TX_def
      KEY_RX_Step_def KEY_RX_NO_KEY_RECEIVE_Enter_def KEY_RX_KEY_RECEIVE_Enter_def entry_KEY_RX_def
      CTRL_DIR_Step_def CTRL_DIR_FORCE_BOTH_Enter_def CTRL_DIR_IN_OR_BOTH_Enter_def entry_CTRL_DIR_def
      emit_def Let_def
      split: reauth_timer.split auth_key_tx.split key_rx.split ctrl_dir.split)


definition verdict_example :: "nat eapol_state_machine" where
  "verdict_example = zeroed_sm\<lparr>auth_pae_state := AUTH_PAE_AUTHENTICATING, be_auth_state := BE_AUTH_IDLE,
     authStart := True, portControl := Auto, portMode := Auto, portValid := True,
     eap_if := zeroed_if\<lparr>portEnabled := True, eapSuccess := True\<rparr>, eap := Some 0\<rparr>"


subsection \<open>The quiet period\<close>

definition holds_off :: "'e eapol_state_machine \<Rightarrow> bool" where
  "holds_off sm = (auth_pae_state sm = AUTH_PAE_HELD \<and> authPortStatus sm = Unauthorized \<and>
     portControl sm = Auto \<and> portMode sm = Auto \<and> portEnabled (eap_if sm) \<and> \<not> initialize sm)"

lemma holds_off_pass:
  assumes "holds_off sm" "quietWhile sm \<noteq> 0"
  shows "pae_view (machine_pass alive sm) = pae_view sm"
  using assms by (simp add: pass_view AUTH_PAE_Step_def holds_off_def)

lemma holds_off_view: "pae_view a = pae_view b \<Longrightarrow> holds_off a = holds_off b \<and> quietWhile a = quietWhile b"
  by (simp add: holds_off_def pae_view_def)

text \<open>The EAP server never disables the port: \<^verbatim>\<open>portEnabled\<close> is a variable of the lower layer.\<close>

definition keeps_port_enabled :: "'e eap_server \<Rightarrow> bool" where
  "keeps_port_enabled srv = (\<forall>e i. portEnabled (snd (snd (srv e i))) = portEnabled i)"

lemma holds_off_run:
  assumes "keeps_port_enabled eap_step" "holds_off sm" "quietWhile sm \<noteq> 0"
  shows "pae_view (eapol_sm_step_run alive eap_step sm) = pae_view sm"
  unfolding eapol_sm_step_run_def
proof (rule step_loop_keeps [where I = "\<lambda>s. pae_view s = pae_view sm"])
  fix s :: "'a eapol_state_machine"
  assume v: "pae_view s = pae_view sm"
  then have "holds_off s" "quietWhile s \<noteq> 0" using holds_off_view [OF v] assms(2,3) by simp_all
  then show "pae_view (machine_pass alive s) = pae_view sm" using holds_off_pass v by metis
  fix e b e' i
  assume "eap_step e (eap_if s) = (b, e', i)"
  then have "portEnabled i = portEnabled (eap_if s)" using assms(1) by (metis keeps_port_enabled_def snd_conv)
  then show "pae_view (s\<lparr>eap := Some e', eap_if := i\<rparr>) = pae_view sm" using v by (simp add: pae_view_def)
qed (simp_all add: frame_simps)

lemma holds_off_tick:
  assumes "keeps_port_enabled eap_step" "holds_off sm" "1 < quietWhile sm"
  shows "holds_off (eapol_port_timers_tick alive eap_step sm) \<and>
    quietWhile (eapol_port_timers_tick alive eap_step sm) = quietWhile sm - 1"
proof -
  define s4 where "s4 = upd_if (\<lambda>i. i\<lparr>retransWhile := count_down (retransWhile i)\<rparr>)
    (sm\<lparr>aWhile := count_down (aWhile sm), quietWhile := count_down (quietWhile sm),
      reAuthWhen := count_down (reAuthWhen sm)\<rparr>)"
  have h: "holds_off s4" "quietWhile s4 = quietWhile sm - 1"
    using assms(2,3) by (simp_all add: s4_def holds_off_def count_down_def)
  then have "pae_view (eapol_sm_step_run alive eap_step s4) = pae_view s4"
    using assms(3) by (intro holds_off_run [OF assms(1)]) simp_all
  then have "pae_view (emit TickScheduled (eapol_sm_step_run alive eap_step s4)) = pae_view s4"
    by (simp add: frame_simps)
  moreover have "eapol_port_timers_tick alive eap_step sm = emit TickScheduled (eapol_sm_step_run alive eap_step s4)"
    by (simp add: eapol_port_timers_tick_def s4_def Let_def)
  ultimately show ?thesis using holds_off_view h by metis
qed




definition held_example :: "nat eapol_state_machine" where
  "held_example = AUTH_PAE_HELD_Enter False (zeroed_sm\<lparr>portControl := Auto, portMode := Auto, quietPeriod := 60,
     auth_pae_state := AUTH_PAE_AUTHENTICATING, authFail := True, eap_if := zeroed_if\<lparr>portEnabled := True\<rparr>, eap := Some 0\<rparr>)"


subsection \<open>Where a run stops\<close>

text \<open>
  \<open>pass_again\<close> is one trip around the \<^verbatim>\<open>restart\<close> label: \<open>Some\<close> of the state with which the
  loop goes round again, \<open>None\<close> when it falls through to the code behind it.
\<close>

definition pass_again :: "alive_cb \<Rightarrow> 'e eap_server \<Rightarrow> 'e eapol_state_machine \<Rightarrow> 'e eapol_state_machine option" where
  "pass_again alive eap_step sm =
     (let sm1 = machine_pass alive sm
      in if states_of sm1 \<noteq> states_of sm then Some sm1
         else if alive (log sm1) then
           (case eap sm1 of
              None \<Rightarrow> None
            | Some e \<Rightarrow> (case eap_step e (eap_if sm1) of (again, e', i') \<Rightarrow>
                if again then Some (sm1\<lparr>eap := Some e', eap_if := i'\<rparr>) else None))
         else None)"

fun passes :: "alive_cb \<Rightarrow> 'e eap_server \<Rightarrow> nat \<Rightarrow> 'e eapol_state_machine \<Rightarrow> 'e eapol_state_machine option" where
  "passes alive eap_step 0 sm = Some sm"
| "passes alive eap_step (Suc k) sm =
     (case pass_again alive eap_step sm of None \<Rightarrow> None | Some s \<Rightarrow> passes alive eap_step k s)"

lemma relay_states: "states_of (relay_aaa alive s) = states_of s" "states_of (report_change alive s) = states_of s"
  by (simp_all add: relay_aaa_def report_change_def emit_def states_of_def Let_def split: option.split)

lemma step_loop_once:
  "step_loop alive eap_step (Suc n) sm =
     (case pass_again alive eap_step sm of Some s \<Rightarrow> step_loop alive eap_step n s
      | None \<Rightarrow> step_loop alive eap_step (Suc n) sm)"
proof (cases "states_of (machine_pass alive sm) = states_of sm \<and> alive (log (machine_pass alive sm))")
  case False
  then show ?thesis by (cases n) (simp_all add: pass_again_def Let_def)
next
  case True
  show ?thesis
  proof (cases "eap (machine_pass alive sm)")
    case None
    with True show ?thesis by (simp add: pass_again_def Let_def)
  next
    case (Some e)
    with True show ?thesis by (cases n) (simp_all add: pass_again_def Let_def split: prod.split)
  qed
qed

lemma step_loop_again:
  "pass_again alive eap_step sm = Some s \<Longrightarrow> step_loop alive eap_step (Suc n) sm = step_loop alive eap_step n s"
  using step_loop_once [of alive eap_step n sm] by simp

lemma pass_again_quiet:
  "pass_again alive eap_step sm = None \<Longrightarrow> states_of (machine_pass alive sm) = states_of sm"
  by (simp add: pass_again_def Let_def split: if_split_asm)

lemma step_loop_stop:
  assumes "pass_again alive eap_step sm = None"
  shows "states_of (step_loop alive eap_step (Suc n) sm) = states_of sm"
proof -
  note q = pass_again_quiet [OF assms]
  have up: "states_of (s\<lparr>eap := e, eap_if := i\<rparr>) = states_of s" for s :: "'a eapol_state_machine" and e i
    by (simp add: states_of_def)
  show ?thesis
  proof (cases "eap (machine_pass alive sm)")
    case None
    with q show ?thesis by (simp add: Let_def relay_states)
  next
    case (Some e)
    obtain again e' i' where r: "eap_step e (eap_if (machine_pass alive sm)) = (again, e', i')"
      by (cases "eap_step e (eap_if (machine_pass alive sm))")
    with assms q Some have "alive (log (machine_pass alive sm)) \<Longrightarrow> \<not> again"
      by (simp add: pass_again_def Let_def split: if_split_asm)
    with q r Some show ?thesis by (simp add: Let_def relay_states up)
  qed
qed

lemma step_loop_passes:
  "\<exists>k s. k \<le> n \<and> passes alive eap_step k sm = Some s \<and>
    (if k = n then step_loop alive eap_step n sm = eapol_auth_step s
     else pass_again alive eap_step s = None \<and> states_of (step_loop alive eap_step n sm) = states_of s)"
proof (induction n arbitrary: sm)
  case (Suc n)
  show ?case
  proof (cases "pass_again alive eap_step sm")
    case None
    then show ?thesis by (intro exI [of _ 0] exI [of _ sm]) (simp del: step_loop.simps add: step_loop_stop)
  next
    case (Some s')
    obtain k s where "k \<le> n" "passes alive eap_step k s' = Some s"
      "if k = n then step_loop alive eap_step n s' = eapol_auth_step s
       else pass_again alive eap_step s = None \<and> states_of (step_loop alive eap_step n s') = states_of s"
      using Suc.IH by blast
    with Some show ?thesis
      by (intro exI [of _ "Suc k"] exI [of _ s]) (simp del: step_loop.simps add: step_loop_again)
  qed
qed simp


end
