(* ===== verification/Ieee8021x.thy ===== *)
theory Ieee8021x
  imports EapolAuth
begin

unbundle bit_operations_syntax

section \<open>EAPOL frames and stations (\<^verbatim>\<open>src/ap/ieee802_1x.c\<close>)\<close>

text \<open>
  The part of hostapd that feeds the 802.1X machines of \<open>EapolAuth\<close>: received EAPOL frames, the
  association of a station, and the notifications of the WPA authenticator. A station is the
  record \<open>sta_info\<close>; the WPA authenticator it may have is represented by what this code asks of it
  (present or not, whether its key management is a PSK, the cached PMKSA). Calls into other
  components are logged. The configuration is the deployed one (\<^verbatim>\<open>hostapd/.config\<close>: WPS on,
  802.11r off).

  Input is an arbitrary byte string: the properties at the end are about every sequence of frames,
  ticks and notifications.
\<close>

datatype sta_out =
    WpaReceive "u8 list"
  | WpaReauthEapol
  | AccountingStop
  | PmksaToEapol nat
  | BindVlan

record 'e sta_info =
  sta_flags :: u32
  eapol_sm :: "'e eapol_state_machine option"
  wpa_sm :: bool
  wpa_psk :: bool
  sta_pmksa :: "nat option"
  sta_log :: "sta_out list"

record bss_conf =
  bss_ieee802_1x :: bool
  bss_wpa :: bool
  bss_wps_state :: bool
  bss_eapol :: "eapol_auth_config option"

text \<open>The EAP server and the memory allocator as this code sees them.\<close>

record 'e world =
  alive :: alive_cb
  server_step :: "'e eap_server"
  server_init :: "('e \<times> eap_eapol_interface) option"
  server_clear_identity :: "'e \<Rightarrow> 'e"
  server_notify_cached :: "'e \<Rightarrow> 'e"
  have_memory :: bool

definition WLAN_STA_ASSOC :: u32 where "WLAN_STA_ASSOC = 2"
definition WLAN_STA_PREAUTH :: u32 where "WLAN_STA_PREAUTH = 256"
definition WLAN_STA_WPS :: u32 where "WLAN_STA_WPS = 4096"
definition WLAN_STA_MAYBE_WPS :: u32 where "WLAN_STA_MAYBE_WPS = 8192"

definition sta_has :: "u32 \<Rightarrow> 'e sta_info \<Rightarrow> bool" where
  "sta_has f sta = (sta_flags sta AND f \<noteq> 0)"

definition call :: "sta_out \<Rightarrow> 'e sta_info \<Rightarrow> 'e sta_info" where
  "call ev sta = sta\<lparr>sta_log := sta_log sta @ [ev]\<rparr>"

text \<open>\<open>wpa_auth_sta_get_pmksa\<close> gives NULL for a station without a WPA state machine.\<close>

definition wpa_auth_sta_get_pmksa :: "'e sta_info \<Rightarrow> nat option" where
  "wpa_auth_sta_get_pmksa sta = (if wpa_sm sta then sta_pmksa sta else None)"

definition wpa_auth_sta_clear_pmksa :: "nat \<Rightarrow> 'e sta_info \<Rightarrow> 'e sta_info" where
  "wpa_auth_sta_clear_pmksa p sta =
     (if \<not> wpa_sm sta \<or> sta_pmksa sta \<noteq> Some p then sta else sta\<lparr>sta_pmksa := None\<rparr>)"

subsection \<open>EAP packets from the supplicant\<close>

definition handle_eap_response :: "'e world \<Rightarrow> u8 list \<Rightarrow> nat \<Rightarrow> 'e eapol_state_machine \<Rightarrow> 'e eapol_state_machine" where
  "handle_eap_response w eap_pkt len sm =
     (if len < 5 then sm
      else
        let sm1 = sm\<lparr>eap_type_supp := eap_pkt ! 4\<rparr>;
            sm2 = upd_stats (\<lambda>s. s\<lparr>dot1xAuthEapolRespFramesRx := dot1xAuthEapolRespFramesRx s + 1\<rparr>) sm1;
            sm3 = upd_if (\<lambda>i. i\<lparr>eapRespData := (if have_memory w then Some (take len eap_pkt) else None)\<rparr>) sm2
        in sm3\<lparr>eapolEap := True\<rparr>)"

definition handle_eap :: "'e world \<Rightarrow> u8 list \<Rightarrow> nat \<Rightarrow> 'e eapol_state_machine \<Rightarrow> 'e eapol_state_machine" where
  "handle_eap w buf len sm =
     (if len < 4 then sm
      else
        let eap_len = unat (WPA_GET_BE16 (drop 2 buf))
        in if eap_len < 4 then sm
           else if eap_len > len then sm
           else if buf ! 0 = 2 then handle_eap_response w buf eap_len sm
           else sm)"

definition ieee802_1x_alloc_eapol_sm :: "'e world \<Rightarrow> bss_conf \<Rightarrow> 'e sta_info \<Rightarrow> 'e eapol_state_machine option" where
  "ieee802_1x_alloc_eapol_sm w hapd sta =
     (let fl = (if sta_has WLAN_STA_PREAUTH sta then EAPOL_SM_PREAUTH else 0) OR
               (if wpa_sm sta then EAPOL_SM_USES_WPA OR
                  (if wpa_auth_sta_get_pmksa sta \<noteq> None then EAPOL_SM_FROM_PMKSA_CACHE else 0) else 0)
      in eapol_auth_alloc (alive w) (server_step w) (bss_eapol hapd) (have_memory w) fl (server_init w))"

abbreviation with_sm :: "('e eapol_state_machine \<Rightarrow> 'e eapol_state_machine) \<Rightarrow> 'e sta_info \<Rightarrow> 'e sta_info" where
  "with_sm f sta \<equiv> sta\<lparr>eapol_sm := map_option f (eapol_sm sta)\<rparr>"

definition clear_wait_start :: "'e eapol_state_machine \<Rightarrow> 'e eapol_state_machine" where
  "clear_wait_start sm = sm\<lparr>flags := flags sm AND NOT EAPOL_SM_WAIT_START\<rparr>"

definition set_wait_start :: "'e eapol_state_machine \<Rightarrow> 'e eapol_state_machine" where
  "set_wait_start sm = sm\<lparr>flags := flags sm OR EAPOL_SM_WAIT_START\<rparr>"

definition clear_identity :: "'e world \<Rightarrow> 'e eapol_state_machine \<Rightarrow> 'e eapol_state_machine" where
  "clear_identity w sm = sm\<lparr>eap := map_option (server_clear_identity w) (eap sm)\<rparr>"

definition eapol_start_rx :: "'e world \<Rightarrow> 'e sta_info \<Rightarrow> 'e sta_info" where
  "eapol_start_rx w sta =
     (let sta1 = with_sm clear_wait_start sta;
          sta2 = (case wpa_auth_sta_get_pmksa sta1 of None \<Rightarrow> sta1
                  | Some p \<Rightarrow> wpa_auth_sta_clear_pmksa p sta1);
          sta3 = with_sm (\<lambda>sm. clear_identity w
             (upd_stats (\<lambda>s. s\<lparr>dot1xAuthEapolStartFramesRx := dot1xAuthEapolStartFramesRx s + 1\<rparr>)
               (sm\<lparr>eapolStart := True\<rparr>))) sta2
      in call WpaReauthEapol sta3)"

definition eapol_logoff_rx :: "'e world \<Rightarrow> 'e sta_info \<Rightarrow> 'e sta_info" where
  "eapol_logoff_rx w sta =
     with_sm (\<lambda>sm. clear_identity w
       (upd_stats (\<lambda>s. s\<lparr>dot1xAuthEapolLogoffFramesRx := dot1xAuthEapolLogoffFramesRx s + 1\<rparr>)
         (sm\<lparr>eapolLogoff := True\<rparr>))) (call AccountingStop sta)"

text \<open>
  A received frame. \<open>sta\<close> is the result of \<^verbatim>\<open>ap_get_sta\<close>. The length field counts the bytes after
  the 4-byte header; an EAPOL-Key frame of a WPA/RSN type goes to the WPA authenticator, and what
  is left only reaches the 802.1X machines when 802.1X or WPS is in use and the station has no PSK.
\<close>

definition ieee802_1x_dispatch :: "'e world \<Rightarrow> u8 list \<Rightarrow> nat \<Rightarrow> 'e sta_info \<Rightarrow> 'e sta_info" where
  "ieee802_1x_dispatch w buf datalen sta =
     with_sm eapol_auth_step
       (let type = buf ! 1 in
        if type = 0 then with_sm (handle_eap w (drop 4 buf) datalen) sta
        else if type = 1 then eapol_start_rx w sta
        else if type = 2 then eapol_logoff_rx w sta
        else if type = 3 then sta
        else if type = 4 then sta
        else with_sm (upd_stats (\<lambda>s. s\<lparr>dot1xAuthInvalidEapolFramesRx := dot1xAuthInvalidEapolFramesRx s + 1\<rparr>)) sta)"

definition ieee802_1x_receive :: "'e world \<Rightarrow> bss_conf \<Rightarrow> u8 list \<Rightarrow> 'e sta_info \<Rightarrow> 'e sta_info" where
  "ieee802_1x_receive w hapd buf sta =
     (if \<not> bss_ieee802_1x hapd \<and> \<not> bss_wpa hapd \<and> \<not> bss_wps_state hapd then sta
      else if \<not> sta_has (WLAN_STA_ASSOC OR WLAN_STA_PREAUTH) sta then sta
      else if length buf < 4 then sta
      else
        let datalen = unat (WPA_GET_BE16 (drop 2 buf)) in
        if length buf - 4 < datalen
        then with_sm (upd_stats (\<lambda>s. s\<lparr>dot1xAuthEapLengthErrorFramesRx := dot1xAuthEapLengthErrorFramesRx s + 1\<rparr>)) sta
        else
          let sta1 = with_sm (upd_stats (\<lambda>s. s\<lparr>dot1xAuthLastEapolFrameVersion := ucast (buf ! 0),
                 dot1xAuthEapolFramesRx := dot1xAuthEapolFramesRx s + 1\<rparr>)) sta
          in if 44 \<le> datalen \<and> buf ! 1 = 3 \<and> (buf ! 4 = 254 \<or> buf ! 4 = 2)
             then call (WpaReceive (take (4 + datalen) buf)) sta1
             else if \<not> bss_ieee802_1x hapd \<and> \<not> sta_has (WLAN_STA_WPS OR WLAN_STA_MAYBE_WPS) sta1 then sta1
             else if wpa_sm sta1 \<and> wpa_psk sta1 then sta1
             else
               case eapol_sm sta1 of
                 Some _ \<Rightarrow> ieee802_1x_dispatch w buf datalen sta1
               | None \<Rightarrow>
                   (case ieee802_1x_alloc_eapol_sm w hapd sta1 of
                      None \<Rightarrow> sta1
                    | Some sm \<Rightarrow>
                        let wait = (\<not> bss_ieee802_1x hapd \<and>
                              sta_flags sta1 AND (WLAN_STA_WPS OR WLAN_STA_MAYBE_WPS) = WLAN_STA_MAYBE_WPS);
                            sm1 = (if wait then set_wait_start sm else sm);
                            sm2 = upd_if (\<lambda>i. i\<lparr>portEnabled := True\<rparr>) sm1
                        in ieee802_1x_dispatch w buf datalen (sta1\<lparr>eapol_sm := Some sm2\<rparr>)))"

subsection \<open>Association\<close>

definition cached_pmksa_start :: "'e world \<Rightarrow> 'e eapol_state_machine \<Rightarrow> 'e eapol_state_machine" where
  "cached_pmksa_start w sm =
     (let sm1 = upd_if (\<lambda>i. i\<lparr>eapKeyAvailable := True\<rparr>) (sm\<lparr>keyRun := True\<rparr>);
          sm2 = sm1\<lparr>auth_pae_state := AUTH_PAE_AUTHENTICATING, be_auth_state := BE_AUTH_SUCCESS,
                   authSuccess := True\<rparr>
      in sm2\<lparr>eap := map_option (server_notify_cached w) (eap sm2)\<rparr>)"

definition ieee802_1x_new_station :: "'e world \<Rightarrow> bss_conf \<Rightarrow> 'e sta_info \<Rightarrow> 'e sta_info" where
  "ieee802_1x_new_station w hapd sta =
     (let force_1x = (bss_wps_state hapd \<and> bss_wpa hapd \<and> sta_has (WLAN_STA_WPS OR WLAN_STA_MAYBE_WPS) sta)
      in if \<not> force_1x \<and> \<not> bss_ieee802_1x hapd then sta
         else if wpa_sm sta \<and> wpa_psk sta then sta
         else
           let old = eapol_sm sta;
               reassoc = (old \<noteq> None);
               got = (if reassoc then old else ieee802_1x_alloc_eapol_sm w hapd sta)
           in case got of
                None \<Rightarrow> sta
              | Some sm \<Rightarrow>
                  let sm1 = clear_wait_start sm;
                      sm2 = (if \<not> bss_ieee802_1x hapd \<and> \<not> sta_has WLAN_STA_WPS sta then set_wait_start sm1 else sm1);
                      sm3 = upd_if (\<lambda>i. i\<lparr>portEnabled := True\<rparr>) sm2
                  in case wpa_auth_sta_get_pmksa sta of
                       Some p \<Rightarrow> call BindVlan (call (PmksaToEapol p) (sta\<lparr>eapol_sm := Some (cached_pmksa_start w sm3)\<rparr>))
                     | None \<Rightarrow>
                         let sm4 = (if reassoc then sm3\<lparr>reAuthenticate := True\<rparr> else sm3)
                         in sta\<lparr>eapol_sm := Some (eapol_auth_step sm4)\<rparr>)"

subsection \<open>Notifications from the WPA authenticator\<close>

definition ieee802_1x_notify_port_enabled :: "bool \<Rightarrow> 'e sta_info \<Rightarrow> 'e sta_info" where
  "ieee802_1x_notify_port_enabled enabled sta =
     with_sm (\<lambda>sm. eapol_auth_step (upd_if (\<lambda>i. i\<lparr>portEnabled := enabled\<rparr>) sm)) sta"

definition ieee802_1x_notify_port_valid :: "bool \<Rightarrow> 'e sta_info \<Rightarrow> 'e sta_info" where
  "ieee802_1x_notify_port_valid valid sta = with_sm (\<lambda>sm. eapol_auth_step (sm\<lparr>portValid := valid\<rparr>)) sta"

definition ieee802_1x_notify_pre_auth :: "bool \<Rightarrow> 'e sta_info \<Rightarrow> 'e sta_info" where
  "ieee802_1x_notify_pre_auth pre_auth sta =
     with_sm (\<lambda>sm. sm\<lparr>flags := (if pre_auth then flags sm OR EAPOL_SM_PREAUTH
                               else flags sm AND NOT EAPOL_SM_PREAUTH)\<rparr>) sta"

text \<open>Everything that can happen to a station here; the last two are the event loop's timeouts.\<close>

datatype sta_input =
    Frame "u8 list"
  | NewStation
  | PortEnabled bool
  | PortValid bool
  | PreAuth bool
  | RunMachines
  | PortTick

fun sta_step :: "'e world \<Rightarrow> bss_conf \<Rightarrow> sta_input \<Rightarrow> 'e sta_info \<Rightarrow> 'e sta_info" where
  "sta_step w hapd (Frame buf) sta = ieee802_1x_receive w hapd buf sta"
| "sta_step w hapd NewStation sta = ieee802_1x_new_station w hapd sta"
| "sta_step w hapd (PortEnabled b) sta = ieee802_1x_notify_port_enabled b sta"
| "sta_step w hapd (PortValid b) sta = ieee802_1x_notify_port_valid b sta"
| "sta_step w hapd (PreAuth b) sta = ieee802_1x_notify_pre_auth b sta"
| "sta_step w hapd RunMachines sta = with_sm (eapol_sm_step_run (alive w) (server_step w)) sta"
| "sta_step w hapd PortTick sta = with_sm (eapol_port_timers_tick (alive w) (server_step w)) sta"

subsection \<open>Invariants of a station\<close>

text \<open>
  \<open>input_view\<close> is what no input writes: the inputs of this file set request flags, counters and
  timers' wake-ups, never the port status or the verdict. \<open>station_invariant\<close> is the contract of an
  invariant of the machines that all inputs keep; \<open>cached_ok\<close> says whether it also survives the
  start from a cached PMKSA, which sets the verdict without asking the EAP server.
\<close>

definition input_view :: "'e eapol_state_machine \<Rightarrow>
    auth_pae \<times> PortState \<times> PortState \<times> PortTypes \<times> PortTypes \<times> bool \<times> nat \<times> bool \<times> bool" where
  "input_view sm = (auth_pae_state sm, authPortStatus sm, last_port (log sm), portControl sm, portMode sm,
     initialize sm, openings (log sm), authSuccess sm, eapSuccess (eap_if sm))"

lemma input_view_simps [simp]:
  "input_view (eapol_auth_step sm) = input_view sm"
  "input_view (sm\<lparr>eapolStart := v1\<rparr>) = input_view sm"
  "input_view (sm\<lparr>eapolLogoff := v1\<rparr>) = input_view sm"
  "input_view (sm\<lparr>eapolEap := v1\<rparr>) = input_view sm"
  "input_view (sm\<lparr>reAuthenticate := v1\<rparr>) = input_view sm"
  "input_view (sm\<lparr>portValid := v1\<rparr>) = input_view sm"
  "input_view (sm\<lparr>eap_type_supp := v2\<rparr>) = input_view sm"
  "input_view (sm\<lparr>flags := v3\<rparr>) = input_view sm"
  "input_view (sm\<lparr>stats := v4\<rparr>) = input_view sm"
  "input_view (sm\<lparr>eap := v5\<rparr>) = input_view sm"
  "eapSuccess i = eapSuccess (eap_if sm) \<Longrightarrow> input_view (sm\<lparr>eap_if := i\<rparr>) = input_view sm"
  by (simp_all add: input_view_def eapol_auth_step_def emit_def openings_def)

lemma input_view_handlers [simp]:
  "input_view (clear_wait_start sm) = input_view sm"
  "input_view (set_wait_start sm) = input_view sm"
  "input_view (clear_identity w sm) = input_view sm"
  "input_view (handle_eap_response w b n sm) = input_view sm"
  "input_view (handle_eap w b n sm) = input_view sm"
  by (simp_all add: clear_wait_start_def set_wait_start_def clear_identity_def handle_eap_response_def
      handle_eap_def Let_def)

definition sta_all :: "('e eapol_state_machine \<Rightarrow> bool) \<Rightarrow> 'e sta_info \<Rightarrow> bool" where
  "sta_all I sta = (case eapol_sm sta of None \<Rightarrow> True | Some sm \<Rightarrow> I sm)"

locale station_invariant =
  fixes I :: "'e world \<Rightarrow> 'e eapol_state_machine \<Rightarrow> bool"
    and env_ok :: "'e world \<Rightarrow> bool"
    and cached_ok :: bool
  assumes I_input: "input_view a = input_view b \<Longrightarrow> I w b \<Longrightarrow> I w a"
    and I_run: "env_ok w \<Longrightarrow> I w s \<Longrightarrow> I w (eapol_sm_step_run (alive w) (server_step w) s)"
    and I_alloc: "env_ok w \<Longrightarrow>
      eapol_auth_alloc (alive w) (server_step w) c m f (server_init w) = Some s \<Longrightarrow> I w s"
    and I_timers: "I w s \<Longrightarrow> I w (s\<lparr>aWhile := a1, quietWhile := q1, reAuthWhen := r1\<rparr>)"
    and I_tick: "I w s \<Longrightarrow> I w (emit TickScheduled s)"
    and I_cached: "cached_ok \<Longrightarrow> I w s \<Longrightarrow> I w (cached_pmksa_start w s)"
begin

definition sta_ok :: "'e world \<Rightarrow> 'e sta_info \<Rightarrow> bool" where
  "sta_ok w sta = (sta_all (I w) sta \<and> (cached_ok \<or> sta_pmksa sta = None))"

lemma with_sm_keeps:
  "(\<And>s. I w s \<Longrightarrow> I w (f s)) \<Longrightarrow> sta_ok w sta \<Longrightarrow> sta_ok w (with_sm f sta)"
  by (simp add: sta_ok_def sta_all_def split: option.split_asm)

lemma with_sm_input:
  "(\<And>s. input_view (f s) = input_view s) \<Longrightarrow> sta_ok w sta \<Longrightarrow> sta_ok w (with_sm f sta)"
  by (rule with_sm_keeps) (auto intro: I_input)

lemma if_keeps: "sta_ok w a \<Longrightarrow> sta_ok w b \<Longrightarrow> sta_ok w (if c then a else b)"
  by simp

lemma option_keeps:
  "(x = None \<Longrightarrow> sta_ok w a) \<Longrightarrow> (\<And>y. x = Some y \<Longrightarrow> sta_ok w (f y)) \<Longrightarrow>
   sta_ok w (case x of None \<Rightarrow> a | Some y \<Rightarrow> f y)"
  by (cases x) auto

lemma call_keeps: "sta_ok w (call ev sta) = sta_ok w sta"
  by (simp add: sta_ok_def sta_all_def call_def)

lemma clear_pmksa_keeps: "sta_ok w sta \<Longrightarrow> sta_ok w (wpa_auth_sta_clear_pmksa p sta)"
  by (simp add: sta_ok_def sta_all_def wpa_auth_sta_clear_pmksa_def)

lemma some_keeps: "I w s \<Longrightarrow> sta_ok w sta \<Longrightarrow> sta_ok w (sta\<lparr>eapol_sm := Some s\<rparr>)"
  by (simp add: sta_ok_def sta_all_def)

lemma dispatch_keeps: "sta_ok w sta \<Longrightarrow> sta_ok w (ieee802_1x_dispatch w buf n sta)"
proof -
  assume s: "sta_ok w sta"
  have start: "sta_ok w (eapol_start_rx w sta)"
  proof -
    have a: "sta_ok w (with_sm clear_wait_start sta)" by (rule with_sm_input) (simp_all add: s)
    have b: "sta_ok w (with_sm (\<lambda>sm. clear_identity w
             (upd_stats (\<lambda>s. s\<lparr>dot1xAuthEapolStartFramesRx := dot1xAuthEapolStartFramesRx s + 1\<rparr>)
               (sm\<lparr>eapolStart := True\<rparr>))) x)" if "sta_ok w x" for x
      by (rule with_sm_input) (simp_all add: that)
    show ?thesis
      unfolding eapol_start_rx_def Let_def call_keeps
      by (rule b) (auto simp: a clear_pmksa_keeps split: option.split)
  qed
  have logoff: "sta_ok w (eapol_logoff_rx w sta)"
    unfolding eapol_logoff_rx_def by (rule with_sm_input) (simp_all add: s call_keeps)
  have eapf: "sta_ok w (with_sm (handle_eap w b n) sta)" for b by (rule with_sm_input) (simp_all add: s)
  have inval: "sta_ok w (with_sm (\<lambda>sm. sm\<lparr>stats := f sm\<rparr>) sta)" for f by (rule with_sm_input) (simp_all add: s)
  show ?thesis
    unfolding ieee802_1x_dispatch_def Let_def
    by (rule with_sm_input) (simp_all add: start logoff eapf inval s)
qed

lemma alloc_keeps: "env_ok w \<Longrightarrow> ieee802_1x_alloc_eapol_sm w hapd sta = Some s \<Longrightarrow> I w s"
  unfolding ieee802_1x_alloc_eapol_sm_def Let_def by (rule I_alloc)

lemma receive_keeps: "env_ok w \<Longrightarrow> sta_ok w sta \<Longrightarrow> sta_ok w (ieee802_1x_receive w hapd buf sta)"
proof -
  assume e: "env_ok w" and s: "sta_ok w sta"
  have st: "sta_ok w (with_sm (\<lambda>sm. sm\<lparr>stats := f sm\<rparr>) sta)" for f by (rule with_sm_input) (simp_all add: s)
  have new: "sta_ok w (x\<lparr>eapol_sm := Some (upd_if (\<lambda>i. i\<lparr>portEnabled := True\<rparr>) (if c then set_wait_start sm else sm))\<rparr>)"
    if "sta_ok w x" "ieee802_1x_alloc_eapol_sm w hapd y = Some sm" for x y sm c
    by (rule some_keeps [OF I_input [OF _ alloc_keeps [OF e that(2)]] that(1)]) simp
  show ?thesis
    unfolding ieee802_1x_receive_def Let_def
    by (intro if_keeps s st call_keeps [THEN iffD2] option_keeps dispatch_keeps new)
qed

lemma new_station_keeps: "env_ok w \<Longrightarrow> sta_ok w sta \<Longrightarrow> sta_ok w (ieee802_1x_new_station w hapd sta)"
proof -
  assume e: "env_ok w" and s: "sta_ok w sta"
  define got where "got = (if eapol_sm sta \<noteq> None then eapol_sm sta else ieee802_1x_alloc_eapol_sm w hapd sta)"
  show ?thesis
  proof (cases got)
    case None
    then show ?thesis unfolding ieee802_1x_new_station_def Let_def got_def [symmetric] by (simp add: s)
  next
    case (Some sm)
    have "I w sm"
      using Some s alloc_keeps [OF e, of hapd sta sm]
      by (auto simp: got_def sta_ok_def sta_all_def split: if_splits option.splits)
    define sm3 where "sm3 = upd_if (\<lambda>i. i\<lparr>portEnabled := True\<rparr>)
       (if \<not> bss_ieee802_1x hapd \<and> \<not> sta_has WLAN_STA_WPS sta then set_wait_start (clear_wait_start sm) else clear_wait_start sm)"
    have i: "I w sm3" by (rule I_input [OF _ \<open>I w sm\<close>]) (simp add: sm3_def)
    have j: "I w (eapol_auth_step (sm3\<lparr>reAuthenticate := True\<rparr>))" "I w (eapol_auth_step sm3)"
      by (rule I_input [OF _ i], simp)+
    have k: "I w (cached_pmksa_start w sm3)" if "wpa_auth_sta_get_pmksa sta = Some p" for p
      using that s by (intro I_cached i) (simp add: wpa_auth_sta_get_pmksa_def sta_ok_def split: if_splits)
    show ?thesis
      unfolding ieee802_1x_new_station_def Let_def got_def [symmetric] Some option.case sm3_def [symmetric]
      using s j k by (auto simp: call_keeps intro!: some_keeps split: option.split)
  qed
qed

lemma run_keeps: "env_ok w \<Longrightarrow> sta_ok w sta \<Longrightarrow> sta_ok w (with_sm (eapol_sm_step_run (alive w) (server_step w)) sta)"
  by (rule with_sm_keeps) (auto intro: I_run)

lemma tick_keeps: "env_ok w \<Longrightarrow> I w s \<Longrightarrow> I w (eapol_port_timers_tick (alive w) (server_step w) s)"
proof -
  assume e: "env_ok w" and s: "I w s"
  let ?s1 = "s\<lparr>aWhile := count_down (aWhile s), quietWhile := count_down (quietWhile s),
    reAuthWhen := count_down (reAuthWhen s)\<rparr>"
  have "I w (upd_if (\<lambda>i. i\<lparr>retransWhile := count_down (retransWhile i)\<rparr>) ?s1)"
    by (rule I_input [OF _ I_timers [OF s]]) simp
  then show ?thesis
    unfolding eapol_port_timers_tick_def Let_def by (intro I_tick I_run [OF e]) simp
qed

lemma sta_step_keeps: "env_ok w \<Longrightarrow> sta_ok w sta \<Longrightarrow> sta_ok w (sta_step w hapd ev sta)"
proof (cases ev)
  case RunMachines
  then show "env_ok w \<Longrightarrow> sta_ok w sta \<Longrightarrow> ?thesis" by (simp add: run_keeps)
next
  case PortTick
  then show "env_ok w \<Longrightarrow> sta_ok w sta \<Longrightarrow> ?thesis" by (simp add: with_sm_keeps tick_keeps)
qed (auto simp: receive_keeps new_station_keeps ieee802_1x_notify_port_enabled_def
      ieee802_1x_notify_port_valid_def ieee802_1x_notify_pre_auth_def intro!: with_sm_input)

lemma sta_run_keeps: "env_ok w \<Longrightarrow> sta_ok w sta \<Longrightarrow> sta_ok w (fold (sta_step w hapd) evs sta)"
  by (induction evs arbitrary: sta) (auto intro: sta_step_keeps)

end

subsection \<open>The contract on the model's invariants\<close>

lemma input_viewD:
  assumes "input_view a = input_view b"
  shows "auth_pae_state a = auth_pae_state b" "authPortStatus a = authPortStatus b"
    "last_port (log a) = last_port (log b)" "portControl a = portControl b"
    "openings (log a) = openings (log b)" "no_verdict a = no_verdict b"
  using assms by (simp_all add: input_view_def no_verdict_def)

lemma alloc_keeps_inv:
  assumes a: "eapol_auth_alloc al srv c m f (server_init w) = Some s"
    and init: "\<And>e i sm. server_init w = Some (e, i) \<Longrightarrow> auth_pae_state sm = AUTH_PAE_INITIALIZE \<Longrightarrow>
       authPortStatus sm = PortStatusUnset \<Longrightarrow> log sm = [] \<Longrightarrow> portControl sm = Auto \<Longrightarrow>
       authSuccess sm = False \<Longrightarrow> eap_if sm = i \<Longrightarrow> J sm"
    and run: "\<And>sm. J sm \<Longrightarrow> J (eapol_sm_step_run al srv sm)"
    and fields: "\<And>sm b c. J sm \<Longrightarrow> J (sm\<lparr>initializing := b\<rparr>)" "\<And>sm b. J sm \<Longrightarrow> J (sm\<lparr>initialize := b\<rparr>)"
    and ticks: "\<And>sm. J sm \<Longrightarrow> J (emit TickScheduled sm)" "\<And>sm. J sm \<Longrightarrow> J (emit TickCancelled sm)"
  shows "J s"
proof -
  obtain cf e i where c: "c = Some cf" and i: "server_init w = Some (e, i)"
    using a by (auto simp: eapol_auth_alloc_def Let_def split: option.splits if_splits)
  have "J (zeroed_sm\<lparr>flags := f,
              auth_pae_state := AUTH_PAE_INITIALIZE, quietPeriod := 60, reAuthMax := 2,
              be_auth_state := BE_AUTH_INITIALIZE, serverTimeout := 30,
              reauth_timer_state := REAUTH_TIMER_INITIALIZE,
              reAuthPeriod := word_of_int (eap_reauth_period cf), reAuthEnabled := eap_reauth_period cf > 0,
              auth_key_tx_state := AUTH_KEY_TX_NO_KEY_TRANSMIT, key_rx_state := KEY_RX_NO_KEY_RECEIVE,
              ctrl_dir_state := CTRL_DIR_IN_OR_BOTH, portControl := Auto,
              keyTxEnabled := (\<not> conf_wpa cf \<and> (default_wep_key cf \<or> individual_wep_key_len cf > 0)),
              portValid := \<not> conf_wpa cf, eap := Some e, eap_if := i\<rparr>)"
    by (rule init [OF i]) (simp_all add: zeroed_sm_def)
  then have "J (eapol_auth_initialize al srv (zeroed_sm\<lparr>flags := f,
              auth_pae_state := AUTH_PAE_INITIALIZE, quietPeriod := 60, reAuthMax := 2,
              be_auth_state := BE_AUTH_INITIALIZE, serverTimeout := 30,
              reauth_timer_state := REAUTH_TIMER_INITIALIZE,
              reAuthPeriod := word_of_int (eap_reauth_period cf), reAuthEnabled := eap_reauth_period cf > 0,
              auth_key_tx_state := AUTH_KEY_TX_NO_KEY_TRANSMIT, key_rx_state := KEY_RX_NO_KEY_RECEIVE,
              ctrl_dir_state := CTRL_DIR_IN_OR_BOTH, portControl := Auto,
              keyTxEnabled := (\<not> conf_wpa cf \<and> (default_wep_key cf \<or> individual_wep_key_len cf > 0)),
              portValid := \<not> conf_wpa cf, eap := Some e, eap_if := i\<rparr>))"
    unfolding eapol_auth_initialize_def Let_def by (intro ticks fields run)
  then show ?thesis using a by (simp add: eapol_auth_alloc_def Let_def c i split: if_splits)
qed

definition silent_server :: "'e world \<Rightarrow> bool" where
  "silent_server w = (no_success (server_step w) \<and>
     (case server_init w of None \<Rightarrow> True | Some (e, i) \<Rightarrow> \<not> eapSuccess i))"

lemma closed_emit: "(\<And>b. ev \<noteq> SetPortAuthorized b) \<Longrightarrow> closed_inv sm \<Longrightarrow> closed_inv (emit ev sm)"
  by (rule closed_view [OF view_emit]) (simp_all add: frame_simps closed_inv_def)

lemma closed_alloc:
  assumes w: "silent_server w"
    and a: "eapol_auth_alloc (alive w) (server_step w) c m f (server_init w) = Some s"
  shows "closed_inv s"
proof (rule alloc_keeps_inv [where J = closed_inv, OF a])
  show "closed_inv sm \<Longrightarrow> closed_inv (eapol_sm_step_run (alive w) (server_step w) sm)" for sm
    using w by (intro closed_run) (simp_all add: silent_server_def)
qed (use w in \<open>auto simp: closed_inv_def no_verdict_def openings_def silent_server_def emit_def\<close>)

lemma port_emit: "(\<And>b. ev \<noteq> SetPortAuthorized b) \<Longrightarrow> port_inv (emit ev sm) = port_inv sm"
  by (rule port_inv_view [OF view_emit])

lemma port_inv_upd:
  "port_inv (sm\<lparr>initializing := b\<rparr>) = port_inv sm" "port_inv (sm\<lparr>initialize := b\<rparr>) = port_inv sm"
  "port_inv (sm\<lparr>aWhile := a1, quietWhile := q1, reAuthWhen := r1\<rparr>) = port_inv sm"
  "port_inv (emit TickScheduled sm) = port_inv sm" "port_inv (emit TickCancelled sm) = port_inv sm"
  by (simp_all add: port_emit) (simp_all add: port_inv_def)

lemma port_inv_cached: "port_inv s \<Longrightarrow> port_inv (cached_pmksa_start w s)"
  by (simp add: cached_pmksa_start_def port_inv_def port_ok_def Let_def)

lemma port_inv_input: "input_view a = input_view b \<Longrightarrow> port_inv b \<Longrightarrow> port_inv a"
  by (simp add: port_inv_def input_viewD(1-3) [of a b])

lemma port_alloc:
  assumes a: "eapol_auth_alloc (alive w) (server_step w) c m f (server_init w) = Some s"
  shows "port_inv s"
proof (rule alloc_keeps_inv [where J = port_inv, OF a])
  fix sm :: "'a eapol_state_machine"
  assume "auth_pae_state sm = AUTH_PAE_INITIALIZE" "authPortStatus sm = PortStatusUnset" "log sm = []"
  then show "port_inv sm" by (simp add: port_inv_def port_ok_def last_port_def)
qed (simp_all only: port_inv_run port_inv_upd)

interpretation closed_station: station_invariant "\<lambda>w. closed_inv" silent_server False
proof
  fix a b :: "'a eapol_state_machine"
  assume "input_view a = input_view b" "closed_inv b"
  then show "closed_inv a" by (simp add: closed_inv_def input_viewD(1,4-6) [of a b])
next
  fix w :: "'a world" and s :: "'a eapol_state_machine"
  assume "silent_server w" "closed_inv s"
  then show "closed_inv (eapol_sm_step_run (alive w) (server_step w) s)"
    by (intro closed_run) (simp_all add: silent_server_def)
next
  fix s :: "'a eapol_state_machine" and a1 q1 r1
  assume "closed_inv s"
  then show "closed_inv (s\<lparr>aWhile := a1, quietWhile := q1, reAuthWhen := r1\<rparr>)"
    by (simp add: closed_inv_def no_verdict_def)
qed (simp_all add: closed_alloc closed_emit)

interpretation port_station: station_invariant "\<lambda>w. port_inv" "\<lambda>w. True" True
  by (unfold_locales; (rule port_inv_input port_alloc; assumption)?)
    (simp_all only: port_inv_run port_inv_upd port_inv_cached)

lemma sta_all_mono: "sta_all I sta \<Longrightarrow> (\<And>sm. I sm \<Longrightarrow> J sm) \<Longrightarrow> sta_all J sta"
  by (auto simp: sta_all_def split: option.splits)

subsection \<open>Properties\<close>

text \<open>
  C4: whatever frames, notifications and timeouts a station produces, in any order, the port status
  the 802.1X machines believe in is the one last given to the driver, it is unauthorized in
  DISCONNECTED, HELD and FORCE_UNAUTH and authorized in FORCE_AUTH.
\<close>

theorem port_status_matches_driver:
  "sta_all (\<lambda>sm. authPortStatus sm = last_port (log sm) \<and>
      (auth_pae_state sm \<in> {AUTH_PAE_DISCONNECTED, AUTH_PAE_HELD, AUTH_PAE_FORCE_UNAUTH} \<longrightarrow>
         authPortStatus sm = Unauthorized) \<and>
      (auth_pae_state sm = AUTH_PAE_FORCE_AUTH \<longrightarrow> authPortStatus sm = Authorized))
    (fold (sta_step w hapd) evs (sta\<lparr>eapol_sm := None\<rparr>))"
proof -
  have "port_station.sta_ok w (fold (sta_step w hapd) evs (sta\<lparr>eapol_sm := None\<rparr>))"
    by (rule port_station.sta_run_keeps) (simp_all add: port_station.sta_ok_def sta_all_def)
  then have "sta_all port_inv (fold (sta_step w hapd) evs (sta\<lparr>eapol_sm := None\<rparr>))"
    by (simp only: port_station.sta_ok_def)
  then show ?thesis
    by (rule sta_all_mono) (unfold port_inv_def port_ok_def, assumption)
qed

definition any_station :: "'e sta_info" where
  "any_station = \<lparr>sta_flags = WLAN_STA_ASSOC, eapol_sm = None, wpa_sm = True, wpa_psk = False,
     sta_pmksa = None, sta_log = []\<rparr>"

definition demo_world :: "unit world" where
  "demo_world = \<lparr>alive = \<lambda>l. True, server_step = \<lambda>e i. (False, e, i), server_init = Some ((), zeroed_if),
     server_clear_identity = id, server_notify_cached = id, have_memory = True\<rparr>"

definition demo_conf :: bss_conf where
  "demo_conf = \<lparr>bss_ieee802_1x = True, bss_wpa = True, bss_wps_state = False,
     bss_eapol = Some \<lparr>eap_reauth_period = 3600, conf_wpa = True, default_wep_key = False, individual_wep_key_len = 0\<rparr>\<rparr>"

theorem port_status_matches_driver_witness:
  "sta_all (\<lambda>sm. authPortStatus sm = last_port (log sm))
    (fold (sta_step demo_world demo_conf) [NewStation, RunMachines, Frame [1, 1, 0, 0], RunMachines, PortTick]
      (any_station\<lparr>eapol_sm := None\<rparr>))"
  by (rule sta_all_mono [OF port_status_matches_driver]) (elim conjE)

text \<open>
  C3: as long as the EAP server never reports success and no PMKSA is cached for it, a station
  cannot open its port: no sequence of frames (arbitrary bytes), associations, notifications of the
  WPA authenticator and timeouts makes the machines ask the driver to authorize it.
\<close>

theorem no_port_without_verdict:
  assumes "silent_server w"
  shows "sta_all (\<lambda>sm. openings (log sm) = 0 \<and> authPortStatus sm \<noteq> Authorized)
    (fold (sta_step w hapd) evs (sta\<lparr>eapol_sm := None, sta_pmksa := None\<rparr>))"
proof -
  let ?r = "fold (sta_step w hapd) evs (sta\<lparr>eapol_sm := None, sta_pmksa := None\<rparr>)"
  have "closed_station.sta_ok w ?r"
    by (rule closed_station.sta_run_keeps [OF assms]) (simp add: closed_station.sta_ok_def sta_all_def)
  moreover have "port_station.sta_ok w ?r"
    by (rule port_station.sta_run_keeps) (simp_all add: port_station.sta_ok_def sta_all_def)
  ultimately have "sta_all (\<lambda>sm. closed_inv sm \<and> port_inv sm) ?r"
    unfolding closed_station.sta_ok_def port_station.sta_ok_def sta_all_def by (auto split: option.splits)
  then show ?thesis by (rule sta_all_mono) (simp add: closed_port, simp add: closed_inv_def)
qed

theorem no_port_without_verdict_witness:
  "sta_all (\<lambda>sm. openings (log sm) = 0)
    (fold (sta_step demo_world demo_conf)
      [NewStation, RunMachines, Frame [1, 0, 0, 4, 3, 9, 0, 4], RunMachines, PortValid True, PortTick]
      (any_station\<lparr>eapol_sm := None, sta_pmksa := None\<rparr>))"
proof -
  have "silent_server demo_world"
    by (simp add: silent_server_def no_success_def zeroed_if_def demo_world_def)
  then show ?thesis by (rule sta_all_mono [OF no_port_without_verdict]) (elim conjE)
qed

end
