(* ===== verification/Ieee80211Elems.thy ===== *)
theory Ieee80211Elems
  imports Wpabuf
begin

unbundle bit_operations_syntax

section \<open>Information elements of 802.11 frames (\<^verbatim>\<open>src/common/ieee802_11_common.c\<close>)\<close>

text \<open>
  Every management frame a station sends to hostapd is a sequence of elements: an identifier byte, a
  length byte and that many bytes. The parser records for each kind of element a pointer into the
  frame and a length. A pointer is the offset from the start of the frame; \<open>elems\<close> maps the fields
  of \<^verbatim>\<open>struct ieee802_11_elems\<close> to pointer and length (\<open>None\<close> is NULL; \<^verbatim>\<open>link_id\<close> has no length
  field, its entry keeps the element's). A read is a read of the memory that holds the frame:
  outside it there is no value, and the whole operation is \<open>None\<close>; that this never happens is proved.
\<close>

datatype elem_field = Ssid | Supp_rates | Fh_params | Ds_params | Cf_params | Tim | Ibss_params
  | Challenge | Erp_info | Ext_supp_rates | Wpa_ie | Rsn_ie | Wmm | Wmm_tspec | Wps_ie | Power_cap
  | Supp_channels | Mdie | Ftie | Timeout_int | Ht_capabilities | Ht_operation | Vendor_ht_cap
  | P2p | Link_id

type_synonym elems = "elem_field \<Rightarrow> (nat \<times> nat) option"

datatype ParseRes = ParseOK | ParseUnknown | ParseFailed

definition OUI_MICROSOFT :: u32 where "OUI_MICROSOFT = 0x0050f2"
definition OUI_WFA :: u32 where "OUI_WFA = 0x506f9a"
definition OUI_BROADCOM :: u32 where "OUI_BROADCOM = 0x00904c"

definition ieee802_11_parse_vendor_specific :: "u8 list \<Rightarrow> nat \<Rightarrow> nat \<Rightarrow> elems \<Rightarrow> (elems \<times> int) option" where
  "ieee802_11_parse_vendor_specific buf pos elen elems =
     (if elen < 4 then Some (elems, - 1)
      else Option.bind (rd_n buf pos 3) (\<lambda>o3. Option.bind (rd buf (pos + 3)) (\<lambda>ty.
        let oui = WPA_GET_BE24 o3 in
        if oui = OUI_MICROSOFT then
          (if ty = 1 then Some (elems(Wpa_ie \<mapsto> (pos, elen)), 0)
           else if ty = 2 then
             (if elen < 5 then Some (elems, - 1)
              else Option.bind (rd buf (pos + 4)) (\<lambda>st.
                if st = 0 \<or> st = 1 then Some (elems(Wmm \<mapsto> (pos, elen)), 0)
                else if st = 2 then Some (elems(Wmm_tspec \<mapsto> (pos, elen)), 0)
                else Some (elems, - 1)))
           else if ty = 4 then Some (elems(Wps_ie \<mapsto> (pos, elen)), 0)
           else Some (elems, - 1))
        else if oui = OUI_WFA then
          (if ty = 9 then Some (elems(P2p \<mapsto> (pos, elen)), 0) else Some (elems, - 1))
        else if oui = OUI_BROADCOM then
          (if ty = 0x33 then Some (elems(Vendor_ht_cap \<mapsto> (pos, elen)), 0) else Some (elems, - 1))
        else Some (elems, - 1))))"

text \<open>The plain cases of the \<^verbatim>\<open>switch (id)\<close>: which field an identifier sets.\<close>

definition eid_field :: "u8 \<Rightarrow> elem_field option" where
  "eid_field eid =
     (if eid = 0 then Some Ssid else if eid = 1 then Some Supp_rates else if eid = 2 then Some Fh_params
      else if eid = 3 then Some Ds_params else if eid = 4 then Some Cf_params else if eid = 5 then Some Tim
      else if eid = 6 then Some Ibss_params else if eid = 16 then Some Challenge
      else if eid = 42 then Some Erp_info else if eid = 50 then Some Ext_supp_rates
      else if eid = 48 then Some Rsn_ie else if eid = 33 then Some Power_cap
      else if eid = 36 then Some Supp_channels else if eid = 54 then Some Mdie
      else if eid = 55 then Some Ftie else if eid = 56 then Some Timeout_int
      else if eid = 45 then Some Ht_capabilities else if eid = 61 then Some Ht_operation
      else None)"

definition store_elem :: "u8 list \<Rightarrow> u8 \<Rightarrow> nat \<Rightarrow> nat \<Rightarrow> elems \<Rightarrow> (elems \<times> nat) option" where
  "store_elem buf eid pos elen elems =
     (case eid_field eid of
        Some f \<Rightarrow> Some (elems(f \<mapsto> (pos, elen)), 0)
      | None \<Rightarrow>
          if eid = 221 then
            map_option (\<lambda>(e, r). (e, if r \<noteq> 0 then 1 else 0)) (ieee802_11_parse_vendor_specific buf pos elen elems)
          else if eid = 101 then
            Some (if elen < 18 then elems else elems(Link_id \<mapsto> (pos, elen)), 0)
          else Some (elems, 1))"

function parse_loop :: "u8 list \<Rightarrow> nat \<Rightarrow> nat \<Rightarrow> elems \<Rightarrow> nat \<Rightarrow> (ParseRes \<times> elems) option" where
  "parse_loop buf pos left elems unknown =
     (if left < 2
      then Some (if left \<noteq> 0 then ParseFailed else if unknown \<noteq> 0 then ParseUnknown else ParseOK, elems)
      else Option.bind (rd buf pos) (\<lambda>eid. Option.bind (rd buf (pos + 1)) (\<lambda>elen.
        if unat elen > left - 2 then Some (ParseFailed, elems)
        else Option.bind (store_elem buf eid (pos + 2) (unat elen) elems) (\<lambda>(elems', u).
          parse_loop buf (pos + 2 + unat elen) (left - 2 - unat elen) elems' (unknown + u)))))"
  by pat_completeness auto
termination by (relation "measure (\<lambda>(buf, pos, left, elems, unknown). left)") auto

declare parse_loop.simps [simp del]

definition ieee802_11_parse_elems :: "u8 list \<Rightarrow> nat \<Rightarrow> (ParseRes \<times> elems) option" where
  "ieee802_11_parse_elems start len = parse_loop start 0 len (\<lambda>f. None) 0"

function count_loop :: "u8 list \<Rightarrow> nat \<Rightarrow> nat \<Rightarrow> nat \<Rightarrow> nat option" where
  "count_loop ies e pos count =
     (if pos + 2 \<le> e then
        Option.bind (rd ies (pos + 1)) (\<lambda>l.
          if pos + 2 + unat l > e then Some count
          else count_loop ies e (pos + 2 + unat l) (count + 1))
      else Some count)"
  by pat_completeness auto
termination by (relation "measure (\<lambda>(ies, e, pos, count). e - pos)") auto

declare count_loop.simps [simp del]

definition ieee802_11_ie_count :: "u8 list option \<Rightarrow> nat \<Rightarrow> nat option" where
  "ieee802_11_ie_count ies ies_len =
     (case ies of None \<Rightarrow> Some 0 | Some b \<Rightarrow> count_loop b ies_len 0 0)"

text \<open>The test both loops of \<^verbatim>\<open>ieee802_11_vendor_ie_concat\<close> make on the element at \<open>pos\<close>.\<close>

definition vendor_here :: "u8 list \<Rightarrow> nat \<Rightarrow> u8 \<Rightarrow> u32 \<Rightarrow> bool option" where
  "vendor_here ies pos l oui_type =
     Option.bind (rd ies pos) (\<lambda>eid.
       if eid = 221 \<and> unat l \<ge> 4 then map_option (\<lambda>d. WPA_GET_BE32 d = oui_type) (rd_n ies (pos + 2) 4)
       else Some False)"

datatype vendor_find = Malformed | NoSuchIe | FoundAt nat

function vendor_find_loop :: "u8 list \<Rightarrow> nat \<Rightarrow> u32 \<Rightarrow> nat \<Rightarrow> vendor_find option" where
  "vendor_find_loop ies e oui_type pos =
     (if pos + 1 < e then
        Option.bind (rd ies (pos + 1)) (\<lambda>l.
          if pos + 2 + unat l > e then Some Malformed
          else Option.bind (vendor_here ies pos l oui_type) (\<lambda>here.
            if here then Some (FoundAt pos)
            else vendor_find_loop ies e oui_type (pos + 2 + unat l)))
      else Some NoSuchIe)"
  by pat_completeness auto
termination by (relation "measure (\<lambda>(ies, e, oui_type, pos). e - pos)") auto

declare vendor_find_loop.simps [simp del]

function vendor_collect_loop :: "u8 list \<Rightarrow> nat \<Rightarrow> u32 \<Rightarrow> nat \<Rightarrow> wpabuf \<Rightarrow> wpabuf wres option" where
  "vendor_collect_loop ies e oui_type pos b =
     (if pos + 1 < e then
        Option.bind (rd ies (pos + 1)) (\<lambda>l.
          if pos + 2 + unat l > e then Some (WOk b)
          else Option.bind (vendor_here ies pos l oui_type) (\<lambda>here.
            if here then
              Option.bind (rd_n ies (pos + 6) (unat l - 4)) (\<lambda>d.
                case wpabuf_put_data b d of
                  WOk b' \<Rightarrow> vendor_collect_loop ies e oui_type (pos + 2 + unat l) b'
                | r \<Rightarrow> Some r)
            else vendor_collect_loop ies e oui_type (pos + 2 + unat l) b))
      else Some (WOk b))"
  by pat_completeness auto
termination by (relation "measure (\<lambda>(ies, e, oui_type, pos, b). e - pos)") auto

declare vendor_collect_loop.simps [simp del]

definition ieee802_11_vendor_ie_concat :: "bool \<Rightarrow> u8 list \<Rightarrow> nat \<Rightarrow> u32 \<Rightarrow> wpabuf option wres option" where
  "ieee802_11_vendor_ie_concat mem ies ies_len oui_type =
     Option.bind (vendor_find_loop ies ies_len oui_type 0) (\<lambda>r.
       case r of
         Malformed \<Rightarrow> Some (WOk None)
       | NoSuchIe \<Rightarrow> Some (WOk None)
       | FoundAt pos \<Rightarrow>
           (case wpabuf_alloc mem ies_len of
              None \<Rightarrow> Some (WOk None)
            | Some b \<Rightarrow> map_option (\<lambda>w. wbind w (\<lambda>b'. WOk (Some b'))) (vendor_collect_loop ies ies_len oui_type pos b)))"

subsection \<open>Elements as items\<close>

type_synonym ie = "u8 \<times> u8 list"

definition emit_ie :: "ie \<Rightarrow> u8 list" where
  "emit_ie i = fst i # of_nat (length (snd i)) # snd i"

definition ie_ok :: "ie \<Rightarrow> bool" where
  "ie_ok i = (length (snd i) < 256)"

definition next_ie :: "u8 list \<Rightarrow> (ie \<times> u8 list) option" where
  "next_ie b = (case b of
     eid # l # r \<Rightarrow> if unat l \<le> length r then Some ((eid, take (unat l) r), drop (unat l) r) else None
   | _ \<Rightarrow> None)"

lemma unat_len: "n < 256 \<Longrightarrow> unat (of_nat n :: u8) = n"
  by (simp add: unat_of_nat)

interpretation ie_codec: tlv_codec emit_ie next_ie ie_ok
proof
  show "next_ie (emit_ie i @ r) = Some (i, r)" if "ie_ok i" for i r
    using that by (cases i) (simp add: next_ie_def emit_ie_def ie_ok_def unat_len)
  show "length r < length b" if "next_ie b = Some (i, r)" for b i r
    using that by (auto simp: next_ie_def split: list.splits if_splits)
qed (simp add: emit_ie_def)

text \<open>Where an element goes, read off its identifier and its data.\<close>

definition vendor_field :: "u8 list \<Rightarrow> elem_field option" where
  "vendor_field d =
     (if length d < 4 then None
      else let oui = WPA_GET_BE24 d; ty = d ! 3 in
        if oui = OUI_MICROSOFT then
          (if ty = 1 then Some Wpa_ie
           else if ty = 2 then (if length d < 5 then None else if d ! 4 = 0 \<or> d ! 4 = 1 then Some Wmm
             else if d ! 4 = 2 then Some Wmm_tspec else None)
           else if ty = 4 then Some Wps_ie else None)
        else if oui = OUI_WFA then (if ty = 9 then Some P2p else None)
        else if oui = OUI_BROADCOM then (if ty = 0x33 then Some Vendor_ht_cap else None)
        else None)"

definition ie_field :: "ie \<Rightarrow> elem_field option" where
  "ie_field i =
     (case eid_field (fst i) of Some f \<Rightarrow> Some f
      | None \<Rightarrow> if fst i = 221 then vendor_field (snd i)
                else if fst i = 101 \<and> 18 \<le> length (snd i) then Some Link_id else None)"

definition ie_unknown :: "ie \<Rightarrow> bool" where
  "ie_unknown i = (ie_field i = None \<and> fst i \<noteq> 101)"

definition place :: "ie \<Rightarrow> nat \<Rightarrow> elems \<Rightarrow> elems" where
  "place i pos elems = (case ie_field i of None \<Rightarrow> elems | Some f \<Rightarrow> elems(f \<mapsto> (pos, length (snd i))))"

lemma nth_take_drop: "k < n \<Longrightarrow> pos + n \<le> length buf \<Longrightarrow> take n (drop pos buf) ! k = buf ! (pos + k)"
  by simp

lemma be24_take:
  assumes "3 \<le> n" "pos + n \<le> length buf"
  shows "WPA_GET_BE24 (take 3 (drop pos buf)) = WPA_GET_BE24 (take n (drop pos buf))"
  using assms by (simp add: WPA_GET_BE24_def)

lemma vendor_specific_field:
  assumes "pos + elen \<le> length buf"
  shows "ieee802_11_parse_vendor_specific buf pos elen elems =
    Some (case vendor_field (take elen (drop pos buf)) of
      None \<Rightarrow> (elems, - 1) | Some f \<Rightarrow> (elems(f \<mapsto> (pos, elen)), 0))"
proof (cases "elen < 4")
  case True
  then show ?thesis using assms by (simp add: ieee802_11_parse_vendor_specific_def vendor_field_def)
next
  case False
  let ?d = "take elen (drop pos buf)"
  have l: "length ?d = elen" using assms by simp
  have r: "rd_n buf pos 3 = Some (take 3 (drop pos buf))" "rd buf (pos + 3) = Some (?d ! 3)"
    using False assms by (simp_all add: rd_n_def rd_def)
  have o: "WPA_GET_BE24 (take 3 (drop pos buf)) = WPA_GET_BE24 ?d" using False assms by (intro be24_take) auto
  have st: "rd buf (pos + 4) = Some (?d ! 4)" if "\<not> elen < 5" using that assms by (simp add: rd_def)
  show ?thesis
    unfolding ieee802_11_parse_vendor_specific_def vendor_field_def l r o Let_def bind.bind_lunit
    using False st
    by (simp del: nth_take take_eq_Nil split del: if_split add: if_distrib [of Some] cong: if_cong) (auto split: if_splits)
qed

lemma store_elem_field:
  assumes "pos + elen \<le> length buf" "d = take elen (drop pos buf)"
  shows "store_elem buf eid pos elen elems = Some (place (eid, d) pos elems, if ie_unknown (eid, d) then 1 else 0)"
proof -
  have "length d = elen" using assms by simp
  then show ?thesis
    using vendor_specific_field [OF assms(1), of elems]
    by (auto simp: store_elem_def place_def ie_field_def ie_unknown_def assms(2) eid_field_def
        split: option.splits if_splits)
qed


subsection \<open>The parser against the item sequence\<close>

lemma next_ie_emit: "next_ie b = Some (i, r) \<Longrightarrow> b = emit_ie i @ r \<and> ie_ok i"
proof -
  assume n: "next_ie b = Some (i, r)"
  then obtain eid l r0 where b: "b = eid # l # r0" "unat l \<le> length r0"
    "i = (eid, take (unat l) r0)" "r = drop (unat l) r0"
    by (auto simp: next_ie_def split: list.splits if_splits)
  have "unat l < 2 ^ LENGTH(8)" by (rule unsigned_less)
  then have "unat l < 256" by simp
  moreover have "min (length r0) (unat l) = unat l" using b(2) by simp
  ultimately show ?thesis using b by (simp add: emit_ie_def ie_ok_def)
qed

lemma next_ie_length: "next_ie b = Some (i, r) \<Longrightarrow> length b = 2 + length (snd i) + length r"
  by (drule next_ie_emit) (simp add: emit_ie_def)

lemma parse_loop_item:
  assumes l: "pos + left \<le> length buf" and n: "next_ie (take left (drop pos buf)) = Some (i, r)"
  shows "parse_loop buf pos left elems u =
      parse_loop buf (pos + 2 + length (snd i)) (length r) (place i (pos + 2) elems) (u + (if ie_unknown i then 1 else 0)) \<and>
    r = take (length r) (drop (pos + 2 + length (snd i)) buf) \<and> pos + 2 + length (snd i) + length r = pos + left"
proof -
  let ?S = "take left (drop pos buf)"
  have e: "?S = emit_ie i @ r" "ie_ok i" using next_ie_emit [OF n] by auto
  have len: "left = 2 + length (snd i) + length r" using next_ie_length [OF n] l by simp
  have S: "?S ! 0 = fst i" "?S ! 1 = of_nat (length (snd i))" "take (length (snd i)) (drop 2 ?S) = snd i"
    "drop (2 + length (snd i)) ?S = r"
    by (simp_all add: e(1)) (simp_all add: emit_ie_def)
  have b: "rd buf pos = Some (fst i)" "rd buf (pos + 1) = Some (of_nat (length (snd i)))"
    using S(1,2) l len by (simp_all add: rd_def)
  have d: "snd i = take (length (snd i)) (drop (pos + 2) buf)"
    using S(3) l len by (simp add: drop_take add.commute)
  have u: "unat (of_nat (length (snd i)) :: u8) = length (snd i)"
    using e(2) by (simp add: ie_ok_def unat_len)
  have st: "store_elem buf (fst i) (pos + 2) (length (snd i)) elems =
      Some (place i (pos + 2) elems, if ie_unknown i then 1 else 0)"
    using store_elem_field [OF _ d, of "fst i" elems] l len by simp
  have "parse_loop buf pos left elems u =
      parse_loop buf (pos + 2 + length (snd i)) (length r) (place i (pos + 2) elems) (u + (if ie_unknown i then 1 else 0))"
    using parse_loop.simps [of buf pos left elems u] b u st len by simp
  moreover have "r = take (length r) (drop (pos + 2 + length (snd i)) buf)"
    using S(4) len by (simp add: drop_take add.commute add.left_commute)
  ultimately show ?thesis using len by simp
qed

lemma parse_loop_bad:
  assumes l: "pos + left \<le> length buf" and n: "next_ie (take left (drop pos buf)) = None" and "left \<noteq> 0"
  shows "parse_loop buf pos left elems u = Some (ParseFailed, elems)"
proof (cases "left < 2")
  case True
  then show ?thesis using assms(3) by (simp add: parse_loop.simps)
next
  case False
  let ?S = "take left (drop pos buf)"
  have len: "length ?S = left" using l by simp
  have S: "?S = ?S ! 0 # ?S ! 1 # drop 2 ?S"
    using False len by (cases ?S; cases "tl ?S") auto
  have i: "?S ! 0 = buf ! pos" "?S ! 1 = buf ! (pos + 1)" "length (drop 2 ?S) = left - 2"
    using False l by simp_all
  have "\<not> unat (buf ! (pos + 1)) \<le> left - 2"
  proof
    assume a: "unat (buf ! (pos + 1)) \<le> left - 2"
    have "next_ie (buf ! pos # buf ! (pos + 1) # drop 2 ?S) \<noteq> None" using a i(3) by (simp add: next_ie_def)
    then show False using n S i(1,2) by metis
  qed
  then show ?thesis
    using l False parse_loop.simps [of buf pos left elems u] by (simp add: rd_def)
qed

subsection \<open>What the parser computes\<close>

fun place_all :: "ie list \<Rightarrow> nat \<Rightarrow> elems \<Rightarrow> elems" where
  "place_all [] pos e = e"
| "place_all (i # is) pos e = place_all is (pos + 2 + length (snd i)) (place i (pos + 2) e)"

definition parse_result :: "nat \<Rightarrow> ParseRes" where
  "parse_result unknown = (if unknown \<noteq> 0 then ParseUnknown else ParseOK)"

definition unknowns :: "ie list \<Rightarrow> nat" where
  "unknowns is = length (filter ie_unknown is)"

lemma parse_loop_decode:
  "pos + left \<le> length buf \<Longrightarrow> left \<le> fuel \<Longrightarrow>
   (case ie_codec.decode_all fuel (take left (drop pos buf)) of
      None \<Rightarrow> \<exists>e. parse_loop buf pos left elems u = Some (ParseFailed, e)
    | Some is \<Rightarrow> parse_loop buf pos left elems u = Some (parse_result (u + unknowns is), place_all is pos elems))"
proof (induction fuel arbitrary: pos left elems u)
  case 0
  then show ?case by (simp add: parse_loop.simps parse_result_def unknowns_def)
next
  case (Suc fuel)
  let ?S = "take left (drop pos buf)"
  show ?case
  proof (cases "left = 0")
    case True
    then show ?thesis by (simp add: parse_loop.simps parse_result_def unknowns_def)
  next
    case False
    then obtain x xs where S: "?S = x # xs" using Suc.prems by (cases ?S) auto
    show ?thesis
    proof (cases "next_ie ?S")
      case None
      then show ?thesis using parse_loop_bad [OF Suc.prems(1) None False] S by simp
    next
      case (Some p)
      obtain i r where p: "p = (i, r)" by (cases p)
      note step = parse_loop_item [OF Suc.prems(1) Some [unfolded p], of elems u]
      have r: "r = take (length r) (drop (pos + 2 + length (snd i)) buf)" using step by blast
      have q: "pos + 2 + length (snd i) + length r \<le> length buf" "length r \<le> fuel"
        using step Suc.prems by linarith+
      note ih = Suc.IH [OF q, of "place i (pos + 2) elems" "u + (if ie_unknown i then 1 else 0)"]
      note ih2 = ih [folded r]
      have d: "ie_codec.decode_all (Suc fuel) ?S = map_option (Cons i) (ie_codec.decode_all fuel r)"
        using S Some p by simp
      show ?thesis
      proof (cases "ie_codec.decode_all fuel r")
        case None
        then have "\<exists>e. parse_loop buf pos left elems u = Some (ParseFailed, e)" using ih2 step by simp
        then show ?thesis unfolding d None by simp
      next
        case (Some "is")
        then have "parse_loop buf pos left elems u =
          Some (parse_result (u + (if ie_unknown i then 1 else 0) + unknowns is),
            place_all is (pos + 2 + length (snd i)) (place i (pos + 2) elems))"
          using ih2 step by simp
        then show ?thesis unfolding d Some by (simp add: unknowns_def)
      qed
    qed
  qed
qed

lemma parse_elems_decode:
  "case ie_codec.decode_all (length buf) buf of
     None \<Rightarrow> \<exists>e. ieee802_11_parse_elems buf (length buf) = Some (ParseFailed, e)
   | Some is \<Rightarrow> ieee802_11_parse_elems buf (length buf) = Some (parse_result (unknowns is), place_all is 0 (\<lambda>f. None))"
proof -
  have t: "take (length buf) (drop 0 buf) = buf" by simp
  show ?thesis
    unfolding ieee802_11_parse_elems_def
    by (rule parse_loop_decode [of 0 "length buf" buf "length buf" "\<lambda>f. None" 0, unfolded t add_0, OF le_refl le_refl])
qed

text \<open>The content a field points to, and the last element of a sequence for a field.\<close>

definition elem_data :: "u8 list \<Rightarrow> elems \<Rightarrow> elem_field \<Rightarrow> u8 list option" where
  "elem_data buf elems f = map_option (\<lambda>(p, l). take l (drop p buf)) (elems f)"

fun last_data :: "elem_field \<Rightarrow> ie list \<Rightarrow> u8 list option" where
  "last_data f [] = None"
| "last_data f (i # is) =
     (case last_data f is of Some d \<Rightarrow> Some d | None \<Rightarrow> if ie_field i = Some f then Some (snd i) else None)"

lemma place_all_data:
  "drop pos buf = concat (map emit_ie is) @ post \<Longrightarrow>
   elem_data buf (place_all is pos e) f =
     (case last_data f is of Some d \<Rightarrow> Some d | None \<Rightarrow> elem_data buf e f)"
proof (induction "is" arbitrary: pos e)
  case (Cons i "is")
  have d2: "drop (pos + 2) buf = snd i @ concat (map emit_ie is) @ post"
  proof -
    have "drop (pos + 2) buf = drop 2 (drop pos buf)" by (simp add: add.commute)
    then show ?thesis by (simp add: Cons.prems emit_ie_def [of i])
  qed
  have "drop (pos + 2 + length (snd i)) buf = drop (length (snd i)) (drop (pos + 2) buf)"
    by (simp only: drop_drop add.commute)
  then have "drop (pos + 2 + length (snd i)) buf = concat (map emit_ie is) @ post" by (simp only: d2) simp
  note ih = Cons.IH [OF this, of "place i (pos + 2) e"]
  have "elem_data buf (place i (pos + 2) e) f = (if ie_field i = Some f then Some (snd i) else elem_data buf e f)"
    using d2 by (auto simp: elem_data_def place_def split: option.split)
  then show ?case using ih by (simp split: option.split)
qed simp

text \<open>
  C12: the parser accepts exactly the element sequences. If the frame body is a sequence of elements
  (each at most 255 bytes of data) it returns without an error, every field points to the data of
  the last element of its kind, fields without an element stay NULL, and the result says whether
  an unknown element was seen.
\<close>

theorem parse_elems_complete:
  assumes "list_all ie_ok is"
  shows "\<exists>e. ieee802_11_parse_elems (concat (map emit_ie is)) (length (concat (map emit_ie is))) =
      Some (if \<exists>i \<in> set is. ie_unknown i then ParseUnknown else ParseOK, e) \<and>
    (\<forall>f. elem_data (concat (map emit_ie is)) e f = last_data f is)"
proof -
  let ?b = "concat (map emit_ie is)"
  have "length is \<le> length ?b" by (induction "is") (auto simp: emit_ie_def)
  then have "ie_codec.decode_all (length ?b) ?b = Some is" by (rule ie_codec.decode_all_emit [OF assms])
  then have "ieee802_11_parse_elems ?b (length ?b) = Some (parse_result (unknowns is), place_all is 0 (\<lambda>f. None))"
    using parse_elems_decode [of ?b] by simp
  moreover have "parse_result (unknowns is) = (if \<exists>i \<in> set is. ie_unknown i then ParseUnknown else ParseOK)"
    by (auto simp: parse_result_def unknowns_def filter_empty_conv)
  moreover have "elem_data ?b (place_all is 0 (\<lambda>f. None)) f = last_data f is" for f
    using place_all_data [of 0 ?b "is" "[]" "\<lambda>f. None" f] by (simp add: elem_data_def split: option.split)
  ultimately show ?thesis by auto
qed

theorem parse_elems_complete_witness:
  "\<exists>e. ieee802_11_parse_elems (concat (map emit_ie [(0, [90, 90]), (221, [0x00, 0x50, 0xf2, 4, 1]), (0, [65])])) 14 = Some (ParseOK, e) \<and>
     elem_data (concat (map emit_ie [(0, [90, 90]), (221, [0x00, 0x50, 0xf2, 4, 1]), (0, [65])])) e Ssid = Some [65] \<and>
     elem_data (concat (map emit_ie [(0, [90, 90]), (221, [0x00, 0x50, 0xf2, 4, 1]), (0, [65])])) e Wps_ie = Some [0x00, 0x50, 0xf2, 4, 1]"
proof -
  let ?is = "[(0, [90, 90]), (221, [0x00, 0x50, 0xf2, 4, 1]), (0, [65])] :: ie list"
  have ok: "list_all ie_ok ?is" by (simp add: ie_ok_def)
  have len: "length (concat (map emit_ie ?is)) = 14" by (simp add: emit_ie_def)
  have known: "\<not> (\<exists>i \<in> set ?is. ie_unknown i)" by code_simp
  have data: "last_data Ssid ?is = Some [65]" "last_data Wps_ie ?is = Some [0x00, 0x50, 0xf2, 4, 1]" by code_simp+
  from parse_elems_complete [OF ok] obtain e
    where p: "ieee802_11_parse_elems (concat (map emit_ie ?is)) 14 =
        Some (if \<exists>i \<in> set ?is. ie_unknown i then ParseUnknown else ParseOK, e)"
      and f: "\<forall>f. elem_data (concat (map emit_ie ?is)) e f = last_data f ?is"
    unfolding len by blast
  show ?thesis
    by (intro exI [of _ e] conjI) (simp_all only: p f data known if_False)
qed


subsection \<open>Arbitrary frames\<close>

definition within :: "nat \<Rightarrow> elems \<Rightarrow> bool" where
  "within n e = (\<forall>f p l. e f = Some (p, l) \<longrightarrow> p + l \<le> n)"

lemma within_upd: "within n e \<Longrightarrow> p + l \<le> n \<Longrightarrow> within n (e(f \<mapsto> (p, l)))"
  by (simp add: within_def)

lemma place_within: "within n e \<Longrightarrow> p + length (snd i) \<le> n \<Longrightarrow> within n (place i p e)"
  by (auto simp: place_def within_upd split: option.split)

lemma parse_loop_safe:
  "pos + left \<le> length buf \<Longrightarrow> within (pos + left) elems \<Longrightarrow>
   \<exists>r e. parse_loop buf pos left elems u = Some (r, e) \<and> within (pos + left) e"
proof (induction left arbitrary: pos elems u rule: less_induct)
  case (less left)
  show ?case
  proof (cases "left = 0")
    case True
    then show ?thesis using less.prems by (simp add: parse_loop.simps)
  next
    case False
    show ?thesis
    proof (cases "next_ie (take left (drop pos buf))")
      case None
      then show ?thesis using parse_loop_bad [OF less.prems(1) None False] less.prems(2) by simp
    next
      case (Some p)
      obtain i r where p: "p = (i, r)" by (cases p)
      note step = parse_loop_item [OF less.prems(1) Some [unfolded p], of elems u]
      then have l: "pos + 2 + length (snd i) + length r = pos + left" by blast
      have w: "within (pos + 2 + length (snd i) + length r) elems" using less.prems(2) by (simp only: l)
      then have "\<exists>q e. parse_loop buf (pos + 2 + length (snd i)) (length r) (place i (pos + 2) elems)
          (u + (if ie_unknown i then 1 else 0)) = Some (q, e) \<and>
          within (pos + 2 + length (snd i) + length r) e"
        using less.prems(1) w l by (intro less.IH place_within) auto
      then obtain q e where "parse_loop buf pos left elems u = Some (q, e)"
        "within (pos + 2 + length (snd i) + length r) e"
        using step by metis
      then show ?thesis unfolding l by blast
    qed
  qed
qed

text \<open>
  C13: on any frame body whatsoever the parser returns, never reads outside the \<open>len\<close> bytes it was
  given, and every pointer it stores, with the length stored beside it, stays within them.
\<close>

theorem parse_elems_memory_safe:
  assumes "len \<le> length start"
  shows "\<exists>r e. ieee802_11_parse_elems start len = Some (r, e) \<and>
    (\<forall>f p l. e f = Some (p, l) \<longrightarrow> p + l \<le> len)"
proof -
  have "\<exists>r e. parse_loop start 0 len (\<lambda>f. None) 0 = Some (r, e) \<and> within (0 + len) e"
    using assms by (intro parse_loop_safe) (auto simp: within_def)
  then show ?thesis by (auto simp: ieee802_11_parse_elems_def within_def)
qed

theorem parse_elems_memory_safe_witness:
  "\<exists>r e. ieee802_11_parse_elems [0, 2, 65, 66, 48, 200] 6 = Some (r, e) \<and>
    (\<forall>f p l. e f = Some (p, l) \<longrightarrow> p + l \<le> 6)"
  by (rule parse_elems_memory_safe) simp

lemma count_loop_decode:
  "e \<le> length ies \<Longrightarrow> pos \<le> e \<Longrightarrow> ie_codec.decode_all fuel (take (e - pos) (drop pos ies)) = Some is \<Longrightarrow>
   count_loop ies e pos n = Some (n + length is)"
proof (induction "is" arbitrary: fuel pos n)
  case Nil
  then have "take (e - pos) (drop pos ies) = []"
    by (cases fuel; cases "take (e - pos) (drop pos ies)") (auto split: option.splits)
  then have "e = pos" using Nil.prems(1,2) by auto
  then show ?case by (simp add: count_loop.simps)
next
  case (Cons i "is")
  let ?S = "take (e - pos) (drop pos ies)"
  obtain f r where f: "fuel = Suc f" "next_ie ?S = Some (i, r)" "ie_codec.decode_all f r = Some is"
    using Cons.prems(3) by (cases fuel; cases ?S) (auto split: option.splits)
  have p: "pos + (e - pos) \<le> length ies" using Cons.prems by simp
  have len: "e - pos = 2 + length (snd i) + length r" using next_ie_length [OF f(2)] p by simp
  have em: "?S = emit_ie i @ r" "ie_ok i" using next_ie_emit [OF f(2)] by auto
  have "?S ! 1 = of_nat (length (snd i))" by (simp add: em(1)) (simp add: emit_ie_def)
  then have "rd ies (pos + 1) = Some (of_nat (length (snd i)))" using len p by (simp add: rd_def)
  moreover have "unat (of_nat (length (snd i)) :: u8) = length (snd i)" using em(2) by (simp add: ie_ok_def unat_len)
  moreover have "pos + 2 \<le> e" "\<not> e < pos + 2 + length (snd i)" using len Cons.prems(2) by linarith+
  ultimately have step: "count_loop ies e pos n = count_loop ies e (pos + 2 + length (snd i)) (n + 1)"
    using count_loop.simps [of ies e pos n] by simp
  have "r = take (length r) (drop (pos + 2 + length (snd i)) ies)"
    using parse_loop_item [OF p f(2)] by blast
  moreover have q: "e - (pos + 2 + length (snd i)) = length r" "pos + 2 + length (snd i) \<le> e" using len Cons.prems by linarith+
  ultimately have "ie_codec.decode_all f (take (e - (pos + 2 + length (snd i))) (drop (pos + 2 + length (snd i)) ies)) = Some is"
    using f(3) by simp
  from Cons.IH [OF Cons.prems(1) q(2) this, of "n + 1"] show ?case using step by simp
qed

subsection \<open>Vendor elements\<close>

definition vendor_ie :: "u32 \<Rightarrow> ie \<Rightarrow> bool" where
  "vendor_ie oui_type i = (fst i = 221 \<and> 4 \<le> length (snd i) \<and> WPA_GET_BE32 (snd i) = oui_type)"

definition vendor_data :: "u32 \<Rightarrow> ie list \<Rightarrow> u8 list list" where
  "vendor_data oui_type is = map (\<lambda>i. drop 4 (snd i)) (filter (vendor_ie oui_type) is)"

lemma ie_at:
  assumes "drop pos ies = emit_ie i @ rest" "ie_ok i"
  shows "rd ies pos = Some (fst i)" "rd ies (pos + 1) = Some (of_nat (length (snd i)))"
    "unat (of_nat (length (snd i)) :: u8) = length (snd i)"
    "4 \<le> length (snd i) \<Longrightarrow> rd_n ies (pos + 2) 4 = Some (take 4 (snd i))"
    "4 \<le> length (snd i) \<Longrightarrow> rd_n ies (pos + 6) (length (snd i) - 4) = Some (drop 4 (snd i))"
    "drop (pos + 2 + length (snd i)) ies = rest"
    "pos + 2 + length (snd i) \<le> length ies"
proof -
  have len: "length ies = pos + 2 + length (snd i) + length rest"
  proof -
    have "length (drop pos ies) = 2 + length (snd i) + length rest" by (simp add: assms(1) emit_ie_def)
    then show ?thesis by simp
  qed
  have n: "ies ! (pos + k) = (emit_ie i @ rest) ! k" if "pos + k < length ies" for k
    using that assms(1) by (metis nth_drop less_imp_le le_add1 order.trans)
  have d: "drop (pos + k) ies = drop k (emit_ie i @ rest)" for k
    using assms(1) by (metis drop_drop add.commute)
  show "rd ies pos = Some (fst i)" using n [of 0] len by (simp add: rd_def emit_ie_def)
  show "rd ies (pos + 1) = Some (of_nat (length (snd i)))" using n [of 1] len by (simp add: rd_def emit_ie_def)
  show "unat (of_nat (length (snd i)) :: u8) = length (snd i)" using assms(2) by (simp add: ie_ok_def unat_len)
  show "4 \<le> length (snd i) \<Longrightarrow> rd_n ies (pos + 2) 4 = Some (take 4 (snd i))"
    using d [of 2] len by (simp add: rd_n_def emit_ie_def)
  show "4 \<le> length (snd i) \<Longrightarrow> rd_n ies (pos + 6) (length (snd i) - 4) = Some (drop 4 (snd i))"
    using d [of 6] len by (simp add: rd_n_def emit_ie_def numeral_eq_Suc)
  show "drop (pos + 2 + length (snd i)) ies = rest"
    using d [of "2 + length (snd i)"] by (simp add: emit_ie_def add.assoc)
  show "pos + 2 + length (snd i) \<le> length ies" using len by simp
qed

lemma be32_take4: "4 \<le> length d \<Longrightarrow> WPA_GET_BE32 (take 4 d) = WPA_GET_BE32 d"
  by (simp add: WPA_GET_BE32_def)

lemma vendor_here_ie:
  assumes "drop pos ies = emit_ie i @ rest" "ie_ok i"
  shows "vendor_here ies pos (of_nat (length (snd i))) oui_type = Some (vendor_ie oui_type i)"
  using ie_at [OF assms] by (auto simp: vendor_here_def vendor_ie_def be32_take4)

lemma vendor_find_items:
  "drop pos ies = concat (map emit_ie is) \<Longrightarrow> list_all ie_ok is \<Longrightarrow> pos \<le> length ies \<Longrightarrow>
   vendor_find_loop ies (length ies) oui_type pos =
     Some (case dropWhile (\<lambda>i. \<not> vendor_ie oui_type i) is of
       [] \<Rightarrow> NoSuchIe
     | js \<Rightarrow> FoundAt (length ies - length (concat (map emit_ie js))))"
proof (induction "is" arbitrary: pos)
  case Nil
  then show ?case by (simp add: vendor_find_loop.simps)
next
  case (Cons i "is")
  have d: "drop pos ies = emit_ie i @ concat (map emit_ie is)" and ok: "ie_ok i" using Cons.prems by simp_all
  note at = ie_at [OF d ok]
  have len: "pos = length ies - length (concat (map emit_ie (i # is)))"
  proof -
    have "length (drop pos ies) = length (concat (map emit_ie (i # is)))" using Cons.prems(1) by simp
    then show ?thesis using Cons.prems(3) by simp
  qed
  show ?case
  proof (cases "vendor_ie oui_type i")
    case True
    then show ?thesis
      using vendor_find_loop.simps [of ies "length ies" oui_type pos] at vendor_here_ie [OF d ok, of oui_type] len by simp
  next
    case False
    have "vendor_find_loop ies (length ies) oui_type pos =
        vendor_find_loop ies (length ies) oui_type (pos + 2 + length (snd i))"
      using vendor_find_loop.simps [of ies "length ies" oui_type pos] at vendor_here_ie [OF d ok, of oui_type] False by simp
    then show ?thesis using Cons.IH [OF at(6)] Cons.prems at(7) False by simp
  qed
qed

lemma vendor_collect_items:
  "drop pos ies = concat (map emit_ie is) \<Longrightarrow> list_all ie_ok is \<Longrightarrow> pos \<le> length ies \<Longrightarrow> wpabuf_ok b \<Longrightarrow>
   length (concat (vendor_data oui_type is)) \<le> wpabuf_tailroom b \<Longrightarrow>
   \<exists>b'. vendor_collect_loop ies (length ies) oui_type pos b = Some (WOk b') \<and>
     wpabuf_head b' = wpabuf_head b @ concat (vendor_data oui_type is)"
proof (induction "is" arbitrary: pos b)
  case Nil
  then show ?case by (simp add: vendor_collect_loop.simps vendor_data_def)
next
  case (Cons i "is")
  have d: "drop pos ies = emit_ie i @ concat (map emit_ie is)" and ok: "ie_ok i" using Cons.prems by simp_all
  note at = ie_at [OF d ok]
  show ?case
  proof (cases "vendor_ie oui_type i")
    case True
    let ?d = "drop 4 (snd i)"
    have four: "4 \<le> length (snd i)" using True by (simp add: vendor_ie_def)
    have room: "length ?d \<le> wpabuf_tailroom b"
      "length (concat (vendor_data oui_type is)) \<le> wpabuf_tailroom b - length ?d"
      using Cons.prems(5) True by (simp_all add: vendor_data_def)
    obtain b1 where b1: "wpabuf_put_data b ?d = WOk b1" "wpabuf_ok b1" "wpabuf_head b1 = wpabuf_head b @ ?d"
      "wpabuf_tailroom b1 = wpabuf_tailroom b - length ?d"
      using wpabuf_sink.put_fits [OF Cons.prems(4) room(1)] by blast
    have "vendor_collect_loop ies (length ies) oui_type pos b =
        vendor_collect_loop ies (length ies) oui_type (pos + 2 + length (snd i)) b1"
      using vendor_collect_loop.simps [of ies "length ies" oui_type pos b] at(1-3,5,7) four
        vendor_here_ie [OF d ok, of oui_type] True b1(1) by simp
    then show ?thesis
      using Cons.IH [OF at(6), of b1] Cons.prems at(7) b1 room True by (auto simp: vendor_data_def)
  next
    case False
    have "vendor_collect_loop ies (length ies) oui_type pos b =
        vendor_collect_loop ies (length ies) oui_type (pos + 2 + length (snd i)) b"
      using vendor_collect_loop.simps [of ies "length ies" oui_type pos b] at
        vendor_here_ie [OF d ok, of oui_type] False by simp
    then show ?thesis
      using Cons.IH [OF at(6), of b] Cons.prems at(7) False by (auto simp: vendor_data_def)
  qed
qed


lemma drop_while_emit:
  "drop (length (concat (map emit_ie is)) - length (concat (map emit_ie (dropWhile P is)))) (concat (map emit_ie is)) =
     concat (map emit_ie (dropWhile P is))"
proof -
  have "concat (map emit_ie is) = concat (map emit_ie (takeWhile P is)) @ concat (map emit_ie (dropWhile P is))"
    by (metis concat_append map_append takeWhile_dropWhile_id)
  then show ?thesis by simp
qed

lemma vendor_data_dropWhile: "vendor_data oui_type (dropWhile (\<lambda>i. \<not> vendor_ie oui_type i) is) = vendor_data oui_type is"
  by (induction "is") (auto simp: vendor_data_def)

lemma vendor_data_length: "length (concat (vendor_data oui_type is)) \<le> length (concat (map emit_ie is))"
  by (induction "is") (auto simp: vendor_data_def emit_ie_def)

text \<open>
  The concatenation of vendor elements returns NULL exactly when no element of the requested
  vendor type is present; otherwise the new buffer holds the data of all of them, in order, without
  their four selector bytes, and the appends never hit the buffer's limit.
\<close>

theorem vendor_ie_concat_content:
  assumes "list_all ie_ok is" and "length (concat (map emit_ie is)) < 2147483648"
  shows "\<exists>r. ieee802_11_vendor_ie_concat True (concat (map emit_ie is)) (length (concat (map emit_ie is))) oui_type =
      Some (WOk r) \<and> (r = None \<longleftrightarrow> (\<forall>i \<in> set is. \<not> vendor_ie oui_type i)) \<and>
    opt_content r = concat (vendor_data oui_type is)"
proof -
  let ?b = "concat (map emit_ie is)"
  define js where "js = dropWhile (\<lambda>i. \<not> vendor_ie oui_type i) is"
  have f: "vendor_find_loop ?b (length ?b) oui_type 0 = Some (case js of [] \<Rightarrow> NoSuchIe
     | x # xs \<Rightarrow> FoundAt (length ?b - length (concat (map emit_ie (x # xs)))))"
    unfolding js_def using assms(1) by (intro vendor_find_items) simp_all
  show ?thesis
  proof (cases js)
    case Nil
    then have n: "\<forall>i \<in> set is. \<not> vendor_ie oui_type i" by (simp add: js_def dropWhile_eq_Nil_conv)
    then have "vendor_data oui_type is = []" by (simp add: vendor_data_def)
    then show ?thesis using f n Nil by (simp add: ieee802_11_vendor_ie_concat_def)
  next
    case (Cons j rest)
    obtain b where b: "wpabuf_alloc True (length ?b) = Some b" "wpabuf_ok b" "wpabuf_head b = []"
      "wpabuf_tailroom b = length ?b"
      using wpabuf_alloc_fresh [OF assms(2)] by blast
    have d: "vendor_data oui_type js = vendor_data oui_type is" by (simp add: js_def vendor_data_dropWhile)
    have "list_all ie_ok js" using assms(1) by (auto simp: js_def list_all_iff dest: set_dropWhileD)
    then obtain b' where b': "vendor_collect_loop ?b (length ?b) oui_type
          (length ?b - length (concat (map emit_ie js))) b = Some (WOk b')"
        "wpabuf_head b' = wpabuf_head b @ concat (vendor_data oui_type js)"
      using vendor_collect_items [of _ ?b js b oui_type] b(2,4) drop_while_emit [of "is"]
        vendor_data_length [of oui_type "is"] d by (force simp: js_def)
    have "\<exists>i \<in> set is. vendor_ie oui_type i"
      using Cons unfolding js_def dropWhile_eq_Cons_conv by (metis in_set_conv_decomp)
    then show ?thesis
      using f Cons b b' d by (auto simp: ieee802_11_vendor_ie_concat_def)
  qed
qed

theorem vendor_ie_concat_content_witness:
  "\<exists>r. ieee802_11_vendor_ie_concat True (concat (map emit_ie [(0, [65]), (221, [0, 0x50, 0xf2, 4, 1, 2]), (221, [0, 0x50, 0xf2, 4, 3])]))
      18 0x0050f204 = Some (WOk r) \<and> opt_content r = [1, 2, 3]"
proof -
  let ?is = "[(0, [65]), (221, [0, 0x50, 0xf2, 4, 1, 2]), (221, [0, 0x50, 0xf2, 4, 3])] :: ie list"
  have ok: "list_all ie_ok ?is" by (simp add: ie_ok_def)
  have len: "length (concat (map emit_ie ?is)) = 18" by (simp add: emit_ie_def)
  have data: "concat (vendor_data 0x0050f204 ?is) = [1, 2, 3]" by code_simp
  have "length (concat (map emit_ie ?is)) < 2147483648" unfolding len by simp
  from vendor_ie_concat_content [OF ok this, of "0x0050f204"] show ?thesis unfolding len data by blast
qed

text \<open>
  On a sequence of elements \<^verbatim>\<open>ieee802_11_ie_count\<close> returns their number.
\<close>

theorem ie_count_items:
  assumes "list_all ie_ok is"
  shows "ieee802_11_ie_count (Some (concat (map emit_ie is))) (length (concat (map emit_ie is))) = Some (length is)"
proof -
  let ?b = "concat (map emit_ie is)"
  have "ie_codec.decode_all (length is) (take (length ?b - 0) (drop 0 ?b)) = Some is"
    using ie_codec.decode_all_emit [OF assms le_refl] by simp
  then have "count_loop ?b (length ?b) 0 0 = Some (0 + length is)" by (intro count_loop_decode) simp_all
  then show ?thesis by (simp add: ieee802_11_ie_count_def)
qed

theorem ie_count_items_witness:
  "ieee802_11_ie_count (Some [0, 1, 65, 48, 0, 50, 2, 7, 7]) (length [0, 1, 65, 48, 0, 50, 2, 7, 7 :: u8]) = Some 3"
  using ie_count_items [of "[(0, [65]), (48, []), (50, [7, 7])]"]
  by (simp add: ie_ok_def emit_ie_def numeral_3_eq_3)

end
