(* ===== verification/Spec2Isabelle.thy ===== *)
theory Spec2Isabelle
  imports MjpgStreamer HttpdErrors HttpdStream CommonUtils WpaAuthDemo ZServer Wpabuf Eloop EapolAuth Ieee8021x PmksaCache Ieee80211Elems Base64
begin

text \<open>
  \<^bold>\<open>What the program is.\<close> The repository is the software of a remote-controlled camera platform on
  a Raspberry Pi. \<^verbatim>\<open>z_service\<close> is a TCP server that passes text commands to a micro-controller on the
  I2C bus; \<^verbatim>\<open>wpa_supplicant_hostapd-0.8_rtw_r7475.20130812\<close> is the access point the platform opens
  (the Pi runs \<^verbatim>\<open>hostapd\<close>); \<^verbatim>\<open>mjpg-streamer\<close> sends the camera picture over HTTP. The development models the
  command server, the parts of hostapd that decide who gets on the network, and the HTTP server, which is
  what the network reaches of the platform. Below, \<^verbatim>\<open>src/...\<close> is relative to the hostapd tree and
  \<^verbatim>\<open>httpd.c\<close>, \<^verbatim>\<open>httpd.h\<close> are those of \<^verbatim>\<open>mjpg-streamer-experimental/plugins/output_http\<close>.

  \<^bold>\<open>The theories.\<close>

  \<^item> \<open>Prelude\<close>: the integer types of \<^verbatim>\<open>src/utils/common.h\<close>, the accessors \<^verbatim>\<open>WPA_GET_*\<close> and
    \<^verbatim>\<open>WPA_PUT_*\<close>, and two locales of contracts: \<open>machine\<close> (an invariant every step keeps is kept by
    every run) and \<open>tlv_codec\<close> (a self-delimiting item encoding gives a decoder of sequences).
  \<^item> \<open>ZServer\<close>: \<^verbatim>\<open>z_service/src/z_server.c\<close>, from the start-up commands through accept, receive,
    command processing and disconnect. State \<open>zstate\<close>: the array \<^verbatim>\<open>cmd\<close>, the offset \<^verbatim>\<open>j\<close>, the bus
    input, and a log of what is written. What the C code leaves undefined is a \<open>zfault\<close>.
  \<^item> \<open>Wpabuf\<close>: \<^verbatim>\<open>src/utils/wpabuf.c\<close> and \<^verbatim>\<open>.h\<close>, the byte buffers. The locale \<open>byte_sink\<close> is the contract
    (an append-only byte string with a bounded room); \<open>wpabuf_sink\<close> interprets it.
  \<^item> \<open>Eloop\<close>: \<^verbatim>\<open>src/utils/eloop.c\<close>, timers, sockets and signals. The locale \<open>timer_service\<close> is what
    clients of the timers rely on; \<open>eloop_timers\<close> interprets it.
  \<^item> \<open>EapolAuth\<close>: \<^verbatim>\<open>src/eapol_auth/eapol_auth_sm.c\<close>, the six state machines of IEEE 802.1X. One
    definition per \<^verbatim>\<open>SM_STATE\<close> and per \<^verbatim>\<open>SM_STEP\<close>; the record \<open>eapol_state_machine\<close> is the structure of
    \<^verbatim>\<open>eapol_auth_sm_i.h\<close>; callbacks are logged in order.
  \<^item> \<open>Ieee8021x\<close>: the part of \<^verbatim>\<open>src/ap/ieee802_1x.c\<close> that feeds these machines: received EAPOL frames,
    associating stations, notifications. The locale \<open>station_invariant\<close> says when a property of the
    machines is kept by everything a station can cause; it is interpreted twice.
  \<^item> \<open>PmksaCache\<close>: \<^verbatim>\<open>src/ap/pmksa_cache_auth.c\<close>, the cache of pairwise master keys with its two linked
    structures.
  \<^item> \<open>Ieee80211Elems\<close>: \<^verbatim>\<open>src/common/ieee802_11_common.c\<close>, the parser of information elements, which reads
    bytes chosen by whoever is in radio range. \<open>ie_codec\<close> interprets \<open>tlv_codec\<close>.
  \<^item> \<open>Base64\<close>: \<^verbatim>\<open>src/utils/base64.c\<close>.
  \<^item> \<open>CommonUtils\<close>: \<^verbatim>\<open>src/utils/common.c\<close>, hexadecimal text, the notations of hardware addresses, byte
    array counters, the NTP time stamp.
  \<^item> \<open>RsnIe\<close>: the WPA and RSN elements: the parsers of \<^verbatim>\<open>src/common/wpa_common.c\<close> and the writers of
    \<^verbatim>\<open>src/ap/wpa_auth_ie.c\<close>.
  \<^item> \<open>WpaEapol\<close>: EAPOL-Key frames, the pairwise key derivation, the MIC, and the parser of key data. The
    cryptographic primitives are the record \<open>wpa_crypto\<close>.
  \<^item> \<open>WpaAuth\<close>: \<^verbatim>\<open>src/ap/wpa_auth.c\<close>, the state of the authenticator (\<open>wpa_world\<close>: the stations, the groups,
    what was asked of and told to the outside), one definition per \<^verbatim>\<open>SM_STATE\<close> and \<^verbatim>\<open>SM_STEP\<close> of the two
    machines of a station and of the group machine, and the step loop with its nested calls.
  \<^item> \<open>WpaAuthIe\<close>: \<^verbatim>\<open>wpa_validate_wpa_ie\<close>, what a station may associate with.
  \<^item> \<open>WpaAuthApi\<close>: reception of EAPOL-Key frames, timeouts, events, set-up, with
    \<^verbatim>\<open>src/ap/tkip_countermeasures.c\<close>.
  \<^item> \<open>WpaAuthSteps\<close>: the frame lemmas of these operations and the locale \<open>sm_invariant\<close>, the contract of an
    invariant of the step loop. \<open>WpaAuthHistory\<close> (the log only grows) and \<open>WpaAuthSafe\<close> (a key is only valid
    once a frame has proved it) interpret it.
  \<^item> \<open>WpaAuthCtl\<close>: what each state does to the control fields of its station. \<open>WpaAuthRun\<close>: the end of a
    step loop, the calls from outside (\<open>wpa_input\<close>), and the keys that reach the driver in any run.
  \<^item> \<open>WpaAuthEnds\<close>: the step loop ends: a rank of the groups and a rank of the control fields of a station that
    every transition lowers; every call returns.
  \<^item> \<open>WpaAuthDemo\<close>: the model evaluated on one association and four-way handshake.
  \<^item> \<open>HttpText\<close>: the string functions of \<^verbatim>\<open>httpd.c\<close>, among them the decoders \<open>decodeBase64\<close> and \<open>unescape\<close>,
    which overwrite the memory they are reading.
  \<^item> \<open>HttpIo\<close>: \<^verbatim>\<open>_read\<close> and \<^verbatim>\<open>_readline\<close> on an \<open>iobuffer\<close>. The locale \<open>input_reader\<close> is the contract of a reader
    that gives one unit of the input after the other, however it arrives; \<open>http_lines\<close> interprets it.
  \<^item> \<open>HttpReply\<close>: \<^verbatim>\<open>send_error\<close>, \<^verbatim>\<open>send_snapshot\<close>, \<^verbatim>\<open>send_stream\<close>, \<^verbatim>\<open>send_file\<close>, \<^verbatim>\<open>execute_cgi\<close> and \<^verbatim>\<open>command\<close>, on
    the state \<open>http_client\<close> of one connection with the log of all it does. \<open>HttpJson\<close>: the three
    descriptions of the plugins.
  \<^item> \<open>Httpd\<close>: \<^verbatim>\<open>client_thread\<close>, from the request line to the close of the connection.
  \<^item> \<open>HttpdPolicy\<close>: the locale \<open>thread_policy\<close>. A property of single effects that every reply respects holds of
    everything a connection does. \<open>HttpdSafe\<close> interprets it five times (files, commands, buffers, the
    close, any effect) and proves what requests can reach, and where the code fails to keep them out.
  \<^item> \<open>HttpdErrors\<close>: the types of requests and the answers to bad ones. \<open>HttpdStream\<close>: a reader of the picture
    stream, by \<open>tlv_codec\<close>. \<open>HttpdDemo\<close>: requests evaluated.

  \<^item> \<open>StreamerOptions\<close>: how a text becomes the options of a plugin (\<^verbatim>\<open>split_parameters\<close>, \<^verbatim>\<open>getopt_long_only\<close>).
    \<open>HttpdServer\<close>: \<^verbatim>\<open>output_init\<close> and \<^verbatim>\<open>server_thread\<close>; the accept loop and the threads it starts are a machine
    whose steps come in any order (\<open>server_step\<close>), an interpretation of \<open>machine\<close>. \<open>MjpgStreamer\<close>:
    \<^verbatim>\<open>mjpg_streamer.c\<close>, from the command line over the start of the plugins to the signal handler, and what the
    options of the command line mean for the connections in the end.

  \<^bold>\<open>How the parts interact.\<close> \<open>Ieee8021x\<close> runs \<open>EapolAuth\<close> on the record of a station and reads the PMKSA
  the station has from the cache of \<open>PmksaCache\<close>; both are driven by the timers of \<open>Eloop\<close>; \<open>WpaAuth\<close> takes
  its cached keys from \<open>PmksaCache\<close>, its elements from \<open>RsnIe\<close> and tells \<open>EapolAuth\<close> through the port
  variables; frames and messages are \<open>Wpabuf\<close> buffers; \<open>Ieee80211Elems\<close> collects vendor elements into such a buffer. The HTTP server
  shares with hostapd only the network it is reached over; that its base64 decoder inverts hostapd's
  encoder is a lemma about both. Code that
  is not modelled and that these parts call is an argument of the definitions: the EAP server
  (\<open>eap_step\<close>), the PMKID derivation (\<open>kd\<close>), the callback that says whether a station is still
  known (\<open>alive\<close>), allocation (\<open>mem\<close>, \<open>new\<close>), the random source, the cryptographic
  functions and the driver's answers (\<open>wpa_env\<close>), the clock, \<^verbatim>\<open>select\<close>, and the handlers of the event loop; for
  the HTTP server (\<open>http_env\<close>) the other plugins with their commands (each has one), the pictures an input
  delivers while a connection waits, the files, what scripts print, and the memory after an unterminated
  string.

  \<^bold>\<open>What the lemmas show.\<close> For each part: an invariant that every operation keeps (\<open>zinv\<close>, \<open>wpabuf_ok\<close>,
  \<open>eloop_inv\<close>, \<open>port_inv\<close>, \<open>closed_inv\<close>, \<open>cache_inv\<close>), the functional behaviour of the operations with
  their error paths, and the property the part exists for: no port is opened without a verdict of
  the EAP server or a cached key; the element parser accepts exactly the element sequences and
  never reads outside the frame; a pairwise key only reaches the driver after the station has proved twice
  that it knows it, and no call to the authenticator hangs; timers run in time order and only when due; lookups in the key
  cache are complete; a buffer is never written outside its memory; decoding inverts encoding.
  For the HTTP server: with credentials configured nothing is given or done before they were sent; no
  request reaches a file outside the configured folder, or a command where commands are disabled;
  every connection is handed to one thread and closed exactly once; replies fit their buffers; lines are put together whatever the
  segments; a stream can be read back.
  Where the code does not do what it means to, the exact behaviour is proved.

  \<^bold>\<open>Bounds and fuel.\<close> A \<^verbatim>\<open>size_t\<close> is 32 bits wide, as on the Pi, and its sums wrap (\<open>szadd\<close>); signed
  results are cut to 32 bits by \<open>s32\<close>. \<open>step_loop\<close> has the bound of 100 passes the code has.
  \<^verbatim>\<open>eloop_run\<close> takes the list of what the outside supplies in each turn. The loops over frames
  recurse on the bytes that are left. The loop of \<^verbatim>\<open>pmksa_cache_get_okc\<close> need not end; it is a
  \<open>partial_function (option)\<close>, and when it ends is a theorem. The step loop of \<open>WpaAuth\<close> takes fuel
  (\<open>step_fuel\<close>: 200 passes for each move the groups have left and 200 more), and \<open>None\<close> stands for fuel that
  has run out; \<open>WpaAuthEnds\<close> proves that it never does.

  \<^bold>\<open>Not modelled.\<close> 802.11r, 802.11w and PeerKey (not in the deployed build), the station table and the management
  frames of \<^verbatim>\<open>sta_info.c\<close> and \<^verbatim>\<open>ieee802_11.c\<close> (the deployed driver answers these frames itself), RADIUS, WPS, P2P, the EAP methods,
  TLS and the other cryptography, the drivers, the configuration parser, the supplicant side; of the
  streamer the camera plugins and the other outputs, and the variants \<^verbatim>\<open>MANAGMENT\<close> and \<^verbatim>\<open>WXP_COMPAT\<close>, which are
  not built; the Android viewer and the micro-controller's program; in the modelled files debug
  output, memory tracing and the dump and logging functions.
\<close>

end
